(* ===== verification/Ilic_Prelude.thy ===== *)
theory Ilic_Prelude
  imports Main "HOL-Library.Word" "HOL-Library.Char_ord" "HOL-Library.List_Lexorder"
begin

section \<open>Shared types, ordered maps and counters\<close>

text \<open>
  The part of the C++ standard library that the components share.
  \<^item> \<open>std::string\<close> is a list of bytes (\<^typ>\<open>string\<close>), ordered lexicographically by byte
    value as \<open>std::string::operator<\<close> orders it.
  \<^item> \<open>std::uint64_t\<close> counters are \<open>64 word\<close>, with the wrap-around of \<open>++\<close>.
  \<^item> \<open>std::size_t\<close> values count bytes and elements of objects in memory and are \<^typ>\<open>nat\<close>.
  \<^item> \<open>std::map\<close> is an association list in strictly ascending key order
    (\<open>omap\<close>), because the code iterates over its maps and the order is observable.
  \<^item> \<open>std::sort\<close> followed by \<open>std::unique\<close> is \<open>sorted_unique\<close>.
\<close>

type_synonym u64 = "64 word"
type_synonym u32 = "32 word"
type_synonym ('k, 'v) omap = "('k \<times> 'v) list"

named_theorems omap_simps \<open>equations for lookups, keys and weights of ordered maps\<close>
named_theorems omap_intros \<open>well-formedness of the results of map operations\<close>

subsection \<open>Ordered maps\<close>

fun assign :: "'k::linorder \<Rightarrow> 'v \<Rightarrow> ('k, 'v) omap \<Rightarrow> ('k, 'v) omap" where
  "assign k v [] = [(k, v)]"
| "assign k v (e # m) =
     (if fst e < k then e # assign k v m
      else if k < fst e then (k, v) # e # m
      else (k, v) # m)"

definition erase :: "'k \<Rightarrow> ('k, 'v) omap \<Rightarrow> ('k, 'v) omap" where
  "erase k m = filter (\<lambda>e. fst e \<noteq> k) m"

definition omap_wf :: "('k::linorder, 'v) omap \<Rightarrow> bool" where
  "omap_wf m \<longleftrightarrow> sorted_wrt (<) (map fst m)"

definition weight_of :: "('v \<Rightarrow> nat) \<Rightarrow> ('k, 'v) omap \<Rightarrow> nat" where
  "weight_of w m = (\<Sum>e\<leftarrow>m. w (snd e))"

lemma omap_wf_Nil [simp, omap_intros]: "omap_wf []"
  by (simp add: omap_wf_def)

lemma omap_wf_Cons:
  "omap_wf (e # m) \<longleftrightarrow> omap_wf m \<and> (\<forall>x \<in> set m. fst e < fst x)"
  by (auto simp: omap_wf_def)

lemma omap_wf_distinct: "omap_wf m \<Longrightarrow> distinct (map fst m)"
  unfolding omap_wf_def by (induction m) auto

lemma lookup_assign [simp, omap_simps]: "map_of (assign k v m) = (map_of m)(k \<mapsto> v)"
proof (induction m)
  case Nil
  then show ?case by simp
next
  case (Cons e m)
  then show ?case by (cases e) (auto simp: fun_eq_iff)
qed

lemma lookup_erase [simp, omap_simps]: "map_of (erase k m) = (map_of m)(k := None)"
  by (induction m) (auto simp: erase_def fun_eq_iff)

lemma keys_assign [simp, omap_simps]: "fst ` set (assign k v m) = insert k (fst ` set m)"
  by (induction m) auto

lemma keys_erase [simp, omap_simps]: "fst ` set (erase k m) = fst ` set m - {k}"
  by (auto simp: erase_def)

lemma set_erase: "set (erase k m) = {e \<in> set m. fst e \<noteq> k}"
  by (auto simp: erase_def)

lemma set_assign_subset: "set (assign k v m) \<subseteq> insert (k, v) (set m)"
  by (induction m) auto

lemma omap_wf_assign [simp, omap_intros]: "omap_wf m \<Longrightarrow> omap_wf (assign k v m)"
proof (induction m)
  case Nil
  then show ?case by (simp add: omap_wf_def)
next
  case (Cons e m)
  have sub: "x \<in> set (assign k v m) \<Longrightarrow> x = (k, v) \<or> x \<in> set m" for x
    using set_assign_subset by fastforce
  from Cons show ?case
    by (auto simp: omap_wf_Cons dest!: sub)
qed

lemma omap_wf_filter [simp, omap_intros]: "omap_wf m \<Longrightarrow> omap_wf (filter P m)"
  by (induction m) (auto simp: omap_wf_Cons)

lemma omap_wf_erase [simp, omap_intros]: "omap_wf m \<Longrightarrow> omap_wf (erase k m)"
  by (simp add: erase_def)

lemma lookup_in_set: "map_of m k = Some v \<Longrightarrow> (k, v) \<in> set m"
  by (rule map_of_SomeD)

lemma lookup_iff_in_set: "omap_wf m \<Longrightarrow> map_of m k = Some v \<longleftrightarrow> (k, v) \<in> set m"
  using map_of_eq_Some_iff [OF omap_wf_distinct] .

lemma omap_wf_unique: "omap_wf m \<Longrightarrow> x \<in> set m \<Longrightarrow> y \<in> set m \<Longrightarrow> fst x = fst y \<Longrightarrow> x = y"
  by (metis lookup_iff_in_set option.inject prod.collapse)

lemma omap_wf_key_filter:
  assumes "omap_wf m" and "x \<in> set m"
  shows "fst x \<in> set (map fst (filter P m)) \<longleftrightarrow> P x"
proof
  assume "fst x \<in> set (map fst (filter P m))"
  then obtain y where "y \<in> set m" "P y" "fst y = fst x" by auto
  then show "P x" using omap_wf_unique [OF assms(1) _ assms(2)] by blast
qed (use assms(2) in simp)

lemma erase_absent: "k \<notin> fst ` set m \<Longrightarrow> erase k m = m"
  unfolding erase_def by (rule filter_True) force

lemma lookup_None_iff: "map_of m k = None \<longleftrightarrow> k \<notin> fst ` set m"
  by (rule map_of_eq_None_iff)

lemma erase_None: "map_of m k = None \<Longrightarrow> erase k m = m"
  by (simp add: erase_absent lookup_None_iff)

lemma erase_length:
  "omap_wf m \<Longrightarrow> map_of m k = Some v \<Longrightarrow> length m = Suc (length (erase k m))"
proof (induction m)
  case (Cons e m)
  show ?case
  proof (cases "fst e = k")
    case True
    with Cons.prems have "erase k m = m"
      by (intro erase_absent) (auto simp: omap_wf_Cons)
    with True show ?thesis by (simp add: erase_def)
  next
    case False
    with Cons show ?thesis
      by (cases e) (auto simp: omap_wf_Cons erase_def)
  qed
qed simp

lemma omap_wf_length_mono: "omap_wf m \<Longrightarrow> set m \<subseteq> set n \<Longrightarrow> length m \<le> length n"
  using card_mono [of "set n" "set m"] card_length [of n] distinct_card [of m]
  by (metis List.finite_set distinct_map omap_wf_distinct order_trans)

lemma assign_fresh_length: "k \<notin> fst ` set m \<Longrightarrow> length (assign k v m) = Suc (length m)"
  by (induction m) auto

lemma weight_of_Nil [simp]: "weight_of w [] = 0"
  by (simp add: weight_of_def)

lemma weight_of_Cons [simp]: "weight_of w (e # m) = w (snd e) + weight_of w m"
  by (simp add: weight_of_def)

lemma weight_of_assign_fresh:
  "k \<notin> fst ` set m \<Longrightarrow> weight_of w (assign k v m) = w v + weight_of w m"
  by (induction m) auto

lemma weight_of_erase:
  "omap_wf m \<Longrightarrow> map_of m k = Some v \<Longrightarrow> weight_of w m = w v + weight_of w (erase k m)"
proof (induction m)
  case (Cons e m)
  show ?case
  proof (cases "fst e = k")
    case True
    with Cons.prems have "erase k m = m"
      by (intro erase_absent) (auto simp: omap_wf_Cons)
    with True Cons.prems show ?thesis by (cases e) (auto simp: erase_def)
  next
    case False
    with Cons show ?thesis
      by (cases e) (auto simp: omap_wf_Cons erase_def)
  qed
qed simp

lemma erase_assign [simp]: "erase k (assign k v m) = erase k m"
  by (induction m) (auto simp: erase_def)

lemma weight_of_assign:
  "omap_wf m \<Longrightarrow> weight_of w (assign k v m) = w v + weight_of w (erase k m)"
  using weight_of_erase [of "assign k v m" k v w] by simp

lemma assign_present_length:
  "omap_wf m \<Longrightarrow> map_of m k = Some u \<Longrightarrow> length (assign k v m) = length m"
  using erase_length [of "assign k v m" k v] erase_length [of m k u] by simp

lemma weight_of_member_le: "e \<in> set m \<Longrightarrow> w (snd e) \<le> weight_of w m"
  by (induction m) auto

lemma weight_of_eq_0: "weight_of w m > 0 \<Longrightarrow> m \<noteq> []"
  by auto

subsection \<open>Extensionality of ordered maps\<close>

lemma omap_ext:
  assumes "omap_wf m" and "omap_wf n" and "map_of m = map_of n"
  shows "m = n"
proof -
  have eq: "set m = set n"
    using assms by (metis lookup_iff_in_set surj_pair subsetI subset_antisym)
  have dist: "distinct (map fst m)" "distinct (map fst n)"
    using assms(1,2) by (simp_all add: omap_wf_distinct)
  have "sorted (map fst m)" "sorted (map fst n)"
    using assms(1,2) by (auto simp: omap_wf_def strict_sorted_iff)
  moreover have "inj_on fst (set m \<union> set n)"
    using dist(1) eq by (simp add: distinct_map)
  ultimately show ?thesis
    using map_sorted_distinct_set_unique [of fst m n] dist eq by blast
qed

subsection \<open>Sorting with duplicates removed\<close>

lemma remdups_adj_sorted_distinct: "sorted xs \<Longrightarrow> distinct (remdups_adj xs)"
  by (induction xs rule: remdups_adj.induct) (auto simp: order_le_less)

definition sorted_unique :: "'a::linorder list \<Rightarrow> 'a list" where
  "sorted_unique xs = remdups_adj (sort xs)"

lemma set_sorted_unique [simp]: "set (sorted_unique xs) = set xs"
  by (simp add: sorted_unique_def)

lemma strict_sorted_unique: "sorted_wrt (<) (sorted_unique xs)"
proof -
  have "sorted (sorted_unique xs)"
    by (simp add: sorted_unique_def sorted_remdups_adj)
  moreover have "distinct (sorted_unique xs)"
    by (simp add: sorted_unique_def remdups_adj_sorted_distinct)
  ultimately show ?thesis by (simp add: strict_sorted_iff)
qed

lemma distinct_sorted_unique [simp]: "distinct (sorted_unique xs)"
  using strict_sorted_unique [of xs] by (simp add: strict_sorted_iff)

lemma strict_sorted_set_eq:
  "sorted_wrt (<) xs \<Longrightarrow> sorted_wrt (<) ys \<Longrightarrow> set xs = set ys \<Longrightarrow> xs = (ys :: 'a::linorder list)"
  by (metis strict_sorted_equal)

lemma sorted_unique_idem: "sorted_wrt (<) xs \<Longrightarrow> sorted_unique xs = xs"
  by (rule strict_sorted_set_eq [OF strict_sorted_unique]) simp_all

lemma sorted_unique_cong: "set xs = set ys \<Longrightarrow> sorted_unique xs = sorted_unique ys"
  by (rule strict_sorted_set_eq [OF strict_sorted_unique strict_sorted_unique]) simp

subsection \<open>64-bit counters\<close>

lemma inc_unat: "n \<noteq> - 1 \<Longrightarrow> unat (n + 1 :: u64) = Suc (unat n)"
proof -
  assume "n \<noteq> - 1"
  then have "1 + n \<noteq> 0"
    by (metis add.commute add_eq_0_iff)
  then show ?thesis
    using unatSuc [of n] by (simp add: add.commute)
qed

lemma inc_greater: "n \<noteq> - 1 \<Longrightarrow> n < (n + 1 :: u64)"
  by (simp add: word_less_nat_alt inc_unat)

lemma inc_greater_le: "n \<noteq> - 1 \<Longrightarrow> m \<le> n \<Longrightarrow> m < (n + 1 :: u64)"
  using inc_greater order_le_less_trans by blast

lemma unat_max_u64: "unat (- 1 :: u64) = 2 ^ 64 - 1"
  by (simp add: unsigned_minus_1_eq_mask mask_eq_exp_minus_1)

subsection \<open>Stable sorting by a comparator\<close>

text \<open>
  \<open>std::stable_sort\<close> with a strict weak order: an element is placed before the first element that
  is not less than it, and elements are taken from the right, so that equivalent elements keep
  their order.
\<close>

fun stable_insert :: "('a \<Rightarrow> 'a \<Rightarrow> bool) \<Rightarrow> 'a \<Rightarrow> 'a list \<Rightarrow> 'a list" where
  "stable_insert lt x [] = [x]"
| "stable_insert lt x (y # ys) = (if lt y x then y # stable_insert lt x ys else x # y # ys)"

definition stable_sort :: "('a \<Rightarrow> 'a \<Rightarrow> bool) \<Rightarrow> 'a list \<Rightarrow> 'a list" where
  "stable_sort lt xs = foldr (stable_insert lt) xs []"

lemma set_stable_insert [simp]: "set (stable_insert lt x ys) = insert x (set ys)"
  by (induction ys) auto

lemma set_stable_sort [simp]: "set (stable_sort lt xs) = set xs"
  by (induction xs) (simp_all add: stable_sort_def)

lemma length_stable_insert [simp]: "length (stable_insert lt x ys) = Suc (length ys)"
  by (induction ys) auto

lemma length_stable_sort [simp]: "length (stable_sort lt xs) = length xs"
  by (induction xs) (simp_all add: stable_sort_def)

lemma stable_sort_key:
  fixes key :: "'a \<Rightarrow> 'b::linorder"
  assumes "\<And>a b. lt a b \<longleftrightarrow> key a < key b"
  shows "stable_sort lt xs = sort_key key xs"
proof -
  have "stable_insert lt x ys = insort_key key x ys" for x ys
    by (induction ys) (auto simp: assms)
  then show ?thesis by (simp add: stable_sort_def sort_key_def fun_eq_iff cong: foldr_cong)
qed

end
