(* ===== verification/Ilic_Text.thy ===== *)
theory Ilic_Text
  imports Ilic_Prelude
begin

unbundle bit_operations_syntax

section \<open>Text primitives\<close>

text \<open>
  The string routines of the standard library that several components call: decimal and
  hexadecimal output (\<open>std::to_string\<close>, \<open>operator<<\<close>, \<open>std::hex\<close> with
  \<open>setw\<close> and \<open>setfill('0')\<close>), the \<open><cctype>\<close> predicates of the "C" locale,
  searching (\<open>find\<close>, \<open>find_first_of\<close>), and the FNV-1a content hash that
  SourceManager.cpp, CompilationKeys.cpp and IncrementalFingerprint.cpp each define.
  The main facts are that a decimal number followed by a non-digit can be read back
  uniquely and that hexadecimal output has fixed width; both make composite keys injective.
\<close>

subsection \<open>Characters\<close>

abbreviation byte_of :: "char \<Rightarrow> nat" where
  "byte_of c \<equiv> of_char c"

definition is_digit :: "char \<Rightarrow> bool" where
  "is_digit c \<longleftrightarrow> 48 \<le> byte_of c \<and> byte_of c \<le> 57"

definition is_lower :: "char \<Rightarrow> bool" where
  "is_lower c \<longleftrightarrow> 97 \<le> byte_of c \<and> byte_of c \<le> 122"

definition is_upper :: "char \<Rightarrow> bool" where
  "is_upper c \<longleftrightarrow> 65 \<le> byte_of c \<and> byte_of c \<le> 90"

definition is_alpha :: "char \<Rightarrow> bool" where
  "is_alpha c \<longleftrightarrow> is_lower c \<or> is_upper c"

definition is_alnum :: "char \<Rightarrow> bool" where
  "is_alnum c \<longleftrightarrow> is_alpha c \<or> is_digit c"

definition is_space :: "char \<Rightarrow> bool" where
  "is_space c \<longleftrightarrow> byte_of c = 32 \<or> (9 \<le> byte_of c \<and> byte_of c \<le> 13)"

definition to_lower :: "char \<Rightarrow> char" where
  "to_lower c = (if is_upper c then char_of (byte_of c + 32) else c)"

definition lower :: "string \<Rightarrow> string" where
  "lower s = map to_lower s"

lemma to_lower_idem [simp]: "to_lower (to_lower c) = to_lower c"
proof (cases "is_upper c")
  case True
  then have "byte_of (char_of (byte_of c + 32) :: char) = byte_of c + 32"
    by (simp add: is_upper_def)
  then show ?thesis
    using True by (simp add: to_lower_def is_upper_def)
qed (simp add: to_lower_def)

lemma lower_idem [simp]: "lower (lower s) = lower s"
  by (simp add: lower_def)

subsection \<open>Decimal output\<close>

definition digit_char :: "nat \<Rightarrow> char" where
  "digit_char d = char_of (48 + d)"

fun dec :: "nat \<Rightarrow> string" where
  "dec n = (if n < 10 then [digit_char n] else dec (n div 10) @ [digit_char (n mod 10)])"

declare dec.simps [simp del]

fun undec :: "nat \<Rightarrow> string \<Rightarrow> nat" where
  "undec acc [] = acc"
| "undec acc (c # s) = undec (10 * acc + (byte_of c - 48)) s"

lemma byte_of_digit_char [simp]: "d < 10 \<Longrightarrow> byte_of (digit_char d) = 48 + d"
  by (simp add: digit_char_def)

lemma is_digit_digit_char [simp]: "d < 10 \<Longrightarrow> is_digit (digit_char d)"
  by (simp add: is_digit_def)

lemma dec_digits: "\<forall>c \<in> set (dec n). is_digit c"
proof (induction n rule: dec.induct)
  case (1 n)
  then show ?case by (subst dec.simps) auto
qed

lemma dec_nonempty [simp]: "dec n \<noteq> []"
  by (subst dec.simps) simp

definition int_text :: "int \<Rightarrow> string" where
  "int_text i = (if i < 0 then ''-'' @ dec (nat (- i)) else dec (nat i))"

lemma undec_append: "undec acc (s @ t) = undec (undec acc s) t"
  by (induction s arbitrary: acc) auto

lemma undec_dec: "undec 0 (dec n) = n"
proof (induction n rule: dec.induct)
  case (1 n)
  show ?case
  proof (cases "n < 10")
    case True
    then show ?thesis by (simp add: dec.simps [of n])
  next
    case False
    with 1 show ?thesis by (simp add: dec.simps [of n] undec_append)
  qed
qed

lemma dec_inj [simp]: "dec m = dec n \<longleftrightarrow> m = n"
  by (metis undec_dec)

lemma prefix_by_predicate:
  assumes "xs @ c # u = ys @ d # v"
    and "\<forall>x \<in> set xs. P x" and "\<forall>y \<in> set ys. P y" and "\<not> P c" and "\<not> P d"
  shows "xs = ys \<and> c = d \<and> u = v"
  using assms
proof (induction xs arbitrary: ys)
  case Nil
  then show ?case by (cases ys) auto
next
  case (Cons x xs)
  then show ?case by (cases ys) auto
qed

lemma dec_delimited:
  assumes "dec m @ c # u = dec n @ d # v" and "\<not> is_digit c" and "\<not> is_digit d"
  shows "m = n \<and> c = d \<and> u = v"
  using prefix_by_predicate [OF assms(1), of is_digit] dec_digits assms(2,3) by auto

subsection \<open>Length-prefixed fields\<close>

definition netstring :: "string \<Rightarrow> string" where
  "netstring s = dec (length s) @ CHR '':'' # s"

lemma colon_not_digit [simp]: "\<not> is_digit CHR '':''"
  by (simp add: is_digit_def)

lemma netstring_delimited:
  assumes "netstring s @ u = netstring t @ v"
  shows "s = t \<and> u = v"
proof -
  have "dec (length s) @ CHR '':'' # (s @ u) = dec (length t) @ CHR '':'' # (t @ v)"
    using assms by (simp add: netstring_def)
  from dec_delimited [OF this] show ?thesis by auto
qed

lemma netstring_field [simp]: "netstring s @ u = netstring t @ v \<longleftrightarrow> s = t \<and> u = v"
  using netstring_delimited by blast

lemma dec_field [simp]: "\<not> is_digit c \<Longrightarrow> dec m @ c # u = dec n @ c # v \<longleftrightarrow> m = n \<and> u = v"
  using dec_delimited by blast

lemma separators_not_digits [simp]:
  "\<not> is_digit CHR ''|''" "\<not> is_digit CHR '';''" "\<not> is_digit CHR 0x2C" "\<not> is_digit CHR ''.''"
  by (simp_all add: is_digit_def)

lemma netstring_inj [simp]: "netstring s = netstring t \<longleftrightarrow> s = t"
  using netstring_delimited [of s "[]" t "[]"] by auto

lemma netstring_starts_with_digit: "\<exists>c r. netstring s = c # r \<and> is_digit c"
proof -
  obtain c r where cr: "dec (length s) = c # r"
    using dec_nonempty [of "length s"] by (cases "dec (length s)") blast+
  have "is_digit c" using dec_digits [of "length s"] cr by simp
  then show ?thesis using cr by (simp add: netstring_def)
qed

subsection \<open>Hexadecimal output\<close>

definition hex_digit :: "nat \<Rightarrow> char" where
  "hex_digit d = (if d < 10 then char_of (48 + d) else char_of (87 + d))"

fun hex_of :: "nat \<Rightarrow> nat \<Rightarrow> string" where
  "hex_of 0 n = []"
| "hex_of (Suc w) n = hex_of w (n div 16) @ [hex_digit (n mod 16)]"

text \<open>Sixteen digits are the width that \<open>std::setw(16)\<close> fills, and the widest output of
  a 64-bit value.\<close>

definition hex16 :: "u64 \<Rightarrow> string" where
  "hex16 w = hex_of 16 (unat w)"

lemma length_hex_of [simp]: "length (hex_of w n) = w"
  by (induction w arbitrary: n) auto

lemma length_hex16 [simp]: "length (hex16 w) = 16"
  by (simp add: hex16_def)

lemma hex_digit_inj: "a < 16 \<Longrightarrow> b < 16 \<Longrightarrow> hex_digit a = hex_digit b \<longleftrightarrow> a = b"
proof -
  assume "a < 16" and "b < 16"
  have byte: "byte_of (hex_digit x) = (if x < 10 then 48 + x else 87 + x)" if "x < 16" for x
    using that by (simp add: hex_digit_def)
  show ?thesis
  proof
    assume "hex_digit a = hex_digit b"
    then have "byte_of (hex_digit a) = byte_of (hex_digit b)" by simp
    then show "a = b"
      using \<open>a < 16\<close> \<open>b < 16\<close> by (simp add: byte split: if_splits)
  qed simp
qed

lemma hex_of_inj: "a < 16 ^ w \<Longrightarrow> b < 16 ^ w \<Longrightarrow> hex_of w a = hex_of w b \<Longrightarrow> a = b"
proof (induction w arbitrary: a b)
  case (Suc w)
  have "a div 16 < 16 ^ w" and "b div 16 < 16 ^ w"
    using Suc.prems(1,2) by (simp_all add: less_mult_imp_div_less mult.commute)
  then have "a div 16 = b div 16"
    using Suc.prems(3) by (intro Suc.IH) simp_all
  moreover have "a mod 16 = b mod 16"
    using Suc.prems(3) by (simp add: hex_digit_inj)
  ultimately show ?case by (metis div_mult_mod_eq)
qed simp

lemma hex16_inj [simp]: "hex16 a = hex16 b \<longleftrightarrow> a = b"
proof
  assume "hex16 a = hex16 b"
  moreover have "unat x < 16 ^ 16" for x :: u64
  proof -
    have "unat x < 2 ^ LENGTH(64)" by (rule unsigned_less)
    then show ?thesis by simp
  qed
  ultimately have "unat a = unat b"
    unfolding hex16_def by (intro hex_of_inj [of _ 16])
  then show "a = b" by (rule unsigned_word_eqI)
qed simp

subsection \<open>FNV-1a content hash\<close>

definition fnv_step :: "u64 \<Rightarrow> char \<Rightarrow> u64" where
  "fnv_step h c = (h XOR of_char c) * 1099511628211"

definition fnv1a :: "string \<Rightarrow> u64" where
  "fnv1a bytes = foldl fnv_step 1469598103934665603 bytes"

definition contentHash :: "string \<Rightarrow> string" where
  "contentHash bytes = hex16 (fnv1a bytes)"

lemma length_contentHash [simp]: "length (contentHash s) = 16"
  by (simp add: contentHash_def)

text \<open>One FNV-1a step is injective in the state: the multiplier is odd.\<close>

lemma fnv_prime_inverse: "(1099511628211 :: u64) * 14886173955864302971 = 1"
  by simp

lemma fnv_step_inj: "fnv_step h c = fnv_step h' c \<longleftrightarrow> h = h'"
proof
  assume "fnv_step h c = fnv_step h' c"
  then have "(h XOR of_char c) * 1099511628211 * 14886173955864302971
    = (h' XOR of_char c) * 1099511628211 * (14886173955864302971 :: u64)"
    by (simp add: fnv_step_def)
  then have "h XOR of_char c = h' XOR of_char c"
    by (simp only: mult.assoc fnv_prime_inverse mult_1_right)
  then have "(h XOR of_char c) XOR of_char c = (h' XOR of_char c) XOR of_char c"
    by simp
  then show "h = h'" by (simp add: xor.assoc)
qed simp

subsection \<open>Searching\<close>

fun starts_with :: "string \<Rightarrow> string \<Rightarrow> bool" where
  "starts_with [] s = True"
| "starts_with (p # ps) [] = False"
| "starts_with (p # ps) (c # s) = (p = c \<and> starts_with ps s)"

lemma starts_with_iff: "starts_with p s \<longleftrightarrow> (\<exists>t. s = p @ t)"
  by (induction p s rule: starts_with.induct) auto

text \<open>\<open>find_sub\<close> is \<open>std::string::find\<close>: the least offset of an occurrence.\<close>

fun find_sub :: "string \<Rightarrow> string \<Rightarrow> nat option" where
  "find_sub p [] = (if p = [] then Some 0 else None)"
| "find_sub p (c # s) =
     (if starts_with p (c # s) then Some 0 else map_option Suc (find_sub p s))"

definition contains_sub :: "string \<Rightarrow> string \<Rightarrow> bool" where
  "contains_sub p s \<longleftrightarrow> find_sub p s \<noteq> None"

lemma find_sub_Some: "find_sub p s = Some i \<Longrightarrow> i + length p \<le> length s \<and> starts_with p (drop i s)"
proof (induction p s arbitrary: i rule: find_sub.induct)
  case (2 p c s)
  then show ?case
    by (auto simp: starts_with_iff dest: arg_cong [of _ _ length] split: if_splits)
qed (auto split: if_splits)

text \<open>\<open>split_at\<close> cuts at the first character that satisfies the predicate, as
  \<open>find_first_of\<close> with \<open>substr\<close> does.\<close>

definition split_at :: "(char \<Rightarrow> bool) \<Rightarrow> string \<Rightarrow> string \<times> string" where
  "split_at P s = (takeWhile (\<lambda>c. \<not> P c) s, dropWhile (\<lambda>c. \<not> P c) s)"

lemma split_at_append: "fst (split_at P s) @ snd (split_at P s) = s"
  by (simp add: split_at_def)

text \<open>\<open>split_on d s\<close> is the list of parts that the \<open>while (start <= size)\<close> loops over
  \<open>value.find(d, start)\<close> visit: always at least one part.\<close>

fun split_on :: "char \<Rightarrow> string \<Rightarrow> string list" where
  "split_on d [] = [[]]"
| "split_on d (c # s) =
     (if c = d then [] # split_on d s
      else case split_on d s of [] \<Rightarrow> [[c]] | p # ps \<Rightarrow> (c # p) # ps)"

fun join_with :: "char \<Rightarrow> string list \<Rightarrow> string" where
  "join_with d [] = []"
| "join_with d [p] = p"
| "join_with d (p # q # ps) = p @ d # join_with d (q # ps)"

lemma split_on_nonempty [simp]: "split_on d s \<noteq> []"
  by (induction s) (auto split: list.splits)

lemma split_on_no_delim: "p \<in> set (split_on d s) \<Longrightarrow> d \<notin> set p"
  by (induction s arbitrary: p) (auto split: list.splits if_splits)

lemma join_with_Cons_char: "join_with d ((c # p) # ps) = c # join_with d (p # ps)"
  by (cases ps) simp_all

lemma join_with_Nil_Cons: "ps \<noteq> [] \<Longrightarrow> join_with d ([] # ps) = d # join_with d ps"
  by (cases ps) simp_all

lemma join_split [simp]: "join_with d (split_on d s) = s"
proof (induction s)
  case (Cons c s)
  then show ?case
    by (auto simp: join_with_Cons_char join_with_Nil_Cons split: list.splits)
qed simp

lemma split_on_pure: "d \<notin> set s \<Longrightarrow> split_on d s = [s]"
  by (induction s) auto

lemma split_on_append_delim: "split_on d (p @ d # s) = split_on d p @ split_on d s"
  by (induction p) (auto split: list.splits)

lemma split_join:
  "ps \<noteq> [] \<Longrightarrow> \<forall>p \<in> set ps. d \<notin> set p \<Longrightarrow> split_on d (join_with d ps) = ps"
proof (induction ps rule: induct_list012)
  case (3 p q ps)
  then show ?case by (simp add: split_on_append_delim split_on_pure)
qed (auto simp: split_on_pure)

end
