(* ===== verification/Diagnostic_Code.thy ===== *)
theory Diagnostic_Code
  imports Ilic_Text
begin

section \<open>The registry of compiler diagnostic codes\<close>

text \<open>
  source/util/DiagnosticCode.h and DiagnosticCode.cpp. An enumerator of DiagnosticId is named by
  its identifier; the enumeration and the table of definitions are written out in the order of
  the source. A DiagnosticId that no definition names makes diagnosticCode throw: that is
  \<open>None\<close> here.
\<close>

type_synonym DiagnosticId = string

definition DiagnosticId_first :: "DiagnosticId list" where
  "DiagnosticId_first = [
     ''AbiRequest'',
     ''AssociationDuplicateRole'',
     ''AssociationEndNameMismatch'',
     ''AssociationInvalidBaseKind'',
     ''AssociationAbstractRoleInConcrete'',
     ''AssociationAdditionalRoleInExtension'',
     ''AssociationAggregationBinary'',
     ''AssociationAttributeNameConflict'',
     ''AssociationRoleAccessNameConflict'',
     ''AssociationMultipleAggregationRoles'',
     ''AssociationMissingEndName'',
     ''AssociationRoleCount'',
     ''AssociationUnexpectedEndName'',
     ''AttributeCardinalityExtension'',
     ''AttributeBaseFinal'',
     ''AttributeBaseNotFound'',
     ''AttributeExtendedRequired'',
     ''AttributeDuplicate'',
     ''AttributeExtensionListOrdering'',
     ''AttributeExtensionNumericRange'',
     ''AttributeExtensionStructureTarget'',
     ''AttributeExtensionTextKind'',
     ''AttributeExtensionTextLength'',
     ''AttributeExtensionTransient'',
     ''AttributeIncompatibleExtension'',
     ''AttributeMandatoryExtensionRequired'',
     ''ClassExtendedRequired'',
     ''ClassAbstractInConcreteTopic'',
     ''ClassAbstractModelContextRequired'',
     ''ClassSpecializationConflict'',
     ''CompilerInternal'',
     ''CompilerUnsupportedType'',
     ''ConstraintDomainTargetUnsupported'',
     ''ConstraintExistenceTypeMismatch'',
     ''ConstraintGlobalUniqueMultivalueAttribute'',
     ''ConstraintGlobalUniqueMultivalueRole'',
     ''ConstraintSetOnStructure'',
     ''ConstraintUniqueBasketLocal'',
     ''EnumerationDuplicateElement'',
     ''EnumerationExtensionDuplicate'',
     ''EnumerationValueInvalid'',
     ''ExpressionBooleanRequired'',
     ''ExpressionComparisonTypeMismatch'',
     ''ExpressionLogicalRequired'',
     ''ExpressionNumericRequired'',
     ''ExpressionOrderingTypeMismatch'']"

definition DiagnosticId_second :: "DiagnosticId list" where
  "DiagnosticId_second = [
     ''FunctionContractedModelRequired'',
     ''FunctionDefinitionArgumentRequired'',
     ''FunctionCallArgumentCount'',
     ''FormatEncoding'',
     ''FormatVersion'',
     ''FunctionSignature'',
     ''FunctionArgumentTypeMismatch'',
     ''GenericContextConcreteDomainIncompatible'',
     ''GenericContextDefaultDomainRequired'',
     ''GenericContextImportedDomainExtensionRequired'',
     ''GenericDeferredCoordinateDomainRequired'',
     ''GenericDeferredContextRequired'',
     ''GenericDeferredDomainUnused'',
     ''GenericDeferredListingRequired'',
     ''GenericCoordRangeMismatch'',
     ''GraphicBaseAlreadyDefined'',
     ''InheritanceExtendedAssociationRequired'',
     ''InheritanceExtendedDeclarationRequired'',
     ''InheritanceExtendedTopicRequired'',
     ''InheritanceFinalBase'',
     ''InheritanceTargetRequired'',
     ''InputLoad'',
     ''InputUnsupportedVersion'',
     ''MetaDangling'',
     ''MetaSyntax'',
     ''MetaTarget'',
     ''MetadataBasketNotFound'',
     ''ModelDependency'',
     ''ModelImportRequired'',
     ''ModelRuntimeParameterDuplicate'']"

definition DiagnosticId_third :: "DiagnosticId list" where
  "DiagnosticId_third = [
     ''NameAttributeNotFound'',
     ''NameAmbiguous'',
     ''NameAssociationNotFound'',
     ''NameClassNotFound'',
     ''NameMultipleDeclarations'',
     ''NameElementNotFound'',
     ''NameEndMismatch'',
     ''NameFunctionNotFound'',
     ''NameLineFormNotFound'',
     ''NameModelNotFound'',
     ''NameNotFound'',
     ''NamePackageNotFound'',
     ''NameParameterNotFound'',
     ''NameRoleNotFound'',
     ''NameStructureNotFound'',
     ''NameTopicNotFound'',
     ''NameTypeNotFound'',
     ''NameUnitNotFound'',
     ''NameViewNotFound'',
     ''NameViewableNotFound'',
     ''NamespaceDuplicateDeclaration'',
     ''NamespaceInheritedDeclarationConflict'',
     ''NamespaceMemberDuplicate'',
     ''ParseEncoding'',
     ''ParseSyntax'',
     ''PropertyAbstractFinalConflict'',
     ''PropertyNotAllowed'',
     ''ReferenceAttributeOfClassRequired'',
     ''ReferenceClassRequired'',
     ''ReferenceClassOrStructureRequired'',
     ''ReferenceClassStructureOrAssociationRequired'',
     ''ReferenceClassOrAssociationRequired'',
     ''ReferenceClassOrViewRequired'',
     ''ReferenceExternalRequired'',
     ''ReferenceParentViewRequired'',
     ''ReferenceStructureContextRequired'',
     ''ReferenceStructureRequired'',
     ''ReferenceTopicRequired'',
     ''ReferenceViewRequired'',
     ''ReferenceThatAreaViewRequired'',
     ''ReferenceThisAreaViewRequired'',
     ''ReferenceViewableContextRequired'',
     ''ReferenceAggregatesBaseRequired'',
     ''ReferencePathElementNameRequired'',
     ''ReferencePathElementNotFound'',
     ''RepositoryCache'',
     ''RepositoryChecksum'',
     ''RepositoryCycle'',
     ''RepositoryDownload'',
     ''RepositoryIndex'',
     ''RepositoryNotFound'',
     ''RepositoryPath'',
     ''RepositorySite'',
     ''RepositoryUri'',
     ''RepositoryVersion'',
     ''SourceNotFound'',
     ''Syntax'']"

definition DiagnosticId_fourth :: "DiagnosticId list" where
  "DiagnosticId_fourth = [
     ''TranslationCoordDimensionMismatch'',
     ''TranslationAbstractMismatch'',
     ''TranslationAttributeMismatch'',
     ''TranslationCardinalityMismatch'',
     ''TranslationCollectionMismatch'',
     ''TranslationConstraintMismatch'',
     ''TranslationDeclarationKindMismatch'',
     ''TranslationDependencyMismatch'',
     ''TranslationDerivedAssociationMismatch'',
     ''TranslationDomainReferenceMismatch'',
     ''TranslationEnumerationMismatch'',
     ''TranslationEnumFinalMismatch'',
     ''TranslationExpressionMismatch'',
     ''TranslationExtendedMismatch'',
     ''TranslationExtendsMismatch'',
     ''TranslationFinalMismatch'',
     ''TranslationFunctionMismatch'',
     ''TranslationGenericMismatch'',
     ''TranslationGeometryMismatch'',
     ''TranslationMetadataMismatch'',
     ''TranslationModelBaseNotFound'',
     ''TranslationModelCycle'',
     ''TranslationModelPropertyMismatch'',
     ''TranslationModelSelfReference'',
     ''TranslationOidMismatch'',
     ''TranslationReferenceMismatch'',
     ''TranslationRoleMismatch'',
     ''TranslationRule'',
     ''TranslationTypePropertyMismatch'',
     ''TranslationUnitMismatch'',
     ''TranslationValueMismatch'',
     ''TranslationViewMismatch'',
     ''TopicDependencyRequired'',
     ''TypeCoordinateRequired'',
     ''TypeDomainRequired'',
     ''TypeEnumBaseRequired'',
     ''TypeFormattedRequired'',
     ''TypeFormattedValueOutOfRange'',
     ''TypeLineOverlapPrecision'',
     ''RoleCardinalityExtension'',
     ''RoleBaseFinal'',
     ''RoleBaseNotFound'',
     ''RoleCompositionCardinality'',
     ''RoleExtensionStrength'',
     ''RoleExtensionOrdering'',
     ''RoleExtensionTarget'',
     ''RoleNameDuplicate'',
     ''TransientAttributeFactorRequired'',
     ''ViewAliasNotFound'',
     ''ViewAttributeInspectionInvalid'',
     ''ViewInspectionAttributeNotFound'',
     ''ViewBaseNotFound'',
     ''ViewBaseExtensionRequired'',
     ''ValueMinimumExceedsMaximum'',
     ''ValueRange'',
     ''Warning'']"

definition DiagnosticId_enumerators :: "DiagnosticId list" where
  "DiagnosticId_enumerators = DiagnosticId_first @ DiagnosticId_second @ DiagnosticId_third
     @ DiagnosticId_fourth"

record DiagnosticDefinition =
  dd_id :: DiagnosticId
  dd_code :: string

abbreviation code_def :: "DiagnosticId \<Rightarrow> string \<Rightarrow> DiagnosticDefinition" where
  "code_def i c \<equiv> \<lparr>dd_id = i, dd_code = c\<rparr>"

definition definitions_first :: "DiagnosticDefinition list" where
  "definitions_first = [
     code_def ''AbiRequest'' ''ILIC-ABI-REQUEST'',
     code_def ''AssociationDuplicateRole'' ''ILIC-ASSOCIATION-DUPLICATE-ROLE'',
     code_def ''AssociationEndNameMismatch'' ''ILIC-ASSOCIATION-END-NAME-MISMATCH'',
     code_def ''AssociationInvalidBaseKind'' ''ILIC-ASSOCIATION-INVALID-BASE-KIND'',
     code_def ''AssociationAbstractRoleInConcrete'' ''ILIC-ASSOCIATION-ABSTRACT-ROLE-IN-CONCRETE'',
     code_def ''AssociationAdditionalRoleInExtension'' ''ILIC-ASSOCIATION-ADDITIONAL-ROLE-IN-EXTENSION'',
     code_def ''AssociationAggregationBinary'' ''ILIC-ASSOCIATION-AGGREGATION-BINARY'',
     code_def ''AssociationAttributeNameConflict'' ''ILIC-ASSOCIATION-ATTRIBUTE-NAME-CONFLICT'',
     code_def ''AssociationRoleAccessNameConflict'' ''ILIC-ASSOCIATION-ROLE-ACCESS-NAME-CONFLICT'',
     code_def ''AssociationMultipleAggregationRoles'' ''ILIC-ASSOCIATION-MULTIPLE-AGGREGATION-ROLES'',
     code_def ''AssociationMissingEndName'' ''ILIC-ASSOCIATION-MISSING-END-NAME'',
     code_def ''AssociationRoleCount'' ''ILIC-ASSOCIATION-ROLE-COUNT'',
     code_def ''AssociationUnexpectedEndName'' ''ILIC-ASSOCIATION-UNEXPECTED-END-NAME'',
     code_def ''AttributeCardinalityExtension'' ''ILIC-ATTRIBUTE-CARDINALITY-EXTENSION'',
     code_def ''AttributeBaseFinal'' ''ILIC-ATTRIBUTE-BASE-FINAL'',
     code_def ''AttributeBaseNotFound'' ''ILIC-ATTRIBUTE-BASE-NOT-FOUND'',
     code_def ''AttributeExtendedRequired'' ''ILIC-ATTRIBUTE-EXTENDED-REQUIRED'',
     code_def ''AttributeDuplicate'' ''ILIC-ATTRIBUTE-DUPLICATE'',
     code_def ''AttributeExtensionListOrdering'' ''ILIC-ATTRIBUTE-EXTENSION-LIST-ORDERING'',
     code_def ''AttributeExtensionNumericRange'' ''ILIC-ATTRIBUTE-EXTENSION-NUMERIC-RANGE'',
     code_def ''AttributeExtensionStructureTarget'' ''ILIC-ATTRIBUTE-EXTENSION-STRUCTURE-TARGET'',
     code_def ''AttributeExtensionTextKind'' ''ILIC-ATTRIBUTE-EXTENSION-TEXT-KIND'',
     code_def ''AttributeExtensionTextLength'' ''ILIC-ATTRIBUTE-EXTENSION-TEXT-LENGTH'',
     code_def ''AttributeExtensionTransient'' ''ILIC-ATTRIBUTE-EXTENSION-TRANSIENT'',
     code_def ''AttributeIncompatibleExtension'' ''ILIC-ATTRIBUTE-INCOMPATIBLE-EXTENSION'',
     code_def ''AttributeMandatoryExtensionRequired'' ''ILIC-ATTRIBUTE-MANDATORY-EXTENSION-REQUIRED'',
     code_def ''ClassExtendedRequired'' ''ILIC-CLASS-EXTENDED-REQUIRED'',
     code_def ''ClassAbstractInConcreteTopic'' ''ILIC-CLASS-ABSTRACT-IN-CONCRETE-TOPIC'',
     code_def ''ClassAbstractModelContextRequired'' ''ILIC-CLASS-ABSTRACT-MODEL-CONTEXT-REQUIRED'',
     code_def ''ClassSpecializationConflict'' ''ILIC-CLASS-SPECIALIZATION-CONFLICT'',
     code_def ''CompilerInternal'' ''ILIC-COMPILER-INTERNAL'',
     code_def ''CompilerUnsupportedType'' ''ILIC-COMPILER-UNSUPPORTED-TYPE'',
     code_def ''ConstraintDomainTargetUnsupported'' ''ILIC-CONSTRAINT-DOMAIN-TARGET-UNSUPPORTED'',
     code_def ''ConstraintExistenceTypeMismatch'' ''ILIC-CONSTRAINT-EXISTENCE-TYPE-MISMATCH'',
     code_def ''ConstraintGlobalUniqueMultivalueAttribute'' ''ILIC-CONSTRAINT-GLOBAL-UNIQUE-MULTIVALUE-ATTRIBUTE'',
     code_def ''ConstraintGlobalUniqueMultivalueRole'' ''ILIC-CONSTRAINT-GLOBAL-UNIQUE-MULTIVALUE-ROLE'',
     code_def ''ConstraintSetOnStructure'' ''ILIC-CONSTRAINT-SET-ON-STRUCTURE'',
     code_def ''ConstraintUniqueBasketLocal'' ''ILIC-CONSTRAINT-UNIQUE-BASKET-LOCAL'',
     code_def ''EnumerationDuplicateElement'' ''ILIC-ENUMERATION-DUPLICATE-ELEMENT'',
     code_def ''EnumerationExtensionDuplicate'' ''ILIC-ENUMERATION-EXTENSION-DUPLICATE'',
     code_def ''EnumerationValueInvalid'' ''ILIC-ENUMERATION-VALUE-INVALID'',
     code_def ''ExpressionBooleanRequired'' ''ILIC-EXPRESSION-BOOLEAN-REQUIRED'',
     code_def ''ExpressionComparisonTypeMismatch'' ''ILIC-EXPRESSION-COMPARISON-TYPE-MISMATCH'',
     code_def ''ExpressionLogicalRequired'' ''ILIC-EXPRESSION-LOGICAL-REQUIRED'',
     code_def ''ExpressionNumericRequired'' ''ILIC-EXPRESSION-NUMERIC-REQUIRED'',
     code_def ''ExpressionOrderingTypeMismatch'' ''ILIC-EXPRESSION-ORDERING-TYPE-MISMATCH'']"

definition definitions_second :: "DiagnosticDefinition list" where
  "definitions_second = [
     code_def ''FunctionContractedModelRequired'' ''ILIC-FUNCTION-CONTRACTED-MODEL-REQUIRED'',
     code_def ''FunctionDefinitionArgumentRequired'' ''ILIC-FUNCTION-DEFINITION-ARGUMENT-REQUIRED'',
     code_def ''FunctionCallArgumentCount'' ''ILIC-FUNCTION-CALL-ARGUMENT-COUNT'',
     code_def ''FormatEncoding'' ''ILIC-FORMAT-ENCODING'',
     code_def ''FormatVersion'' ''ILIC-FORMAT-VERSION'',
     code_def ''FunctionSignature'' ''ILIC-FUNCTION-SIGNATURE'',
     code_def ''FunctionArgumentTypeMismatch'' ''ILIC-FUNCTION-ARGUMENT-TYPE-MISMATCH'',
     code_def ''GenericContextConcreteDomainIncompatible'' ''ILIC-GENERIC-CONTEXT-CONCRETE-DOMAIN-INCOMPATIBLE'',
     code_def ''GenericContextDefaultDomainRequired'' ''ILIC-GENERIC-CONTEXT-DEFAULT-DOMAIN-REQUIRED'',
     code_def ''GenericContextImportedDomainExtensionRequired'' ''ILIC-GENERIC-CONTEXT-IMPORTED-DOMAIN-EXTENSION-REQUIRED'',
     code_def ''GenericDeferredCoordinateDomainRequired'' ''ILIC-GENERIC-DEFERRED-COORDINATE-DOMAIN-REQUIRED'',
     code_def ''GenericDeferredContextRequired'' ''ILIC-GENERIC-DEFERRED-CONTEXT-REQUIRED'',
     code_def ''GenericDeferredDomainUnused'' ''ILIC-GENERIC-DEFERRED-DOMAIN-UNUSED'',
     code_def ''GenericDeferredListingRequired'' ''ILIC-GENERIC-DEFERRED-LISTING-REQUIRED'',
     code_def ''GenericCoordRangeMismatch'' ''ILIC-GENERIC-COORD-RANGE-MISMATCH'',
     code_def ''GraphicBaseAlreadyDefined'' ''ILIC-GRAPHIC-BASE-ALREADY-DEFINED'',
     code_def ''InheritanceExtendedAssociationRequired'' ''ILIC-INHERITANCE-EXTENDED-ASSOCIATION-REQUIRED'',
     code_def ''InheritanceExtendedDeclarationRequired'' ''ILIC-INHERITANCE-EXTENDED-DECLARATION-REQUIRED'',
     code_def ''InheritanceExtendedTopicRequired'' ''ILIC-INHERITANCE-EXTENDED-TOPIC-REQUIRED'',
     code_def ''InheritanceFinalBase'' ''ILIC-INHERITANCE-FINAL-BASE'',
     code_def ''InheritanceTargetRequired'' ''ILIC-INHERITANCE-TARGET-REQUIRED'',
     code_def ''InputLoad'' ''ILIC-INPUT-LOAD'',
     code_def ''InputUnsupportedVersion'' ''ILIC-INPUT-UNSUPPORTED-VERSION'',
     code_def ''MetaDangling'' ''ILIC-META-DANGLING'',
     code_def ''MetaSyntax'' ''ILIC-META-SYNTAX'',
     code_def ''MetaTarget'' ''ILIC-META-TARGET'',
     code_def ''MetadataBasketNotFound'' ''ILIC-METADATA-BASKET-NOT-FOUND'',
     code_def ''ModelDependency'' ''ILIC-MODEL-DEPENDENCY'',
     code_def ''ModelImportRequired'' ''ILIC-MODEL-IMPORT-REQUIRED'',
     code_def ''ModelRuntimeParameterDuplicate'' ''ILIC-MODEL-RUNTIME-PARAMETER-DUPLICATE'']"

definition definitions_third :: "DiagnosticDefinition list" where
  "definitions_third = [
     code_def ''NameAttributeNotFound'' ''ILIC-NAME-ATTRIBUTE-NOT-FOUND'',
     code_def ''NameAmbiguous'' ''ILIC-NAME-AMBIGUOUS'',
     code_def ''NameAssociationNotFound'' ''ILIC-NAME-ASSOCIATION-NOT-FOUND'',
     code_def ''NameClassNotFound'' ''ILIC-NAME-CLASS-NOT-FOUND'',
     code_def ''NameMultipleDeclarations'' ''ILIC-NAME-MULTIPLE-DECLARATIONS'',
     code_def ''NameElementNotFound'' ''ILIC-NAME-ELEMENT-NOT-FOUND'',
     code_def ''NameEndMismatch'' ''ILIC-NAME-END-MISMATCH'',
     code_def ''NameFunctionNotFound'' ''ILIC-NAME-FUNCTION-NOT-FOUND'',
     code_def ''NameLineFormNotFound'' ''ILIC-NAME-LINE-FORM-NOT-FOUND'',
     code_def ''NameModelNotFound'' ''ILIC-NAME-MODEL-NOT-FOUND'',
     code_def ''NameNotFound'' ''ILIC-NAME-NOT-FOUND'',
     code_def ''NamePackageNotFound'' ''ILIC-NAME-PACKAGE-NOT-FOUND'',
     code_def ''NameParameterNotFound'' ''ILIC-NAME-PARAMETER-NOT-FOUND'',
     code_def ''NameRoleNotFound'' ''ILIC-NAME-ROLE-NOT-FOUND'',
     code_def ''NameStructureNotFound'' ''ILIC-NAME-STRUCTURE-NOT-FOUND'',
     code_def ''NameTopicNotFound'' ''ILIC-NAME-TOPIC-NOT-FOUND'',
     code_def ''NameTypeNotFound'' ''ILIC-NAME-TYPE-NOT-FOUND'',
     code_def ''NameUnitNotFound'' ''ILIC-NAME-UNIT-NOT-FOUND'',
     code_def ''NameViewNotFound'' ''ILIC-NAME-VIEW-NOT-FOUND'',
     code_def ''NameViewableNotFound'' ''ILIC-NAME-VIEWABLE-NOT-FOUND'',
     code_def ''NamespaceDuplicateDeclaration'' ''ILIC-NAMESPACE-DUPLICATE-DECLARATION'',
     code_def ''NamespaceInheritedDeclarationConflict'' ''ILIC-NAMESPACE-INHERITED-DECLARATION-CONFLICT'',
     code_def ''NamespaceMemberDuplicate'' ''ILIC-NAMESPACE-MEMBER-DUPLICATE'',
     code_def ''ParseEncoding'' ''ILIC-PARSE-ENCODING'',
     code_def ''ParseSyntax'' ''ILIC-PARSE-SYNTAX'',
     code_def ''PropertyAbstractFinalConflict'' ''ILIC-PROPERTY-ABSTRACT-FINAL-CONFLICT'',
     code_def ''PropertyNotAllowed'' ''ILIC-PROPERTY-NOT-ALLOWED'',
     code_def ''ReferenceAttributeOfClassRequired'' ''ILIC-REFERENCE-ATTRIBUTE-OF-CLASS-REQUIRED'',
     code_def ''ReferenceClassRequired'' ''ILIC-REFERENCE-CLASS-REQUIRED'',
     code_def ''ReferenceClassOrStructureRequired'' ''ILIC-REFERENCE-CLASS-OR-STRUCTURE-REQUIRED'',
     code_def ''ReferenceClassStructureOrAssociationRequired'' ''ILIC-REFERENCE-CLASS-STRUCTURE-OR-ASSOCIATION-REQUIRED'',
     code_def ''ReferenceClassOrAssociationRequired'' ''ILIC-REFERENCE-CLASS-OR-ASSOCIATION-REQUIRED'',
     code_def ''ReferenceClassOrViewRequired'' ''ILIC-REFERENCE-CLASS-OR-VIEW-REQUIRED'',
     code_def ''ReferenceExternalRequired'' ''ILIC-REFERENCE-EXTERNAL-REQUIRED'',
     code_def ''ReferenceParentViewRequired'' ''ILIC-REFERENCE-PARENT-VIEW-REQUIRED'',
     code_def ''ReferenceStructureContextRequired'' ''ILIC-REFERENCE-STRUCTURE-CONTEXT-REQUIRED'',
     code_def ''ReferenceStructureRequired'' ''ILIC-REFERENCE-STRUCTURE-REQUIRED'',
     code_def ''ReferenceTopicRequired'' ''ILIC-REFERENCE-TOPIC-REQUIRED'',
     code_def ''ReferenceViewRequired'' ''ILIC-REFERENCE-VIEW-REQUIRED'',
     code_def ''ReferenceThatAreaViewRequired'' ''ILIC-REFERENCE-THATAREA-VIEW-REQUIRED'',
     code_def ''ReferenceThisAreaViewRequired'' ''ILIC-REFERENCE-THISAREA-VIEW-REQUIRED'',
     code_def ''ReferenceViewableContextRequired'' ''ILIC-REFERENCE-VIEWABLE-CONTEXT-REQUIRED'',
     code_def ''ReferenceAggregatesBaseRequired'' ''ILIC-REFERENCE-AGGREGATES-BASE-REQUIRED'',
     code_def ''ReferencePathElementNameRequired'' ''ILIC-REFERENCE-PATH-ELEMENT-NAME-REQUIRED'',
     code_def ''ReferencePathElementNotFound'' ''ILIC-REFERENCE-PATH-ELEMENT-NOT-FOUND'',
     code_def ''RepositoryCache'' ''ILIC-REPO-CACHE'',
     code_def ''RepositoryChecksum'' ''ILIC-REPO-CHECKSUM'',
     code_def ''RepositoryCycle'' ''ILIC-REPO-CYCLE'',
     code_def ''RepositoryDownload'' ''ILIC-REPO-DOWNLOAD'',
     code_def ''RepositoryIndex'' ''ILIC-REPO-INDEX'',
     code_def ''RepositoryNotFound'' ''ILIC-REPO-NOT-FOUND'',
     code_def ''RepositoryPath'' ''ILIC-REPO-PATH'',
     code_def ''RepositorySite'' ''ILIC-REPO-SITE'',
     code_def ''RepositoryUri'' ''ILIC-REPO-URI'',
     code_def ''RepositoryVersion'' ''ILIC-REPO-VERSION'',
     code_def ''SourceNotFound'' ''ILIC-SOURCE-NOT-FOUND'',
     code_def ''Syntax'' ''ILIC-SYNTAX'']"

definition definitions_fourth :: "DiagnosticDefinition list" where
  "definitions_fourth = [
     code_def ''TranslationCoordDimensionMismatch'' ''ILIC-TRANSLATION-COORD-DIMENSION-MISMATCH'',
     code_def ''TranslationAbstractMismatch'' ''ILIC-TRANSLATION-ABSTRACT-MISMATCH'',
     code_def ''TranslationAttributeMismatch'' ''ILIC-TRANSLATION-ATTRIBUTE-MISMATCH'',
     code_def ''TranslationCardinalityMismatch'' ''ILIC-TRANSLATION-CARDINALITY-MISMATCH'',
     code_def ''TranslationCollectionMismatch'' ''ILIC-TRANSLATION-COLLECTION-MISMATCH'',
     code_def ''TranslationConstraintMismatch'' ''ILIC-TRANSLATION-CONSTRAINT-MISMATCH'',
     code_def ''TranslationDeclarationKindMismatch'' ''ILIC-TRANSLATION-DECLARATION-KIND-MISMATCH'',
     code_def ''TranslationDependencyMismatch'' ''ILIC-TRANSLATION-DEPENDENCY-MISMATCH'',
     code_def ''TranslationDerivedAssociationMismatch'' ''ILIC-TRANSLATION-DERIVED-ASSOCIATION-MISMATCH'',
     code_def ''TranslationDomainReferenceMismatch'' ''ILIC-TRANSLATION-DOMAIN-REFERENCE-MISMATCH'',
     code_def ''TranslationEnumerationMismatch'' ''ILIC-TRANSLATION-ENUMERATION-MISMATCH'',
     code_def ''TranslationEnumFinalMismatch'' ''ILIC-TRANSLATION-ENUM-FINAL-MISMATCH'',
     code_def ''TranslationExpressionMismatch'' ''ILIC-TRANSLATION-EXPRESSION-MISMATCH'',
     code_def ''TranslationExtendedMismatch'' ''ILIC-TRANSLATION-EXTENDED-MISMATCH'',
     code_def ''TranslationExtendsMismatch'' ''ILIC-TRANSLATION-EXTENDS-MISMATCH'',
     code_def ''TranslationFinalMismatch'' ''ILIC-TRANSLATION-FINAL-MISMATCH'',
     code_def ''TranslationFunctionMismatch'' ''ILIC-TRANSLATION-FUNCTION-MISMATCH'',
     code_def ''TranslationGenericMismatch'' ''ILIC-TRANSLATION-GENERIC-MISMATCH'',
     code_def ''TranslationGeometryMismatch'' ''ILIC-TRANSLATION-GEOMETRY-MISMATCH'',
     code_def ''TranslationMetadataMismatch'' ''ILIC-TRANSLATION-METADATA-MISMATCH'',
     code_def ''TranslationModelBaseNotFound'' ''ILIC-TRANSLATION-MODEL-BASE-NOT-FOUND'',
     code_def ''TranslationModelCycle'' ''ILIC-TRANSLATION-MODEL-CYCLE'',
     code_def ''TranslationModelPropertyMismatch'' ''ILIC-TRANSLATION-MODEL-PROPERTY-MISMATCH'',
     code_def ''TranslationModelSelfReference'' ''ILIC-TRANSLATION-MODEL-SELF-REFERENCE'',
     code_def ''TranslationOidMismatch'' ''ILIC-TRANSLATION-OID-MISMATCH'',
     code_def ''TranslationReferenceMismatch'' ''ILIC-TRANSLATION-REFERENCE-MISMATCH'',
     code_def ''TranslationRoleMismatch'' ''ILIC-TRANSLATION-ROLE-MISMATCH'',
     code_def ''TranslationRule'' ''ILIC-TRANSLATION-RULE'',
     code_def ''TranslationTypePropertyMismatch'' ''ILIC-TRANSLATION-TYPE-PROPERTY-MISMATCH'',
     code_def ''TranslationUnitMismatch'' ''ILIC-TRANSLATION-UNIT-MISMATCH'',
     code_def ''TranslationValueMismatch'' ''ILIC-TRANSLATION-VALUE-MISMATCH'',
     code_def ''TranslationViewMismatch'' ''ILIC-TRANSLATION-VIEW-MISMATCH'',
     code_def ''TopicDependencyRequired'' ''ILIC-TOPIC-DEPENDENCY-REQUIRED'',
     code_def ''TypeCoordinateRequired'' ''ILIC-TYPE-COORDINATE-REQUIRED'',
     code_def ''TypeDomainRequired'' ''ILIC-TYPE-DOMAIN-REQUIRED'',
     code_def ''TypeEnumBaseRequired'' ''ILIC-TYPE-ENUM-BASE-REQUIRED'',
     code_def ''TypeFormattedRequired'' ''ILIC-TYPE-FORMATTED-REQUIRED'',
     code_def ''TypeFormattedValueOutOfRange'' ''ILIC-TYPE-FORMATTED-VALUE-OUT-OF-RANGE'',
     code_def ''TypeLineOverlapPrecision'' ''ILIC-TYPE-LINE-OVERLAP-PRECISION'',
     code_def ''RoleCardinalityExtension'' ''ILIC-ROLE-CARDINALITY-EXTENSION'',
     code_def ''RoleBaseFinal'' ''ILIC-ROLE-BASE-FINAL'',
     code_def ''RoleBaseNotFound'' ''ILIC-ROLE-BASE-NOT-FOUND'',
     code_def ''RoleCompositionCardinality'' ''ILIC-ROLE-COMPOSITION-CARDINALITY'',
     code_def ''RoleExtensionStrength'' ''ILIC-ROLE-EXTENSION-STRENGTH'',
     code_def ''RoleExtensionOrdering'' ''ILIC-ROLE-EXTENSION-ORDERING'',
     code_def ''RoleExtensionTarget'' ''ILIC-ROLE-EXTENSION-TARGET'',
     code_def ''RoleNameDuplicate'' ''ILIC-ROLE-NAME-DUPLICATE'',
     code_def ''TransientAttributeFactorRequired'' ''ILIC-ATTRIBUTE-TRANSIENT-FACTOR-REQUIRED'',
     code_def ''ViewAliasNotFound'' ''ILIC-VIEW-ALIAS-NOT-FOUND'',
     code_def ''ViewAttributeInspectionInvalid'' ''ILIC-VIEW-ATTRIBUTE-INSPECTION-INVALID'',
     code_def ''ViewInspectionAttributeNotFound'' ''ILIC-VIEW-INSPECTION-ATTRIBUTE-NOT-FOUND'',
     code_def ''ViewBaseNotFound'' ''ILIC-VIEW-BASE-NOT-FOUND'',
     code_def ''ViewBaseExtensionRequired'' ''ILIC-VIEW-BASE-EXTENSION-REQUIRED'',
     code_def ''ValueMinimumExceedsMaximum'' ''ILIC-VALUE-MINIMUM-EXCEEDS-MAXIMUM'',
     code_def ''ValueRange'' ''ILIC-VALUE-RANGE'',
     code_def ''Warning'' ''ILIC-WARNING'']"

definition diagnosticDefinitions :: "DiagnosticDefinition list" where
  "diagnosticDefinitions = definitions_first @ definitions_second @ definitions_third @ definitions_fourth"

definition diagnosticCode :: "DiagnosticId \<Rightarrow> string option" where
  "diagnosticCode i = map_option dd_code (find (\<lambda>d. dd_id d = i) diagnosticDefinitions)"

subsection \<open>The registry is a bijection\<close>

text \<open>The table is cut into four groups; the first letters of the last part of a code tell
  the group, so codes need to be compared within a group only.\<close>

definition code_group :: "string \<Rightarrow> nat" where
  "code_group c =
     (if c = ''ILIC-ATTRIBUTE-TRANSIENT-FACTOR-REQUIRED'' then 3
      else if c ! 5 \<in> set ''ACE'' then 0
      else if c ! 5 \<in> set ''FGIM'' then 1
      else if c ! 5 \<in> set ''NPS'' \<or> (c ! 5 = CHR ''R'' \<and> c ! 6 = CHR ''E'') then 2
      else 3)"

lemmas definition_tables =
  definitions_first_def definitions_second_def definitions_third_def definitions_fourth_def

lemma enumerators_defined: "map dd_id diagnosticDefinitions = DiagnosticId_enumerators"
  by (simp add: diagnosticDefinitions_def DiagnosticId_enumerators_def definition_tables
      DiagnosticId_first_def DiagnosticId_second_def DiagnosticId_third_def DiagnosticId_fourth_def)

lemma first_codes: "distinct (map dd_code definitions_first)"
  by (simp add: definitions_first_def)

lemma second_codes: "distinct (map dd_code definitions_second)"
  by (simp add: definitions_second_def)

lemma third_codes: "distinct (map dd_code definitions_third)"
  by (simp add: definitions_third_def)

lemma fourth_codes: "distinct (map dd_code definitions_fourth)"
  by (simp add: definitions_fourth_def)

lemma first_group: "list_all (\<lambda>d. code_group (dd_code d) = 0) definitions_first"
  by (simp add: definitions_first_def code_group_def)

lemma second_group: "list_all (\<lambda>d. code_group (dd_code d) = 1) definitions_second"
  by (simp add: definitions_second_def code_group_def)

lemma third_group: "list_all (\<lambda>d. code_group (dd_code d) = 2) definitions_third"
  by (simp add: definitions_third_def code_group_def)

lemma fourth_group: "list_all (\<lambda>d. code_group (dd_code d) = 3) definitions_fourth"
  by (simp add: definitions_fourth_def code_group_def)

lemma distinct_by_group:
  assumes "list_all (\<lambda>d. g (f d) = a) xs" "\<forall>d \<in> set ys. g (f d) \<noteq> a"
    and "distinct (map f xs)" "distinct (map f ys)"
  shows "distinct (map f (xs @ ys))"
  using assms by (fastforce simp: list_all_iff)

lemma distinct_codes: "distinct (map dd_code diagnosticDefinitions)"
  unfolding diagnosticDefinitions_def
  by (intro distinct_by_group [where g = code_group, OF first_group]
      distinct_by_group [where g = code_group, OF second_group]
      distinct_by_group [where g = code_group, OF third_group]
      first_codes second_codes third_codes fourth_codes)
     (use first_group second_group third_group fourth_group in \<open>auto simp: list_all_iff\<close>)

lemma diagnosticCode_Some:
  assumes "diagnosticCode i = Some c"
  shows "\<exists>d \<in> set diagnosticDefinitions. dd_id d = i \<and> dd_code d = c"
  using assms by (auto simp: diagnosticCode_def find_Some_iff)

lemma diagnosticCode_total:
  "(\<exists>c. diagnosticCode i = Some c) \<longleftrightarrow> i \<in> set DiagnosticId_enumerators"
  unfolding enumerators_defined [symmetric]
  by (auto simp: diagnosticCode_def find_None_iff simp flip: not_None_eq)

lemma diagnosticCode_inj:
  assumes "diagnosticCode i = Some c" "diagnosticCode j = Some c"
  shows "i = j"
  using diagnosticCode_Some [OF assms(1)] diagnosticCode_Some [OF assms(2)] distinct_codes
  by (auto simp: distinct_map dest: inj_onD)

end
