(* ===== verification/Diagnostic_Types.thy ===== *)
theory Diagnostic_Types
  imports Ilic_Text
begin

section \<open>Diagnostics as data\<close>

text \<open>
  The data types of include/ilic/Diagnostic.h: severities, phases, tags, causes, positions,
  ranges, diagnostics, candidates and pipeline statistics. Severity and phase are ordered by
  the rank functions of source/diagnostics/DiagnosticPipeline.cpp.
\<close>

datatype DiagnosticSeverity = SevError | SevWarning | SevInformation | SevHint

datatype DiagnosticPhase =
  PhUnknown | PhLexical | PhSyntax | PhEditorRecovery | PhModelDiscovery | PhResolution
| PhSemantic | PhTranslation | PhRepository | PhFormatting | PhRequest | PhInternal

datatype DiagnosticTag = TagPrimary | TagCascaded | TagRecovery | TagDeprecated | TagUnnecessary

type_synonym DiagnosticCauseId = u64

datatype DiagnosticPublicationClass = PubPrimary | PubIndependent | PubCascaded | PubRecovery

record Position =
  po_line :: nat
  po_character :: nat
  po_byteOffset :: nat

record SourceRange =
  sr_uri :: string
  sr_start :: Position
  sr_end :: Position
  sr_valid :: bool

record RelatedInformation =
  ri_range :: SourceRange
  ri_message :: string

record Diagnostic =
  dg_severity :: DiagnosticSeverity
  dg_code :: string
  dg_message :: string
  dg_range :: SourceRange
  dg_related :: "RelatedInformation list"
  dg_notes :: "string list"
  dg_treatedAsError :: bool
  dg_source :: string
  dg_phase :: DiagnosticPhase
  dg_tags :: "DiagnosticTag list"
  dg_helpId :: string
  dg_fingerprint :: string

record DiagnosticCandidate =
  ca_diagnostic :: Diagnostic
  ca_cause :: DiagnosticCauseId
  ca_dependsOn :: "DiagnosticCauseId list"
  ca_publicationClass :: DiagnosticPublicationClass
  ca_producer :: string

record DiagnosticPipelineStats =
  ps_candidates :: u64
  ps_published :: u64
  ps_exactDuplicatesRemoved :: u64
  ps_cascadesSuppressed :: u64
  ps_invalidRangesNormalized :: u64
  ps_unknownCodes :: u64

record PublishedDiagnostics =
  pd_values :: "Diagnostic list"
  pd_stats :: DiagnosticPipelineStats

definition default_Position :: Position where
  "default_Position = \<lparr>po_line = 0, po_character = 0, po_byteOffset = 0\<rparr>"

definition default_range :: SourceRange where
  "default_range = \<lparr>sr_uri = [], sr_start = default_Position, sr_end = default_Position,
     sr_valid = False\<rparr>"

definition default_diagnostic :: Diagnostic where
  "default_diagnostic = \<lparr>dg_severity = SevError, dg_code = [], dg_message = [],
     dg_range = default_range, dg_related = [], dg_notes = [], dg_treatedAsError = False,
     dg_source = [], dg_phase = PhUnknown, dg_tags = [], dg_helpId = [], dg_fingerprint = []\<rparr>"

definition default_stats :: DiagnosticPipelineStats where
  "default_stats = \<lparr>ps_candidates = 0, ps_published = 0, ps_exactDuplicatesRemoved = 0,
     ps_cascadesSuppressed = 0, ps_invalidRangesNormalized = 0, ps_unknownCodes = 0\<rparr>"

subsection \<open>Ranks and orders\<close>

fun severityRank :: "DiagnosticSeverity \<Rightarrow> nat" where
  "severityRank SevError = 0"
| "severityRank SevWarning = 1"
| "severityRank SevInformation = 2"
| "severityRank SevHint = 3"

fun phaseRank :: "DiagnosticPhase \<Rightarrow> nat" where
  "phaseRank PhUnknown = 0"
| "phaseRank PhLexical = 1"
| "phaseRank PhSyntax = 2"
| "phaseRank PhEditorRecovery = 3"
| "phaseRank PhModelDiscovery = 4"
| "phaseRank PhResolution = 5"
| "phaseRank PhSemantic = 6"
| "phaseRank PhTranslation = 7"
| "phaseRank PhRepository = 8"
| "phaseRank PhFormatting = 9"
| "phaseRank PhRequest = 10"
| "phaseRank PhInternal = 11"

lemma severityRank_inj: "severityRank a = severityRank b \<longleftrightarrow> a = b"
  by (cases a; cases b) simp_all

lemma phaseRank_inj: "phaseRank a = phaseRank b \<longleftrightarrow> a = b"
  by (cases a; cases b) simp_all

instantiation DiagnosticSeverity :: linorder
begin

definition less_eq_DiagnosticSeverity :: "DiagnosticSeverity \<Rightarrow> DiagnosticSeverity \<Rightarrow> bool" where
  "a \<le> b \<longleftrightarrow> severityRank a \<le> severityRank b"

definition less_DiagnosticSeverity :: "DiagnosticSeverity \<Rightarrow> DiagnosticSeverity \<Rightarrow> bool" where
  "a < b \<longleftrightarrow> severityRank a < severityRank b"

instance
  by standard
     (auto simp: less_eq_DiagnosticSeverity_def less_DiagnosticSeverity_def severityRank_inj
       dest: antisym)

end

instantiation DiagnosticPhase :: linorder
begin

definition less_eq_DiagnosticPhase :: "DiagnosticPhase \<Rightarrow> DiagnosticPhase \<Rightarrow> bool" where
  "a \<le> b \<longleftrightarrow> phaseRank a \<le> phaseRank b"

definition less_DiagnosticPhase :: "DiagnosticPhase \<Rightarrow> DiagnosticPhase \<Rightarrow> bool" where
  "a < b \<longleftrightarrow> phaseRank a < phaseRank b"

instance
  by standard
     (auto simp: less_eq_DiagnosticPhase_def less_DiagnosticPhase_def phaseRank_inj dest: antisym)

end

end
