(* ===== verification/Diagnostic_Catalog.thy ===== *)
theory Diagnostic_Catalog
  imports Diagnostic_Code Diagnostic_Types
begin

section \<open>The diagnostic catalog and the builder\<close>

text \<open>
  source/diagnostics/DiagnosticCatalog.cpp and DiagnosticBuilder.cpp. The catalog is the table of
  descriptors made from the compiler's codes and the additional editor and repository codes; the
  builder collects the parts of a candidate and checks it when it is built. Both throw
  std::invalid_argument, which is a value of \<open>diagnostic_error\<close> here.
\<close>

datatype diagnostic_error = UnregisteredCode string | EmptyMessage

subsection \<open>Catalog\<close>

record DiagnosticDescriptor =
  de_code :: string
  de_defaultSeverity :: DiagnosticSeverity
  de_phase :: DiagnosticPhase
  de_title :: string
  de_documentationId :: string
  de_mayBeTreatedAsError :: bool
  de_requiresPrimaryRange :: bool

definition phaseFor :: "string \<Rightarrow> DiagnosticPhase" where
  "phaseFor code =
     (if starts_with ''ILIC-LIVE-'' code then PhEditorRecovery
      else if starts_with ''ILIC-PARSE-'' code \<or> starts_with ''ILIC-SYNTAX'' code then PhSyntax
      else if starts_with ''ILIC-REPO-'' code then PhRepository
      else if starts_with ''ILIC-FORMAT-'' code then PhFormatting
      else if starts_with ''ILIC-ABI-'' code then PhRequest
      else if starts_with ''ILIC-COMPILER-INTERNAL'' code then PhInternal
      else if starts_with ''ILIC-TRANSLATION-'' code then PhTranslation
      else if starts_with ''ILIC-NAME-'' code \<or> starts_with ''ILIC-REFERENCE-'' code
           \<or> starts_with ''ILIC-MODEL-'' code \<or> starts_with ''ILIC-SOURCE-'' code then PhResolution
      else if starts_with ''ILIC-WARNING'' code then PhSemantic
      else PhSemantic)"

definition additive :: "(string \<times> DiagnosticPhase) list" where
  "additive = [
     (''ILIC-LEX-UNRECOGNIZED-CHARACTER'', PhLexical),
     (''ILIC-SYN-UNEXPECTED-TOKEN'', PhSyntax),
     (''ILIC-SYN-EXTRANEOUS-TOKEN'', PhSyntax),
     (''ILIC-SYN-MISSING-TOKEN'', PhSyntax),
     (''ILIC-SYN-MISMATCHED-INPUT'', PhSyntax),
     (''ILIC-SYN-NO-VIABLE-ALTERNATIVE'', PhSyntax),
     (''ILIC-SYN-UNEXPECTED-EOF'', PhSyntax),
     (''ILIC-SYN-INCOMPLETE-CONSTRUCT'', PhSyntax),
     (''ILIC-LIVE-END-NAME'', PhEditorRecovery),
     (''ILIC-LIVE-DUPLICATE'', PhEditorRecovery),
     (''ILIC-REPO-CANCELLED'', PhRepository),
     (''ILIC-REPO-CONFIG'', PhRepository),
     (''ILIC-REPO-INSTALL'', PhRepository),
     (''ILIC-REPO-LIMIT'', PhRepository),
     (''ILIC-REPO-OFFLINE'', PhRepository),
     (''ILIC-REPO-POLICY'', PhRepository),
     (''ILIC-REPO-XML'', PhRepository)]"

definition buildDescriptors :: "DiagnosticDescriptor list" where
  "buildDescriptors =
     map (\<lambda>d. \<lparr>de_code = dd_code d, de_defaultSeverity = SevError, de_phase = phaseFor (dd_code d),
        de_title = dd_code d, de_documentationId = dd_code d, de_mayBeTreatedAsError = True,
        de_requiresPrimaryRange = False\<rparr>) diagnosticDefinitions
     @ map (\<lambda>(code, phase). \<lparr>de_code = code, de_defaultSeverity = SevError, de_phase = phase,
        de_title = code, de_documentationId = code, de_mayBeTreatedAsError = False,
        de_requiresPrimaryRange = True\<rparr>) additive"

definition catalog_find :: "string \<Rightarrow> DiagnosticDescriptor option" where
  "catalog_find code = find (\<lambda>d. de_code d = code) buildDescriptors"

definition catalog_require :: "string \<Rightarrow> diagnostic_error + DiagnosticDescriptor" where
  "catalog_require code = (case catalog_find code of
     None \<Rightarrow> Inl (UnregisteredCode code)
   | Some d \<Rightarrow> Inr d)"

definition catalog_all :: "DiagnosticDescriptor list" where
  "catalog_all = buildDescriptors"

definition isRegistered :: "string \<Rightarrow> bool" where
  "isRegistered code \<longleftrightarrow> catalog_find code \<noteq> None"

subsection \<open>Catalog lemmas\<close>

lemma additive_distinct: "distinct (map fst additive)"
  by (simp add: additive_def)

lemma additive_new_first: "list_all (\<lambda>d. dd_code d \<notin> set (map fst additive)) definitions_first"
  by (simp add: additive_def definitions_first_def)

lemma additive_new_second: "list_all (\<lambda>d. dd_code d \<notin> set (map fst additive)) definitions_second"
  by (simp add: additive_def definitions_second_def)

lemma additive_new_third: "list_all (\<lambda>d. dd_code d \<notin> set (map fst additive)) definitions_third"
  by (simp add: additive_def definitions_third_def)

lemma additive_new_fourth: "list_all (\<lambda>d. dd_code d \<notin> set (map fst additive)) definitions_fourth"
  by (simp add: additive_def definitions_fourth_def)

lemmas additive_new = additive_new_first additive_new_second additive_new_third additive_new_fourth

lemma descriptor_codes: "map de_code buildDescriptors = map dd_code diagnosticDefinitions @ map fst additive"
  by (simp add: buildDescriptors_def split_def)

lemma descriptor_codes_distinct: "distinct (map de_code buildDescriptors)"
  using distinct_codes additive_distinct additive_new
  by (auto simp: descriptor_codes distinct_append list_all_iff diagnosticDefinitions_def)

lemma phaseFor_known: "phaseFor code \<noteq> PhUnknown"
  by (simp add: phaseFor_def)

lemma descriptor_phase_known: "d \<in> set buildDescriptors \<Longrightarrow> de_phase d \<noteq> PhUnknown"
  by (auto simp: buildDescriptors_def phaseFor_known additive_def)

lemma catalog_find_Some:
  "catalog_find code = Some d \<longleftrightarrow> d \<in> set buildDescriptors \<and> de_code d = code"
proof
  assume "catalog_find code = Some d"
  then show "d \<in> set buildDescriptors \<and> de_code d = code"
    by (auto simp: catalog_find_def find_Some_iff)
next
  assume d: "d \<in> set buildDescriptors \<and> de_code d = code"
  then obtain e where e: "catalog_find code = Some e"
    by (cases "catalog_find code") (auto simp: catalog_find_def find_None_iff)
  then have "e \<in> set buildDescriptors" "de_code e = code"
    by (auto simp: catalog_find_def find_Some_iff)
  then show "catalog_find code = Some d"
    using d e descriptor_codes_distinct by (auto simp: distinct_map dest: inj_onD)
qed

lemma catalog_find_None: "catalog_find code = None \<longleftrightarrow> code \<notin> de_code ` set buildDescriptors"
  by (auto simp: catalog_find_def find_None_iff)

lemma internal_registered: "isRegistered ''ILIC-COMPILER-INTERNAL''"
proof -
  have "''ILIC-COMPILER-INTERNAL'' \<in> set (map dd_code definitions_first)"
    by (simp add: definitions_first_def)
  then have "''ILIC-COMPILER-INTERNAL'' \<in> set (map de_code buildDescriptors)"
    by (auto simp: descriptor_codes diagnosticDefinitions_def)
  then show ?thesis by (auto simp: isRegistered_def catalog_find_None)
qed

subsection \<open>Builder\<close>

record DiagnosticBuilder =
  bd_candidate :: DiagnosticCandidate
  bd_explicitSeverity :: bool

abbreviation on_diagnostic ::
  "(Diagnostic \<Rightarrow> Diagnostic) \<Rightarrow> DiagnosticBuilder \<Rightarrow> DiagnosticBuilder" where
  "on_diagnostic f b \<equiv>
     b\<lparr>bd_candidate := (bd_candidate b)\<lparr>ca_diagnostic := f (ca_diagnostic (bd_candidate b))\<rparr>\<rparr>"

definition default_candidate :: DiagnosticCandidate where
  "default_candidate = \<lparr>ca_diagnostic = default_diagnostic, ca_cause = 0, ca_dependsOn = [],
     ca_publicationClass = PubPrimary, ca_producer = []\<rparr>"

definition make_DiagnosticBuilder :: "string \<Rightarrow> DiagnosticBuilder" where
  "make_DiagnosticBuilder code =
     \<lparr>bd_candidate = default_candidate\<lparr>ca_diagnostic := default_diagnostic\<lparr>dg_code := code\<rparr>\<rparr>,
      bd_explicitSeverity = False\<rparr>"

definition builder_severity :: "DiagnosticSeverity \<Rightarrow> DiagnosticBuilder \<Rightarrow> DiagnosticBuilder" where
  "builder_severity v b = (on_diagnostic (\<lambda>d. d\<lparr>dg_severity := v\<rparr>) b)\<lparr>bd_explicitSeverity := True\<rparr>"

definition builder_source :: "string \<Rightarrow> DiagnosticBuilder \<Rightarrow> DiagnosticBuilder" where
  "builder_source v b = on_diagnostic (\<lambda>d. d\<lparr>dg_source := v\<rparr>) b"

definition builder_message :: "string \<Rightarrow> DiagnosticBuilder \<Rightarrow> DiagnosticBuilder" where
  "builder_message v b = on_diagnostic (\<lambda>d. d\<lparr>dg_message := v\<rparr>) b"

definition primaryRange :: "SourceRange \<Rightarrow> DiagnosticBuilder \<Rightarrow> DiagnosticBuilder" where
  "primaryRange v b = on_diagnostic (\<lambda>d. d\<lparr>dg_range := v\<rparr>) b"

definition builder_related :: "SourceRange \<Rightarrow> string \<Rightarrow> DiagnosticBuilder \<Rightarrow> DiagnosticBuilder" where
  "builder_related rg message b =
     on_diagnostic (\<lambda>d. d\<lparr>dg_related := dg_related d @ [\<lparr>ri_range = rg, ri_message = message\<rparr>]\<rparr>) b"

definition builder_note :: "string \<Rightarrow> DiagnosticBuilder \<Rightarrow> DiagnosticBuilder" where
  "builder_note v b = on_diagnostic (\<lambda>d. d\<lparr>dg_notes := dg_notes d @ [v]\<rparr>) b"

definition treatedAsError :: "bool \<Rightarrow> DiagnosticBuilder \<Rightarrow> DiagnosticBuilder" where
  "treatedAsError v b = on_diagnostic (\<lambda>d. d\<lparr>dg_treatedAsError := v\<rparr>) b"

definition builder_phase :: "DiagnosticPhase \<Rightarrow> DiagnosticBuilder \<Rightarrow> DiagnosticBuilder" where
  "builder_phase v b = on_diagnostic (\<lambda>d. d\<lparr>dg_phase := v\<rparr>) b"

definition builder_tag :: "DiagnosticTag \<Rightarrow> DiagnosticBuilder \<Rightarrow> DiagnosticBuilder" where
  "builder_tag v b = on_diagnostic
     (\<lambda>d. if v \<in> set (dg_tags d) then d else d\<lparr>dg_tags := dg_tags d @ [v]\<rparr>) b"

definition builder_cause :: "DiagnosticCauseId \<Rightarrow> DiagnosticBuilder \<Rightarrow> DiagnosticBuilder" where
  "builder_cause v b = b\<lparr>bd_candidate := (bd_candidate b)\<lparr>ca_cause := v\<rparr>\<rparr>"

definition dependsOn :: "DiagnosticCauseId \<Rightarrow> DiagnosticBuilder \<Rightarrow> DiagnosticBuilder" where
  "dependsOn v b =
     (let c = bd_candidate b in
      if v \<in> set (ca_dependsOn c) then b
      else b\<lparr>bd_candidate := c\<lparr>ca_dependsOn := ca_dependsOn c @ [v]\<rparr>\<rparr>)"

definition publicationClass ::
  "DiagnosticPublicationClass \<Rightarrow> DiagnosticBuilder \<Rightarrow> DiagnosticBuilder" where
  "publicationClass v b = b\<lparr>bd_candidate := (bd_candidate b)\<lparr>ca_publicationClass := v\<rparr>\<rparr>"

definition builder_producer :: "string \<Rightarrow> DiagnosticBuilder \<Rightarrow> DiagnosticBuilder" where
  "builder_producer v b = b\<lparr>bd_candidate := (bd_candidate b)\<lparr>ca_producer := v\<rparr>\<rparr>"

definition builder_helpId :: "string \<Rightarrow> DiagnosticBuilder \<Rightarrow> DiagnosticBuilder" where
  "builder_helpId v b = on_diagnostic (\<lambda>d. d\<lparr>dg_helpId := v\<rparr>) b"

definition class_tag :: "DiagnosticBuilder \<Rightarrow> DiagnosticBuilder" where
  "class_tag b = (case ca_publicationClass (bd_candidate b) of
     PubPrimary \<Rightarrow> builder_tag TagPrimary b
   | PubCascaded \<Rightarrow> builder_tag TagCascaded b
   | PubRecovery \<Rightarrow> builder_tag TagRecovery b
   | PubIndependent \<Rightarrow> b)"

definition default_severity :: "DiagnosticDescriptor \<Rightarrow> DiagnosticBuilder \<Rightarrow> DiagnosticBuilder" where
  "default_severity descriptor b =
     (if bd_explicitSeverity b then b
      else on_diagnostic (\<lambda>d. d\<lparr>dg_severity := de_defaultSeverity descriptor\<rparr>) b)"

definition fill_defaults :: "DiagnosticDescriptor \<Rightarrow> Diagnostic \<Rightarrow> Diagnostic" where
  "fill_defaults descriptor d =
     d\<lparr>dg_source := (if dg_source d = [] then ''compiler'' else dg_source d),
       dg_phase := (if dg_phase d = PhUnknown then de_phase descriptor else dg_phase d),
       dg_related := filter (\<lambda>r. ri_message r \<noteq> []) (dg_related d),
       dg_notes := filter (\<lambda>n. n \<noteq> []) (dg_notes d)\<rparr>"

definition build :: "DiagnosticBuilder \<Rightarrow> diagnostic_error + DiagnosticCandidate" where
  "build b = (case catalog_require (dg_code (ca_diagnostic (bd_candidate b))) of
     Inl e \<Rightarrow> Inl e
   | Inr descriptor \<Rightarrow>
       if dg_message (ca_diagnostic (bd_candidate b)) = [] then Inl EmptyMessage
       else Inr (bd_candidate (class_tag
              (on_diagnostic (fill_defaults descriptor) (default_severity descriptor b)))))"

definition class_tagged :: "DiagnosticPublicationClass \<Rightarrow> DiagnosticTag list \<Rightarrow> bool" where
  "class_tagged c tags = (case c of
     PubPrimary \<Rightarrow> TagPrimary \<in> set tags
   | PubCascaded \<Rightarrow> TagCascaded \<in> set tags
   | PubRecovery \<Rightarrow> TagRecovery \<in> set tags
   | PubIndependent \<Rightarrow> True)"

text \<open>What the builder promises of a candidate it returns.\<close>

definition built_ok :: "DiagnosticCandidate \<Rightarrow> bool" where
  "built_ok c \<longleftrightarrow>
     (let d = ca_diagnostic c in
      isRegistered (dg_code d) \<and> dg_message d \<noteq> [] \<and> dg_source d \<noteq> [] \<and> dg_phase d \<noteq> PhUnknown
      \<and> (\<forall>r \<in> set (dg_related d). ri_message r \<noteq> []) \<and> [] \<notin> set (dg_notes d)
      \<and> class_tagged (ca_publicationClass c) (dg_tags d))"

lemma require_Inr:
  "catalog_require code = Inr d \<Longrightarrow> isRegistered code \<and> de_code d = code \<and> de_phase d \<noteq> PhUnknown"
  by (auto simp: catalog_require_def isRegistered_def catalog_find_Some descriptor_phase_known
      split: option.splits)

lemma class_tag_frame [simp]:
  "dg_code (ca_diagnostic (bd_candidate (class_tag b))) = dg_code (ca_diagnostic (bd_candidate b))"
  "dg_message (ca_diagnostic (bd_candidate (class_tag b))) = dg_message (ca_diagnostic (bd_candidate b))"
  "dg_source (ca_diagnostic (bd_candidate (class_tag b))) = dg_source (ca_diagnostic (bd_candidate b))"
  "dg_phase (ca_diagnostic (bd_candidate (class_tag b))) = dg_phase (ca_diagnostic (bd_candidate b))"
  "dg_severity (ca_diagnostic (bd_candidate (class_tag b))) = dg_severity (ca_diagnostic (bd_candidate b))"
  "dg_related (ca_diagnostic (bd_candidate (class_tag b))) = dg_related (ca_diagnostic (bd_candidate b))"
  "dg_notes (ca_diagnostic (bd_candidate (class_tag b))) = dg_notes (ca_diagnostic (bd_candidate b))"
  "ca_dependsOn (bd_candidate (class_tag b)) = ca_dependsOn (bd_candidate b)"
  "ca_publicationClass (bd_candidate (class_tag b)) = ca_publicationClass (bd_candidate b)"
  by (simp_all add: class_tag_def builder_tag_def split: DiagnosticPublicationClass.split)

lemma class_tag_tagged:
  "class_tagged (ca_publicationClass (bd_candidate b)) (dg_tags (ca_diagnostic (bd_candidate (class_tag b))))"
  by (simp add: class_tagged_def class_tag_def builder_tag_def split: DiagnosticPublicationClass.split)

lemma default_severity_frame [simp]:
  "dg_code (ca_diagnostic (bd_candidate (default_severity d b))) = dg_code (ca_diagnostic (bd_candidate b))"
  "dg_message (ca_diagnostic (bd_candidate (default_severity d b))) = dg_message (ca_diagnostic (bd_candidate b))"
  "ca_dependsOn (bd_candidate (default_severity d b)) = ca_dependsOn (bd_candidate b)"
  "ca_publicationClass (bd_candidate (default_severity d b)) = ca_publicationClass (bd_candidate b)"
  by (simp_all add: default_severity_def)

lemma build_Inr:
  assumes "build b = Inr c"
  obtains d where "catalog_require (dg_code (ca_diagnostic (bd_candidate b))) = Inr d"
    and "dg_message (ca_diagnostic (bd_candidate b)) \<noteq> []"
    and "c = bd_candidate (class_tag (on_diagnostic (fill_defaults d) (default_severity d b)))"
  using assms by (auto simp: build_def split: sum.splits if_splits)

lemma fill_defaults_ok:
  assumes "de_phase d \<noteq> PhUnknown"
  shows "dg_source (fill_defaults d x) \<noteq> [] \<and> dg_phase (fill_defaults d x) \<noteq> PhUnknown
    \<and> (\<forall>r \<in> set (dg_related (fill_defaults d x)). ri_message r \<noteq> []) \<and> [] \<notin> set (dg_notes (fill_defaults d x))"
  using assms by (simp add: fill_defaults_def)

lemma fill_defaults_frame [simp]:
  "dg_code (fill_defaults d x) = dg_code x"
  "dg_message (fill_defaults d x) = dg_message x"
  "dg_severity (fill_defaults d x) = dg_severity x"
  by (simp_all add: fill_defaults_def)

lemma default_severity_value:
  assumes "catalog_require code = Inr d"
  shows "dg_severity (ca_diagnostic (bd_candidate (default_severity d b)))
    = (if bd_explicitSeverity b then dg_severity (ca_diagnostic (bd_candidate b)) else SevError)"
proof -
  have "de_defaultSeverity d = SevError"
    using assms by (auto simp: catalog_require_def catalog_find_Some buildDescriptors_def split: option.splits)
  then show ?thesis by (simp add: default_severity_def)
qed

text \<open>C39. The registry and the catalog agree: every enumerator of DiagnosticId has a code and
  nothing else has one, no two enumerators share a code, every such code is found in the catalog
  under a descriptor with that code and a phase, looking a code up finds a descriptor exactly
  when the catalog lists it, and \<open>require\<close> throws exactly for the codes the catalog does not
  list.\<close>

theorem catalog_exact:
  "(diagnosticCode i \<noteq> None \<longleftrightarrow> i \<in> set DiagnosticId_enumerators)
   \<and> (diagnosticCode i = Some c \<and> diagnosticCode j = Some c \<longrightarrow> i = j)
   \<and> (diagnosticCode i = Some c \<longrightarrow>
        (\<exists>d. catalog_require c = Inr d \<and> de_code d = c \<and> de_phase d = phaseFor c))
   \<and> (catalog_find c = Some d \<longleftrightarrow> d \<in> set catalog_all \<and> de_code d = c)
   \<and> (catalog_require c = Inl e \<longleftrightarrow> c \<notin> de_code ` set catalog_all \<and> e = UnregisteredCode c)"
proof (intro conjI)
  show "diagnosticCode i \<noteq> None \<longleftrightarrow> i \<in> set DiagnosticId_enumerators"
    using diagnosticCode_total [of i] by auto
  show "diagnosticCode i = Some c \<and> diagnosticCode j = Some c \<longrightarrow> i = j"
    using diagnosticCode_inj by blast
  show "diagnosticCode i = Some c \<longrightarrow>
        (\<exists>d. catalog_require c = Inr d \<and> de_code d = c \<and> de_phase d = phaseFor c)"
  proof
    assume "diagnosticCode i = Some c"
    then obtain x where x: "x \<in> set diagnosticDefinitions" "dd_code x = c"
      using diagnosticCode_Some by blast
    let ?d = "\<lparr>de_code = c, de_defaultSeverity = SevError, de_phase = phaseFor c, de_title = c,
      de_documentationId = c, de_mayBeTreatedAsError = True, de_requiresPrimaryRange = False\<rparr>"
    have "?d \<in> set buildDescriptors" using x by (auto simp: buildDescriptors_def)
    then have "catalog_find c = Some ?d" by (simp add: catalog_find_Some)
    then show "\<exists>d. catalog_require c = Inr d \<and> de_code d = c \<and> de_phase d = phaseFor c"
      by (simp add: catalog_require_def)
  qed
  show "catalog_find c = Some d \<longleftrightarrow> d \<in> set catalog_all \<and> de_code d = c"
    by (simp add: catalog_all_def catalog_find_Some)
  show "catalog_require c = Inl e \<longleftrightarrow> c \<notin> de_code ` set catalog_all \<and> e = UnregisteredCode c"
    by (auto simp: catalog_require_def catalog_all_def catalog_find_None split: option.splits
        simp flip: not_None_eq)
qed

theorem catalog_exact_witness:
  "diagnosticCode ''AbiRequest'' = Some ''ILIC-ABI-REQUEST''
   \<and> (\<exists>d. catalog_require ''ILIC-ABI-REQUEST'' = Inr d \<and> de_phase d = PhRequest)"
proof -
  have c: "diagnosticCode ''AbiRequest'' = Some ''ILIC-ABI-REQUEST''"
    by (simp add: diagnosticCode_def diagnosticDefinitions_def definitions_first_def)
  then show ?thesis
    using catalog_exact [of "''AbiRequest''" "''ILIC-ABI-REQUEST''" "''AbiRequest''"]
    by (auto simp: phaseFor_def)
qed

text \<open>The builder's contract: it throws for an unregistered code, else for an empty message,
  and otherwise returns a candidate with a registered code, a message, a source, a concrete
  phase, no empty note or related message, and the tag of its publication class; the code, the
  message and an explicit severity are the caller's, the severity is else the catalog's.\<close>

lemma build_contract:
  "(case build b of
      Inl (UnregisteredCode c) \<Rightarrow> c = dg_code (ca_diagnostic (bd_candidate b)) \<and> \<not> isRegistered c
    | Inl EmptyMessage \<Rightarrow> isRegistered (dg_code (ca_diagnostic (bd_candidate b)))
        \<and> dg_message (ca_diagnostic (bd_candidate b)) = []
    | Inr c \<Rightarrow> built_ok c
        \<and> dg_code (ca_diagnostic c) = dg_code (ca_diagnostic (bd_candidate b))
        \<and> dg_message (ca_diagnostic c) = dg_message (ca_diagnostic (bd_candidate b))
        \<and> dg_severity (ca_diagnostic c) =
            (if bd_explicitSeverity b then dg_severity (ca_diagnostic (bd_candidate b)) else SevError)
        \<and> ca_dependsOn c = ca_dependsOn (bd_candidate b)
        \<and> ca_publicationClass c = ca_publicationClass (bd_candidate b))"
proof (cases "build b")
  case (Inl e)
  then show ?thesis
    by (auto simp: build_def catalog_require_def isRegistered_def split: option.splits if_splits)
next
  case (Inr c)
  then obtain d where d: "catalog_require (dg_code (ca_diagnostic (bd_candidate b))) = Inr d"
    and m: "dg_message (ca_diagnostic (bd_candidate b)) \<noteq> []"
    and c: "c = bd_candidate (class_tag (on_diagnostic (fill_defaults d) (default_severity d b)))"
    by (rule build_Inr)
  note r = require_Inr [OF d]
  have "built_ok c"
    using r m fill_defaults_ok [of d "ca_diagnostic (bd_candidate (default_severity d b))"]
      class_tag_tagged [of "on_diagnostic (fill_defaults d) (default_severity d b)"]
    by (simp add: built_ok_def c)
  then show ?thesis by (simp add: Inr c default_severity_value [OF d])
qed

end
