(* ===== verification/Parser_Messages.thy ===== *)
theory Parser_Messages
  imports Diagnostic_Catalog
begin

section \<open>Messages of the parser\<close>

text \<open>
  source/input/parser/ParserDiagnosticTranslator.cpp turns the messages of the ANTLR runtime into
  codes and messages of the compiler. The runtime's message and the text of the offending token are
  arguments. The member functions \<open>find_first_not_of\<close>, \<open>find_last_not_of\<close>, \<open>find_last_of\<close> and
  \<open>resize\<close> of strings are modelled by their effect on the list of bytes; the ellipsis that the
  source writes in UTF-8 is its three bytes.
\<close>

definition is_blank :: "char \<Rightarrow> bool" where
  "is_blank c \<longleftrightarrow> c = CHR '' '' \<or> c = CHR 0x09 \<or> c = CHR 0x0D \<or> c = CHR 0x0A"

definition trim_blanks :: "string \<Rightarrow> string" where
  "trim_blanks s = rev (dropWhile is_blank (rev (dropWhile is_blank s)))"

definition apostrophe :: char where
  "apostrophe = CHR 0x27"

definition ellipsis :: string where
  "ellipsis = map char_of [0xE2, 0x80, 0xA6 :: nat]"

definition unquote :: "string \<Rightarrow> string" where
  "unquote s =
     (if 2 \<le> length s \<and> hd s = apostrophe \<and> last s = apostrophe then take (length s - 2) (drop 1 s) else s)"

definition quote_byte :: "char \<Rightarrow> string" where
  "quote_byte c =
     (if c = CHR 0x0A \<or> c = CHR 0x0D then [CHR 0x5C, CHR ''n'']
      else if c = CHR 0x5C \<or> c = apostrophe then [CHR 0x5C, c]
      else [c])"

definition quote_token :: "string \<Rightarrow> string" where
  "quote_token s =
     (let v = unquote (trim_blanks s) in
      if v = ''<EOF>'' then ''end of file''
      else
        let v = (if 32 < length v then take 32 v @ ellipsis else v)
        in [apostrophe] @ concat (map quote_byte v) @ [apostrophe])"

definition after_last_colon :: "string \<Rightarrow> string option" where
  "after_last_colon s =
     (if CHR '':'' \<in> set s then Some (rev (takeWhile (\<lambda>c. c \<noteq> CHR '':'') (rev s))) else None)"

definition offending :: "string \<Rightarrow> string \<Rightarrow> string" where
  "offending raw token =
     (if token \<noteq> [] then quote_token token
      else case after_last_colon raw of None \<Rightarrow> ''the reported token'' | Some t \<Rightarrow> quote_token t)"

record ParserDiagnosticTranslation =
  pt_code :: string
  pt_message :: string

definition translateParserDiagnostic :: "string \<Rightarrow> string \<Rightarrow> ParserDiagnosticTranslation" where
  "translateParserDiagnostic raw token =
     (if contains_sub ''token recognition error'' raw then
        \<lparr>pt_code = ''ILIC-LEX-UNRECOGNIZED-CHARACTER'',
         pt_message = ''Unrecognized character '' @ offending raw token @ ''.''\<rparr>
      else if contains_sub ''missing'' raw then
        \<lparr>pt_code = ''ILIC-SYN-MISSING-TOKEN'',
         pt_message = ''A required token is missing before '' @ offending raw token @ ''.''\<rparr>
      else if contains_sub ''extraneous input'' raw then
        \<lparr>pt_code = ''ILIC-SYN-EXTRANEOUS-TOKEN'',
         pt_message = ''Unexpected extra token '' @ offending raw token @ ''.''\<rparr>
      else if contains_sub ''mismatched input'' raw then
        \<lparr>pt_code = ''ILIC-SYN-MISMATCHED-INPUT'',
         pt_message = ''Unexpected token '' @ offending raw token @ ''.''\<rparr>
      else if contains_sub ''no viable alternative'' raw then
        \<lparr>pt_code = ''ILIC-SYN-NO-VIABLE-ALTERNATIVE'',
         pt_message = ''The input cannot be parsed at this location.''\<rparr>
      else if contains_sub ''<EOF>'' raw \<or> contains_sub ''EOF'' raw then
        \<lparr>pt_code = ''ILIC-SYN-UNEXPECTED-EOF'',
         pt_message = ''Unexpected end of file; the construct is incomplete.''\<rparr>
      else
        \<lparr>pt_code = ''ILIC-SYN-UNEXPECTED-TOKEN'',
         pt_message = ''Unexpected token '' @ offending raw token @ ''.''\<rparr>)"

subsection \<open>Quoted tokens\<close>

lemma quote_byte_bounds: "length (quote_byte c) \<le> 2" "CHR 0x0A \<notin> set (quote_byte c)" "CHR 0x0D \<notin> set (quote_byte c)"
  by (auto simp: quote_byte_def apostrophe_def)

lemma quote_bytes_length: "length (concat (map quote_byte s)) \<le> 2 * length s"
proof (induction s)
  case (Cons c s)
  then show ?case using quote_byte_bounds(1) [of c] by simp
qed simp

lemma quote_token_length: "length (quote_token s) \<le> 72"
proof -
  define v where "v = unquote (trim_blanks s)"
  define w where "w = (if 32 < length v then take 32 v @ ellipsis else v)"
  have "length w \<le> 35" by (simp add: w_def ellipsis_def)
  then have "length (concat (map quote_byte w)) \<le> 70"
    using quote_bytes_length [of w] by linarith
  then show ?thesis
    by (simp add: quote_token_def Let_def flip: v_def w_def)
qed

lemma quote_token_one_line: "CHR 0x0A \<notin> set (quote_token s) \<and> CHR 0x0D \<notin> set (quote_token s)"
proof -
  have "CHR 0x0A \<notin> set (concat (map quote_byte v)) \<and> CHR 0x0D \<notin> set (concat (map quote_byte v))" for v
    using quote_byte_bounds(2,3) by auto
  then show ?thesis by (auto simp: quote_token_def Let_def apostrophe_def)
qed

lemma offending_bounds:
  "length (offending raw token) \<le> 72 \<and> CHR 0x0A \<notin> set (offending raw token) \<and> CHR 0x0D \<notin> set (offending raw token)"
  using quote_token_length quote_token_one_line by (auto simp: offending_def split: option.splits)

definition parser_codes :: "string list" where
  "parser_codes =
     [''ILIC-LEX-UNRECOGNIZED-CHARACTER'', ''ILIC-SYN-MISSING-TOKEN'', ''ILIC-SYN-EXTRANEOUS-TOKEN'',
      ''ILIC-SYN-MISMATCHED-INPUT'', ''ILIC-SYN-NO-VIABLE-ALTERNATIVE'', ''ILIC-SYN-UNEXPECTED-EOF'',
      ''ILIC-SYN-UNEXPECTED-TOKEN'']"

lemma translation_code: "pt_code (translateParserDiagnostic raw token) \<in> set parser_codes"
  unfolding translateParserDiagnostic_def parser_codes_def by (simp split: if_splits)

lemma translation_message:
  fixes raw token :: string
  defines "m \<equiv> pt_message (translateParserDiagnostic raw token)"
  shows "m \<noteq> [] \<and> length m \<le> 108 \<and> CHR 0x0A \<notin> set m \<and> CHR 0x0D \<notin> set m"
  using offending_bounds [of raw token] unfolding m_def translateParserDiagnostic_def
  by (simp split: if_splits)

text \<open>The name of a missing token is cut after 32 bytes, which may be inside a character: the byte that
  starts a two-byte character is followed by the ellipsis.\<close>

lemma quote_token_splits_character:
  "quote_token (replicate 31 (CHR ''a'') @ map char_of [0xC3, 0xA4 :: nat])
     = [apostrophe] @ replicate 31 (CHR ''a'') @ [char_of (0xC3 :: nat)] @ ellipsis @ [apostrophe]"
  by code_simp

text \<open>Every code of a translated message is a code of the catalog, under the lexical or syntactic phase.\<close>

lemma additive_registered:
  assumes "(code, phase) \<in> set additive"
  shows "\<exists>d. catalog_find code = Some d \<and> de_phase d = phase"
proof -
  define d where "d = \<lparr>de_code = code, de_defaultSeverity = SevError, de_phase = phase,
        de_title = code, de_documentationId = code, de_mayBeTreatedAsError = False,
        de_requiresPrimaryRange = True\<rparr>"
  have "d \<in> set buildDescriptors" using assms by (force simp: buildDescriptors_def d_def)
  then have "catalog_find code = Some d" by (simp add: catalog_find_Some d_def)
  then show ?thesis by (auto simp: d_def)
qed

definition parser_phase :: "string \<Rightarrow> DiagnosticPhase" where
  "parser_phase code = (if code = ''ILIC-LEX-UNRECOGNIZED-CHARACTER'' then PhLexical else PhSyntax)"

lemma parser_codes_additive: "list_all (\<lambda>code. (code, parser_phase code) \<in> set additive) parser_codes"
  by (simp add: parser_codes_def additive_def parser_phase_def)

lemma translation_registered:
  fixes raw token :: string
  defines "code \<equiv> pt_code (translateParserDiagnostic raw token)"
  shows "\<exists>d. catalog_find code = Some d \<and> de_phase d = parser_phase code"
proof -
  have "(code, parser_phase code) \<in> set additive"
    using parser_codes_additive translation_code [of raw token] unfolding list_all_iff code_def by blast
  then show ?thesis by (rule additive_registered)
qed

end
