(* ===== verification/Source_Manager.thy ===== *)
theory Source_Manager
  imports Ilic_Text
begin

section \<open>The source manager\<close>

text \<open>
  Model of source/core/SourceManager.cpp and include/ilic/SourceManager.h: the store of
  source buffers that a compiler session owns, with the identity (document version, content
  revision, generation, content hash, byte length) of every buffer and of the removed ones.
  One function per member function. The invariant \<open>manager_inv\<close> ties the three maps and
  the two counters together; the lemmas show that every operation keeps it, how an update is
  classified, that visible document versions never go back and that a content revision is
  never reused for other bytes. Counters are \<open>64 word\<close>; freshness is stated for counters
  that have not reached their last value.
\<close>

subsection \<open>Data\<close>

record SourcePosition =
  sp_offset :: nat
  sp_line :: nat
  sp_utf16Column :: nat

record SourceBuffer =
  sb_uri :: string
  sb_text :: string
  sb_version :: u64

datatype SourceUpdateKind =
  Added | Unchanged | VersionOnly | ContentChanged | Reintroduced | Removed | Rejected

record SourceIdentity =
  si_uri :: string
  documentVersion :: u64
  contentRevision :: u64
  sourceGeneration :: u64
  si_contentHash :: string
  byteLength :: nat

record SourceUpdateResult =
  ur_kind :: SourceUpdateKind
  ur_previous :: SourceIdentity
  ur_current :: SourceIdentity
  ur_accepted :: bool
  ur_parserInvalidated :: bool
  ur_analysesInvalidated :: bool

record SourceManager =
  sm_sources :: "(string, SourceBuffer) omap"
  sm_identities :: "(string, SourceIdentity) omap"
  sm_removedIdentities :: "(string, SourceIdentity) omap"
  sm_nextContentRevision :: u64
  sm_generation :: u64

definition default_position :: SourcePosition where
  "default_position = \<lparr>sp_offset = 0, sp_line = 0, sp_utf16Column = 0\<rparr>"

definition default_identity :: SourceIdentity where
  "default_identity = \<lparr>si_uri = [], documentVersion = 0, contentRevision = 0,
     sourceGeneration = 0, si_contentHash = [], byteLength = 0\<rparr>"

definition default_result :: SourceUpdateResult where
  "default_result = \<lparr>ur_kind = Rejected, ur_previous = default_identity,
     ur_current = default_identity, ur_accepted = False, ur_parserInvalidated = False,
     ur_analysesInvalidated = False\<rparr>"

definition empty_manager :: SourceManager where
  "empty_manager = \<lparr>sm_sources = [], sm_identities = [], sm_removedIdentities = [],
     sm_nextContentRevision = 0, sm_generation = 0\<rparr>"

subsection \<open>Operations\<close>

definition invalidUri :: "string \<Rightarrow> bool" where
  "invalidUri uri \<longleftrightarrow> uri = [] \<or> CHR 0x00 \<in> set uri"

text \<open>The lines after the branch: the buffer is stored with the version the caller passed.\<close>

definition store_buffer ::
  "string \<Rightarrow> string \<Rightarrow> u64 \<Rightarrow> SourceIdentity \<Rightarrow> SourceManager \<Rightarrow> SourceManager" where
  "store_buffer uri utf8 version current m =
     m\<lparr>sm_sources := assign uri \<lparr>sb_uri = uri, sb_text = utf8, sb_version = version\<rparr> (sm_sources m),
       sm_identities := assign uri current (sm_identities m),
       sm_removedIdentities := erase uri (sm_removedIdentities m)\<rparr>"

definition update_known ::
  "string \<Rightarrow> string \<Rightarrow> u64 \<Rightarrow> SourceBuffer \<Rightarrow> SourceIdentity \<Rightarrow> SourceManager
     \<Rightarrow> SourceUpdateResult \<times> SourceManager" where
  "update_known uri utf8 version found previous m =
     (let result = default_result\<lparr>ur_previous := previous\<rparr> in
      if version < documentVersion previous \<and> version \<noteq> 0 then (result, m)
      else
        let sameBytes = (length (sb_text found) = length utf8 \<and> sb_text found = utf8);
            visibleVersion = (if version = 0 then documentVersion previous else version);
            current = previous\<lparr>documentVersion := visibleVersion\<rparr> in
        if sameBytes \<and> version = documentVersion previous then
          (result\<lparr>ur_kind := Unchanged, ur_current := previous, ur_accepted := True\<rparr>, m)
        else if sameBytes then
          (if version = 0 \<or> version < documentVersion previous then
             (result\<lparr>ur_kind := Unchanged, ur_current := previous, ur_accepted := True\<rparr>, m)
           else
             let current' = current\<lparr>documentVersion := version\<rparr> in
             (result\<lparr>ur_kind := VersionOnly, ur_current := current', ur_accepted := True\<rparr>,
              m\<lparr>sm_sources := assign uri (found\<lparr>sb_version := visibleVersion\<rparr>) (sm_sources m),
                sm_identities := assign uri current' (sm_identities m)\<rparr>))
        else
          let revision = sm_nextContentRevision m + 1;
              gen = sm_generation m + 1;
              current' = current\<lparr>contentRevision := revision, sourceGeneration := gen,
                documentVersion := visibleVersion, si_contentHash := contentHash utf8,
                byteLength := length utf8\<rparr> in
          (result\<lparr>ur_kind := ContentChanged, ur_current := current', ur_accepted := True,
             ur_parserInvalidated := True, ur_analysesInvalidated := True\<rparr>,
           store_buffer uri utf8 version current'
             (m\<lparr>sm_nextContentRevision := revision, sm_generation := gen\<rparr>)))"

definition update_new ::
  "string \<Rightarrow> string \<Rightarrow> u64 \<Rightarrow> SourceManager \<Rightarrow> SourceUpdateResult \<times> SourceManager" where
  "update_new uri utf8 version m =
     (let removed = map_of (sm_removedIdentities m) uri;
          revision = sm_nextContentRevision m + 1;
          gen = sm_generation m + 1;
          current = default_identity\<lparr>si_uri := uri, documentVersion := version,
            contentRevision := revision, sourceGeneration := gen,
            si_contentHash := contentHash utf8, byteLength := length utf8\<rparr> in
      (default_result\<lparr>ur_kind := (if removed = None then Added else Reintroduced),
         ur_previous := (case removed of None \<Rightarrow> default_identity | Some i \<Rightarrow> i),
         ur_current := current, ur_accepted := True, ur_parserInvalidated := False,
         ur_analysesInvalidated := True\<rparr>,
       store_buffer uri utf8 version current
         (m\<lparr>sm_nextContentRevision := revision, sm_generation := gen\<rparr>)))"

text \<open>\<open>identities_.at(uri)\<close> throws \<open>std::out_of_range\<close> when the key is absent: the
  model returns \<open>None\<close>.\<close>

definition SourceManager_update ::
  "string \<Rightarrow> string \<Rightarrow> u64 \<Rightarrow> SourceManager
     \<Rightarrow> (SourceUpdateResult \<times> SourceManager) option" where
  "SourceManager_update uri utf8 version m =
     (if invalidUri uri then Some (default_result, m)
      else case map_of (sm_sources m) uri of
        Some found \<Rightarrow> (case map_of (sm_identities m) uri of
            None \<Rightarrow> None
          | Some previous \<Rightarrow> Some (update_known uri utf8 version found previous m))
      | None \<Rightarrow> Some (update_new uri utf8 version m))"

definition SourceManager_put :: "string \<Rightarrow> string \<Rightarrow> u64 \<Rightarrow> SourceManager \<Rightarrow> SourceManager option" where
  "SourceManager_put uri utf8 version m = map_option snd (SourceManager_update uri utf8 version m)"

definition SourceManager_remove :: "string \<Rightarrow> SourceManager \<Rightarrow> bool \<times> SourceManager" where
  "SourceManager_remove uri m =
     (if map_of (sm_sources m) uri = None then (False, m)
      else
        let m' = (case map_of (sm_identities m) uri of
            None \<Rightarrow> m
          | Some i \<Rightarrow> m\<lparr>sm_generation := sm_generation m + 1,
              sm_removedIdentities := assign uri
                (i\<lparr>sourceGeneration := sm_generation m + 1\<rparr>) (sm_removedIdentities m)\<rparr>) in
        (True, m'\<lparr>sm_sources := erase uri (sm_sources m'), sm_identities := erase uri (sm_identities m')\<rparr>))"

definition SourceManager_contains :: "SourceManager \<Rightarrow> string \<Rightarrow> bool" where
  "SourceManager_contains m uri \<longleftrightarrow> map_of (sm_sources m) uri \<noteq> None"

definition SourceManager_get :: "SourceManager \<Rightarrow> string \<Rightarrow> SourceBuffer option" where
  "SourceManager_get m uri = map_of (sm_sources m) uri"

definition SourceManager_identity :: "SourceManager \<Rightarrow> string \<Rightarrow> SourceIdentity option" where
  "SourceManager_identity m uri = map_of (sm_identities m) uri"

definition SourceManager_uris :: "SourceManager \<Rightarrow> string list" where
  "SourceManager_uris m = map fst (sm_sources m)"

subsection \<open>The invariant\<close>

definition describes :: "SourceIdentity \<Rightarrow> SourceBuffer \<Rightarrow> bool" where
  "describes i b \<longleftrightarrow> si_uri i = sb_uri b \<and> si_contentHash i = contentHash (sb_text b)
     \<and> byteLength i = length (sb_text b)"

definition entry_ok :: "SourceManager \<Rightarrow> string \<Rightarrow> SourceBuffer \<Rightarrow> bool" where
  "entry_ok m u b \<longleftrightarrow> \<not> invalidUri u \<and> sb_uri b = u \<and> map_of (sm_removedIdentities m) u = None
     \<and> (case map_of (sm_identities m) u of None \<Rightarrow> False | Some i \<Rightarrow> describes i b)"

definition manager_inv :: "SourceManager \<Rightarrow> bool" where
  "manager_inv m \<longleftrightarrow> omap_wf (sm_sources m) \<and> omap_wf (sm_identities m)
     \<and> omap_wf (sm_removedIdentities m)
     \<and> fst ` set (sm_identities m) \<subseteq> fst ` set (sm_sources m)
     \<and> (\<forall>e \<in> set (sm_sources m). entry_ok m (fst e) (snd e))"

text \<open>The working form of the invariant: statements about lookups.\<close>

lemma manager_inv_iff:
  "manager_inv m \<longleftrightarrow> omap_wf (sm_sources m) \<and> omap_wf (sm_identities m)
     \<and> omap_wf (sm_removedIdentities m)
     \<and> (\<forall>u. map_of (sm_sources m) u = None \<longrightarrow> map_of (sm_identities m) u = None)
     \<and> (\<forall>u b. map_of (sm_sources m) u = Some b \<longrightarrow> entry_ok m u b)"
  (is "?L \<longleftrightarrow> ?R")
proof
  assume ?L
  then show ?R
    unfolding manager_inv_def
    by (auto simp: lookup_None_iff dest!: lookup_in_set)
next
  assume ?R
  then have wf: "omap_wf (sm_sources m)" by simp
  have "entry_ok m (fst e) (snd e)" if "e \<in> set (sm_sources m)" for e
    using \<open>?R\<close> that lookup_iff_in_set [OF wf, of "fst e" "snd e"] by simp
  moreover have "fst ` set (sm_identities m) \<subseteq> fst ` set (sm_sources m)"
    using \<open>?R\<close> by (auto simp: lookup_None_iff)
  ultimately show ?L
    using \<open>?R\<close> by (simp add: manager_inv_def)
qed

lemma manager_invD:
  assumes "manager_inv m"
  shows "omap_wf (sm_sources m)" "omap_wf (sm_identities m)" "omap_wf (sm_removedIdentities m)"
    and "map_of (sm_sources m) u = None \<Longrightarrow> map_of (sm_identities m) u = None"
    and "map_of (sm_sources m) u = Some b \<Longrightarrow> entry_ok m u b"
  using assms by (simp_all add: manager_inv_iff)

lemma entry_ok_iff:
  "entry_ok m u b \<longleftrightarrow> \<not> invalidUri u \<and> sb_uri b = u \<and> map_of (sm_removedIdentities m) u = None
     \<and> (\<exists>i. map_of (sm_identities m) u = Some i \<and> describes i b)"
  by (auto simp: entry_ok_def split: option.splits)

lemma entry_okD:
  assumes "entry_ok m u b"
  obtains i where "map_of (sm_identities m) u = Some i" "describes i b" "\<not> invalidUri u"
    "sb_uri b = u" "map_of (sm_removedIdentities m) u = None"
  using assms by (auto simp: entry_ok_iff)

lemma known_source:
  assumes "manager_inv m" and "map_of (sm_sources m) u = Some b"
  obtains i where "map_of (sm_identities m) u = Some i" "describes i b" "\<not> invalidUri u"
    "sb_uri b = u" "map_of (sm_removedIdentities m) u = None"
  using manager_invD(5) [OF assms] by (rule entry_okD)

lemma manager_inv_empty: "manager_inv empty_manager"
  by (simp add: manager_inv_def empty_manager_def)

lemma store_buffer_inv:
  assumes inv: "manager_inv m" and ok: "\<not> invalidUri uri"
    and i: "si_uri i = uri" "si_contentHash i = contentHash utf8" "byteLength i = length utf8"
  shows "manager_inv (store_buffer uri utf8 version i m)"
  using assms
  by (auto simp: manager_inv_iff store_buffer_def entry_ok_iff describes_def)

lemma manager_inv_counters [simp]:
  "manager_inv (m\<lparr>sm_nextContentRevision := a\<rparr>) = manager_inv m"
  "manager_inv (m\<lparr>sm_generation := b\<rparr>) = manager_inv m"
  by (simp_all add: manager_inv_def entry_ok_def)

subsection \<open>The result of an update, branch by branch\<close>

lemmas update_defs = update_known_def update_new_def default_result_def Let_def

lemma update_new_eq:
  assumes "\<not> invalidUri uri" and "map_of (sm_sources m) uri = None"
  shows "SourceManager_update uri utf8 version m = Some (update_new uri utf8 version m)"
  using assms by (simp add: SourceManager_update_def)

lemma update_known_eq:
  assumes "\<not> invalidUri uri" and "map_of (sm_sources m) uri = Some b"
    and "map_of (sm_identities m) uri = Some i"
  shows "SourceManager_update uri utf8 version m = Some (update_known uri utf8 version b i m)"
  using assms by (simp add: SourceManager_update_def)

lemma update_cases [consumes 2, case_names invalid new known]:
  assumes "manager_inv m" and "SourceManager_update uri utf8 version m = Some (r, m')"
  obtains "invalidUri uri" "r = default_result" "m' = m"
  | "\<not> invalidUri uri" "map_of (sm_sources m) uri = None" "map_of (sm_identities m) uri = None"
      "(r, m') = update_new uri utf8 version m"
  | b i where "\<not> invalidUri uri" "map_of (sm_sources m) uri = Some b"
      "map_of (sm_identities m) uri = Some i" "describes i b" "sb_uri b = uri"
      "map_of (sm_removedIdentities m) uri = None"
      "(r, m') = update_known uri utf8 version b i m"
proof (cases "invalidUri uri")
  case True
  with assms(2) that(1) show ?thesis by (simp add: SourceManager_update_def)
next
  case False
  show ?thesis
  proof (cases "map_of (sm_sources m) uri")
    case None
    with False assms that(2) show ?thesis
      by (simp add: update_new_eq manager_invD(4))
  next
    case (Some b)
    obtain i where "map_of (sm_identities m) uri = Some i" "describes i b" "sb_uri b = uri"
      "map_of (sm_removedIdentities m) uri = None"
      using known_source [OF assms(1) Some] .
    with False Some assms(2) that(3) show ?thesis by (simp add: update_known_eq)
  qed
qed

lemma update_known_cases [consumes 1, case_names rejected unchanged version_only changed]:
  assumes "(r, m') = update_known uri utf8 version b i m"
  obtains "version \<noteq> 0" "version < documentVersion i" "r = default_result\<lparr>ur_previous := i\<rparr>" "m' = m"
  | "sb_text b = utf8" "version = 0 \<or> version = documentVersion i" "m' = m"
      "r = default_result\<lparr>ur_previous := i, ur_kind := Unchanged, ur_current := i, ur_accepted := True\<rparr>"
  | "sb_text b = utf8" "version \<noteq> 0" "documentVersion i < version"
      "m' = m\<lparr>sm_sources := assign uri (b\<lparr>sb_version := version\<rparr>) (sm_sources m),
              sm_identities := assign uri (i\<lparr>documentVersion := version\<rparr>) (sm_identities m)\<rparr>"
      "r = default_result\<lparr>ur_previous := i, ur_kind := VersionOnly,
             ur_current := i\<lparr>documentVersion := version\<rparr>, ur_accepted := True\<rparr>"
  | cur where "sb_text b \<noteq> utf8" "version = 0 \<or> documentVersion i \<le> version"
      "cur = i\<lparr>contentRevision := sm_nextContentRevision m + 1,
               sourceGeneration := sm_generation m + 1,
               documentVersion := (if version = 0 then documentVersion i else version),
               si_contentHash := contentHash utf8, byteLength := length utf8\<rparr>"
      "m' = store_buffer uri utf8 version cur
              (m\<lparr>sm_nextContentRevision := sm_nextContentRevision m + 1,
                 sm_generation := sm_generation m + 1\<rparr>)"
      "r = default_result\<lparr>ur_previous := i, ur_kind := ContentChanged, ur_current := cur,
             ur_accepted := True, ur_parserInvalidated := True, ur_analysesInvalidated := True\<rparr>"
proof (cases "version < documentVersion i \<and> version \<noteq> 0")
  case True
  with assms that(1) show ?thesis by (simp add: update_known_def)
next
  case fresh: False
  show ?thesis
  proof (cases "sb_text b = utf8")
    case same: True
    show ?thesis
    proof (cases "version = 0 \<or> version = documentVersion i")
      case True
      with fresh same assms have "r = default_result\<lparr>ur_previous := i, ur_kind := Unchanged,
          ur_current := i, ur_accepted := True\<rparr>" "m' = m"
        by (simp_all add: update_known_def Let_def split: if_splits)
      with same True that(2) show ?thesis by blast
    next
      case False
      with fresh same assms that(3) show ?thesis
        by (auto simp: update_known_def Let_def)
    qed
  next
    case False
    with fresh assms show ?thesis
      by (intro that(4) [OF _ _ refl]) (auto simp: update_known_def Let_def)
  qed
qed

subsection \<open>Every operation keeps the invariant\<close>

lemma update_inv_step:
  assumes inv: "manager_inv m" and upd: "SourceManager_update uri utf8 version m = Some (r, m')"
  shows "manager_inv m'"
  using inv upd
proof (cases rule: update_cases)
  case invalid
  with inv show ?thesis by simp
next
  case new
  then show ?thesis
    using inv by (simp add: update_new_def Let_def store_buffer_inv)
next
  case (known b i)
  from known(7) show ?thesis
  proof (cases rule: update_known_cases)
    case version_only
    with inv known show ?thesis
      by (auto simp: manager_inv_iff entry_ok_iff describes_def)
  next
    case (changed cur)
    with inv known show ?thesis
      by (auto intro!: store_buffer_inv simp: describes_def)
  qed (use inv in simp_all)
qed

lemma update_total:
  assumes "manager_inv m"
  obtains r m' where "SourceManager_update uri utf8 version m = Some (r, m')"
proof (cases "map_of (sm_sources m) uri")
  case None
  with that show ?thesis
    by (cases "invalidUri uri") (auto simp: SourceManager_update_def update_new_def Let_def)
next
  case (Some b)
  obtain i where "map_of (sm_identities m) uri = Some i" "\<not> invalidUri uri"
    using known_source [OF assms Some] .
  with Some that show ?thesis
    by (cases "update_known uri utf8 version b i m") (simp add: update_known_eq)
qed

lemma remove_inv_step:
  assumes inv: "manager_inv m" and rem: "SourceManager_remove uri m = (ok, m')"
  shows "manager_inv m'"
proof (cases "map_of (sm_sources m) uri")
  case None
  with inv rem show ?thesis by (simp add: SourceManager_remove_def)
next
  case (Some b)
  obtain i where i: "map_of (sm_identities m) uri = Some i"
    using known_source [OF inv Some] .
  with Some rem inv show ?thesis
    by (auto simp: SourceManager_remove_def Let_def manager_inv_iff entry_ok_iff split: if_splits)
qed

subsection \<open>What a lookup returns after an operation\<close>

lemma update_frame:
  assumes inv: "manager_inv m" and upd: "SourceManager_update uri utf8 version m = Some (r, m')"
    and "u \<noteq> uri"
  shows "SourceManager_get m' u = SourceManager_get m u"
    and "SourceManager_identity m' u = SourceManager_identity m u"
proof -
  have "map_of (sm_sources m') u = map_of (sm_sources m) u
      \<and> map_of (sm_identities m') u = map_of (sm_identities m) u"
    using inv upd
  proof (cases rule: update_cases)
    case new
    with \<open>u \<noteq> uri\<close> show ?thesis by (simp add: update_new_def Let_def store_buffer_def)
  next
    case (known b i)
    from known(7) show ?thesis
      by (cases rule: update_known_cases) (use \<open>u \<noteq> uri\<close> in \<open>simp_all add: store_buffer_def\<close>)
  qed simp
  then show "SourceManager_get m' u = SourceManager_get m u"
    and "SourceManager_identity m' u = SourceManager_identity m u"
    by (simp_all add: SourceManager_get_def SourceManager_identity_def)
qed

lemma update_accepted_text:
  assumes inv: "manager_inv m" and upd: "SourceManager_update uri utf8 version m = Some (r, m')"
    and acc: "ur_accepted r"
  shows "\<exists>b. SourceManager_get m' uri = Some b \<and> sb_text b = utf8
    \<and> SourceManager_identity m' uri = Some (ur_current r)"
  using inv upd
proof (cases rule: update_cases)
  case invalid
  with acc show ?thesis by (simp add: default_result_def)
next
  case new
  then show ?thesis
    by (simp add: update_new_def Let_def store_buffer_def SourceManager_get_def
        SourceManager_identity_def)
next
  case (known b i)
  from known(7) show ?thesis
    by (cases rule: update_known_cases)
       (use acc known in \<open>auto simp: store_buffer_def SourceManager_get_def
          SourceManager_identity_def default_result_def\<close>)
qed

lemma update_rejected_same:
  assumes inv: "manager_inv m" and upd: "SourceManager_update uri utf8 version m = Some (r, m')"
    and "\<not> ur_accepted r"
  shows "m' = m"
  using inv upd
proof (cases rule: update_cases)
  case new
  with assms(3) show ?thesis by (simp add: update_new_def Let_def)
next
  case (known b i)
  from known(7) show ?thesis
    by (cases rule: update_known_cases) (use assms(3) in simp_all)
qed simp

subsection \<open>Revisions\<close>

text \<open>How an update changes the revision of a source and the counter.\<close>

lemma update_revision_cases [consumes 2, case_names kept fresh]:
  assumes "manager_inv m" and "SourceManager_update uri utf8 version m = Some (r, m')"
  obtains "sm_nextContentRevision m' = sm_nextContentRevision m"
      "\<And>u. map_option contentRevision (map_of (sm_identities m') u)
           = map_option contentRevision (map_of (sm_identities m) u)"
      "\<And>u. map_option sb_text (map_of (sm_sources m') u)
           = map_option sb_text (map_of (sm_sources m) u)"
  | cur where "sm_nextContentRevision m' = sm_nextContentRevision m + 1"
      "map_of (sm_identities m') = (map_of (sm_identities m))(uri \<mapsto> cur)"
      "contentRevision cur = sm_nextContentRevision m + 1"
      "map_option sb_text (map_of (sm_sources m) uri) \<noteq> Some utf8"
      "map_of (sm_sources m') = (map_of (sm_sources m))
         (uri \<mapsto> \<lparr>sb_uri = uri, sb_text = utf8, sb_version = version\<rparr>)"
  using assms
proof (cases rule: update_cases)
  case invalid
  with that(1) show ?thesis by simp
next
  case new
  with that(2) show ?thesis by (simp add: update_new_def Let_def store_buffer_def)
next
  case (known b i)
  from known(7) show ?thesis
  proof (cases rule: update_known_cases)
    case version_only
    with known that(1) show ?thesis by simp
  next
    case (changed cur)
    with known that(2) [of cur] show ?thesis by (simp add: store_buffer_def)
  qed (use that(1) in simp_all)
qed

inductive manager_reach :: "nat \<Rightarrow> SourceManager \<Rightarrow> bool" where
  start: "manager_reach 0 empty_manager"
| update: "manager_reach n m \<Longrightarrow> SourceManager_update u t v m = Some (r, m') \<Longrightarrow>
    manager_reach (Suc n) m'"
| remove: "manager_reach n m \<Longrightarrow> SourceManager_remove u m = (ok, m') \<Longrightarrow>
    manager_reach (Suc n) m'"

lemma manager_reach_inv: "manager_reach n m \<Longrightarrow> manager_inv m"
  by (induction rule: manager_reach.induct)
     (auto intro: manager_inv_empty update_inv_step remove_inv_step)

text \<open>The lookup form of the freshness invariant, used in the induction over operations.\<close>

definition revisions_ok :: "SourceManager \<Rightarrow> bool" where
  "revisions_ok m \<longleftrightarrow>
     (\<forall>u i. map_of (sm_identities m) u = Some i \<longrightarrow> contentRevision i \<le> sm_nextContentRevision m)
     \<and> (\<forall>u v i j. map_of (sm_identities m) u = Some i \<longrightarrow> map_of (sm_identities m) v = Some j
          \<longrightarrow> contentRevision i = contentRevision j \<longrightarrow> u = v)"

lemma revisions_ok_update:
  assumes "manager_inv m" and "SourceManager_update u t v m = Some (r, m')"
    and ok: "revisions_ok m" and nowrap: "sm_nextContentRevision m \<noteq> - 1"
  shows "revisions_ok m'"
  using assms(1,2)
proof (cases rule: update_revision_cases)
  case kept
  have same: "\<exists>j. map_of (sm_identities m) w = Some j \<and> contentRevision i = contentRevision j"
    if "map_of (sm_identities m') w = Some i" for w i
    using kept(2) [of w] that by (auto simp: map_option_case split: option.splits)
  show ?thesis
    unfolding revisions_ok_def kept(1)
    using ok same unfolding revisions_ok_def by metis
next
  case (fresh cur)
  have gt: "contentRevision i < sm_nextContentRevision m + 1"
    if "map_of (sm_identities m) w = Some i" for w i
    using ok that nowrap unfolding revisions_ok_def by (blast intro: inc_greater_le)
  show ?thesis
    unfolding revisions_ok_def fresh(1)
  proof (intro conjI allI impI)
    fix w i assume "map_of (sm_identities m') w = Some i"
    then show "contentRevision i \<le> sm_nextContentRevision m + 1"
      using gt [of w i] fresh(2,3) by (auto split: if_splits)
  next
    fix w x i j
    assume "map_of (sm_identities m') w = Some i" "map_of (sm_identities m') x = Some j"
      and "contentRevision i = contentRevision j"
    moreover have "w = x" if "map_of (sm_identities m) w = Some i" "map_of (sm_identities m) x = Some j"
      using ok that \<open>contentRevision i = contentRevision j\<close> unfolding revisions_ok_def by blast
    ultimately show "w = x"
      using gt [of w i] gt [of x j] fresh(2,3) by (auto split: if_splits)
  qed
qed

lemma remove_revisions:
  assumes "SourceManager_remove u m = (ok, m')"
  shows "sm_nextContentRevision m' = sm_nextContentRevision m"
    and "map_of (sm_identities m') w = Some i \<Longrightarrow> map_of (sm_identities m) w = Some i"
  using assms
  by (auto simp: SourceManager_remove_def Let_def split: if_splits option.splits)

lemma manager_reach_counter:
  "manager_reach n m \<Longrightarrow> n < 2 ^ 64 \<Longrightarrow> unat (sm_nextContentRevision m) \<le> n"
proof (induction rule: manager_reach.induct)
  case start
  then show ?case by (simp add: empty_manager_def)
next
  case (update n m u t v r m')
  have IH: "unat (sm_nextContentRevision m) \<le> n" using update by simp
  from manager_reach_inv [OF update(1)] update(2) show ?case
  proof (cases rule: update_revision_cases)
    case kept
    then show ?thesis using IH by simp
  next
    case (fresh cur)
    have "unat (sm_nextContentRevision m + 1) \<le> unat (sm_nextContentRevision m) + 1"
      using unat_plus_if' [of "sm_nextContentRevision m" 1] by (simp split: if_splits)
    then show ?thesis using IH fresh(1) by simp
  qed
next
  case (remove n m u ok m')
  then show ?case by (simp add: remove_revisions(1))
qed

lemma manager_reach_revisions_ok: "manager_reach n m \<Longrightarrow> n < 2 ^ 64 \<Longrightarrow> revisions_ok m"
proof (induction rule: manager_reach.induct)
  case start
  then show ?case by (simp add: empty_manager_def revisions_ok_def)
next
  case (update n m u t v r m')
  have "unat (sm_nextContentRevision m) \<le> n"
    using update by (intro manager_reach_counter) simp_all
  then have "sm_nextContentRevision m \<noteq> - 1"
    using update.prems by (auto simp: unat_max_u64)
  then show ?case
    using revisions_ok_update [OF manager_reach_inv [OF update(1)] update(2)] update by simp
next
  case (remove n m u ok m')
  then show ?case
    using remove_revisions [OF remove(2)] unfolding revisions_ok_def by (metis Suc_lessD)
qed

subsection \<open>Properties\<close>

text \<open>Both operations that change the store keep its invariant, and an update never runs
  into the \<open>identities_.at(uri)\<close> exception: the keys of the buffers and of the identities
  agree, every identity carries the hash and the length of its buffer, and a live source is
  never also recorded as removed.\<close>

lemma source_operations_keep_inv:
  assumes "manager_inv m"
  shows "(\<exists>r m'. SourceManager_update uri utf8 version m = Some (r, m') \<and> manager_inv m')
    \<and> manager_inv (snd (SourceManager_remove uri m))"
proof -
  obtain r m' where "SourceManager_update uri utf8 version m = Some (r, m')"
    using update_total [OF assms] .
  with assms show ?thesis
    by (metis update_inv_step remove_inv_step prod.collapse)
qed

lemma source_operations_keep_inv_witness:
  "manager_inv empty_manager \<and> manager_inv (snd (SourceManager_remove ''a.ili'' empty_manager))"
  using source_operations_keep_inv [OF manager_inv_empty, of "''a.ili''"] manager_inv_empty by simp


definition example_manager :: SourceManager where
  "example_manager = snd (update_new ''a.ili'' ''MODEL A'' 3 empty_manager)"

lemma example_manager_update:
  "SourceManager_update ''a.ili'' ''MODEL A'' 3 empty_manager
     = Some (fst (update_new ''a.ili'' ''MODEL A'' 3 empty_manager), example_manager)"
  unfolding example_manager_def prod.collapse
  by (rule update_new_eq) (simp_all add: empty_manager_def invalidUri_def)

lemma example_manager_inv: "manager_inv example_manager"
  using update_inv_step [OF manager_inv_empty example_manager_update] .


text \<open>The visible document version of a source never goes back: after any update of any
  source the version of a known source is at least what it was.\<close>

lemma document_version_monotone:
  assumes "manager_inv m" and "SourceManager_update uri utf8 version m = Some (r, m')"
    and "SourceManager_identity m u = Some i"
  shows "\<exists>i'. SourceManager_identity m' u = Some i' \<and> documentVersion i \<le> documentVersion i'"
proof (cases "u = uri")
  case False
  then show ?thesis using update_frame(2) [OF assms(1,2)] assms(3) by simp
next
  case True
  from assms(1,2) show ?thesis
  proof (cases rule: update_cases)
    case invalid
    with assms(3) show ?thesis by simp
  next
    case new
    with assms(3) True show ?thesis by (simp add: SourceManager_identity_def)
  next
    case (known b j)
    then have "i = j" using assms(3) True by (simp add: SourceManager_identity_def)
    from known(7) show ?thesis
      by (cases rule: update_known_cases)
         (use True known assms(3) \<open>i = j\<close> in \<open>auto simp: SourceManager_identity_def store_buffer_def\<close>)
  qed
qed

lemma document_version_monotone_witness:
  "\<exists>i'. SourceManager_identity
      (snd (the (SourceManager_update ''a.ili'' ''MODEL B'' 0 example_manager))) ''a.ili'' = Some i'
    \<and> 3 \<le> documentVersion i'"
proof -
  obtain i where i: "SourceManager_identity example_manager ''a.ili'' = Some i" "documentVersion i = 3"
    by (simp add: example_manager_def update_new_def Let_def store_buffer_def empty_manager_def
        SourceManager_identity_def)
  obtain r m' where r: "SourceManager_update ''a.ili'' ''MODEL B'' 0 example_manager = Some (r, m')"
    using update_total [OF example_manager_inv] .
  from document_version_monotone [OF example_manager_inv r i(1)] show ?thesis
    using r i(2) by simp
qed

text \<open>A content revision identifies the bytes of a source: as long as fewer than
  \<open>2^64\<close> operations were made on the store, one further update keeps the revision of a
  source if and only if it keeps its bytes, and no two live sources share a revision.\<close>

lemma revision_identifies_bytes:
  assumes "manager_reach n m" and "n < 2 ^ 64 - 1"
    and "SourceManager_update uri utf8 version m = Some (r, m')"
    and "SourceManager_get m u = Some b" and "SourceManager_identity m u = Some i"
    and "SourceManager_get m' u = Some b'" and "SourceManager_identity m' u = Some i'"
  shows "(contentRevision i' = contentRevision i \<longleftrightarrow> sb_text b' = sb_text b)
    \<and> (\<forall>v j. SourceManager_identity m' v = Some j \<longrightarrow> contentRevision j = contentRevision i' \<longrightarrow> v = u)"
proof
  have ok: "revisions_ok m" and ok': "revisions_ok m'"
    using manager_reach_revisions_ok [OF assms(1)] assms(2)
      manager_reach_revisions_ok [OF manager_reach.update [OF assms(1,3)]] by simp_all
  show "\<forall>v j. SourceManager_identity m' v = Some j \<longrightarrow> contentRevision j = contentRevision i' \<longrightarrow> v = u"
    using ok' assms(7) unfolding revisions_ok_def SourceManager_identity_def by blast
  have "unat (sm_nextContentRevision m) < 2 ^ 64 - 1"
    using manager_reach_counter [OF assms(1)] assms(2) by simp
  then have nowrap: "sm_nextContentRevision m \<noteq> - 1"
    by (auto simp: unat_max_u64)
  have "contentRevision i \<le> sm_nextContentRevision m"
    using ok assms(5) unfolding revisions_ok_def SourceManager_identity_def by blast
  then have neq: "contentRevision i \<noteq> sm_nextContentRevision m + 1"
    using inc_greater_le [OF nowrap] by fastforce
  from manager_reach_inv [OF assms(1)] assms(3)
  show "contentRevision i' = contentRevision i \<longleftrightarrow> sb_text b' = sb_text b"
  proof (cases rule: update_revision_cases)
    case kept
    from kept(2) [of u] kept(3) [of u] show ?thesis
      using assms(4-7) by (simp add: SourceManager_get_def SourceManager_identity_def)
  next
    case (fresh cur)
    then show ?thesis
      using assms(4-7) neq
      by (cases "u = uri") (auto simp: SourceManager_get_def SourceManager_identity_def)
  qed
qed

lemma revision_identifies_bytes_witness:
  "contentRevision (the (SourceManager_identity
      (snd (the (SourceManager_update ''a.ili'' ''MODEL B'' 4 example_manager))) ''a.ili''))
   \<noteq> contentRevision (the (SourceManager_identity example_manager ''a.ili''))"
proof -
  have reach: "manager_reach 1 example_manager"
    using manager_reach.update [OF manager_reach.start example_manager_update] by simp
  obtain r m' where r: "SourceManager_update ''a.ili'' ''MODEL B'' 4 example_manager = Some (r, m')"
    using update_total [OF example_manager_inv] .
  obtain b i where b: "SourceManager_get example_manager ''a.ili'' = Some b"
    and i: "SourceManager_identity example_manager ''a.ili'' = Some i"
    and bt: "sb_text b = ''MODEL A''" "documentVersion i = 3"
    by (simp add: example_manager_def update_new_def Let_def store_buffer_def empty_manager_def
        SourceManager_get_def SourceManager_identity_def)
  have "(r, m') = update_known ''a.ili'' ''MODEL B'' 4 b i example_manager"
    using r b i by (auto simp: SourceManager_update_def SourceManager_get_def
        SourceManager_identity_def invalidUri_def)
  then have "ur_accepted r" using bt by (simp add: update_known_def Let_def)
  then obtain b' where b': "SourceManager_get m' ''a.ili'' = Some b'" "sb_text b' = ''MODEL B''"
      "SourceManager_identity m' ''a.ili'' = Some (ur_current r)"
    using update_accepted_text [OF example_manager_inv r] by blast
  have "1 < (2::nat) ^ 64 - 1" by simp
  from revision_identifies_bytes [OF reach this r b i b'(1,3), THEN conjunct1]
  have "contentRevision (ur_current r) \<noteq> contentRevision i"
    using b'(2) bt(1) by simp
  then show ?thesis using r i b'(3) by simp
qed

text \<open>Version zero and changed bytes split the two records of a source: the identity keeps
  the version it had, but the stored buffer is given version 0, although the comment at the
  start of the branch says that version zero must never downgrade an already known version.\<close>

theorem zero_version_downgrades_buffer:
  assumes "manager_inv m" and "SourceManager_get m uri = Some b"
    and "SourceManager_identity m uri = Some i" and "sb_text b \<noteq> utf8"
  shows "\<exists>r m' b' i'. SourceManager_update uri utf8 0 m = Some (r, m')
    \<and> SourceManager_get m' uri = Some b' \<and> SourceManager_identity m' uri = Some i'
    \<and> documentVersion i' = documentVersion i \<and> sb_version b' = 0"
proof -
  have known: "\<not> invalidUri uri" "map_of (sm_sources m) uri = Some b"
    "map_of (sm_identities m) uri = Some i"
    using assms known_source [OF assms(1), of uri b]
    by (auto simp: SourceManager_get_def SourceManager_identity_def)
  obtain r m' where upd: "SourceManager_update uri utf8 0 m = Some (r, m')"
    using update_total [OF assms(1)] .
  then have "(r, m') = update_known uri utf8 0 b i m" using known by (simp add: update_known_eq)
  then show ?thesis
    by (cases rule: update_known_cases)
       (use upd assms(4) in \<open>auto simp: store_buffer_def SourceManager_get_def
         SourceManager_identity_def\<close>)
qed

theorem zero_version_downgrades_buffer_witness:
  "\<exists>b'. SourceManager_get
      (snd (the (SourceManager_update ''a.ili'' ''MODEL B'' 0 example_manager))) ''a.ili'' = Some b'
    \<and> sb_version b' = 0"
proof -
  obtain b i where b: "SourceManager_get example_manager ''a.ili'' = Some b"
    and i: "SourceManager_identity example_manager ''a.ili'' = Some i"
    and bt: "sb_text b = ''MODEL A''"
    by (simp add: example_manager_def update_new_def Let_def store_buffer_def empty_manager_def
        SourceManager_get_def SourceManager_identity_def)
  have "sb_text b \<noteq> ''MODEL B''" using bt by simp
  from zero_version_downgrades_buffer [OF example_manager_inv b i this] show ?thesis
    by auto
qed

end
