(* ===== verification/Source_Range_Mapper.thy ===== *)
theory Source_Range_Mapper
  imports Source_Manager Diagnostic_Types
begin

unbundle bit_operations_syntax

section \<open>Mapping bytes to positions\<close>

text \<open>
  Model of source/core/SourceRangeMapper.cpp: the tolerant UTF-8 decoder, the table of
  positions that the constructor fills, the conversions to ranges and the normalisation of
  the text that is handed to the lexer. A \<open>std::uint32_t\<close> code point is a \<^typ>\<open>nat\<close>
  below \<open>2^21\<close>, so no operation wraps. A token of the parser runtime is the part of it the
  mapper reads: whether it is EOF and its two indices, \<open>None\<close> being \<open>INVALID_INDEX\<close>.
\<close>

subsection \<open>Decoding one code point\<close>

record DecodedCodepoint =
  dc_width :: nat
  dc_utf16Width :: nat
  dc_value :: nat

definition default_codepoint :: DecodedCodepoint where
  "default_codepoint = \<lparr>dc_width = 1, dc_utf16Width = 1, dc_value = 0xfffd\<rparr>"

definition continuation :: "char \<Rightarrow> bool" where
  "continuation c \<longleftrightarrow> byte_of c AND 0xc0 = 0x80"

abbreviation low6 :: "char \<Rightarrow> nat" where
  "low6 c \<equiv> byte_of c AND 0x3f"

definition value2 :: "nat \<Rightarrow> char \<Rightarrow> nat" where
  "value2 lead a = push_bit 6 (lead AND 0x1f) OR low6 a"

definition value3 :: "nat \<Rightarrow> char \<Rightarrow> char \<Rightarrow> nat" where
  "value3 lead a b = push_bit 12 (lead AND 0x0f) OR push_bit 6 (low6 a) OR low6 b"

definition value4 :: "nat \<Rightarrow> char \<Rightarrow> char \<Rightarrow> char \<Rightarrow> nat" where
  "value4 lead a b c = push_bit 18 (lead AND 0x07) OR push_bit 12 (low6 a)
     OR push_bit 6 (low6 b) OR low6 c"

definition two_byte :: "string \<Rightarrow> nat option" where
  "two_byte s = (case s of l # a # _ \<Rightarrow>
     if byte_of l AND 0xe0 = 0xc0 \<and> continuation a \<and> value2 (byte_of l) a \<ge> 0x80
     then Some (value2 (byte_of l) a) else None | _ \<Rightarrow> None)"

definition three_byte :: "string \<Rightarrow> nat option" where
  "three_byte s = (case s of l # a # b # _ \<Rightarrow>
     let v = value3 (byte_of l) a b in
     if byte_of l AND 0xf0 = 0xe0 \<and> continuation a \<and> continuation b
        \<and> v \<ge> 0x800 \<and> \<not> (v \<ge> 0xd800 \<and> v \<le> 0xdfff)
     then Some v else None | _ \<Rightarrow> None)"

definition four_byte :: "string \<Rightarrow> nat option" where
  "four_byte s = (case s of l # a # b # c # _ \<Rightarrow>
     let v = value4 (byte_of l) a b c in
     if byte_of l AND 0xf8 = 0xf0 \<and> continuation a \<and> continuation b \<and> continuation c
        \<and> v \<ge> 0x10000 \<and> v \<le> 0x10ffff
     then Some v else None | _ \<Rightarrow> None)"

text \<open>The code tests the lead byte and the number of remaining bytes before it reads further;
  reading \<open>text + offset\<close> is the suffix of the text.\<close>

definition decode_head :: "string \<Rightarrow> DecodedCodepoint" where
  "decode_head s = (case s of
     [] \<Rightarrow> default_codepoint
   | l # _ \<Rightarrow>
       if byte_of l < 0x80 then \<lparr>dc_width = 1, dc_utf16Width = 1, dc_value = byte_of l\<rparr>
       else case two_byte s of
         Some v \<Rightarrow> \<lparr>dc_width = 2, dc_utf16Width = 1, dc_value = v\<rparr>
       | None \<Rightarrow> case three_byte s of
           Some v \<Rightarrow> \<lparr>dc_width = 3, dc_utf16Width = 1, dc_value = v\<rparr>
         | None \<Rightarrow> case four_byte s of
             Some v \<Rightarrow> \<lparr>dc_width = 4, dc_utf16Width = 2, dc_value = v\<rparr>
           | None \<Rightarrow> default_codepoint)"

definition decode :: "string \<Rightarrow> nat \<Rightarrow> DecodedCodepoint" where
  "decode text offset = decode_head (drop offset text)"

lemma two_byte_length: "two_byte s = Some v \<Longrightarrow> 2 \<le> length s"
  by (auto simp: two_byte_def split: list.splits if_splits)

lemma three_byte_length: "three_byte s = Some v \<Longrightarrow> 3 \<le> length s"
  by (auto simp: three_byte_def Let_def split: list.splits if_splits)

lemma four_byte_length: "four_byte s = Some v \<Longrightarrow> 4 \<le> length s"
  by (auto simp: four_byte_def Let_def split: list.splits if_splits)

lemma decode_head_width:
  "s \<noteq> [] \<Longrightarrow> 1 \<le> dc_width (decode_head s) \<and> dc_width (decode_head s) \<le> length s"
  by (auto simp: decode_head_def default_codepoint_def Suc_le_eq
      dest: two_byte_length three_byte_length four_byte_length split: list.splits option.splits)

lemma decode_head_width_pos [simp]: "0 < dc_width (decode_head s)"
  by (auto simp: decode_head_def default_codepoint_def split: list.splits option.splits)

lemma decode_head_width_nonzero [simp]: "dc_width (decode_head s) \<noteq> 0"
  using decode_head_width_pos [of s] by simp

subsection \<open>The position table\<close>

record mapper_state =
  ms_positions :: "SourcePosition list"
  ms_codepointToByte :: "nat list"
  ms_current :: SourcePosition
  ms_offset :: nat

fun fill_interior :: "SourcePosition \<Rightarrow> nat \<Rightarrow> nat \<Rightarrow> nat \<Rightarrow> SourcePosition list \<Rightarrow> SourcePosition list" where
  "fill_interior current offset index 0 ps = ps"
| "fill_interior current offset index (Suc n) ps =
     fill_interior current offset (Suc index) n
       (ps[offset + index := current\<lparr>sp_offset := offset + index\<rparr>])"

definition advance :: "DecodedCodepoint \<Rightarrow> SourcePosition \<Rightarrow> SourcePosition" where
  "advance v current =
     (if dc_value v = 10 then current\<lparr>sp_line := sp_line current + 1, sp_utf16Column := 0\<rparr>
      else current\<lparr>sp_utf16Column := sp_utf16Column current + dc_utf16Width v\<rparr>)"

definition mapper_body :: "string \<Rightarrow> mapper_state \<Rightarrow> mapper_state" where
  "mapper_body text st =
     (let offset = ms_offset st;
          current = (ms_current st)\<lparr>sp_offset := offset\<rparr>;
          ps = (ms_positions st)[offset := current];
          value = decode text offset;
          width = min (dc_width value) (length text - offset);
          ps' = fill_interior current offset 1 (width - 1) ps;
          offset' = offset + width;
          current' = (advance value current)\<lparr>sp_offset := offset'\<rparr> in
      \<lparr>ms_positions = ps'[offset' := current'],
       ms_codepointToByte = ms_codepointToByte st @ [offset'],
       ms_current = current', ms_offset = offset'\<rparr>)"

lemma loop_progress: "0 < w \<Longrightarrow> k < n \<Longrightarrow> n - (k + min w (n - k)) < n - (k :: nat)"
  by (auto simp: min_def)

function mapper_loop :: "string \<Rightarrow> mapper_state \<Rightarrow> mapper_state" where
  "mapper_loop text st =
     (if ms_offset st < length text then mapper_loop text (mapper_body text st) else st)"
  by pat_completeness auto
termination
proof (relation "measure (\<lambda>(text, st). length text - ms_offset st)")
  fix s :: string and st :: mapper_state assume "ms_offset st < length s"
  then show "((s, mapper_body s st), s, st) \<in> measure (\<lambda>(text, st). length text - ms_offset st)"
    by (simp add: mapper_body_def Let_def decode_def loop_progress)
qed simp

declare mapper_loop.simps [simp del]

definition mapper_init :: "string \<Rightarrow> mapper_state" where
  "mapper_init text = \<lparr>ms_positions = replicate (length text + 1) default_position,
     ms_codepointToByte = [0], ms_current = default_position, ms_offset = 0\<rparr>"

text \<open>The constructor; the table is never empty, so the two emptiness guards of the code
  (\<open>positions_.empty()\<close>) do not apply, and its last entry gets the text size as offset.\<close>

record SourceRangeMapper =
  rm_source :: SourceBuffer
  rm_positions :: "SourcePosition list"
  rm_codepointToByte :: "nat list"

definition make_SourceRangeMapper :: "SourceBuffer \<Rightarrow> SourceRangeMapper" where
  "make_SourceRangeMapper source =
     (let text = sb_text source;
          st = mapper_loop text (mapper_init text);
          ps = (if ms_positions st = [] then ms_positions st @ [ms_current st] else ms_positions st);
          l = length ps - 1 in
      \<lparr>rm_source = source, rm_positions = ps[l := (ps ! l)\<lparr>sp_offset := length text\<rparr>],
       rm_codepointToByte = ms_codepointToByte st\<rparr>)"

definition positionFromByteOffset :: "SourceRangeMapper \<Rightarrow> nat \<Rightarrow> SourcePosition" where
  "positionFromByteOffset rm offset =
     (if rm_positions rm = [] then default_position
      else rm_positions rm ! min offset (length (sb_text (rm_source rm))))"

definition byteOffsetFromCodepointOffset :: "SourceRangeMapper \<Rightarrow> nat \<Rightarrow> nat" where
  "byteOffsetFromCodepointOffset rm offset =
     (if rm_codepointToByte rm = [] then 0
      else rm_codepointToByte rm ! min offset (length (rm_codepointToByte rm) - 1))"

definition to_Position :: "SourcePosition \<Rightarrow> Position" where
  "to_Position p = \<lparr>po_line = sp_line p, po_character = sp_utf16Column p, po_byteOffset = sp_offset p\<rparr>"

definition mapper_range :: "SourceRangeMapper \<Rightarrow> string \<Rightarrow> nat \<Rightarrow> nat \<Rightarrow> SourceRange" where
  "mapper_range rm uri b e =
     (let n = length (sb_text (rm_source rm));
          b' = min b n;
          e' = min (max e b') n in
      \<lparr>sr_uri = uri, sr_start = to_Position (positionFromByteOffset rm b'),
       sr_end = to_Position (positionFromByteOffset rm e'), sr_valid = True\<rparr>)"

definition codepointRange :: "SourceRangeMapper \<Rightarrow> nat \<Rightarrow> nat \<Rightarrow> SourceRange" where
  "codepointRange rm b e = mapper_range rm (sb_uri (rm_source rm))
     (byteOffsetFromCodepointOffset rm b) (byteOffsetFromCodepointOffset rm e)"

definition eof_range :: "SourceRangeMapper \<Rightarrow> SourceRange" where
  "eof_range rm = mapper_range rm (sb_uri (rm_source rm))
     (length (sb_text (rm_source rm))) (length (sb_text (rm_source rm)))"

record token_info =
  ti_isEof :: bool
  ti_startIndex :: "nat option"
  ti_stopIndex :: "nat option"

definition stop_end :: "nat \<Rightarrow> nat option \<Rightarrow> nat" where
  "stop_end start stop = (case stop of None \<Rightarrow> start | Some e \<Rightarrow> if e < start then start else e + 1)"

definition token_range :: "SourceRangeMapper \<Rightarrow> token_info option \<Rightarrow> SourceRange" where
  "token_range rm token = (case token of
     None \<Rightarrow> default_range
   | Some t \<Rightarrow> if ti_isEof t then eof_range rm
       else case ti_startIndex t of
         None \<Rightarrow> default_range
       | Some start \<Rightarrow> codepointRange rm start (stop_end start (ti_stopIndex t)))"

text \<open>A rule context is the pair of its start and stop token.\<close>

definition context_range ::
  "SourceRangeMapper \<Rightarrow> (token_info option \<times> token_info option) option \<Rightarrow> SourceRange" where
  "context_range rm ctx = (case ctx of
     None \<Rightarrow> default_range
   | Some (startToken, stopToken) \<Rightarrow> case startToken of
       None \<Rightarrow> eof_range rm
     | Some t \<Rightarrow> if ti_isEof t then eof_range rm
         else case ti_startIndex t of
           None \<Rightarrow> eof_range rm
         | Some start \<Rightarrow> case stopToken of
             None \<Rightarrow> codepointRange rm start (length (rm_codepointToByte rm) - 1)
           | Some e \<Rightarrow> if ti_isEof e
               then codepointRange rm start (length (rm_codepointToByte rm) - 1)
               else codepointRange rm start (stop_end start (ti_stopIndex e)))"

subsection \<open>Normalised text\<close>

definition invalid_head :: "string \<Rightarrow> bool" where
  "invalid_head s \<longleftrightarrow> dc_width (decode_head s) = 1 \<and> s \<noteq> [] \<and> 0x80 \<le> byte_of (hd s)"

definition replacement :: string where
  "replacement = [CHR 0xEF, CHR 0xBF, CHR 0xBD]"

function normalize_loop :: "string \<Rightarrow> string" where
  "normalize_loop s =
     (if s = [] then []
      else if invalid_head s then replacement @ normalize_loop (tl s)
      else take (dc_width (decode_head s)) s @ normalize_loop (drop (dc_width (decode_head s)) s))"
  by pat_completeness auto
termination
  by (relation "measure length") (auto simp: diff_less)

declare normalize_loop.simps [simp del]

definition normalizedUtf8 :: "SourceRangeMapper \<Rightarrow> string" where
  "normalizedUtf8 rm =
     (let n = normalize_loop (sb_text (rm_source rm)) in
      if n \<noteq> [] \<and> last n \<noteq> CHR 0x0A then n @ [CHR 0x0A] else n)"

subsection \<open>The manager's own position query\<close>

definition SourceManager_position :: "SourceManager \<Rightarrow> string \<Rightarrow> nat \<Rightarrow> SourcePosition" where
  "SourceManager_position m uri byteOffset = (case SourceManager_get m uri of
     None \<Rightarrow> default_position
   | Some source \<Rightarrow> positionFromByteOffset (make_SourceRangeMapper source) byteOffset)"

subsection \<open>The table agrees with a direct walk over the text\<close>

text \<open>\<open>walk s p k\<close> is the position \<open>k\<close> bytes into \<open>s\<close>, starting at position \<open>p\<close>: the
  reference against which the table is checked.\<close>

function walk :: "string \<Rightarrow> SourcePosition \<Rightarrow> nat \<Rightarrow> SourcePosition" where
  "walk s p k =
     (if s = [] then p
      else
        let v = decode_head s in
        if k < dc_width v then p\<lparr>sp_offset := sp_offset p + k\<rparr>
        else walk (drop (dc_width v) s)
               ((advance v p)\<lparr>sp_offset := sp_offset p + dc_width v\<rparr>) (k - dc_width v))"
  by pat_completeness auto
termination
  by (relation "measure (\<lambda>(s, p, k). length s)") auto

declare walk.simps [simp del]

lemma length_fill_interior [simp]: "length (fill_interior c off i n ps) = length ps"
  by (induction c off i n ps rule: fill_interior.induct) auto

lemma nth_fill_interior:
  "off + i + n \<le> length ps \<Longrightarrow> k < length ps \<Longrightarrow>
   fill_interior c off i n ps ! k =
     (if off + i \<le> k \<and> k < off + i + n then c\<lparr>sp_offset := k\<rparr> else ps ! k)"
  by (induction c off i n ps rule: fill_interior.induct) (auto simp: nth_list_update)

definition mapper_ok :: "string \<Rightarrow> mapper_state \<Rightarrow> bool" where
  "mapper_ok t st \<longleftrightarrow> length (ms_positions st) = length t + 1 \<and> ms_offset st \<le> length t
     \<and> ms_positions st ! ms_offset st = ms_current st \<and> sp_offset (ms_current st) = ms_offset st"

lemma sp_offset_self: "sp_offset p = k \<Longrightarrow> p\<lparr>sp_offset := k\<rparr> = p"
  by (cases p) simp

lemma mapper_body_ok:
  assumes ok: "mapper_ok t st" and lt: "ms_offset st < length t"
  defines "w \<equiv> dc_width (decode_head (drop (ms_offset st) t))"
  shows "mapper_ok t (mapper_body t st)"
    and "ms_offset (mapper_body t st) = ms_offset st + w"
    and "ms_current (mapper_body t st) = (advance (decode_head (drop (ms_offset st) t)) (ms_current st))
           \<lparr>sp_offset := ms_offset st + w\<rparr>"
    and "ms_codepointToByte (mapper_body t st) = ms_codepointToByte st @ [ms_offset st + w]"
    and "k < ms_offset st + w \<Longrightarrow> ms_positions (mapper_body t st) ! k =
       (if k < ms_offset st then ms_positions st ! k else (ms_current st)\<lparr>sp_offset := k\<rparr>)"
proof -
  have w: "1 \<le> w" "w \<le> length t - ms_offset st"
    using decode_head_width [of "drop (ms_offset st) t"] lt by (simp_all add: w_def)
  have width: "min (dc_width (decode t (ms_offset st))) (length t - ms_offset st) = w"
    using w by (simp add: decode_def w_def)
  have cur: "(ms_current st)\<lparr>sp_offset := ms_offset st\<rparr> = ms_current st"
    using ok by (intro sp_offset_self) (simp add: mapper_ok_def)
  show "ms_offset (mapper_body t st) = ms_offset st + w"
    "ms_codepointToByte (mapper_body t st) = ms_codepointToByte st @ [ms_offset st + w]"
    "ms_current (mapper_body t st) = (advance (decode_head (drop (ms_offset st) t)) (ms_current st))
       \<lparr>sp_offset := ms_offset st + w\<rparr>"
    using cur by (simp_all add: mapper_body_def Let_def width) (simp add: decode_def)
  show "mapper_ok t (mapper_body t st)"
    using ok w by (simp add: mapper_ok_def mapper_body_def Let_def width)
  show "ms_positions (mapper_body t st) ! k =
       (if k < ms_offset st then ms_positions st ! k else (ms_current st)\<lparr>sp_offset := k\<rparr>)"
    if "k < ms_offset st + w"
    using ok w that cur
    by (auto simp: mapper_ok_def mapper_body_def Let_def width nth_fill_interior nth_list_update
        not_less_eq_eq)
qed

lemma mapper_loop_walk:
  assumes "mapper_ok t st"
  shows "length (ms_positions (mapper_loop t st)) = length t + 1 \<and>
    (\<forall>k \<le> length t. ms_positions (mapper_loop t st) ! k =
      (if k < ms_offset st then ms_positions st ! k
       else walk (drop (ms_offset st) t) (ms_current st) (k - ms_offset st)))"
  using assms
proof (induction t st rule: mapper_loop.induct)
  case (1 t st)
  show ?case
  proof (cases "ms_offset st < length t")
    case False
    with 1(2) show ?thesis
      by (auto simp: mapper_loop.simps [of t st] mapper_ok_def walk.simps)
  next
    case True
    let ?s = "drop (ms_offset st) t"
    let ?b = "mapper_body t st"
    note body = mapper_body_ok [OF 1(2) True]
    have ne: "?s \<noteq> []" using True by simp
    have IH: "length (ms_positions (mapper_loop t ?b)) = length t + 1 \<and>
      (\<forall>k \<le> length t. ms_positions (mapper_loop t ?b) ! k =
        (if k < ms_offset ?b then ms_positions ?b ! k
         else walk (drop (ms_offset ?b) t) (ms_current ?b) (k - ms_offset ?b)))"
      using 1(1) [OF True body(1)] .
    have "sp_offset (ms_current st) = ms_offset st"
      using 1(2) by (simp add: mapper_ok_def)
    then have "walk ?s (ms_current st) (k - ms_offset st) =
        (if k < ms_offset ?b then (ms_current st)\<lparr>sp_offset := k\<rparr>
         else walk (drop (ms_offset ?b) t) (ms_current ?b) (k - ms_offset ?b))"
      if "ms_offset st \<le> k" for k
      using ne that
      by (subst walk.simps) (auto simp: Let_def body(2,3) add.commute)
    then show ?thesis
      using IH True by (auto simp: mapper_loop.simps [of t st] body(2,5))
  qed
qed

lemma mapper_init_ok: "mapper_ok t (mapper_init t)"
  by (simp add: mapper_ok_def mapper_init_def default_position_def)

lemma sp_offset_walk: "sp_offset (walk s p k) = sp_offset p + min k (length s)"
proof (induction s p k rule: walk.induct)
  case (1 s p k)
  show ?case
  proof (cases "s = [] \<or> k < dc_width (decode_head s)")
    case True
    then show ?thesis
      using decode_head_width [of s] by (subst walk.simps) (auto simp: Let_def)
  next
    case False
    with 1 [OF _ refl] show ?thesis
      using decode_head_width [of s] by (subst walk.simps) (auto simp: Let_def)
  qed
qed

lemma table_is_walk:
  assumes "k \<le> length (sb_text source)"
  shows "positionFromByteOffset (make_SourceRangeMapper source) k =
    walk (sb_text source) default_position k"
proof -
  let ?t = "sb_text source"
  let ?ps = "ms_positions (mapper_loop ?t (mapper_init ?t))"
  have len: "length ?ps = length ?t + 1"
    and nth: "\<And>j. j \<le> length ?t \<Longrightarrow> ?ps ! j = walk ?t default_position j"
    using mapper_loop_walk [OF mapper_init_ok, of ?t] by (auto simp: mapper_init_def)
  have "(?ps ! length ?t)\<lparr>sp_offset := length ?t\<rparr> = ?ps ! length ?t"
    using nth [of "length ?t"] by (intro sp_offset_self) (simp add: sp_offset_walk default_position_def)
  moreover have "?ps \<noteq> []" using len by auto
  ultimately have "rm_positions (make_SourceRangeMapper source) = ?ps"
    using len by (simp add: make_SourceRangeMapper_def Let_def)
  moreover have "rm_source (make_SourceRangeMapper source) = source"
    by (simp add: make_SourceRangeMapper_def Let_def)
  ultimately show ?thesis
    using assms nth \<open>?ps \<noteq> []\<close> by (simp add: positionFromByteOffset_def min_absorb1)
qed

subsection \<open>Lines\<close>

lemma AND_high_bits:
  fixes b :: nat
  assumes "b < 256"
  shows "b AND push_bit k (mask (8 - k)) = 2 ^ k * (b div 2 ^ k)"
proof -
  have "take_bit 8 b = b" using assms by (simp add: take_bit_nat_eq_self)
  then have "bit b n \<Longrightarrow> n < 8" for n by (metis bit_take_bit_iff)
  then have "b AND push_bit k (mask (8 - k)) = push_bit k (drop_bit k b)"
    by (intro bit_eqI) (auto simp: bit_simps diff_less_mono)
  then show ?thesis by (simp add: push_bit_eq_mult drop_bit_eq_div mult.commute)
qed

lemma div_window:
  fixes b m q :: nat
  assumes "0 < m"
  shows "m * (b div m) = m * q \<longleftrightarrow> m * q \<le> b \<and> b < m * q + m"
proof
  assume "m * (b div m) = m * q"
  then show "m * q \<le> b \<and> b < m * q + m"
    using times_div_less_eq_dividend [of m b] dividend_less_times_div [OF assms, of b] by simp
next
  assume "m * q \<le> b \<and> b < m * q + m"
  then have "b div m = q" by (intro div_nat_eqI) (simp_all add: mult.commute)
  then show "m * (b div m) = m * q" by simp
qed

lemma byte_AND_facts:
  fixes b :: nat
  assumes "b < 256"
  shows "b AND 0xc0 = 0x80 \<longleftrightarrow> 0x80 \<le> b \<and> b < 0xc0"
    and "b AND 0xe0 = 0xc0 \<longleftrightarrow> 0xc0 \<le> b \<and> b < 0xe0"
    and "b AND 0xf0 = 0xe0 \<longleftrightarrow> 0xe0 \<le> b \<and> b < 0xf0"
    and "b AND 0xf8 = 0xf0 \<longleftrightarrow> 0xf0 \<le> b \<and> b < 0xf8"
proof -
  have "b AND 0xc0 = 64 * (b div 64)" "b AND 0xe0 = 32 * (b div 32)"
    "b AND 0xf0 = 16 * (b div 16)" "b AND 0xf8 = 8 * (b div 8)"
    using AND_high_bits [OF assms, of 6] AND_high_bits [OF assms, of 5]
      AND_high_bits [OF assms, of 4] AND_high_bits [OF assms, of 3]
    by (simp_all add: mask_eq_exp_minus_1 push_bit_eq_mult)
  then show "b AND 0xc0 = 0x80 \<longleftrightarrow> 0x80 \<le> b \<and> b < 0xc0"
    "b AND 0xe0 = 0xc0 \<longleftrightarrow> 0xc0 \<le> b \<and> b < 0xe0"
    "b AND 0xf0 = 0xe0 \<longleftrightarrow> 0xe0 \<le> b \<and> b < 0xf0"
    "b AND 0xf8 = 0xf0 \<longleftrightarrow> 0xf0 \<le> b \<and> b < 0xf8"
    using div_window [of 64 b 2] div_window [of 32 b 6] div_window [of 16 b 14] div_window [of 8 b 30]
    by simp_all
qed

lemma byte_of_less [simp]: "byte_of c < 256"
  using of_char_mod_256 [of c, where ?'a = nat] by (metis mod_less_divisor zero_less_numeral)

lemma continuation_iff: "continuation c \<longleftrightarrow> 0x80 \<le> byte_of c \<and> byte_of c < 0xc0"
  by (simp add: continuation_def byte_AND_facts)

definition newlines :: "string \<Rightarrow> nat" where
  "newlines s = length (filter (\<lambda>c. c = CHR 0x0A) s)"

lemma newlines_simps [simp]:
  "newlines [] = 0"
  "newlines (c # s) = (if c = CHR 0x0A then 1 else 0) + newlines s"
  "newlines (s @ t) = newlines s + newlines t"
  by (simp_all add: newlines_def)

lemma high_not_newline: "0x80 \<le> byte_of c \<Longrightarrow> c \<noteq> CHR 0x0A"
  by auto

lemma newlines_high: "\<forall>c \<in> set s. 0x80 \<le> byte_of c \<Longrightarrow> newlines s = 0"
  by (induction s) (auto dest: high_not_newline)

text \<open>Every byte of a code point that is not ASCII is at least \<open>0x80\<close>.\<close>

lemma wide_bytes_high:
  assumes "s \<noteq> []" and "0x80 \<le> byte_of (hd s)"
  shows "\<forall>c \<in> set (take (dc_width (decode_head s)) s). 0x80 \<le> byte_of c"
  using assms
  by (auto simp: decode_head_def default_codepoint_def two_byte_def three_byte_def four_byte_def
      continuation_iff Let_def split: list.splits option.splits if_splits)

lemma wide_value_not_newline:
  assumes "s \<noteq> []" and "0x80 \<le> byte_of (hd s)"
  shows "dc_value (decode_head s) \<noteq> 10"
  using assms
  by (auto simp: decode_head_def default_codepoint_def two_byte_def three_byte_def four_byte_def
      Let_def split: list.splits option.splits if_splits)

lemma ascii_head:
  "s \<noteq> [] \<Longrightarrow> byte_of (hd s) < 0x80 \<Longrightarrow>
     decode_head s = \<lparr>dc_width = 1, dc_utf16Width = 1, dc_value = byte_of (hd s)\<rparr>"
  by (cases s) (simp_all add: decode_head_def)

lemma newline_byte: "byte_of c = 10 \<longleftrightarrow> c = CHR 0x0A"
proof
  assume "byte_of c = 10"
  then have "byte_of c = byte_of (CHR 0x0A)" by simp
  then show "c = CHR 0x0A" by (simp only: of_char_eq_iff)
qed simp

lemma advance_lines:
  assumes "s \<noteq> []"
  shows "sp_line (advance (decode_head s) p) =
    sp_line p + newlines (take (dc_width (decode_head s)) s)"
proof (cases "byte_of (hd s) < 0x80")
  case True
  with assms show ?thesis
    by (cases s) (auto simp: ascii_head advance_def newline_byte)
next
  case False
  with assms show ?thesis
    using wide_value_not_newline [of s] newlines_high [OF wide_bytes_high [of s]]
    by (simp add: advance_def)
qed

lemma interior_no_newline:
  assumes "s \<noteq> []" and "k < dc_width (decode_head s)"
  shows "newlines (take k s) = 0"
proof (cases "byte_of (hd s) < 0x80")
  case True
  with assms show ?thesis by (simp add: ascii_head)
next
  case False
  have "set (take k s) \<subseteq> set (take (dc_width (decode_head s)) s)"
    using assms(2) by (intro set_take_subset_set_take) simp
  with False assms(1) wide_bytes_high [of s] show ?thesis
    by (intro newlines_high) (auto simp: not_less)
qed

lemma sp_line_walk: "sp_line (walk s p k) = sp_line p + newlines (take k s)"
proof (induction s p k rule: walk.induct)
  case (1 s p k)
  let ?w = "dc_width (decode_head s)"
  show ?case
  proof (cases "s = [] \<or> k < ?w")
    case True
    then show ?thesis
      by (subst walk.simps) (auto simp: Let_def interior_no_newline)
  next
    case False
    then have "take k s = take ?w s @ take (k - ?w) (drop ?w s)"
      by (metis le_add_diff_inverse not_less take_add)
    with False 1 [OF _ refl] show ?thesis
      by (subst walk.simps) (simp add: Let_def advance_lines)
  qed
qed

subsection \<open>Well-formed text\<close>

function wellformed :: "string \<Rightarrow> bool" where
  "wellformed s =
     (if s = [] then True
      else if invalid_head s then False
      else wellformed (drop (dc_width (decode_head s)) s))"
  by pat_completeness auto
termination
  by (relation "measure length") auto

declare wellformed.simps [simp del]

lemma wellformed_Nil [simp]: "wellformed []"
  by (simp add: wellformed.simps)

lemma two_byte_prefix:
  assumes "2 \<le> n" and "n \<le> length s"
  shows "two_byte (take n s @ t) = two_byte s"
proof -
  obtain l a r where "s = l # a # r"
    using assms by (cases s rule: remdups_adj.cases) auto
  with assms show ?thesis by (simp add: two_byte_def take_Cons')
qed

lemma three_byte_prefix:
  assumes "3 \<le> n" and "n \<le> length s"
  shows "three_byte (take n s @ t) = three_byte s"
proof -
  obtain l a r where s: "s = l # a # r"
    using assms by (cases s rule: remdups_adj.cases) auto
  with assms obtain b r' where "r = b # r'" by (cases r) auto
  with s assms show ?thesis by (simp add: three_byte_def take_Cons')
qed

lemma four_byte_prefix:
  assumes "4 \<le> n" and "n \<le> length s"
  shows "four_byte (take n s @ t) = four_byte s"
proof -
  obtain l a r where s: "s = l # a # r"
    using assms by (cases s rule: remdups_adj.cases) auto
  with assms obtain b c r' where "r = b # c # r'"
    by (cases r rule: remdups_adj.cases) auto
  with s assms show ?thesis by (simp add: four_byte_def take_Cons')
qed

lemma decode_head_wide:
  assumes "s \<noteq> []" and "0x80 \<le> byte_of (hd s)"
  shows "decode_head s = (case two_byte s of
         Some v \<Rightarrow> \<lparr>dc_width = 2, dc_utf16Width = 1, dc_value = v\<rparr>
       | None \<Rightarrow> case three_byte s of
           Some v \<Rightarrow> \<lparr>dc_width = 3, dc_utf16Width = 1, dc_value = v\<rparr>
         | None \<Rightarrow> case four_byte s of
             Some v \<Rightarrow> \<lparr>dc_width = 4, dc_utf16Width = 2, dc_value = v\<rparr>
           | None \<Rightarrow> default_codepoint)"
  using assms by (cases s) (auto simp: decode_head_def)

lemma hd_take_width: "s \<noteq> [] \<Longrightarrow> hd (take (dc_width (decode_head s)) s @ t) = hd s"
  by (simp add: hd_append hd_take)

lemma decode_head_prefix:
  assumes "s \<noteq> []" and "\<not> invalid_head s"
  shows "decode_head (take (dc_width (decode_head s)) s @ t) = decode_head s"
proof (cases "byte_of (hd s) < 0x80")
  case True
  with assms(1) show ?thesis by (cases s) (simp_all add: decode_head_def)
next
  case False
  let ?w = "dc_width (decode_head s)"
  have w: "?w \<le> length s" using decode_head_width [OF assms(1)] by simp
  have wide: "?w \<noteq> 1" using False assms by (simp add: invalid_head_def)
  have ne: "take ?w s @ t \<noteq> []" using assms(1) by simp
  have hd: "0x80 \<le> byte_of (hd (take ?w s @ t))" using False assms(1) by (simp add: hd_take_width)
  note heads = decode_head_wide [OF assms(1)] decode_head_wide [OF ne hd]
  show ?thesis
  proof (cases "two_byte s")
    case (Some v)
    then have "?w = 2" using heads(1) False by simp
    then show ?thesis using heads False Some two_byte_prefix [OF _ w, of t] by simp
  next
    case None2: None
    show ?thesis
    proof (cases "three_byte s")
      case (Some v)
      then have "?w = 3" using heads(1) False None2 by simp
      then show ?thesis
        using heads False None2 Some two_byte_prefix [OF _ w, of t] three_byte_prefix [OF _ w, of t]
        by simp
    next
      case None3: None
      then have "?w = 4"
        using heads(1) False None2 wide by (auto simp: default_codepoint_def split: option.splits)
      then show ?thesis
        using heads False None2 None3 two_byte_prefix [OF _ w, of t]
          three_byte_prefix [OF _ w, of t] four_byte_prefix [OF _ w, of t]
        by simp
    qed
  qed
qed

lemma wellformed_prepend:
  assumes "s \<noteq> []" and "\<not> invalid_head s" and "wellformed t"
  shows "wellformed (take (dc_width (decode_head s)) s @ t)"
proof -
  let ?w = "dc_width (decode_head s)"
  have w: "?w \<le> length s" using decode_head_width [OF assms(1)] by simp
  have "\<not> invalid_head (take ?w s @ t)"
    using assms(1,2) by (simp add: invalid_head_def decode_head_prefix hd_take_width)
  moreover have "drop ?w (take ?w s @ t) = t" using w by simp
  ultimately show ?thesis
    using assms by (subst wellformed.simps) (simp add: decode_head_prefix)
qed

lemma replacement_head:
  "decode_head (replacement @ t) = \<lparr>dc_width = 3, dc_utf16Width = 1, dc_value = 0xfffd\<rparr>"
  by (simp add: replacement_def decode_head_def two_byte_def three_byte_def continuation_def
      value2_def value3_def Let_def)

lemma wellformed_replacement: "wellformed t \<Longrightarrow> wellformed (replacement @ t)"
  by (subst wellformed.simps)
     (simp add: invalid_head_def replacement_head, simp add: replacement_def)

lemma wellformed_normalize_loop: "wellformed (normalize_loop s)"
proof (induction s rule: normalize_loop.induct)
  case (1 s)
  then show ?case
    by (subst normalize_loop.simps) (auto intro: wellformed_replacement wellformed_prepend)
qed

lemma normalize_wellformed: "wellformed s \<Longrightarrow> normalize_loop s = s"
proof (induction s rule: normalize_loop.induct)
  case (1 s)
  then show ?case
    by (subst normalize_loop.simps) (auto simp: wellformed.simps [of s])
qed

lemma wellformed_append: "wellformed s \<Longrightarrow> wellformed t \<Longrightarrow> wellformed (s @ t)"
proof (induction s rule: normalize_loop.induct)
  case (1 s)
  show ?case
  proof (cases "s = []")
    case False
    let ?w = "dc_width (decode_head s)"
    have ok: "\<not> invalid_head s" "wellformed (drop ?w s)"
      using 1(3) False by (simp_all add: wellformed.simps [of s] split: if_splits)
    then have "wellformed (take ?w s @ (drop ?w s @ t))"
      using False 1(2) [OF False ok(1) ok(2) 1(4)] by (intro wellformed_prepend)
    then show ?thesis by (simp add: append_assoc [symmetric] del: append_assoc)
  qed (use 1 in simp)
qed

lemma wellformed_newline: "wellformed [CHR 0x0A]"
  by (simp add: wellformed.simps [of "[CHR 0x0A]"] invalid_head_def decode_head_def)

lemma wellformed_normalizedUtf8: "wellformed (normalizedUtf8 rm)"
  by (simp add: normalizedUtf8_def Let_def wellformed_normalize_loop wellformed_append
      wellformed_newline)

lemma rm_source_make [simp]: "rm_source (make_SourceRangeMapper source) = source"
  by (simp add: make_SourceRangeMapper_def Let_def)

lemma position_clamped:
  "positionFromByteOffset (make_SourceRangeMapper source) k =
     walk (sb_text source) default_position (min k (length (sb_text source)))"
proof -
  have "positionFromByteOffset (make_SourceRangeMapper source) k =
    positionFromByteOffset (make_SourceRangeMapper source) (min k (length (sb_text source)))"
    by (simp add: positionFromByteOffset_def)
  then show ?thesis by (simp add: table_is_walk)
qed

lemma take_min_length: "take (min k (length s)) s = take k s"
  by (simp add: min_def)

lemma newlines_take_mono: "a \<le> b \<Longrightarrow> newlines (take a s) \<le> newlines (take b s)"
  by (metis le_add1 le_add_diff_inverse newlines_simps(3) take_add)

subsection \<open>Properties\<close>

text \<open>C33. The precomputed table and the direct walk agree at every offset: the position of a
  byte offset (clamped to the text) has that offset, its line is the number of line feeds
  before it, for well-formed and malformed text alike.\<close>

theorem position_table_correct:
  "positionFromByteOffset (make_SourceRangeMapper source) k =
     walk (sb_text source) default_position (min k (length (sb_text source)))
   \<and> sp_offset (positionFromByteOffset (make_SourceRangeMapper source) k)
       = min k (length (sb_text source))
   \<and> sp_line (positionFromByteOffset (make_SourceRangeMapper source) k)
       = newlines (take k (sb_text source))"
  by (simp add: position_clamped sp_offset_walk sp_line_walk default_position_def take_min_length)

text \<open>A range is always valid and ordered, whatever offsets are asked for: the start does
  not come after the end, in bytes and in lines, and both lie within the text.\<close>

lemma mapper_range_ordered:
  "let r = mapper_range (make_SourceRangeMapper source) uri b e in
   sr_valid r \<and> sr_uri r = uri
   \<and> po_byteOffset (sr_start r) \<le> po_byteOffset (sr_end r)
   \<and> po_byteOffset (sr_end r) \<le> length (sb_text source)
   \<and> po_line (sr_start r) \<le> po_line (sr_end r)
   \<and> po_byteOffset (sr_start r) = min b (length (sb_text source))"
  by (auto simp: mapper_range_def Let_def to_Position_def position_clamped sp_offset_walk
      sp_line_walk default_position_def intro!: newlines_take_mono)


end
