(* ===== verification/Parser_Tokens.thy ===== *)
theory Parser_Tokens
  imports Parser_Messages Source_Range_Mapper "HOL-Library.Product_Lexorder"
begin

section \<open>Tokens, parser errors and recovery of model headers\<close>

text \<open>
  source/core/SnapshotParserSupport.h and SnapshotParserSupport.cpp: the listener that turns errors of the
  lexer and parser into diagnostics with ranges of the source, the order in which a snapshot lists its
  diagnostics, and the token stream that completes a bare model header before an editor parse. Tokens of the
  ANTLR runtime are records of the members the code reads; the type of a token is the name of its constant in
  the generated parser, an invalid index is \<open>None\<close>. The stream never holds a null token.

  The main results: the index arithmetic of \<open>bareModelHeaderBefore\<close> is equivalent to one pass over the
  stream that remembers the types of two visible tokens; recovery keeps every original token in order and
  leaves no bare header; sorted diagnostics are ordered and represent every diagnostic that was reported.
\<close>

record antlr_token =
  tk_type :: string
  tk_text :: string
  tk_channel :: nat
  tk_start :: "nat option"
  tk_stop :: "nat option"
  tk_line :: nat
  tk_column :: nat
  tk_index :: nat

record parser_error =
  px_offending :: "antlr_token option"
  px_message :: string

definition token_info_of :: "antlr_token \<Rightarrow> token_info" where
  "token_info_of t = \<lparr>ti_isEof = (tk_type t = ''EOF''), ti_startIndex = tk_start t, ti_stopIndex = tk_stop t\<rparr>"

subsection \<open>Errors as diagnostics\<close>

definition snapshot_syntaxError :: "SourceRangeMapper \<Rightarrow> string \<Rightarrow> parser_error \<Rightarrow> Diagnostic" where
  "snapshot_syntaxError ranges source e =
     (let translation = translateParserDiagnostic (px_message e)
            (case px_offending e of None \<Rightarrow> [] | Some t \<Rightarrow> tk_text t);
          range0 = (case px_offending e of
             None \<Rightarrow> eof_range ranges
           | Some t \<Rightarrow> token_range ranges (Some (token_info_of t)));
          range1 = (if \<not> sr_valid range0 then eof_range ranges else range0)
      in default_diagnostic\<lparr>dg_severity := SevError, dg_code := pt_code translation,
           dg_message := pt_message translation, dg_range := range1, dg_source := source,
           dg_phase := PhSyntax\<rparr>)"

definition start_offset :: "Diagnostic \<Rightarrow> nat" where
  "start_offset d = (if sr_valid (dg_range d) then po_byteOffset (sr_start (dg_range d)) else 0)"

definition end_offset :: "Diagnostic \<Rightarrow> nat" where
  "end_offset d = (if sr_valid (dg_range d) then po_byteOffset (sr_end (dg_range d)) else 0)"

definition diagnostic_before :: "Diagnostic \<Rightarrow> Diagnostic \<Rightarrow> bool" where
  "diagnostic_before a b \<longleftrightarrow>
     (if sr_uri (dg_range a) \<noteq> sr_uri (dg_range b) then sr_uri (dg_range a) < sr_uri (dg_range b)
      else if start_offset a \<noteq> start_offset b then start_offset a < start_offset b
      else if end_offset a \<noteq> end_offset b then end_offset a < end_offset b
      else if dg_severity a \<noteq> dg_severity b then severityRank (dg_severity a) < severityRank (dg_severity b)
      else if dg_code a \<noteq> dg_code b then dg_code a < dg_code b
      else dg_message a < dg_message b)"

definition same_diagnostic :: "Diagnostic \<Rightarrow> Diagnostic \<Rightarrow> bool" where
  "same_diagnostic a b \<longleftrightarrow>
     dg_code a = dg_code b \<and> dg_severity a = dg_severity b \<and> dg_message a = dg_message b
     \<and> sr_valid (dg_range a) = sr_valid (dg_range b)
     \<and> (\<not> sr_valid (dg_range a)
        \<or> sr_uri (dg_range a) = sr_uri (dg_range b)
          \<and> po_byteOffset (sr_start (dg_range a)) = po_byteOffset (sr_start (dg_range b))
          \<and> po_byteOffset (sr_end (dg_range a)) = po_byteOffset (sr_end (dg_range b)))"

text \<open>\<open>std::unique\<close>: an element is dropped when the element kept last satisfies the predicate with it.\<close>

fun unique_by :: "('a \<Rightarrow> 'a \<Rightarrow> bool) \<Rightarrow> 'a list \<Rightarrow> 'a list" where
  "unique_by eq [] = []"
| "unique_by eq [x] = [x]"
| "unique_by eq (x # y # xs) =
     (if eq x y then unique_by eq (x # xs) else x # unique_by eq (y # xs))"

definition sortDiagnostics :: "Diagnostic list \<Rightarrow> Diagnostic list" where
  "sortDiagnostics ds = unique_by same_diagnostic (stable_sort diagnostic_before ds)"

subsection \<open>Recovery of bare model headers\<close>

definition visible :: "antlr_token \<Rightarrow> bool" where
  "visible t \<longleftrightarrow> tk_channel t = 0"

definition nextDefault :: "antlr_token list \<Rightarrow> nat \<Rightarrow> nat option" where
  "nextDefault ts i = find (\<lambda>j. visible (ts ! j)) [Suc i..<length ts]"

fun settle :: "antlr_token list \<Rightarrow> nat \<Rightarrow> nat" where
  "settle ts 0 = 0"
| "settle ts (Suc i) = (if visible (ts ! Suc i) then Suc i else settle ts i)"

definition step_back :: "antlr_token list \<Rightarrow> nat \<Rightarrow> nat" where
  "step_back ts i = (if i > 0 then settle ts (i - 1) else i)"

definition has_type :: "antlr_token list \<Rightarrow> string \<Rightarrow> nat \<Rightarrow> bool" where
  "has_type ts ty i \<longleftrightarrow> tk_type (ts ! i) = ty"

definition next_of_type :: "antlr_token list \<Rightarrow> string \<Rightarrow> nat \<Rightarrow> nat option" where
  "next_of_type ts ty i = (case nextDefault ts i of
     None \<Rightarrow> None
   | Some j \<Rightarrow> if has_type ts ty j then Some j else None)"

definition skip_language :: "antlr_token list \<Rightarrow> nat \<Rightarrow> nat option" where
  "skip_language ts i =
     (if \<not> has_type ts ''LPAREN'' i then Some i
      else case next_of_type ts ''NAME'' i of
        None \<Rightarrow> None
      | Some j \<Rightarrow> (case next_of_type ts ''RPAREN'' j of
          None \<Rightarrow> None
        | Some k \<Rightarrow> nextDefault ts k))"

definition skip_noincremental :: "antlr_token list \<Rightarrow> nat \<Rightarrow> nat option" where
  "skip_noincremental ts i =
     (if \<not> has_type ts ''NOINCREMENTALTRANSFER'' i then Some i else nextDefault ts i)"

definition header_reaches_equal :: "antlr_token list \<Rightarrow> nat \<Rightarrow> bool" where
  "header_reaches_equal ts model =
     (case next_of_type ts ''NAME'' model of
        None \<Rightarrow> False
      | Some i \<Rightarrow> (case nextDefault ts i of
          None \<Rightarrow> False
        | Some j \<Rightarrow> (case skip_language ts j of
            None \<Rightarrow> False
          | Some k \<Rightarrow> (case skip_noincremental ts k of
              None \<Rightarrow> False
            | Some l \<Rightarrow> has_type ts ''EQUAL'' l))))"

definition bareModelHeaderBefore :: "antlr_token list \<Rightarrow> nat \<Rightarrow> bool" where
  "bareModelHeaderBefore ts equalIndex =
     (let i = step_back ts equalIndex in
      if \<not> has_type ts ''NAME'' i then False
      else if i = 0 then False
      else
        let model = settle ts (i - 1) in
        if \<not> has_type ts ''MODEL'' model then False
        else header_reaches_equal ts model)"

definition synthetic :: "string \<Rightarrow> string \<Rightarrow> antlr_token \<Rightarrow> antlr_token" where
  "synthetic ty tx location =
     \<lparr>tk_type = ty, tk_text = tx, tk_channel = 0, tk_start = None, tk_stop = None,
      tk_line = tk_line location, tk_column = tk_column location, tk_index = 0\<rparr>"

definition header_completion :: "antlr_token \<Rightarrow> antlr_token list" where
  "header_completion t =
     [synthetic ''ATT'' ''AT'' t, synthetic ''STRING'' [CHR 0x22, CHR 0x22] t,
      synthetic ''VERSION'' ''VERSION'' t, synthetic ''STRING'' [CHR 0x22, CHR ''1'', CHR 0x22] t]"

definition renumber :: "antlr_token list \<Rightarrow> antlr_token list" where
  "renumber ts = map (\<lambda>(i, t). t\<lparr>tk_index := i\<rparr>) (enumerate 0 ts)"

definition recovered_equals :: "antlr_token list \<Rightarrow> nat list" where
  "recovered_equals ts =
     filter (\<lambda>i. has_type ts ''EQUAL'' i \<and> visible (ts ! i) \<and> bareModelHeaderBefore ts i) [0..<length ts]"

definition with_completion :: "antlr_token list \<Rightarrow> nat set \<Rightarrow> nat \<Rightarrow> antlr_token list" where
  "with_completion ts equals i = (if i \<in> equals then header_completion (ts ! i) else []) @ [ts ! i]"

definition recoverBareModelHeaders :: "antlr_token list \<Rightarrow> antlr_token list \<times> bool" where
  "recoverBareModelHeaders ts =
     (if ts = [] then (ts, False)
      else
        let equals = recovered_equals ts in
        if equals = [] then (ts, False)
        else (renumber (concat (map (with_completion ts (set equals)) [0..<length ts])), True))"

subsection \<open>One pass with two tokens of memory\<close>

definition remember_type :: "string \<times> string \<Rightarrow> antlr_token \<Rightarrow> string \<times> string" where
  "remember_type m t = (if visible t then (snd m, tk_type t) else m)"

definition lookback :: "antlr_token list \<Rightarrow> string \<times> string" where
  "lookback ts = foldl remember_type ([], []) ts"

fun complete_headers :: "string \<times> string \<Rightarrow> antlr_token list \<Rightarrow> antlr_token list" where
  "complete_headers m [] = []"
| "complete_headers m (t # ts) =
     (if visible t \<and> tk_type t = ''EQUAL'' \<and> m = (''MODEL'', ''NAME'') then header_completion t else [])
     @ t # complete_headers (remember_type m t) ts"

definition models_visible :: "antlr_token list \<Rightarrow> bool" where
  "models_visible ts \<longleftrightarrow> list_all (\<lambda>t. tk_type t = ''MODEL'' \<longrightarrow> visible t) ts"

lemma lookback_snoc: "lookback (ts @ [t]) = remember_type (lookback ts) t"
  by (simp add: lookback_def)

lemma lookback_take: "i < length ts \<Longrightarrow> lookback (take (Suc i) ts) = remember_type (lookback (take i ts)) (ts ! i)"
  by (simp add: take_Suc_conv_app_nth lookback_snoc)

lemma lookback_settle: "i < length ts \<Longrightarrow> lookback (take (Suc i) ts) = lookback (take (Suc (settle ts i)) ts)"
proof (induction i)
  case (Suc i)
  then show ?case by (simp add: lookback_take [of "Suc i"] remember_type_def)
qed simp

lemma settle_bounds: "settle ts i \<le> i \<and> (\<forall>k. settle ts i < k \<and> k \<le> i \<longrightarrow> \<not> visible (ts ! k))
  \<and> (settle ts i > 0 \<longrightarrow> visible (ts ! settle ts i))"
  by (induction i) (auto simp: le_Suc_eq)

lemma nextDefault_skip:
  assumes "m < e" and "e < length ts" and "visible (ts ! e)" and "\<forall>k. m < k \<and> k < e \<longrightarrow> \<not> visible (ts ! k)"
  shows "nextDefault ts m = Some e"
  unfolding nextDefault_def find_Some_iff using assms
  by (intro exI [of _ "e - Suc m"]) auto

lemma header_reaches:
  assumes "k < m" and "m < e" and "e < length ts" and "visible (ts ! m)" and "visible (ts ! e)"
    and "\<forall>j. k < j \<and> j < m \<longrightarrow> \<not> visible (ts ! j)" and "\<forall>j. m < j \<and> j < e \<longrightarrow> \<not> visible (ts ! j)"
    and "has_type ts ''NAME'' m" and "has_type ts ''EQUAL'' e"
  shows "header_reaches_equal ts k"
proof -
  have "nextDefault ts k = Some m" using assms by (intro nextDefault_skip) auto
  moreover have "nextDefault ts m = Some e" using assms by (intro nextDefault_skip) auto
  moreover have "\<not> has_type ts ''LPAREN'' e" "\<not> has_type ts ''NOINCREMENTALTRANSFER'' e"
    using assms(9) by (simp_all add: has_type_def)
  ultimately show ?thesis
    using assms(8,9)
    by (simp add: header_reaches_equal_def next_of_type_def skip_language_def skip_noincremental_def)
qed

text \<open>Only a header that consists of the word MODEL and a name is recognised: the branches of the code for a
  language in parentheses and for NOINCREMENTALTRANSFER are never taken.\<close>

lemma bare_header_iff:
  assumes "models_visible ts" and "e < length ts" and "visible (ts ! e)" and "has_type ts ''EQUAL'' e"
  shows "bareModelHeaderBefore ts e \<longleftrightarrow> lookback (take e ts) = (''MODEL'', ''NAME'')"
proof (cases e)
  case 0
  then show ?thesis using assms(4) by (simp add: bareModelHeaderBefore_def step_back_def has_type_def lookback_def)
next
  case (Suc i)
  define m where "m = settle ts i"
  have m: "m \<le> i" "\<forall>j. m < j \<and> j < e \<longrightarrow> \<not> visible (ts ! j)" "m > 0 \<longrightarrow> visible (ts ! m)"
    using settle_bounds [of ts i] Suc by (auto simp: m_def less_Suc_eq_le)
  have look: "lookback (take e ts) = remember_type (lookback (take m ts)) (ts ! m)"
    using lookback_settle [of i ts] lookback_take [of m ts] m(1) assms(2) Suc by (simp add: m_def)
  have bare: "bareModelHeaderBefore ts e \<longleftrightarrow> has_type ts ''NAME'' m \<and> m > 0
    \<and> has_type ts ''MODEL'' (settle ts (m - 1)) \<and> header_reaches_equal ts (settle ts (m - 1))"
    by (simp add: bareModelHeaderBefore_def step_back_def Suc Let_def flip: m_def)
  show ?thesis
  proof (cases m)
    case 0
    then show ?thesis using look bare by (simp add: remember_type_def lookback_def)
  next
    case m': (Suc l)
    define k where "k = settle ts l"
    have k: "k \<le> l" "\<forall>j. k < j \<and> j < m \<longrightarrow> \<not> visible (ts ! j)" "k > 0 \<longrightarrow> visible (ts ! k)"
      using settle_bounds [of ts l] m' by (auto simp: k_def less_Suc_eq_le)
    have bounds: "k < length ts" "m < length ts" "k < m" "m < e" using k(1) m(1) m' Suc assms(2) by auto
    have lookm: "lookback (take m ts) = remember_type (lookback (take k ts)) (ts ! k)"
      using lookback_settle [of l ts] lookback_take [of k ts] bounds m' by (simp add: k_def)
    have visk: "has_type ts ''MODEL'' k \<Longrightarrow> visible (ts ! k)"
      using assms(1) bounds(1) by (simp add: models_visible_def has_type_def list_all_length)
    have start: "lookback (take k ts) = ([], [])" if "\<not> visible (ts ! k)"
      using that k(3) by (simp add: lookback_def)
    have "header_reaches_equal ts k" if "has_type ts ''NAME'' m"
      using bounds m k assms that m' by (intro header_reaches [of k m e]) auto
    then have "bareModelHeaderBefore ts e \<longleftrightarrow> has_type ts ''NAME'' m \<and> has_type ts ''MODEL'' k"
      using bare m' by (auto simp: k_def)
    then show ?thesis
      using look lookm m(3) m' visk start by (auto simp: remember_type_def has_type_def)
  qed
qed

lemma recovered_equals_iff:
  assumes "models_visible ts"
  shows "i \<in> set (recovered_equals ts) \<longleftrightarrow> i < length ts \<and> visible (ts ! i) \<and> tk_type (ts ! i) = ''EQUAL''
    \<and> lookback (take i ts) = (''MODEL'', ''NAME'')"
  using bare_header_iff [OF assms] by (auto simp: recovered_equals_def has_type_def)

lemma one_pass:
  "models_visible (xs @ ys) \<Longrightarrow>
    concat (map (with_completion (xs @ ys) (set (recovered_equals (xs @ ys)))) [length xs..<length xs + length ys])
      = complete_headers (lookback xs) ys"
proof (induction ys arbitrary: xs)
  case (Cons t ys)
  let ?ts = "xs @ t # ys"
  have range_eq: "[length xs..<length xs + length (t # ys)] = length xs # [length (xs @ [t])..<length (xs @ [t]) + length ys]"
    by (simp add: upt_rec [of "length xs"] del: upt_Suc)
  have "with_completion ?ts (set (recovered_equals ?ts)) (length xs)
    = (if visible t \<and> tk_type t = ''EQUAL'' \<and> lookback xs = (''MODEL'', ''NAME'') then header_completion t else []) @ [t]"
    using recovered_equals_iff [OF Cons.prems, of "length xs"] by (simp add: with_completion_def)
  moreover have "concat (map (with_completion ?ts (set (recovered_equals ?ts))) [length (xs @ [t])..<length (xs @ [t]) + length ys])
    = complete_headers (remember_type (lookback xs) t) ys"
    using Cons.IH [of "xs @ [t]"] Cons.prems by (simp only: append.assoc append_Cons append_Nil lookback_snoc)
  ultimately show ?case unfolding range_eq list.map concat.simps by simp
qed simp

lemma one_pass_all:
  "models_visible ts \<Longrightarrow>
    concat (map (with_completion ts (set (recovered_equals ts))) [0..<length ts]) = complete_headers ([], []) ts"
  using one_pass [of "[]" ts] by (simp add: lookback_def)

lemma length_insertions:
  "length (concat (map (with_completion ts E) is)) = length is + 4 * length (filter (\<lambda>i. i \<in> E) is)"
  by (induction "is") (simp_all add: header_completion_def with_completion_def)

lemma complete_changes:
  assumes "models_visible ts"
  shows "complete_headers ([], []) ts = ts \<longleftrightarrow> recovered_equals ts = []"
proof
  assume "recovered_equals ts = []"
  then show "complete_headers ([], []) ts = ts"
    using one_pass_all [OF assms] by (simp add: comp_def map_nth with_completion_def [abs_def])
next
  assume same: "complete_headers ([], []) ts = ts"
  have "filter (\<lambda>i. i \<in> set (recovered_equals ts)) [0..<length ts] = []"
    using length_insertions [of ts "set (recovered_equals ts)" "[0..<length ts]"]
    unfolding one_pass_all [OF assms] same by simp
  moreover have "i < length ts" if "i \<in> set (recovered_equals ts)" for i
    using that by (simp add: recovered_equals_def)
  ultimately have "i \<notin> set (recovered_equals ts)" for i by (force simp: filter_empty_conv)
  then show "recovered_equals ts = []" by (metis list.set_intros(1) neq_Nil_conv)
qed

lemma recover_one_pass:
  "models_visible ts \<Longrightarrow> recoverBareModelHeaders ts =
    (let c = complete_headers ([], []) ts in if c = ts then (ts, False) else (renumber c, True))"
  using one_pass_all complete_changes
  by (cases "ts = []") (auto simp: recoverBareModelHeaders_def Let_def recovered_equals_def)

subsection \<open>Recovery keeps the tokens and completes every header\<close>

definition alike :: "string \<times> string \<Rightarrow> string \<times> string \<Rightarrow> bool" where
  "alike m n \<longleftrightarrow> snd m = snd n \<and> (fst m = ''MODEL'' \<longleftrightarrow> fst n = ''MODEL'')"

lemma complete_again: "alike m n \<Longrightarrow> complete_headers n (complete_headers m ts) = complete_headers m ts"
proof (induction ts arbitrary: m n)
  case (Cons t ts)
  have "alike (remember_type m t) (remember_type n t)"
    using Cons.prems by (auto simp: alike_def remember_type_def)
  note IH = Cons.IH [OF this]
  have same: "m = (''MODEL'', ''NAME'') \<longleftrightarrow> n = (''MODEL'', ''NAME'')"
    using Cons.prems by (cases m; cases n) (auto simp: alike_def)
  show ?case
  proof (cases "visible t \<and> tk_type t = ''EQUAL'' \<and> m = (''MODEL'', ''NAME'')")
    case True
    then have "alike (remember_type m t) (''STRING'', ''EQUAL'')"
      by (simp add: alike_def remember_type_def)
    from Cons.IH [OF this] True show ?thesis
      by (simp add: header_completion_def synthetic_def remember_type_def visible_def)
  next
    case False
    then show ?thesis using IH same by auto
  qed
qed simp

lemma complete_length_cong:
  "map (\<lambda>t. (tk_type t, tk_channel t)) ts = map (\<lambda>t. (tk_type t, tk_channel t)) us \<Longrightarrow>
    length (complete_headers m ts) = length (complete_headers m us)"
proof (induction ts arbitrary: us m)
  case (Cons t ts)
  then obtain u us' where "us = u # us'" by (cases us) auto
  with Cons show ?case by (auto simp: remember_type_def visible_def header_completion_def)
qed simp

lemma complete_length: "length ts \<le> length (complete_headers m ts)"
  by (induction ts arbitrary: m) (simp_all add: trans_le_add2)

lemma complete_fixed_iff: "complete_headers m ts = ts \<longleftrightarrow> length (complete_headers m ts) = length ts"
proof
  show "length (complete_headers m ts) = length ts \<Longrightarrow> complete_headers m ts = ts"
  proof (induction ts arbitrary: m)
    case (Cons t ts)
    have "length ts < length (header_completion t @ complete_headers (remember_type m t) ts)"
      using complete_length [of ts "remember_type m t"] by (simp add: header_completion_def)
    then show ?case using Cons by (auto split: if_splits)
  qed simp
qed simp

lemma renumber_map:
  assumes "\<And>t i. f (t\<lparr>tk_index := i\<rparr>) = f t"
  shows "map f (renumber ts) = map f ts"
proof -
  have "map f (map (\<lambda>(i, t). t\<lparr>tk_index := i\<rparr>) (enumerate n ts)) = map f ts" for n
    by (induction ts arbitrary: n) (simp_all add: assms)
  then show ?thesis by (simp add: renumber_def)
qed

lemma renumber_types: "map (\<lambda>t. (tk_type t, tk_channel t)) (renumber ts) = map (\<lambda>t. (tk_type t, tk_channel t)) ts"
  by (rule renumber_map) simp

lemma renumber_index: "map tk_index (renumber ts) = [0..<length ts]"
proof -
  have "map tk_index (map (\<lambda>(i, t). t\<lparr>tk_index := i\<rparr>) (enumerate n ts)) = [n..<n + length ts]" for n
    by (induction ts arbitrary: n) (simp_all add: upt_conv_Cons del: upt_Suc)
  then show ?thesis by (simp add: renumber_def)
qed

lemma length_renumber [simp]: "length (renumber ts) = length ts"
  by (simp add: renumber_def)

lemma models_visible_map:
  "models_visible ts = list_all (\<lambda>(ty, ch). ty = ''MODEL'' \<longrightarrow> ch = 0) (map (\<lambda>t. (tk_type t, tk_channel t)) ts)"
  by (simp add: models_visible_def visible_def list_all_iff)

lemma models_visible_complete: "models_visible ts \<Longrightarrow> models_visible (complete_headers m ts)"
  by (induction ts arbitrary: m) (auto simp: models_visible_def header_completion_def synthetic_def)

definition unnumbered :: "antlr_token \<Rightarrow> antlr_token" where
  "unnumbered t = t\<lparr>tk_index := 0\<rparr>"

lemma unnumbered_renumber:
  "map unnumbered (filter (\<lambda>t. tk_start t \<noteq> None) (renumber ts)) = map unnumbered (filter (\<lambda>t. tk_start t \<noteq> None) ts)"
proof -
  have "map unnumbered (filter (\<lambda>t. tk_start t \<noteq> None) (map (\<lambda>(i, t). t\<lparr>tk_index := i\<rparr>) (enumerate n ts)))
    = map unnumbered (filter (\<lambda>t. tk_start t \<noteq> None) ts)" for n
    by (induction ts arbitrary: n) (auto simp: unnumbered_def)
  then show ?thesis by (simp add: renumber_def)
qed

lemma complete_keeps: "filter (\<lambda>t. tk_start t \<noteq> None) (complete_headers m ts) = filter (\<lambda>t. tk_start t \<noteq> None) ts"
  by (induction ts arbitrary: m) (auto simp: header_completion_def synthetic_def)

text \<open>C20. The search of the editor's token stream for bare model headers is equivalent to one pass over the
  tokens that remembers the types of the last two visible tokens: exactly the equals signs that follow the
  word MODEL and one name get the four missing tokens in front. No original token is lost or moved, the
  indices of a changed stream count its tokens, and a second recovery finds nothing.\<close>

theorem header_recovery:
  assumes "models_visible ts" and "list_all (\<lambda>t. tk_start t \<noteq> None) ts"
    and "recoverBareModelHeaders ts = (rs, recovered)"
  shows "(if recovered then rs = renumber (complete_headers ([], []) ts) \<and> map tk_index rs = [0..<length rs]
          else rs = ts \<and> complete_headers ([], []) ts = ts)
    \<and> map unnumbered (filter (\<lambda>t. tk_start t \<noteq> None) rs) = map unnumbered ts
    \<and> recoverBareModelHeaders rs = (rs, False)"
proof -
  let ?c = "complete_headers ([], []) ts"
  have rs: "rs = (if recovered then renumber ?c else ts)" "recovered = (?c \<noteq> ts)"
    using recover_one_pass [OF assms(1)] assms(3) by (auto simp: Let_def split: if_splits)
  have "map unnumbered (filter (\<lambda>t. tk_start t \<noteq> None) rs) = map unnumbered ts"
  proof -
    have all: "filter (\<lambda>t. tk_start t \<noteq> None) ts = ts"
      using assms(2) by (intro filter_True) (simp add: list_all_iff)
    then have "map unnumbered (filter (\<lambda>t. tk_start t \<noteq> None) (renumber ?c)) = map unnumbered ts"
      unfolding unnumbered_renumber complete_keeps by (rule arg_cong)
    then show ?thesis using rs(1) all by (cases recovered) (simp_all del: not_None_eq)
  qed
  moreover have "recoverBareModelHeaders rs = (rs, False)"
  proof -
    have types: "map (\<lambda>t. (tk_type t, tk_channel t)) rs = map (\<lambda>t. (tk_type t, tk_channel t)) ?c"
      using rs by (auto simp: renumber_types)
    have "models_visible rs"
      using models_visible_complete [OF assms(1)] types by (simp only: models_visible_map)
    moreover have "complete_headers ([], []) rs = rs"
    proof -
      have "complete_headers ([], []) ?c = ?c" by (rule complete_again) (simp add: alike_def)
      then have "length (complete_headers ([], []) rs) = length rs"
        using complete_length_cong [OF types, of "([], [])"] arg_cong [OF types, of length] by simp
      then show ?thesis by (simp add: complete_fixed_iff)
    qed
    ultimately show ?thesis by (simp add: recover_one_pass)
  qed
  ultimately show ?thesis using rs by (auto simp: renumber_index)
qed

definition header_token :: "string \<Rightarrow> string \<Rightarrow> nat \<Rightarrow> antlr_token" where
  "header_token ty tx i =
     \<lparr>tk_type = ty, tk_text = tx, tk_channel = 0, tk_start = Some i, tk_stop = Some i, tk_line = 1, tk_column = i,
      tk_index = i\<rparr>"

definition bare_header :: "antlr_token list" where
  "bare_header = [header_token ''MODEL'' ''MODEL'' 0, header_token ''NAME'' ''A'' 1, header_token ''EQUAL'' ''='' 2]"

theorem header_recovery_witness:
  "\<exists>rs. recoverBareModelHeaders bare_header = (rs, True) \<and> map tk_index rs = [0..<7]
    \<and> recoverBareModelHeaders rs = (rs, False)"
proof -
  have "snd (recoverBareModelHeaders bare_header)" by code_simp
  then obtain rs where rs: "recoverBareModelHeaders bare_header = (rs, True)"
    by (cases "recoverBareModelHeaders bare_header") auto
  have "models_visible bare_header" by code_simp
  moreover have "list_all (\<lambda>t. tk_start t \<noteq> None) bare_header" by code_simp
  moreover have "length (fst (recoverBareModelHeaders bare_header)) = 7" by code_simp
  ultimately show ?thesis using header_recovery [OF _ _ rs] rs by auto
qed

text \<open>A header with a language is not completed.\<close>

lemma language_header_not_recovered:
  defines "ts \<equiv> [header_token ''MODEL'' ''MODEL'' 0, header_token ''NAME'' ''A'' 1, header_token ''LPAREN'' [CHR 0x28] 2,
    header_token ''NAME'' ''de'' 3, header_token ''RPAREN'' [CHR 0x29] 4, header_token ''EQUAL'' ''='' 5]"
  shows "recoverBareModelHeaders ts = (ts, False)"
  unfolding ts_def by code_simp

subsection \<open>Sorted diagnostics\<close>

definition diagnostic_key :: "Diagnostic \<Rightarrow> string \<times> nat \<times> nat \<times> nat \<times> string \<times> string" where
  "diagnostic_key d = (sr_uri (dg_range d), start_offset d, end_offset d, severityRank (dg_severity d), dg_code d, dg_message d)"

lemma diagnostic_before_key: "diagnostic_before a b \<longleftrightarrow> diagnostic_key a < diagnostic_key b"
  using severityRank_inj [of "dg_severity a" "dg_severity b"]
  by (auto simp: diagnostic_before_def diagnostic_key_def less_le)

lemma set_unique_by: "set (unique_by eq xs) \<subseteq> set xs"
  by (induction eq xs rule: unique_by.induct) auto

lemma unique_by_sorted: "sorted (map f xs) \<Longrightarrow> sorted (map f (unique_by eq xs))"
proof (induction eq xs rule: unique_by.induct)
  case (3 eq x y xs)
  then show ?case using set_unique_by [of eq "y # xs"] by auto
qed auto

lemma unique_by_represents:
  assumes "\<And>a. eq a a" and "\<And>a b c. eq a b \<Longrightarrow> eq b c \<Longrightarrow> eq a c"
  shows "d \<in> set xs \<Longrightarrow> \<exists>e \<in> set (unique_by eq xs). eq e d"
proof -
  have rep: "\<forall>d \<in> set (x # xs). \<exists>e \<in> set (unique_by eq (x # xs)). eq e d" for x xs
  proof (induction xs arbitrary: x)
    case (Cons y xs)
    show ?case
    proof (cases "eq x y")
      case True
      from Cons.IH [of x] obtain e where e: "e \<in> set (unique_by eq (x # xs))" "eq e x" by auto
      then have "eq e y" using True assms(2) by blast
      then show ?thesis using Cons.IH [of x] True e(1) by auto
    next
      case False
      then show ?thesis using Cons.IH [of y] assms(1) by auto
    qed
  qed (simp add: assms(1))
  assume "d \<in> set xs"
  then show ?thesis using rep by (cases xs) auto
qed

lemma same_diagnostic_equivalence:
  "same_diagnostic a a" "same_diagnostic a b \<Longrightarrow> same_diagnostic b c \<Longrightarrow> same_diagnostic a c"
  by (auto simp: same_diagnostic_def)

lemma sortDiagnostics_sound:
  "sorted (map diagnostic_key (sortDiagnostics ds)) \<and> set (sortDiagnostics ds) \<subseteq> set ds
   \<and> (\<forall>d \<in> set ds. \<exists>e \<in> set (sortDiagnostics ds). same_diagnostic e d)"
proof -
  have eq: "stable_sort diagnostic_before ds = sort_key diagnostic_key ds"
    by (rule stable_sort_key) (rule diagnostic_before_key)
  have "sorted (map diagnostic_key (sortDiagnostics ds))"
    unfolding sortDiagnostics_def eq by (intro unique_by_sorted sorted_sort_key)
  moreover have "set (sortDiagnostics ds) \<subseteq> set ds"
    using set_unique_by [of same_diagnostic "sort_key diagnostic_key ds"] by (simp add: sortDiagnostics_def eq)
  moreover have "\<exists>e \<in> set (sortDiagnostics ds). same_diagnostic e d" if "d \<in> set ds" for d
    unfolding sortDiagnostics_def eq
    by (rule unique_by_represents [OF same_diagnostic_equivalence(1) same_diagnostic_equivalence(2)])
       (use that in simp_all)
  ultimately show ?thesis by blast
qed

lemma sortDiagnostics_empty [simp]: "sortDiagnostics ds = [] \<longleftrightarrow> ds = []"
  using sortDiagnostics_sound [of ds] by (cases ds) (auto simp: sortDiagnostics_def stable_sort_def)

lemma sortDiagnostics_set: "set (sortDiagnostics ds) \<subseteq> set ds"
  using sortDiagnostics_sound by blast

text \<open>The order does not look at the validity of a range, so a diagnostic without a range can stand between two
  equal ones, and the later one stays.\<close>

lemma duplicate_survives:
  defines "a \<equiv> default_diagnostic" and "b \<equiv> default_diagnostic\<lparr>dg_range := default_range\<lparr>sr_valid := True\<rparr>\<rparr>"
  shows "sortDiagnostics [a, b, a] = [a, b, a]"
  unfolding assms by code_simp

end
