(* ===== verification/Snapshot_Types.thy ===== *)
theory Snapshot_Types
  imports Source_Manager Diagnostic_Types
begin

section \<open>Data exchanged by the compiler's services\<close>

text \<open>
  The structs and enumerations of include/ilic/Syntax.h, Editor.h, Semantic.h, Compiler.h and
  Incremental.h and of source/core/ParsedSourceArtifact.h and SnapshotPipeline.h, field by
  field. Each struct is a record; a field keeps its name behind a short prefix. A
  \<open>ParsedSourceArtifact\<close> is an interface with constant observers only: its record
  holds the values the observers return, apart from the two that drive the meta-model builder.
\<close>

subsection \<open>Syntax and editor snapshots\<close>

record SyntaxToken =
  tok_kind :: string
  tok_text :: string
  tok_channel :: nat
  tok_range :: SourceRange

record SyntaxNode =
  nd_id :: nat
  nd_parent :: nat
  nd_hasParent :: bool
  nd_kind :: string
  nd_range :: SourceRange

record SyntaxContext =
  cx_kind :: string
  cx_range :: SourceRange

record SyntaxImportReference =
  im_model :: string
  im_unqualified :: bool
  im_range :: SourceRange

record SyntaxSnapshot =
  sy_success :: bool
  sy_uri :: string
  sy_documentVersion :: u64
  sy_iliVersion :: string
  sy_tokens :: "SyntaxToken list"
  sy_nodes :: "SyntaxNode list"
  sy_contexts :: "SyntaxContext list"
  sy_imports :: "string list"
  sy_importReferences :: "SyntaxImportReference list"
  sy_diagnostics :: "Diagnostic list"

datatype EditorSymbolKind =
    EsModel | EsTopic | EsClass | EsStructure | EsAssociation | EsView | EsGraphic | EsDomain
  | EsUnit | EsAttribute

datatype EditorReferenceKind = ErExtends | ErType | ErCollection | ErReference | ErUnit

record EditorDeclaration =
  ed_id :: string
  ed_name :: string
  ed_qualifiedName :: string
  ed_kind :: EditorSymbolKind
  ed_containerId :: string
  ed_hasContainer :: bool
  ed_range :: SourceRange
  ed_selectionRange :: SourceRange
  ed_endRange :: SourceRange

record EditorReference =
  er_text :: string
  er_kind :: EditorReferenceKind
  er_sourceId :: string
  er_hasSource :: bool
  er_range :: SourceRange

record EditorSnapshot =
  es_success :: bool
  es_recovered :: bool
  es_complete :: bool
  es_uri :: string
  es_documentVersion :: u64
  es_iliVersion :: string
  es_declarations :: "EditorDeclaration list"
  es_references :: "EditorReference list"
  es_imports :: "SyntaxImportReference list"
  es_contexts :: "SyntaxContext list"
  es_diagnostics :: "Diagnostic list"

definition default_syntax :: SyntaxSnapshot where
  "default_syntax = \<lparr>sy_success = False, sy_uri = '''', sy_documentVersion = 0, sy_iliVersion = '''',
     sy_tokens = [], sy_nodes = [], sy_contexts = [], sy_imports = [], sy_importReferences = [],
     sy_diagnostics = []\<rparr>"

definition default_editor :: EditorSnapshot where
  "default_editor = \<lparr>es_success = False, es_recovered = False, es_complete = False, es_uri = '''',
     es_documentVersion = 0, es_iliVersion = '''', es_declarations = [], es_references = [],
     es_imports = [], es_contexts = [], es_diagnostics = []\<rparr>"

subsection \<open>Parsed sources\<close>

datatype ParseMode = StrictCompiler | TolerantEditor

record ParsedSourceHeader =
  ph_iliVersion :: string
  ph_models :: "string list"
  ph_imports :: "string list"
  ph_requiredModels :: "string list"

record ParsedSourceArtifact =
  ar_mode :: ParseMode
  ar_supportsMetaModelBuild :: bool
  ar_header :: ParsedSourceHeader
  ar_parserDiagnostics :: "Diagnostic list"
  ar_tokenCount :: nat
  ar_parseTreeNodeCount :: nat
  ar_estimatedRetainedBytes :: nat

type_synonym ParsedSourceArtifactPtr = "ParsedSourceArtifact option"

record SnapshotBundle =
  bu_syntax :: SyntaxSnapshot
  bu_editor :: EditorSnapshot
  bu_artifact :: ParsedSourceArtifactPtr
  bu_mode :: ParseMode

subsection \<open>Requests and results of a compilation\<close>

datatype LogLevel = LogTrace | LogDebug | LogInformation | LogWarning | LogError

record LogEvent =
  le_level :: LogLevel
  le_category :: string
  le_message :: string
  le_context :: "(string, string) omap"

record CompilerOptions =
  co_autoSearch :: bool
  co_warningsAsErrors :: bool
  co_modelDirectories :: "string list"

record ExternalMetaAttribute =
  ea_element :: string
  ea_name :: string
  ea_value :: string

record CompilationRequest =
  rq_roots :: "string list"
  rq_options :: CompilerOptions
  rq_externalMetaAttributes :: "ExternalMetaAttribute list"

record MetaAttributeValue =
  mv_name :: string
  mv_value :: string

record CompiledModel =
  cm_name :: string
  cm_iliVersion :: string
  cm_uri :: string
  cm_metaAttributes :: "MetaAttributeValue list"

record CompilationResult =
  cr_success :: bool
  cr_cancelled :: bool
  cr_errorCount :: int
  cr_warningCount :: int
  cr_missingModels :: "string list"
  cr_models :: "CompiledModel list"
  cr_diagnostics :: "Diagnostic list"
  cr_logs :: "LogEvent list"
  cr_transcript :: "string list"

subsection \<open>Semantic snapshots\<close>

record SemanticSymbol =
  ss_id :: string
  ss_name :: string
  ss_qualifiedName :: string
  ss_kind :: string
  ss_containerId :: string
  ss_range :: SourceRange
  ss_selectionRange :: SourceRange
  ss_endRange :: SourceRange
  ss_abstract :: bool

record SemanticReference =
  rf_sourceId :: string
  rf_targetId :: string
  rf_kind :: string
  rf_range :: SourceRange

record SemanticDependency =
  de_sourceUri :: string
  de_targetUri :: string
  de_model :: string
  de_range :: SourceRange

record DiagramMember =
  dm_name :: string
  dm_type :: string
  dm_cardinality :: string
  dm_declaringType :: string
  dm_inherited :: bool
  dm_inlineEnumValues :: "string list"

record DiagramNode =
  dn_id :: string
  dn_containerId :: string
  dn_label :: string
  dn_kind :: string
  dn_abstract :: bool
  dn_range :: SourceRange
  dn_stereotypes :: "string list"
  dn_members :: "DiagramMember list"
  dn_enumValues :: "string list"
  dn_operations :: "string list"

record DiagramEdge =
  dge_id :: string
  dge_sourceId :: string
  dge_targetId :: string
  dge_kind :: string
  dge_label :: string
  dge_cardinality :: string
  dge_sourceCardinality :: string
  dge_targetCardinality :: string

record DiagramProjection =
  dp_nodes :: "DiagramNode list"
  dp_edges :: "DiagramEdge list"

record DocumentationSection =
  dsec_id :: string
  dsec_title :: string
  dsec_kind :: string
  dsec_text :: string
  dsec_level :: int

record DocumentationRow =
  drow_name :: string
  drow_cardinality :: string
  drow_type :: string
  drow_description :: string
  drow_range :: string

record DocumentationRole =
  drole_name :: string
  drole_cardinality :: string
  drole_type :: string
  drole_description :: string

record DocumentationUnique =
  du_scope :: string
  du_perBasket :: bool
  du_prefix :: string
  du_elements :: "string list"
  du_where :: string
  du_origin :: string
  du_inheritedFrom :: string

record DocumentationViewable =
  dv_name :: string
  dv_kind :: string
  dv_isAbstract :: bool
  dv_documentation :: string
  dv_rows :: "DocumentationRow list"
  dv_roles :: "DocumentationRole list"
  dv_uniqueness :: "DocumentationUnique list"

record DocumentationEnumerationEntry =
  dee_value :: string
  dee_documentation :: string
  dee_displayName :: string

record DocumentationEnumeration =
  den_name :: string
  den_documentation :: string
  den_entries :: "DocumentationEnumerationEntry list"

record DocumentationTopic =
  dt_name :: string
  dt_documentation :: string
  dt_viewables :: "DocumentationViewable list"
  dt_enumerations :: "DocumentationEnumeration list"

record DocumentationModel =
  dmo_name :: string
  dmo_uri :: string
  dmo_title :: string
  dmo_shortDescription :: string
  dmo_topics :: "DocumentationTopic list"
  dmo_viewables :: "DocumentationViewable list"
  dmo_enumerations :: "DocumentationEnumeration list"

record DocumentationProjection =
  dpr_title :: string
  dpr_sections :: "DocumentationSection list"
  dpr_models :: "DocumentationModel list"

record SemanticSnapshot =
  se_success :: bool
  se_cancelled :: bool
  se_roots :: "string list"
  se_documentVersions :: "(string, u64) omap"
  se_missingModels :: "string list"
  se_symbols :: "SemanticSymbol list"
  se_references :: "SemanticReference list"
  se_dependencies :: "SemanticDependency list"
  se_diagram :: DiagramProjection
  se_documentation :: DocumentationProjection
  se_diagnostics :: "Diagnostic list"
  se_logs :: "LogEvent list"

record CompilationAnalysisResult =
  an_compilation :: CompilationResult
  an_semantic :: SemanticSnapshot
  an_syntax :: "SyntaxSnapshot list"

end
