(* ===== verification/Snapshot_Projection.thy ===== *)
theory Snapshot_Projection
  imports Parser_Tokens Snapshot_Types "HOL-Library.Multiset"
begin

section \<open>Projection of parse trees\<close>

text \<open>
  source/core/SyntaxSnapshotProjector.h and EditorSnapshotProjector.h: how a parse tree becomes the tokens,
  nodes and contexts of a syntax snapshot and the declarations, references and imports of an editor snapshot.

  A parse tree of the ANTLR runtime is a datatype of terminals and rule contexts. A context has the name of
  its rule (\<open>None\<close> when the index of the rule has no name), its first and last token, the tokens that the
  grammar labels in it, and the label under which its parent holds it. A cast to the context class of a rule
  is a test of the rule's name, a pointer to a labelled child is equal to a node exactly when the node is a
  child of that context under that label, and the chain of parents is an argument of the traversal. The
  declaration index \<open>noDeclaration\<close> is \<open>None\<close>. For \<open>std::sort\<close>, which leaves the order of equivalent
  elements open, the model takes the stable order.
\<close>

record rule_context =
  rx_rule :: "string option"
  rx_label :: string
  rx_start :: "antlr_token option"
  rx_stop :: "antlr_token option"
  rx_tokens :: "(string \<times> antlr_token) list"

datatype tree = Terminal antlr_token | Context rule_context "tree list"

record vocabulary =
  vo_symbolic :: "string \<Rightarrow> string"
  vo_literal :: "string \<Rightarrow> string"

fun children :: "tree \<Rightarrow> tree list" where
  "children (Terminal t) = []"
| "children (Context c ts) = ts"

definition is_rule :: "string \<Rightarrow> tree \<Rightarrow> bool" where
  "is_rule name tree = (case tree of Terminal _ \<Rightarrow> False | Context c _ \<Rightarrow> rx_rule c = Some name)"

definition labelled :: "string \<Rightarrow> tree \<Rightarrow> antlr_token option" where
  "labelled label tree = (case tree of Terminal _ \<Rightarrow> None | Context c _ \<Rightarrow> map_of (rx_tokens c) label)"

fun tree_text :: "tree \<Rightarrow> string" where
  "tree_text (Terminal t) = tk_text t"
| "tree_text (Context c ts) = concat (map tree_text ts)"

definition terminal_of_type :: "string \<Rightarrow> tree \<Rightarrow> antlr_token option" where
  "terminal_of_type ty tree =
     (case find (\<lambda>t. case t of Terminal k \<Rightarrow> tk_type k = ty | Context _ _ \<Rightarrow> False) (children tree) of
        Some (Terminal k) \<Rightarrow> Some k
      | _ \<Rightarrow> None)"

definition rules_in :: "string \<Rightarrow> tree \<Rightarrow> tree list" where
  "rules_in name tree = filter (is_rule name) (children tree)"

definition tree_context_range :: "SourceRangeMapper \<Rightarrow> rule_context \<Rightarrow> SourceRange" where
  "tree_context_range ranges c =
     context_range ranges (Some (map_option token_info_of (rx_start c), map_option token_info_of (rx_stop c)))"

definition tree_token_range :: "SourceRangeMapper \<Rightarrow> antlr_token \<Rightarrow> SourceRange" where
  "tree_token_range ranges t = token_range ranges (Some (token_info_of t))"

fun countParseTreeNodes :: "tree \<Rightarrow> nat" where
  "countParseTreeNodes (Terminal t) = 1"
| "countParseTreeNodes (Context c ts) = 1 + sum_list (map countParseTreeNodes ts)"

subsection \<open>Syntax snapshots\<close>

definition isSyntaxContextRule :: "string \<Rightarrow> bool" where
  "isSyntaxContextRule kind \<longleftrightarrow> kind \<in> set
     [''modelDef'', ''topicDef'', ''classDef'', ''structureDef'', ''associationDef'', ''viewDef'',
      ''graphicDef'', ''attributeDef'', ''domainDef'', ''unitDef'', ''importDef'', ''importing'',
      ''textType'', ''numericType'', ''properties'', ''path'']"

definition rule_kind :: "rule_context \<Rightarrow> string" where
  "rule_kind c = (case rx_rule c of Some name \<Rightarrow> name | None \<Rightarrow> ''unknown'')"

definition append_node :: "SourceRangeMapper \<Rightarrow> rule_context \<Rightarrow> nat \<Rightarrow> bool \<Rightarrow> SyntaxSnapshot \<Rightarrow> SyntaxSnapshot" where
  "append_node ranges c parent hasParent s =
     (let node = \<lparr>nd_id = length (sy_nodes s), nd_parent = parent, nd_hasParent = hasParent,
                  nd_kind = rule_kind c, nd_range = tree_context_range ranges c\<rparr>
      in s\<lparr>sy_nodes := sy_nodes s @ [node],
           sy_contexts := sy_contexts s @
             (if isSyntaxContextRule (rule_kind c)
              then [\<lparr>cx_kind = rule_kind c, cx_range = nd_range node\<rparr>] else [])\<rparr>)"

fun appendSyntaxNodes :: "SourceRangeMapper \<Rightarrow> nat \<Rightarrow> bool \<Rightarrow> tree \<Rightarrow> SyntaxSnapshot \<Rightarrow> SyntaxSnapshot"
and append_children :: "SourceRangeMapper \<Rightarrow> nat \<Rightarrow> bool \<Rightarrow> tree list \<Rightarrow> SyntaxSnapshot \<Rightarrow> SyntaxSnapshot" where
  "appendSyntaxNodes ranges parent hasParent (Terminal t) s = s"
| "appendSyntaxNodes ranges parent hasParent (Context c ts) s =
     append_children ranges (length (sy_nodes s)) True ts (append_node ranges c parent hasParent s)"
| "append_children ranges parent hasParent [] s = s"
| "append_children ranges parent hasParent (t # ts) s =
     append_children ranges parent hasParent ts (appendSyntaxNodes ranges parent hasParent t s)"

definition token_kind :: "vocabulary \<Rightarrow> antlr_token \<Rightarrow> string" where
  "token_kind v t =
     (let kind = vo_symbolic v (tk_type t) in if kind = [] then vo_literal v (tk_type t) else kind)"

definition appendSyntaxTokens ::
  "vocabulary \<Rightarrow> SourceRangeMapper \<Rightarrow> antlr_token list \<Rightarrow> SyntaxSnapshot \<Rightarrow> SyntaxSnapshot" where
  "appendSyntaxTokens v ranges ts s =
     s\<lparr>sy_tokens := sy_tokens s @
         map (\<lambda>t. \<lparr>tok_kind = token_kind v t, tok_text = tk_text t, tok_channel = tk_channel t,
                   tok_range = tree_token_range ranges t\<rparr>)
           (filter (\<lambda>t. tk_type t \<noteq> ''EOF'') ts)\<rparr>"

definition syntax_project ::
  "vocabulary \<Rightarrow> SourceRangeMapper \<Rightarrow> tree option \<Rightarrow> antlr_token list \<Rightarrow> SyntaxSnapshot \<Rightarrow> SyntaxSnapshot" where
  "syntax_project v ranges root ts s =
     (let s = appendSyntaxTokens v ranges ts s in
      case root of None \<Rightarrow> s | Some tree \<Rightarrow> appendSyntaxNodes ranges 0 False tree s)"

subsection \<open>The editor accumulator\<close>

definition isContainer :: "EditorSymbolKind \<Rightarrow> bool" where
  "isContainer kind \<longleftrightarrow> kind \<in> {EsModel, EsTopic, EsClass, EsStructure, EsAssociation, EsView, EsGraphic}"

fun symbolKind :: "EditorSymbolKind \<Rightarrow> string" where
  "symbolKind EsModel = ''model''"
| "symbolKind EsTopic = ''topic''"
| "symbolKind EsClass = ''class''"
| "symbolKind EsStructure = ''structure''"
| "symbolKind EsAssociation = ''association''"
| "symbolKind EsView = ''view''"
| "symbolKind EsGraphic = ''graphic''"
| "symbolKind EsDomain = ''domain''"
| "symbolKind EsUnit = ''unit''"
| "symbolKind EsAttribute = ''attribute''"

fun referenceKind :: "EditorReferenceKind \<Rightarrow> string" where
  "referenceKind ErExtends = ''extends''"
| "referenceKind ErType = ''type''"
| "referenceKind ErCollection = ''collection''"
| "referenceKind ErReference = ''reference''"
| "referenceKind ErUnit = ''unit''"

fun symbol_rank :: "EditorSymbolKind \<Rightarrow> nat" where
  "symbol_rank EsModel = 0"
| "symbol_rank EsTopic = 1"
| "symbol_rank EsClass = 2"
| "symbol_rank EsStructure = 3"
| "symbol_rank EsAssociation = 4"
| "symbol_rank EsView = 5"
| "symbol_rank EsGraphic = 6"
| "symbol_rank EsDomain = 7"
| "symbol_rank EsUnit = 8"
| "symbol_rank EsAttribute = 9"

fun reference_rank :: "EditorReferenceKind \<Rightarrow> nat" where
  "reference_rank ErExtends = 0"
| "reference_rank ErType = 1"
| "reference_rank ErCollection = 2"
| "reference_rank ErReference = 3"
| "reference_rank ErUnit = 4"

definition to_upper :: "char \<Rightarrow> char" where
  "to_upper c = (if is_lower c then char_of (byte_of c - 32) else c)"

definition sameName :: "string \<Rightarrow> string \<Rightarrow> bool" where
  "sameName a b \<longleftrightarrow> map to_upper a = map to_upper b"

definition containerRule :: "EditorSymbolKind \<Rightarrow> string" where
  "containerRule kind = symbolKind kind @ ''Def''"

record accumulator =
  ac_snapshot :: EditorSnapshot
  ac_references :: "string set"
  ac_recovered :: bool

definition make_accumulator :: "SourceRangeMapper \<Rightarrow> string \<Rightarrow> accumulator" where
  "make_accumulator ranges iliVersion =
     \<lparr>ac_snapshot = default_editor\<lparr>es_uri := sb_uri (rm_source ranges),
        es_documentVersion := sb_version (rm_source ranges), es_iliVersion := iliVersion\<rparr>,
      ac_references = {}, ac_recovered = False\<rparr>"

definition live_diagnostic :: "string \<Rightarrow> string \<Rightarrow> SourceRange \<Rightarrow> RelatedInformation \<Rightarrow> Diagnostic" where
  "live_diagnostic code message location related =
     default_diagnostic\<lparr>dg_severity := SevError, dg_code := code, dg_message := message, dg_range := location,
       dg_related := [related], dg_source := ''live'', dg_phase := PhEditorRecovery, dg_tags := [TagRecovery]\<rparr>"

definition make_declaration ::
  "SourceRangeMapper \<Rightarrow> rule_context \<Rightarrow> EditorSymbolKind \<Rightarrow> antlr_token \<Rightarrow> antlr_token option
     \<Rightarrow> EditorDeclaration option \<Rightarrow> EditorDeclaration" where
  "make_declaration ranges c kind name endName container =
     (let selection = tree_token_range ranges name;
          qualified = (case container of None \<Rightarrow> [] | Some d \<Rightarrow> ed_qualifiedName d @ ''.'' @ tk_text name)
      in \<lparr>ed_id = symbolKind kind @ '':'' @ dec (po_byteOffset (sr_start selection)) @ '':'' @ tk_text name,
          ed_name = tk_text name,
          ed_qualifiedName = (if qualified = [] then tk_text name else qualified),
          ed_kind = kind,
          ed_containerId = (case container of None \<Rightarrow> [] | Some d \<Rightarrow> ed_id d),
          ed_hasContainer = (container \<noteq> None),
          ed_range = tree_context_range ranges c,
          ed_selectionRange = selection,
          ed_endRange = (case endName of
             None \<Rightarrow> default_range
           | Some e \<Rightarrow> if tk_start e \<noteq> None then tree_token_range ranges e else default_range)\<rparr>)"

definition end_name_error ::
  "SourceRangeMapper \<Rightarrow> EditorDeclaration \<Rightarrow> antlr_token option \<Rightarrow> Diagnostic list" where
  "end_name_error ranges d endName =
     (case endName of
        None \<Rightarrow> []
      | Some e \<Rightarrow>
          if tk_start e \<noteq> None \<and> \<not> sameName (ed_name d) (tk_text e)
          then [live_diagnostic ''ILIC-LIVE-END-NAME'' (''Expected END '' @ ed_name d) (tree_token_range ranges e)
                  \<lparr>ri_range = ed_selectionRange d, ri_message = ''Declaration''\<rparr>]
          else [])"

definition addDeclaration ::
  "SourceRangeMapper \<Rightarrow> rule_context \<Rightarrow> EditorSymbolKind \<Rightarrow> antlr_token \<Rightarrow> antlr_token option \<Rightarrow> nat option
     \<Rightarrow> accumulator \<Rightarrow> nat option \<times> accumulator" where
  "addDeclaration ranges c kind name endName containerIndex ac =
     (if tk_start name = None then (None, ac)
      else if \<not> sr_valid (tree_token_range ranges name) then (None, ac)
      else
        let s = ac_snapshot ac;
            d = make_declaration ranges c kind name endName
                  (map_option (\<lambda>i. es_declarations s ! i) containerIndex);
            errors = end_name_error ranges d endName
        in (Some (length (es_declarations s)),
            ac\<lparr>ac_snapshot := s\<lparr>
                 es_declarations := es_declarations s @ [d],
                 es_contexts := es_contexts s @
                   (if isContainer kind then [\<lparr>cx_kind = containerRule kind, cx_range = ed_range d\<rparr>] else []),
                 es_diagnostics := es_diagnostics s @ errors\<rparr>,
               ac_recovered := ac_recovered ac \<or> (isContainer kind \<and> endName = None) \<or> errors \<noteq> []\<rparr>))"

definition reference_key :: "EditorReferenceKind \<Rightarrow> SourceRange \<Rightarrow> string \<Rightarrow> string \<Rightarrow> string" where
  "reference_key kind location tx sourceId =
     referenceKind kind @ '':'' @ dec (po_byteOffset (sr_start location)) @ '':''
     @ dec (po_byteOffset (sr_end location)) @ '':'' @ tx @ '':'' @ sourceId"

definition addReference ::
  "SourceRangeMapper \<Rightarrow> rule_context \<Rightarrow> EditorReferenceKind \<Rightarrow> string \<Rightarrow> nat option \<Rightarrow> accumulator \<Rightarrow> accumulator" where
  "addReference ranges c kind tx declarationIndex ac =
     (if tx = [] then ac
      else
        let valueRange = tree_context_range ranges c in
        if \<not> sr_valid valueRange then ac
        else
          let s = ac_snapshot ac;
              sourceId = (case declarationIndex of None \<Rightarrow> [] | Some i \<Rightarrow> ed_id (es_declarations s ! i));
              key = reference_key kind valueRange tx sourceId
          in if key \<in> ac_references ac then ac
             else
               ac\<lparr>ac_references := insert key (ac_references ac),
                  ac_snapshot := s\<lparr>es_references := es_references s @
                    [\<lparr>er_text = tx, er_kind = kind, er_sourceId = sourceId,
                      er_hasSource = (declarationIndex \<noteq> None), er_range = valueRange\<rparr>]\<rparr>\<rparr>)"

definition addImport :: "SyntaxImportReference \<Rightarrow> accumulator \<Rightarrow> accumulator" where
  "addImport r ac =
     (if im_model r = [] then ac
      else ac\<lparr>ac_snapshot := (ac_snapshot ac)\<lparr>es_imports := es_imports (ac_snapshot ac) @ [r]\<rparr>\<rparr>)"

definition appendSyntaxDiagnostics :: "Diagnostic list \<Rightarrow> accumulator \<Rightarrow> accumulator" where
  "appendSyntaxDiagnostics ds ac =
     ac\<lparr>ac_snapshot := (ac_snapshot ac)\<lparr>es_diagnostics := es_diagnostics (ac_snapshot ac) @ ds\<rparr>,
        ac_recovered := ac_recovered ac \<or> ds \<noteq> []\<rparr>"

definition markRecovered :: "accumulator \<Rightarrow> accumulator" where
  "markRecovered ac = ac\<lparr>ac_recovered := True\<rparr>"

subsection \<open>Finishing an editor snapshot\<close>

definition declaration_key :: "EditorDeclaration \<Rightarrow> string" where
  "declaration_key d = (if ed_hasContainer d then ed_containerId d else []) @ '':'' @ map to_upper (ed_name d)"

definition duplicate_error :: "EditorDeclaration \<Rightarrow> EditorDeclaration \<Rightarrow> Diagnostic" where
  "duplicate_error d previous =
     live_diagnostic ''ILIC-LIVE-DUPLICATE'' (''Duplicate declaration '' @ [apostrophe] @ ed_name d @ [apostrophe])
       (ed_selectionRange d) \<lparr>ri_range = ed_selectionRange previous, ri_message = ''First declaration''\<rparr>"

fun find_duplicates :: "(string \<times> EditorDeclaration) list \<Rightarrow> EditorDeclaration list \<Rightarrow> Diagnostic list" where
  "find_duplicates previous [] = []"
| "find_duplicates previous (d # ds) =
     (case map_of previous (declaration_key d) of
        Some p \<Rightarrow> duplicate_error d p # find_duplicates previous ds
      | None \<Rightarrow> find_duplicates ((declaration_key d, d) # previous) ds)"

definition declaration_before :: "EditorDeclaration \<Rightarrow> EditorDeclaration \<Rightarrow> bool" where
  "declaration_before a b \<longleftrightarrow>
     (let sa = po_byteOffset (sr_start (ed_selectionRange a)); sb = po_byteOffset (sr_start (ed_selectionRange b));
          ea = po_byteOffset (sr_end (ed_selectionRange a)); eb = po_byteOffset (sr_end (ed_selectionRange b))
      in if sa \<noteq> sb then sa < sb
         else if ea \<noteq> eb then ea < eb
         else if ed_kind a \<noteq> ed_kind b then symbol_rank (ed_kind a) < symbol_rank (ed_kind b)
         else ed_name a < ed_name b)"

definition reference_before :: "EditorReference \<Rightarrow> EditorReference \<Rightarrow> bool" where
  "reference_before a b \<longleftrightarrow>
     (let sa = po_byteOffset (sr_start (er_range a)); sb = po_byteOffset (sr_start (er_range b));
          ea = po_byteOffset (sr_end (er_range a)); eb = po_byteOffset (sr_end (er_range b))
      in if sa \<noteq> sb then sa < sb
         else if ea \<noteq> eb then ea < eb
         else reference_rank (er_kind a) < reference_rank (er_kind b))"

definition range_before :: "('a \<Rightarrow> SourceRange) \<Rightarrow> 'a \<Rightarrow> 'a \<Rightarrow> bool" where
  "range_before f a b \<longleftrightarrow> po_byteOffset (sr_start (f a)) < po_byteOffset (sr_start (f b))"

definition is_error :: "Diagnostic \<Rightarrow> bool" where
  "is_error d \<longleftrightarrow> dg_treatedAsError d \<or> dg_severity d = SevError"

definition finish :: "bool \<Rightarrow> accumulator \<Rightarrow> EditorSnapshot" where
  "finish parserComplete ac =
     (let s = ac_snapshot ac;
          duplicates = find_duplicates [] (es_declarations s);
          ds = sortDiagnostics (es_diagnostics s @ duplicates);
          hasError = list_ex is_error ds;
          recovered = (ac_recovered ac \<or> duplicates \<noteq> [] \<or> hasError)
      in s\<lparr>es_declarations := stable_sort declaration_before (es_declarations s),
           es_references := stable_sort reference_before (es_references s),
           es_imports := stable_sort (range_before im_range) (es_imports s),
           es_contexts := stable_sort (range_before cx_range) (es_contexts s),
           es_diagnostics := ds,
           es_success := \<not> hasError,
           es_recovered := recovered,
           es_complete := parserComplete \<and> \<not> recovered\<rparr>)"

subsection \<open>Traversal of a tree\<close>

record declaration_match =
  dx_kind :: EditorSymbolKind
  dx_name :: "antlr_token option"
  dx_endName :: "antlr_token option"

definition no_match :: declaration_match where
  "no_match = \<lparr>dx_kind = EsAttribute, dx_name = None, dx_endName = None\<rparr>"

definition match_labels :: "tree \<Rightarrow> EditorSymbolKind \<Rightarrow> string \<Rightarrow> string option \<Rightarrow> declaration_match" where
  "match_labels tree kind name endName =
     \<lparr>dx_kind = kind, dx_name = labelled name tree,
      dx_endName = (case endName of None \<Rightarrow> None | Some l \<Rightarrow> labelled l tree)\<rparr>"

definition ili2DeclarationMatch :: "tree \<Rightarrow> declaration_match" where
  "ili2DeclarationMatch tree =
     (if is_rule ''modelDef'' tree then match_labels tree EsModel ''modelname1'' (Some ''modelname2'')
      else if is_rule ''topicDef'' tree then match_labels tree EsTopic ''topicname1'' (Some ''topicname2'')
      else if is_rule ''classDef'' tree then match_labels tree EsClass ''classname1'' (Some ''classname2'')
      else if is_rule ''structureDef'' tree then match_labels tree EsStructure ''structurename1'' (Some ''structurename2'')
      else if is_rule ''associationDef'' tree then match_labels tree EsAssociation ''associationname1'' (Some ''associationname2'')
      else if is_rule ''viewDef'' tree then match_labels tree EsView ''viewname1'' (Some ''viewname2'')
      else if is_rule ''graphicDef'' tree then match_labels tree EsGraphic ''graphicname1'' (Some ''graphicname2'')
      else if is_rule ''domainType'' tree then match_labels tree EsDomain ''domainname'' None
      else if is_rule ''unitDef'' tree then match_labels tree EsUnit ''unitname'' None
      else if is_rule ''attributeDef'' tree then match_labels tree EsAttribute ''attributname'' None
      else if is_rule ''viewAttribute'' tree \<and> rules_in ''attributeDef'' tree = []
      then match_labels tree EsAttribute ''attributename'' None
      else no_match)"

definition ili1DeclarationMatch :: "tree \<Rightarrow> declaration_match" where
  "ili1DeclarationMatch tree =
     (if is_rule ''modelDef'' tree then match_labels tree EsModel ''modelname1'' (Some ''modelname2'')
      else if is_rule ''topicDef'' tree then match_labels tree EsTopic ''topicname1'' (Some ''topicname2'')
      else if is_rule ''tableDef'' tree then match_labels tree EsClass ''tablename1'' (Some ''tablename2'')
      else if is_rule ''domainDef'' tree then match_labels tree EsDomain ''domainname'' None
      else if is_rule ''attribute'' tree then match_labels tree EsAttribute ''attributename'' None
      else if is_rule ''view'' tree then match_labels tree EsView ''modelname1'' (Some ''modelname2'')
      else no_match)"

text \<open>The parents are given by the names of their rules, the nearest first; only the nearest one can hold the
  path itself, under the label given.\<close>

definition extends_label :: "string \<Rightarrow> string \<Rightarrow> bool" where
  "extends_label rule label \<longleftrightarrow> (rule, label) \<in> set
     [(''classDef'', ''classbase''), (''structureDef'', ''structurebase''), (''topicDef'', ''topicbase''),
      (''viewDef'', ''viewref''), (''graphicDef'', ''expath''), (''domainType'', ''basedomain'')]"

fun ili2ReferenceKind :: "string \<Rightarrow> string list \<Rightarrow> EditorReferenceKind" where
  "ili2ReferenceKind label [] = ErType"
| "ili2ReferenceKind label (rule # parents) =
     (if rule = ''bagOrListType'' then ErCollection
      else if rule = ''referenceAttr'' \<or> rule = ''roleDef'' then ErReference
      else if rule = ''unitDef'' \<or> rule = ''derivedUnit'' \<or> rule = ''composedUnit'' then ErUnit
      else if extends_label rule label then ErExtends
      else ili2ReferenceKind [] parents)"

definition declare_match ::
  "(tree \<Rightarrow> declaration_match) \<Rightarrow> SourceRangeMapper \<Rightarrow> tree \<Rightarrow> nat option \<Rightarrow> nat option \<Rightarrow> accumulator
     \<Rightarrow> nat option \<times> nat option \<times> accumulator" where
  "declare_match matcher ranges tree container declaration ac =
     (case (tree, dx_name (matcher tree)) of
        (Context c ts, Some name) \<Rightarrow>
          let m = matcher tree;
              (current, ac) = addDeclaration ranges c (dx_kind m) name (dx_endName m) container ac
          in (if current \<noteq> None \<and> isContainer (dx_kind m) then current else container, current, ac)
      | _ \<Rightarrow> (container, declaration, ac))"

definition import_name :: "tree \<Rightarrow> antlr_token option" where
  "import_name tree = (case terminal_of_type ''INTERLIS'' tree of
     Some t \<Rightarrow> Some t
   | None \<Rightarrow> terminal_of_type ''NAME'' tree)"

definition import_paths :: "SourceRangeMapper \<Rightarrow> bool \<Rightarrow> tree list \<Rightarrow> SyntaxImportReference list" where
  "import_paths ranges unqualified ts =
     concat (map (\<lambda>t. case t of
        Terminal _ \<Rightarrow> []
      | Context c _ \<Rightarrow> if rx_rule c = Some ''path''
          then [\<lparr>im_model = tree_text t, im_unqualified = unqualified, im_range = tree_context_range ranges c\<rparr>]
          else []) ts)"

definition collect_import :: "SourceRangeMapper \<Rightarrow> tree \<Rightarrow> accumulator \<Rightarrow> accumulator" where
  "collect_import ranges tree ac =
     (if \<not> is_rule ''importing'' tree then ac
      else
        let unqualified = (terminal_of_type ''UNQUALIFIED'' tree \<noteq> None) in
        case import_name tree of
          Some name \<Rightarrow> addImport \<lparr>im_model = tk_text name, im_unqualified = unqualified,
                         im_range = tree_token_range ranges name\<rparr> ac
        | None \<Rightarrow> fold addImport (import_paths ranges unqualified (children tree)) ac)"

definition collect_path ::
  "SourceRangeMapper \<Rightarrow> string list \<Rightarrow> tree \<Rightarrow> nat option \<Rightarrow> accumulator \<Rightarrow> accumulator" where
  "collect_path ranges parents tree declaration ac =
     (case tree of
        Terminal _ \<Rightarrow> ac
      | Context c ts \<Rightarrow>
          if rx_rule c = Some ''path'' \<and> ''importing'' \<notin> set parents
          then addReference ranges c (ili2ReferenceKind (rx_label c) parents) (tree_text tree) declaration ac
          else ac)"

fun collectIli2Editor ::
  "SourceRangeMapper \<Rightarrow> string list \<Rightarrow> nat option \<Rightarrow> nat option \<Rightarrow> tree \<Rightarrow> accumulator \<Rightarrow> accumulator"
and collect_ili2_children ::
  "SourceRangeMapper \<Rightarrow> string list \<Rightarrow> nat option \<Rightarrow> nat option \<Rightarrow> tree list \<Rightarrow> accumulator \<Rightarrow> accumulator" where
  "collectIli2Editor ranges parents container declaration (Terminal t) ac = ac"
| "collectIli2Editor ranges parents container declaration (Context c ts) ac =
     (let tree = Context c ts;
          (container, declaration, ac) = declare_match ili2DeclarationMatch ranges tree container declaration ac;
          ac = collect_path ranges parents tree declaration (collect_import ranges tree ac)
      in collect_ili2_children ranges (rule_kind c # parents) container declaration ts ac)"
| "collect_ili2_children ranges parents container declaration [] ac = ac"
| "collect_ili2_children ranges parents container declaration (t # ts) ac =
     collect_ili2_children ranges parents container declaration ts
       (collectIli2Editor ranges parents container declaration t ac)"

definition collect_ili1_references ::
  "SourceRangeMapper \<Rightarrow> tree \<Rightarrow> nat option \<Rightarrow> accumulator \<Rightarrow> accumulator" where
  "collect_ili1_references ranges tree declaration ac =
     (case tree of
        Terminal _ \<Rightarrow> ac
      | Context c ts \<Rightarrow>
          if rx_rule c = Some ''type'' then
            (case labelled ''name'' tree of
               None \<Rightarrow> ac
             | Some t \<Rightarrow> addReference ranges c ErType (tk_text t) declaration ac)
          else if rx_rule c = Some ''attribute'' then
            (case labelled ''tablename'' tree of
               None \<Rightarrow> ac
             | Some t \<Rightarrow> addReference ranges c ErReference (tk_text t) declaration ac)
          else ac)"

fun collectIli1Editor ::
  "SourceRangeMapper \<Rightarrow> nat option \<Rightarrow> nat option \<Rightarrow> tree \<Rightarrow> accumulator \<Rightarrow> accumulator"
and collect_ili1_children ::
  "SourceRangeMapper \<Rightarrow> nat option \<Rightarrow> nat option \<Rightarrow> tree list \<Rightarrow> accumulator \<Rightarrow> accumulator" where
  "collectIli1Editor ranges container declaration (Terminal t) ac = ac"
| "collectIli1Editor ranges container declaration (Context c ts) ac =
     (let tree = Context c ts;
          (container, declaration, ac) = declare_match ili1DeclarationMatch ranges tree container declaration ac;
          ac = collect_ili1_references ranges tree declaration ac
      in collect_ili1_children ranges container declaration ts ac)"
| "collect_ili1_children ranges container declaration [] ac = ac"
| "collect_ili1_children ranges container declaration (t # ts) ac =
     collect_ili1_children ranges container declaration ts (collectIli1Editor ranges container declaration t ac)"

definition collect_editor :: "bool \<Rightarrow> SourceRangeMapper \<Rightarrow> tree option \<Rightarrow> accumulator \<Rightarrow> accumulator" where
  "collect_editor ili2 ranges root ac =
     (case root of
        None \<Rightarrow> ac
      | Some tree \<Rightarrow>
          if ili2 then collectIli2Editor ranges [] None None tree ac
          else collectIli1Editor ranges None None tree ac)"

definition editor_project ::
  "bool \<Rightarrow> SourceRangeMapper \<Rightarrow> string \<Rightarrow> tree option \<Rightarrow> Diagnostic list \<Rightarrow> bool \<Rightarrow> bool \<Rightarrow> EditorSnapshot" where
  "editor_project ili2 ranges iliVersion root syntaxDiagnostics parserComplete recovered =
     (let ac = collect_editor ili2 ranges root (make_accumulator ranges iliVersion);
          ac = (if recovered then markRecovered ac else ac)
      in finish parserComplete (appendSyntaxDiagnostics syntaxDiagnostics ac))"

subsection \<open>Nodes of a syntax snapshot\<close>

fun rule_kinds :: "tree \<Rightarrow> string list" where
  "rule_kinds (Terminal t) = []"
| "rule_kinds (Context c ts) = rule_kind c # concat (map rule_kinds ts)"

lemma mapper_range_valid [simp]: "sr_valid (mapper_range rm uri b e)"
  by (simp add: mapper_range_def Let_def)

lemma tree_context_range_valid [simp]: "sr_valid (tree_context_range ranges c)"
  by (simp add: tree_context_range_def context_range_def eof_range_def codepointRange_def split: option.splits)

definition node_links :: "nat \<Rightarrow> bool \<Rightarrow> nat \<Rightarrow> SyntaxNode list \<Rightarrow> bool" where
  "node_links parent hasParent n nodes \<longleftrightarrow>
     map nd_id nodes = [n..<n + length nodes]
     \<and> (\<forall>x \<in> set nodes. nd_parent x = parent \<and> nd_hasParent x = hasParent
          \<or> nd_hasParent x \<and> n \<le> nd_parent x \<and> nd_parent x < nd_id x)"

definition node_contexts :: "SyntaxNode list \<Rightarrow> SyntaxContext list" where
  "node_contexts nodes =
     map (\<lambda>n. \<lparr>cx_kind = nd_kind n, cx_range = nd_range n\<rparr>) (filter (\<lambda>n. isSyntaxContextRule (nd_kind n)) nodes)"

definition nodes_appended ::
  "nat \<Rightarrow> bool \<Rightarrow> string list \<Rightarrow> SyntaxSnapshot \<Rightarrow> SyntaxSnapshot \<Rightarrow> SyntaxNode list \<Rightarrow> bool" where
  "nodes_appended parent hasParent kinds s s' new \<longleftrightarrow>
     s' = s\<lparr>sy_nodes := sy_nodes s @ new, sy_contexts := sy_contexts s @ node_contexts new\<rparr>
     \<and> map nd_kind new = kinds \<and> node_links parent hasParent (length (sy_nodes s)) new
     \<and> list_all (\<lambda>x. sr_valid (nd_range x)) new"

lemma node_links_append:
  assumes "node_links p h n a" and "node_links p h (n + length a) b"
  shows "node_links p h n (a @ b)"
proof -
  have "map nd_id (a @ b) = [n..<n + length a] @ [n + length a..<n + length a + length b]"
    using assms by (simp add: node_links_def)
  also have "\<dots> = [n..<n + length (a @ b)]" 
    using upt_add_eq_append [of n "n + length a" "length b"] by (simp add: add.assoc)
  finally have "map nd_id (a @ b) = [n..<n + length (a @ b)]" .
  moreover have "nd_parent x = p \<and> nd_hasParent x = h \<or> nd_hasParent x \<and> n \<le> nd_parent x \<and> nd_parent x < nd_id x"
    if "x \<in> set (a @ b)" for x
  proof (cases "x \<in> set a")
    case True
    then show ?thesis using assms(1) unfolding node_links_def by blast
  next
    case False
    then have "x \<in> set b" using that by simp
    then have "nd_parent x = p \<and> nd_hasParent x = h
      \<or> nd_hasParent x \<and> n + length a \<le> nd_parent x \<and> nd_parent x < nd_id x"
      using assms(2) unfolding node_links_def by blast
    then show ?thesis by linarith
  qed
  ultimately show ?thesis unfolding node_links_def by blast
qed

lemma nodes_appended_trans:
  "nodes_appended p h ks s s' a \<Longrightarrow> nodes_appended p h ls s' s'' b \<Longrightarrow> nodes_appended p h (ks @ ls) s s'' (a @ b)"
  using node_links_append [of p h "length (sy_nodes s)" a b]
  by (auto simp: nodes_appended_def node_contexts_def)

lemma nodes_appended_Cons:
  assumes "nodes_appended (length (sy_nodes s)) True ks (append_node ranges c p h s) s' new"
  shows "nodes_appended p h (rule_kind c # ks) s s'
    (\<lparr>nd_id = length (sy_nodes s), nd_parent = p, nd_hasParent = h, nd_kind = rule_kind c,
      nd_range = tree_context_range ranges c\<rparr> # new)"
proof -
  let ?n = "length (sy_nodes s)"
  have new: "map nd_id new = [Suc ?n..<Suc ?n + length new]"
    "\<forall>x \<in> set new. nd_parent x = ?n \<and> nd_hasParent x \<or> nd_hasParent x \<and> Suc ?n \<le> nd_parent x \<and> nd_parent x < nd_id x"
    using assms by (auto simp: nodes_appended_def node_links_def append_node_def Let_def)
  have "Suc ?n \<le> nd_id x" if "x \<in> set new" for x
  proof -
    have "nd_id x \<in> set (map nd_id new)" using that by simp
    then show ?thesis unfolding new(1) set_upt by (simp only: atLeastLessThan_iff)
  qed
  then have "nd_hasParent x \<and> ?n \<le> nd_parent x \<and> nd_parent x < nd_id x" if "x \<in> set new" for x
    using that new(2) by force
  then have "node_links p h ?n (\<lparr>nd_id = ?n, nd_parent = p, nd_hasParent = h, nd_kind = rule_kind c,
      nd_range = tree_context_range ranges c\<rparr> # new)"
    using new(1) by (simp add: node_links_def upt_conv_Cons del: upt_Suc)
  then show ?thesis
    using assms by (simp add: nodes_appended_def append_node_def Let_def node_contexts_def)
qed

lemma nodes_appended_refl: "nodes_appended p h [] s s []"
  by (simp add: nodes_appended_def node_links_def node_contexts_def)

lemma syntax_nodes:
  "\<exists>new. nodes_appended p h (rule_kinds tree) s (appendSyntaxNodes ranges p h tree s) new"
  "\<exists>new. nodes_appended p h (concat (map rule_kinds ts)) s (append_children ranges p h ts s) new"
proof (induction ranges p h tree s and ranges p h ts s rule: appendSyntaxNodes_append_children.induct)
  case (2 ranges p h c ts s)
  then show ?case using nodes_appended_Cons by fastforce
next
  case (4 ranges p h t ts s)
  then show ?case using nodes_appended_trans by fastforce
qed (auto intro: nodes_appended_refl)

text \<open>C26. The nodes of a syntax snapshot are the rule contexts of the parse tree in pre-order: a node's id is
  its position, the first node alone has no parent, every other parent stands before its child, every range is
  valid, and the contexts are the nodes of the listed rules in the same order.\<close>

theorem syntax_nodes_preorder:
  fixes v :: vocabulary and ranges :: SourceRangeMapper and tokens :: "antlr_token list"
    and s :: SyntaxSnapshot and tree :: tree
  assumes "sy_nodes s = []" and "sy_contexts s = []" and "tree = Context c ts"
  defines "result \<equiv> syntax_project v ranges (Some tree) tokens s"
  shows "map nd_id (sy_nodes result) = [0..<length (sy_nodes result)]
    \<and> map nd_kind (sy_nodes result) = rule_kinds tree
    \<and> \<not> nd_hasParent (sy_nodes result ! 0)
    \<and> (\<forall>i < length (sy_nodes result). sr_valid (nd_range (sy_nodes result ! i))
        \<and> (i > 0 \<longrightarrow> nd_hasParent (sy_nodes result ! i) \<and> nd_parent (sy_nodes result ! i) < i))
    \<and> sy_contexts result = node_contexts (sy_nodes result)"
proof -
  define s0 where "s0 = appendSyntaxTokens v ranges tokens s"
  have s0: "sy_nodes s0 = []" "sy_contexts s0 = []" using assms(1,2) by (simp_all add: s0_def appendSyntaxTokens_def)
  obtain new where new: "nodes_appended 0 True (concat (map rule_kinds ts)) (append_node ranges c 0 False s0)
      (append_children ranges 0 True ts (append_node ranges c 0 False s0)) new"
    using syntax_nodes(2) by blast
  have result: "result = append_children ranges 0 True ts (append_node ranges c 0 False s0)"
    using s0 by (simp add: result_def syntax_project_def assms(3) Let_def flip: s0_def)
  define root where "root = \<lparr>nd_id = 0, nd_parent = 0, nd_hasParent = False, nd_kind = rule_kind c,
      nd_range = tree_context_range ranges c\<rparr>"
  from nodes_appended_Cons [of s0 _ ranges c 0 False] new s0(1)
  have all: "nodes_appended 0 False (rule_kinds tree) s0 result (root # new)"
    by (simp add: result assms(3) root_def)
  have new_ids: "map nd_id new = [Suc 0..<Suc (length new)]"
    using all s0(1) by (simp add: nodes_appended_def node_links_def upt_conv_Cons del: upt_Suc)
  have "nd_hasParent x \<and> nd_parent x < nd_id x" if "x \<in> set new" for x
  proof -
    have "0 < nd_id x" using that new_ids by (metis atLeastLessThan_iff imageI list.set_map set_upt Suc_le_lessD)
    then show ?thesis using new that s0(1) by (auto simp: nodes_appended_def node_links_def append_node_def Let_def)
  qed
  moreover have "nd_id (new ! i) = Suc i" if "i < length new" for i
    using arg_cong [OF new_ids, of "\<lambda>l. l ! i"] that by (simp del: upt_Suc)
  ultimately have "nd_hasParent (new ! i) \<and> nd_parent (new ! i) < Suc i" if "i < length new" for i
    using that by (metis nth_mem)
  then show ?thesis
    using all s0
    by (auto simp: nodes_appended_def node_links_def root_def list_all_length less_Suc_eq_0_disj nth_Cons split: nat.splits)
qed

definition example_token :: "string \<Rightarrow> string \<Rightarrow> nat \<Rightarrow> nat \<Rightarrow> antlr_token" where
  "example_token ty tx b e =
     \<lparr>tk_type = ty, tk_text = tx, tk_channel = 0, tk_start = Some b, tk_stop = Some e, tk_line = 1, tk_column = b,
      tk_index = b\<rparr>"

definition example_context :: "string \<Rightarrow> (string \<times> antlr_token) list \<Rightarrow> rule_context" where
  "example_context rule tokens =
     \<lparr>rx_rule = Some rule, rx_label = [], rx_start = Some (example_token ''MODEL'' ''MODEL'' 0 4),
      rx_stop = Some (example_token ''DOT'' ''.'' 20 20), rx_tokens = tokens\<rparr>"

definition example_tree :: tree where
  "example_tree =
     Context (example_context ''interlis2Def'' [])
       [Context (example_context ''modelDef''
            [(''modelname1'', example_token ''NAME'' ''A'' 6 6), (''modelname2'', example_token ''NAME'' ''A'' 19 19)])
          [Terminal (example_token ''MODEL'' ''MODEL'' 0 4)]]"

theorem syntax_nodes_preorder_witness:
  "map nd_id (sy_nodes (syntax_project \<lparr>vo_symbolic = id, vo_literal = id\<rparr>
     (make_SourceRangeMapper \<lparr>sb_uri = ''a'', sb_text = ''MODEL A = END A.'', sb_version = 1\<rparr>)
     (Some example_tree) [] default_syntax)) = [0..<2]"
proof -
  let ?r = "syntax_project \<lparr>vo_symbolic = id, vo_literal = id\<rparr>
     (make_SourceRangeMapper \<lparr>sb_uri = ''a'', sb_text = ''MODEL A = END A.'', sb_version = 1\<rparr>)
     (Some example_tree) [] default_syntax"
  have empty: "sy_nodes default_syntax = []" "sy_contexts default_syntax = []" by (simp_all add: default_syntax_def)
  note facts = syntax_nodes_preorder [OF empty example_tree_def, of "\<lparr>vo_symbolic = id, vo_literal = id\<rparr>"
      "make_SourceRangeMapper \<lparr>sb_uri = ''a'', sb_text = ''MODEL A = END A.'', sb_version = 1\<rparr>" "[]"]
  have "length (rule_kinds example_tree) = 2" by (simp add: example_tree_def)
  then have "length (sy_nodes ?r) = 2" using facts by (metis length_map)
  then show ?thesis using facts by metis
qed

subsection \<open>What the traversal keeps\<close>

text \<open>A traversal only changes the accumulator through its three operations, and passes them indices of
  declarations that were returned before. An invariant of the operations is an invariant of every traversal.\<close>

definition container_index :: "nat option \<Rightarrow> accumulator \<Rightarrow> bool" where
  "container_index i ac = (case i of
     None \<Rightarrow> True
   | Some i \<Rightarrow> i < length (es_declarations (ac_snapshot ac))
       \<and> isContainer (ed_kind (es_declarations (ac_snapshot ac) ! i)))"

definition declared_index :: "nat option \<Rightarrow> accumulator \<Rightarrow> bool" where
  "declared_index i ac = (case i of None \<Rightarrow> True | Some i \<Rightarrow> i < length (es_declarations (ac_snapshot ac)))"

definition extended :: "accumulator \<Rightarrow> accumulator \<Rightarrow> bool" where
  "extended ac ac' \<longleftrightarrow> (\<exists>more. es_declarations (ac_snapshot ac') = es_declarations (ac_snapshot ac) @ more)"

lemma extended_refl [simp]: "extended ac ac"
  by (simp add: extended_def)

lemma extended_trans: "extended a b \<Longrightarrow> extended b c \<Longrightarrow> extended a c"
  by (auto simp: extended_def)

lemma indices_extended:
  "extended ac ac' \<Longrightarrow> container_index i ac \<Longrightarrow> container_index i ac'"
  "extended ac ac' \<Longrightarrow> declared_index i ac \<Longrightarrow> declared_index i ac'"
  by (auto simp: extended_def container_index_def declared_index_def nth_append split: option.splits)

lemma make_declaration_kind [simp]: "ed_kind (make_declaration ranges c kind name endName container) = kind"
  by (simp add: make_declaration_def Let_def)

lemma addDeclaration_extends:
  "addDeclaration ranges c kind name endName container ac = (i, ac') \<Longrightarrow>
    extended ac ac' \<and> declared_index i ac' \<and> (isContainer kind \<longrightarrow> container_index i ac')"
  by (auto simp: addDeclaration_def Let_def extended_def declared_index_def container_index_def split: if_splits)

lemma addReference_extends [simp]: "extended ac (addReference ranges c kind tx i ac)"
  by (simp add: addReference_def Let_def extended_def)

lemma addImport_extends [simp]: "extended ac (addImport r ac)"
  by (simp add: addImport_def extended_def)

locale editor_traversal =
  fixes inv :: "accumulator \<Rightarrow> bool" and ranges :: SourceRangeMapper
  assumes keep_declaration: "inv ac \<Longrightarrow> container_index i ac \<Longrightarrow> inv (snd (addDeclaration ranges c kind name endName i ac))"
    and keep_reference: "inv ac \<Longrightarrow> declared_index i ac \<Longrightarrow> inv (addReference ranges c kind2 tx i ac)"
    and keep_import: "inv ac \<Longrightarrow> inv (addImport r ac)"
begin

lemma imports_keep: "inv ac \<Longrightarrow> inv (fold addImport rs ac) \<and> extended ac (fold addImport rs ac)"
proof (induction rs arbitrary: ac)
  case (Cons r rs)
  then show ?case using keep_import [of ac r] extended_trans [OF addImport_extends] by fastforce
qed simp

lemma collect_import_keeps:
  "inv ac \<Longrightarrow> inv (collect_import ranges tree ac) \<and> extended ac (collect_import ranges tree ac)"
  using imports_keep keep_import by (auto simp: collect_import_def Let_def split: option.splits)

lemma collect_path_keeps:
  "inv ac \<Longrightarrow> declared_index d ac \<Longrightarrow>
    inv (collect_path ranges parents tree d ac) \<and> extended ac (collect_path ranges parents tree d ac)"
  using keep_reference by (auto simp: collect_path_def split: tree.splits)

lemma collect_ili1_references_keeps:
  "inv ac \<Longrightarrow> declared_index d ac \<Longrightarrow>
    inv (collect_ili1_references ranges tree d ac) \<and> extended ac (collect_ili1_references ranges tree d ac)"
  using keep_reference by (auto simp: collect_ili1_references_def split: tree.splits option.splits)

lemma declare_match_keeps:
  assumes "inv ac" and "container_index container ac" and "declared_index decl ac"
    and "declare_match matcher ranges tree container decl ac = (container', decl', ac')"
  shows "inv ac' \<and> extended ac ac' \<and> container_index container' ac' \<and> declared_index decl' ac'"
proof (cases "\<exists>c ts name. tree = Context c ts \<and> dx_name (matcher tree) = Some name")
  case True
  then obtain c ts name where t: "tree = Context c ts" "dx_name (matcher tree) = Some name" by blast
  obtain i ac2 where add: "addDeclaration ranges c (dx_kind (matcher tree)) name (dx_endName (matcher tree)) container ac = (i, ac2)"
    by fastforce
  have "inv ac2" using keep_declaration [OF assms(1,2)] add by (metis snd_conv)
  then show ?thesis
    using assms t add addDeclaration_extends [OF add] indices_extended
    by (auto simp: declare_match_def Let_def split: if_splits)
next
  case False
  then show ?thesis using assms by (auto simp: declare_match_def split: tree.splits option.splits)
qed

lemma ili2_children_keep:
  assumes "\<And>t ac. t \<in> set ts \<Longrightarrow> inv ac \<Longrightarrow> container_index container ac \<Longrightarrow> declared_index decl ac \<Longrightarrow>
      inv (collectIli2Editor ranges parents container decl t ac)
      \<and> extended ac (collectIli2Editor ranges parents container decl t ac)"
    and "inv ac" and "container_index container ac" and "declared_index decl ac"
  shows "inv (collect_ili2_children ranges parents container decl ts ac)
    \<and> extended ac (collect_ili2_children ranges parents container decl ts ac)"
  using assms
proof (induction ts arbitrary: ac)
  case (Cons t ts)
  let ?ac = "collectIli2Editor ranges parents container decl t ac"
  have step: "inv ?ac" "extended ac ?ac" using Cons.prems by auto
  then have "inv (collect_ili2_children ranges parents container decl ts ?ac)
    \<and> extended ?ac (collect_ili2_children ranges parents container decl ts ?ac)"
    using Cons.prems step(1) indices_extended [OF step(2)] by (intro Cons.IH) auto
  then show ?case using extended_trans [OF step(2)] by simp
qed simp

lemma ili2_keeps:
  "inv ac \<Longrightarrow> container_index container ac \<Longrightarrow> declared_index decl ac \<Longrightarrow>
    inv (collectIli2Editor ranges parents container decl tree ac)
    \<and> extended ac (collectIli2Editor ranges parents container decl tree ac)"
proof (induction tree arbitrary: parents container decl ac)
  case (Context c ts)
  let ?tree = "Context c ts"
  obtain i d ac1 where matched: "declare_match ili2DeclarationMatch ranges ?tree container decl ac = (i, d, ac1)"
    by (metis prod_cases3)
  note m' = declare_match_keeps [OF Context.prems matched]
  let ?ac2 = "collect_import ranges ?tree ac1"
  have two: "inv ?ac2" "extended ac1 ?ac2" using collect_import_keeps m' by auto
  let ?ac3 = "collect_path ranges parents ?tree d ?ac2"
  have three: "inv ?ac3" "extended ?ac2 ?ac3"
    using collect_path_keeps two m' indices_extended(2) [OF two(2)] by auto
  have ext: "extended ac1 ?ac3" using extended_trans two(2) three(2) by blast
  have "inv (collect_ili2_children ranges (rule_kind c # parents) i d ts ?ac3)
    \<and> extended ?ac3 (collect_ili2_children ranges (rule_kind c # parents) i d ts ?ac3)"
    using three(1) m' indices_extended [OF ext] Context.IH by (intro ili2_children_keep) auto
  then show ?case using matched m' extended_trans ext by (auto simp: Let_def intro: extended_trans)
qed simp

lemma ili1_children_keep:
  assumes "\<And>t ac. t \<in> set ts \<Longrightarrow> inv ac \<Longrightarrow> container_index container ac \<Longrightarrow> declared_index decl ac \<Longrightarrow>
      inv (collectIli1Editor ranges container decl t ac)
      \<and> extended ac (collectIli1Editor ranges container decl t ac)"
    and "inv ac" and "container_index container ac" and "declared_index decl ac"
  shows "inv (collect_ili1_children ranges container decl ts ac)
    \<and> extended ac (collect_ili1_children ranges container decl ts ac)"
  using assms
proof (induction ts arbitrary: ac)
  case (Cons t ts)
  let ?ac = "collectIli1Editor ranges container decl t ac"
  have step: "inv ?ac" "extended ac ?ac" using Cons.prems by auto
  then have "inv (collect_ili1_children ranges container decl ts ?ac)
    \<and> extended ?ac (collect_ili1_children ranges container decl ts ?ac)"
    using Cons.prems step(1) indices_extended [OF step(2)] by (intro Cons.IH) auto
  then show ?case using extended_trans [OF step(2)] by simp
qed simp

lemma ili1_keeps:
  "inv ac \<Longrightarrow> container_index container ac \<Longrightarrow> declared_index decl ac \<Longrightarrow>
    inv (collectIli1Editor ranges container decl tree ac)
    \<and> extended ac (collectIli1Editor ranges container decl tree ac)"
proof (induction tree arbitrary: container decl ac)
  case (Context c ts)
  let ?tree = "Context c ts"
  obtain i d ac1 where matched: "declare_match ili1DeclarationMatch ranges ?tree container decl ac = (i, d, ac1)"
    by (metis prod_cases3)
  note m' = declare_match_keeps [OF Context.prems matched]
  let ?ac2 = "collect_ili1_references ranges ?tree d ac1"
  have two: "inv ?ac2" "extended ac1 ?ac2" using collect_ili1_references_keeps m' by auto
  have "inv (collect_ili1_children ranges i d ts ?ac2)
    \<and> extended ?ac2 (collect_ili1_children ranges i d ts ?ac2)"
    using two(1) m' indices_extended [OF two(2)] Context.IH by (intro ili1_children_keep) auto
  then show ?case using matched m' two(2) by (auto simp: Let_def intro: extended_trans)
qed simp

lemma collect_keeps: "inv ac \<Longrightarrow> inv (collect_editor ili2 ranges root ac)"
  using ili2_keeps [of ac None None] ili1_keeps [of ac None None]
  by (auto simp: collect_editor_def container_index_def declared_index_def split: option.splits)

end

subsection \<open>The invariant of an editor snapshot\<close>

definition linked_declaration :: "EditorDeclaration list \<Rightarrow> EditorDeclaration \<Rightarrow> bool" where
  "linked_declaration ds d \<longleftrightarrow>
     sr_valid (ed_selectionRange d)
     \<and> ed_id d = symbolKind (ed_kind d) @ '':'' @ dec (po_byteOffset (sr_start (ed_selectionRange d))) @ '':'' @ ed_name d
     \<and> (if ed_hasContainer d
        then \<exists>p \<in> set ds. isContainer (ed_kind p) \<and> ed_containerId d = ed_id p
               \<and> ed_qualifiedName d = ed_qualifiedName p @ ''.'' @ ed_name d
        else ed_containerId d = [] \<and> ed_qualifiedName d = ed_name d)"

definition linked_reference :: "EditorDeclaration list \<Rightarrow> EditorReference \<Rightarrow> bool" where
  "linked_reference ds r \<longleftrightarrow>
     er_text r \<noteq> [] \<and> sr_valid (er_range r)
     \<and> (if er_hasSource r then \<exists>d \<in> set ds. er_sourceId r = ed_id d else er_sourceId r = [])"

definition reference_identity :: "EditorReference \<Rightarrow> string" where
  "reference_identity r = reference_key (er_kind r) (er_range r) (er_text r) (er_sourceId r)"

definition editor_inv :: "accumulator \<Rightarrow> bool" where
  "editor_inv ac \<longleftrightarrow>
     (let s = ac_snapshot ac in
      list_all (linked_declaration (es_declarations s)) (es_declarations s)
      \<and> list_all (linked_reference (es_declarations s)) (es_references s)
      \<and> distinct (map reference_identity (es_references s))
      \<and> ac_references ac = reference_identity ` set (es_references s)
      \<and> list_all (\<lambda>r. im_model r \<noteq> []) (es_imports s)
      \<and> (list_ex is_error (es_diagnostics s) \<longrightarrow> ac_recovered ac))"

lemma linked_mono:
  "set ds \<subseteq> set es \<Longrightarrow> linked_declaration ds d \<Longrightarrow> linked_declaration es d"
  "set ds \<subseteq> set es \<Longrightarrow> linked_reference ds r \<Longrightarrow> linked_reference es r"
  by (auto simp: linked_declaration_def linked_reference_def split: if_splits)

lemma list_all_mono': "list_all P xs \<Longrightarrow> (\<And>x. P x \<Longrightarrow> Q x) \<Longrightarrow> list_all Q xs"
  by (simp add: list_all_iff)

lemma make_declaration_linked:
  assumes "container_index i ac" and "sr_valid (tree_token_range ranges name)"
  defines "ds \<equiv> es_declarations (ac_snapshot ac)"
  shows "linked_declaration ds (make_declaration ranges c kind name endName (map_option (\<lambda>i. ds ! i) i))"
  using assms by (cases i) (auto simp: linked_declaration_def make_declaration_def Let_def container_index_def)

lemma editor_inv_declaration:
  assumes inv: "editor_inv ac" and idx: "container_index i ac"
  shows "editor_inv (snd (addDeclaration ranges c kind name endName i ac))"
proof (cases "tk_start name \<noteq> None \<and> sr_valid (tree_token_range ranges name)")
  case True
  let ?ds = "es_declarations (ac_snapshot ac)"
  let ?d = "make_declaration ranges c kind name endName (map_option (\<lambda>i. ?ds ! i) i)"
  have "linked_declaration ?ds ?d" using make_declaration_linked [OF idx] True by blast
  then have d: "linked_declaration (?ds @ [?d]) ?d" using linked_mono(1) [of ?ds "?ds @ [?d]"] by auto
  have decls: "list_all (linked_declaration (?ds @ [?d])) ?ds"
    using inv linked_mono(1) [of ?ds "?ds @ [?d]"] by (auto simp: editor_inv_def Let_def intro: list_all_mono')
  have refs: "list_all (linked_reference (?ds @ [?d])) (es_references (ac_snapshot ac))"
    using inv linked_mono(2) [of ?ds "?ds @ [?d]"] by (auto simp: editor_inv_def Let_def intro: list_all_mono')
  have errors: "list_ex is_error (end_name_error ranges ?d endName) \<longrightarrow> end_name_error ranges ?d endName \<noteq> []"
    by auto
  show ?thesis
    using True inv d decls refs errors by (simp add: addDeclaration_def editor_inv_def Let_def)
next
  case False
  then show ?thesis using inv by (auto simp: addDeclaration_def)
qed

lemma editor_inv_reference:
  assumes "editor_inv ac" and "declared_index i ac"
  shows "editor_inv (addReference ranges c kind tx i ac)"
  using assms
  by (auto simp: addReference_def editor_inv_def Let_def linked_reference_def reference_identity_def declared_index_def
      split: option.splits)

interpretation editor: editor_traversal editor_inv ranges for ranges
  by unfold_locales
     (auto simp: editor_inv_declaration editor_inv_reference, auto simp: addImport_def editor_inv_def Let_def)

lemma find_duplicates_empty:
  "find_duplicates prev ds = [] \<longleftrightarrow>
     distinct (map declaration_key ds) \<and> (\<forall>d \<in> set ds. map_of prev (declaration_key d) = None)"
proof (induction ds arbitrary: prev)
  case (Cons d ds)
  then show ?case by (auto simp: image_iff split: option.splits if_splits)
qed simp

lemma find_duplicates_codes:
  "e \<in> set (find_duplicates prev ds) \<Longrightarrow> dg_code e = ''ILIC-LIVE-DUPLICATE'' \<and> is_error e"
  by (induction prev ds rule: find_duplicates.induct)
     (auto simp: duplicate_error_def live_diagnostic_def is_error_def split: option.splits)

lemma same_diagnostic_error: "same_diagnostic e d \<Longrightarrow> dg_severity d = SevError \<Longrightarrow> is_error e"
  by (simp add: same_diagnostic_def is_error_def)

definition selection_key :: "EditorDeclaration \<Rightarrow> nat \<times> nat \<times> nat \<times> string" where
  "selection_key d = (po_byteOffset (sr_start (ed_selectionRange d)), po_byteOffset (sr_end (ed_selectionRange d)),
     symbol_rank (ed_kind d), ed_name d)"

lemma symbol_rank_inj: "symbol_rank a = symbol_rank b \<longleftrightarrow> a = b"
  by (cases a; cases b) simp_all

lemma declarations_sorted: "stable_sort declaration_before ds = sort_key selection_key ds"
proof (rule stable_sort_key)
  fix a b
  show "declaration_before a b \<longleftrightarrow> selection_key a < selection_key b"
    using symbol_rank_inj [of "ed_kind a" "ed_kind b"]
    by (auto simp: declaration_before_def selection_key_def Let_def less_le)
qed

lemma finish_frame:
  "set (es_declarations (finish complete ac)) = set (es_declarations (ac_snapshot ac))"
  "set (es_references (finish complete ac)) = set (es_references (ac_snapshot ac))"
  "sorted (map selection_key (es_declarations (finish complete ac)))"
  "distinct (map declaration_key (es_declarations (finish complete ac)))
     \<longleftrightarrow> distinct (map declaration_key (es_declarations (ac_snapshot ac)))"
proof -
  let ?ds = "es_declarations (ac_snapshot ac)"
  have d: "es_declarations (finish complete ac) = sort_key selection_key ?ds"
    by (simp add: finish_def Let_def declarations_sorted)
  show "set (es_declarations (finish complete ac)) = set ?ds" by (simp add: d)
  show "set (es_references (finish complete ac)) = set (es_references (ac_snapshot ac))"
    by (simp add: finish_def Let_def)
  show "sorted (map selection_key (es_declarations (finish complete ac)))" unfolding d by (rule sorted_sort_key)
  have "mset (map declaration_key (sort_key selection_key ?ds)) = mset (map declaration_key ?ds)" by simp
  then show "distinct (map declaration_key (es_declarations (finish complete ac))) \<longleftrightarrow> distinct (map declaration_key ?ds)"
    unfolding d by (metis distinct_count_atmost_1 set_mset_mset)
qed

lemma finish_flags:
  "es_success (finish complete ac) \<longleftrightarrow> \<not> list_ex is_error (es_diagnostics (finish complete ac))"
  "es_complete (finish complete ac) \<longleftrightarrow> complete \<and> \<not> es_recovered (finish complete ac)"
  "es_recovered (finish complete ac) \<longleftrightarrow> ac_recovered ac \<or> find_duplicates [] (es_declarations (ac_snapshot ac)) \<noteq> []
     \<or> \<not> es_success (finish complete ac)"
  by (auto simp: finish_def Let_def)

lemma finish_duplicates:
  assumes "\<not> distinct (map declaration_key (es_declarations (finish complete ac)))"
  shows "\<exists>e \<in> set (es_diagnostics (finish complete ac)). dg_code e = ''ILIC-LIVE-DUPLICATE''"
proof -
  let ?dup = "find_duplicates [] (es_declarations (ac_snapshot ac))"
  have "?dup \<noteq> []" using assms by (simp add: finish_frame(4) find_duplicates_empty)
  then obtain d where d: "d \<in> set ?dup" by (cases ?dup) auto
  then obtain e where "e \<in> set (sortDiagnostics (es_diagnostics (ac_snapshot ac) @ ?dup))" "same_diagnostic e d"
    using sortDiagnostics_sound [of "es_diagnostics (ac_snapshot ac) @ ?dup"] by (metis Un_iff set_append)
  then show ?thesis
    using find_duplicates_codes [OF d] by (auto simp: finish_def Let_def same_diagnostic_def)
qed



end
