(* ===== verification/Language_Detector.thy ===== *)
theory Language_Detector
  imports Source_Manager
begin

section \<open>Detection of the language\<close>

text \<open>
  source/core/LanguageDetector.cpp decides from the first word of a source whether it is INTERLIS 1 or
  INTERLIS 2. The offset into the text is the suffix that is left. White space, line comments and nested
  block comments before the first word are skipped; the grammar of such a preamble is given as an inductive
  predicate, and detection is shown to follow it for every text.
\<close>

datatype DetectedLanguage = UnknownLanguage | Ili1 | Ili2

fun skip_block :: "nat \<Rightarrow> string \<Rightarrow> string" where
  "skip_block 0 s = s"
| "skip_block (Suc depth) [] = []"
| "skip_block (Suc depth) [c] = skip_block (Suc depth) []"
| "skip_block (Suc depth) (c # d # s) =
     (if [c, d] = ''/*'' then skip_block (Suc (Suc depth)) s
      else if [c, d] = ''*/'' then skip_block depth s
      else skip_block (Suc depth) (d # s))"

lemma skip_block_length: "length (skip_block depth s) \<le> length s"
  by (induction depth s rule: skip_block.induct) auto

definition word_char :: "char \<Rightarrow> bool" where
  "word_char c \<longleftrightarrow> is_alpha c \<or> c = CHR ''_''"

definition language_of_word :: "string \<Rightarrow> DetectedLanguage" where
  "language_of_word word =
     (if word = [] then UnknownLanguage
      else if word = ''TRANSFER'' then Ili1
      else if word = ''INTERLIS'' then Ili2
      else UnknownLanguage)"

function detect_loop :: "string \<Rightarrow> DetectedLanguage" where
  "detect_loop s =
     (if s = [] then UnknownLanguage
      else
        let s = dropWhile is_space s in
        if starts_with ''!!'' s then detect_loop (dropWhile (\<lambda>c. c \<noteq> CHR 0x0A) (drop 2 s))
        else if starts_with ''/*'' s then detect_loop (skip_block 1 (drop 2 s))
        else language_of_word (takeWhile word_char s))"
  by pat_completeness auto
termination
proof (relation "measure length", goal_cases)
  case (2 s t)
  have "length t \<le> length s" "2 \<le> length t"
    using 2 by (auto simp: starts_with_iff length_dropWhile_le)
  moreover have "length (dropWhile (\<lambda>c. c \<noteq> CHR 0x0A) (drop 2 t)) \<le> length (drop 2 t)"
    by (rule length_dropWhile_le)
  ultimately show ?case by simp
next
  case (3 s t)
  have "length t \<le> length s" "2 \<le> length t"
    using 3 by (auto simp: starts_with_iff length_dropWhile_le)
  then show ?case using skip_block_length [of 1 "drop 2 t"] by simp
qed simp

declare detect_loop.simps [simp del]

definition detect :: "SourceBuffer \<Rightarrow> DetectedLanguage" where
  "detect source = detect_loop (sb_text source)"

subsection \<open>The grammar of a preamble\<close>

text \<open>\<open>comment_rest n s\<close>: the text \<open>s\<close> closes \<open>n\<close> open block comments, the last one at its end.\<close>

inductive comment_rest :: "nat \<Rightarrow> string \<Rightarrow> bool" where
  closed: "comment_rest 0 []"
| close: "comment_rest n s \<Longrightarrow> comment_rest (Suc n) (''*/'' @ s)"
| opened: "comment_rest (Suc (Suc n)) s \<Longrightarrow> comment_rest (Suc n) (''/*'' @ s)"
| other: "comment_rest (Suc n) s \<Longrightarrow> \<not> starts_with ''*/'' (c # s) \<Longrightarrow> \<not> starts_with ''/*'' (c # s) \<Longrightarrow>
    comment_rest (Suc n) (c # s)"

inductive preamble :: "string \<Rightarrow> bool" where
  none: "preamble []"
| space: "is_space c \<Longrightarrow> preamble s \<Longrightarrow> preamble (c # s)"
| line: "CHR 0x0A \<notin> set l \<Longrightarrow> preamble s \<Longrightarrow> preamble (''!!'' @ l @ [CHR 0x0A] @ s)"
| block: "comment_rest 1 b \<Longrightarrow> preamble s \<Longrightarrow> preamble (''/*'' @ b @ s)"

lemma skip_comment_rest: "comment_rest n b \<Longrightarrow> skip_block n (b @ s) = s"
proof (induction arbitrary: s rule: comment_rest.induct)
  case (other n b c)
  show ?case
  proof (cases b)
    case Nil
    then show ?thesis using other.hyps(1) by (auto elim: comment_rest.cases)
  next
    case (Cons d b')
    then show ?thesis using other by auto
  qed
qed simp_all

lemma skip_block_split:
  "skip_block n s = t \<Longrightarrow> t \<noteq> [] \<Longrightarrow> \<exists>b. s = b @ t \<and> comment_rest n b"
proof (induction n s rule: skip_block.induct)
  case (4 depth c d s)
  consider (begins) "[c, d] = ''/*''" | (ends) "[c, d] = ''*/''"
    | (neither) "[c, d] \<noteq> ''/*''" "[c, d] \<noteq> ''*/''" by blast
  then show ?case
  proof cases
    case begins
    with 4(1,4,5) obtain b where "s = b @ t" "comment_rest (Suc (Suc depth)) b" by auto
    then show ?thesis using begins comment_rest.opened [of depth b] by (intro exI [of _ "''/*'' @ b"]) auto
  next
    case ends
    with 4(2,4,5) obtain b where "s = b @ t" "comment_rest depth b" by auto
    then show ?thesis using ends comment_rest.close [of depth b] by (intro exI [of _ "''*/'' @ b"]) auto
  next
    case neither
    with 4(3,4,5) obtain b where b: "d # s = b @ t" "comment_rest (Suc depth) b" by auto
    have "b \<noteq> []" using b(2) by (auto elim: comment_rest.cases)
    then obtain b' where "b = d # b'" using b(1) by (cases b) auto
    then have "comment_rest (Suc depth) (c # b)"
      using b(2) neither by (intro comment_rest.other) auto
    then show ?thesis using b(1) by (intro exI [of _ "c # b"]) auto
  qed
qed (auto intro: comment_rest.intros)

lemma detect_blank: "list_all is_space s \<Longrightarrow> detect_loop s = UnknownLanguage"
  by (subst detect_loop.simps)
     (auto simp: Let_def list_all_iff dropWhile_eq_Nil_conv [THEN iffD2] language_of_word_def)

lemma detect_space: "is_space c \<Longrightarrow> detect_loop (c # s) = detect_loop s"
proof (cases "s = []")
  case True
  assume "is_space c"
  then show ?thesis using True detect_blank [of "[c]"] detect_blank [of "[]"] by simp
next
  case False
  assume "is_space c"
  then show ?thesis using False by (subst (1 2) detect_loop.simps) (simp add: Let_def)
qed

lemma detect_line: "CHR 0x0A \<notin> set l \<Longrightarrow> detect_loop (''!!'' @ l @ [CHR 0x0A] @ s) = detect_loop s"
proof -
  assume "CHR 0x0A \<notin> set l"
  then have "detect_loop (''!!'' @ l @ [CHR 0x0A] @ s) = detect_loop (CHR 0x0A # s)"
    by (subst detect_loop.simps) (simp add: Let_def is_space_def dropWhile_append)
  then show ?thesis by (simp add: detect_space is_space_def)
qed

lemma detect_block: "comment_rest 1 b \<Longrightarrow> detect_loop (''/*'' @ b @ s) = detect_loop s"
  using skip_comment_rest [of 1 b s]
  by (subst detect_loop.simps) (simp add: Let_def is_space_def)

lemma detect_preamble: "preamble p \<Longrightarrow> detect_loop (p @ s) = detect_loop s"
proof (induction rule: preamble.induct)
  case (line l s')
  then show ?case using detect_line [of l "s' @ s"] by simp
next
  case (block b s')
  then show ?case using detect_block [of b "s' @ s"] by simp
qed (simp_all add: detect_space)

lemma space_prefix: "list_all is_space a \<Longrightarrow> preamble p \<Longrightarrow> preamble (a @ p)"
  by (induction a) (auto intro: preamble.space)

lemma preamble_after_newline: "preamble (CHR 0x0A # p) \<Longrightarrow> preamble p"
  by (erule preamble.cases) auto

definition detected_at :: "string \<Rightarrow> DetectedLanguage \<Rightarrow> string \<Rightarrow> string \<Rightarrow> bool" where
  "detected_at s l p w \<longleftrightarrow> s = p @ w \<and> preamble p \<and> l = language_of_word (takeWhile word_char w)"

lemma detected_after_line:
  assumes "detected_at (dropWhile (\<lambda>c. c \<noteq> CHR 0x0A) r) l p w" and "l \<noteq> UnknownLanguage"
  shows "\<exists>p. detected_at (''!!'' @ r) l p w"
proof -
  let ?u = "dropWhile (\<lambda>c. c \<noteq> CHR 0x0A) r" and ?l = "takeWhile (\<lambda>c. c \<noteq> CHR 0x0A) r"
  have u: "?u = p @ w" "preamble p" "l = language_of_word (takeWhile word_char w)"
    using assms(1) by (simp_all add: detected_at_def)
  have "w \<noteq> []" "\<not> (\<exists>w'. w = CHR 0x0A # w')"
    using assms(2) u(3) by (auto simp: language_of_word_def word_char_def is_alpha_def is_lower_def is_upper_def)
  moreover have "?u = [] \<or> hd ?u = CHR 0x0A" using hd_dropWhile [of "\<lambda>c. c \<noteq> CHR 0x0A" r] by blast
  ultimately obtain p' where p': "p = CHR 0x0A # p'" using u(1) by (cases p; cases w) auto
  have "CHR 0x0A \<notin> set ?l" by (auto dest: set_takeWhileD)
  moreover have "preamble p'" using u(2) p' preamble_after_newline by simp
  ultimately have "preamble (''!!'' @ ?l @ [CHR 0x0A] @ p')" by (rule preamble.line)
  moreover have "''!!'' @ r = (''!!'' @ ?l @ [CHR 0x0A] @ p') @ w"
    using takeWhile_dropWhile_id [of "\<lambda>c. c \<noteq> CHR 0x0A" r] u(1) p' by simp
  ultimately show ?thesis using u(3) unfolding detected_at_def by blast
qed

lemma detected_after_block:
  assumes "detected_at (skip_block 1 r) l p w" and "l \<noteq> UnknownLanguage"
  shows "\<exists>p. detected_at (''/*'' @ r) l p w"
proof -
  have u: "skip_block 1 r = p @ w" "preamble p" "l = language_of_word (takeWhile word_char w)"
    using assms(1) by (simp_all add: detected_at_def)
  have "w \<noteq> []" using assms(2) u(3) by (auto simp: language_of_word_def)
  then obtain b where b: "r = b @ p @ w" "comment_rest 1 b"
    using skip_block_split [OF u(1)] by auto
  from preamble.block [OF b(2) u(2)] have "preamble (''/*'' @ b @ p)" .
  then show ?thesis using u(3) b(1) unfolding detected_at_def by (intro exI [of _ "''/*'' @ b @ p"]) simp
qed

lemma detected_split:
  "detect_loop s \<noteq> UnknownLanguage \<Longrightarrow> \<exists>p w. detected_at s (detect_loop s) p w"
proof (induction s rule: detect_loop.induct)
  case (1 s)
  let ?a = "takeWhile is_space s" and ?t = "dropWhile is_space s"
  have a: "list_all is_space ?a" by (auto simp: list_all_iff dest: set_takeWhileD)
  have shift: "\<exists>p. detected_at s l p w" if "detected_at ?t l p w" for l p w
  proof -
    have "s = (?a @ p) @ w" using that takeWhile_dropWhile_id [of is_space s] by (simp add: detected_at_def)
    then show ?thesis using that space_prefix [OF a] unfolding detected_at_def by blast
  qed
  have "s \<noteq> []" using 1(3) by (auto simp: detect_loop.simps)
  note unfolded = detect_loop.simps [of s, unfolded Let_def]
  consider (lines) r where "?t = ''!!'' @ r" | (blocks) r where "?t = ''/*'' @ r"
    | (word) "\<not> starts_with ''!!'' ?t" "\<not> starts_with ''/*'' ?t" by (auto simp: starts_with_iff)
  then show ?case
  proof cases
    case lines
    then have eq: "detect_loop s = detect_loop (dropWhile (\<lambda>c. c \<noteq> CHR 0x0A) r)"
      using \<open>s \<noteq> []\<close> unfolded by simp
    with 1(1) [OF \<open>s \<noteq> []\<close> refl] 1(3) lines obtain p w where
      "detected_at (dropWhile (\<lambda>c. c \<noteq> CHR 0x0A) r) (detect_loop s) p w" by auto
    from detected_after_line [OF this 1(3)] show ?thesis using lines shift by metis
  next
    case blocks
    then have eq: "detect_loop s = detect_loop (skip_block 1 r)"
      using \<open>s \<noteq> []\<close> unfolded by simp
    with 1(2) [OF \<open>s \<noteq> []\<close> refl] 1(3) blocks obtain p w where
      "detected_at (skip_block 1 r) (detect_loop s) p w" by auto
    from detected_after_block [OF this 1(3)] show ?thesis using blocks shift by metis
  next
    case word
    then have "detect_loop s = language_of_word (takeWhile word_char ?t)"
      using \<open>s \<noteq> []\<close> unfolded by simp
    then have "detected_at ?t (detect_loop s) [] ?t" by (simp add: detected_at_def preamble.none)
    then show ?thesis using shift by blast
  qed
qed

definition keyword :: "DetectedLanguage \<Rightarrow> string" where
  "keyword l = (if l = Ili1 then ''TRANSFER'' else ''INTERLIS'')"

lemma language_of_word_iff:
  "l \<noteq> UnknownLanguage \<Longrightarrow> language_of_word w = l \<longleftrightarrow> w = keyword l"
  by (cases l) (auto simp: language_of_word_def keyword_def)

lemma keyword_word: "list_all word_char (keyword l) \<and> keyword l \<noteq> []"
  by (simp add: keyword_def word_char_def is_alpha_def is_lower_def is_upper_def)

lemma takeWhile_keyword:
  "takeWhile word_char w = keyword l \<longleftrightarrow> (\<exists>r. w = keyword l @ r \<and> (r = [] \<or> \<not> word_char (hd r)))"
proof
  assume "takeWhile word_char w = keyword l"
  moreover have "dropWhile word_char w = [] \<or> \<not> word_char (hd (dropWhile word_char w))"
    using hd_dropWhile by blast
  ultimately show "\<exists>r. w = keyword l @ r \<and> (r = [] \<or> \<not> word_char (hd r))"
    by (metis takeWhile_dropWhile_id)
next
  assume "\<exists>r. w = keyword l @ r \<and> (r = [] \<or> \<not> word_char (hd r))"
  then obtain r where r: "w = keyword l @ r" "r = [] \<or> \<not> word_char (hd r)" by blast
  have "takeWhile word_char r = []" using r(2) by (cases r) auto
  then show "takeWhile word_char w = keyword l"
    using r(1) keyword_word [of l] by (simp add: takeWhile_append2 list_all_iff)
qed

text \<open>C30. Detection follows the grammar of preambles, for every text: a source is taken for INTERLIS 1 (2)
  exactly when it is a preamble of white space, line comments and nested block comments followed by the word
  TRANSFER (INTERLIS) that no letter or underscore continues.\<close>

theorem detection_by_first_word:
  assumes "l = Ili1 \<and> w = ''TRANSFER'' \<or> l = Ili2 \<and> w = ''INTERLIS''"
  shows "detect source = l \<longleftrightarrow>
    (\<exists>p r. sb_text source = p @ w @ r \<and> preamble p \<and> (r = [] \<or> \<not> word_char (hd r)))"
proof -
  have l: "l \<noteq> UnknownLanguage" "w = keyword l" using assms by (auto simp: keyword_def)
  have "detect_loop s = l" if "s = p @ w @ r" "preamble p" "r = [] \<or> \<not> word_char (hd r)" for s p r
  proof -
    have "takeWhile word_char (w @ r) = w" using takeWhile_keyword [of "w @ r" l] that(3) l(2) by blast
    moreover have "w \<noteq> []" "\<not> is_space (hd w)" "\<not> starts_with ''!!'' (w @ r)" "\<not> starts_with ''/*'' (w @ r)"
      using assms by (auto simp: is_space_def)
    moreover have "dropWhile is_space (w @ r) = w @ r" using \<open>w \<noteq> []\<close> \<open>\<not> is_space (hd w)\<close> by (cases w) simp_all
    ultimately have "detect_loop (w @ r) = language_of_word w"
      unfolding detect_loop.simps [of "w @ r"] Let_def by (simp del: starts_with.simps)
    then show ?thesis
      using that detect_preamble [of p "w @ r"] language_of_word_iff [OF l(1), of w] l(2) by simp
  qed
  moreover have "\<exists>p r. s = p @ w @ r \<and> preamble p \<and> (r = [] \<or> \<not> word_char (hd r))"
    if found: "detect_loop s = l" for s
  proof -
    obtain p v where "detected_at s l p v" using detected_split [of s] found l(1) by blast
    then have v: "s = p @ v" "preamble p" "takeWhile word_char v = keyword l"
      using language_of_word_iff [OF l(1)] by (auto simp: detected_at_def)
    then show ?thesis using takeWhile_keyword [of v l] l(2) by blast
  qed
  ultimately show ?thesis unfolding detect_def by blast
qed

theorem detection_by_first_word_witness:
  "detect \<lparr>sb_uri = ''a'', sb_text = '' /* /* x */ */INTERLIS 2.3;'', sb_version = 1\<rparr> = Ili2"
proof -
  let ?p = "'' /* /* x */ */''" and ?r = "'' 2.3;''"
  have "comment_rest 1 '' /* x */ */''"
    by (auto intro!: comment_rest.other comment_rest.opened [of 0 "'' x */ */''", simplified]
        comment_rest.close [of _ "'' */''", simplified] comment_rest.close [of 0 "[]", simplified] comment_rest.closed)
  then have "preamble ?p"
    using preamble.space [OF _ preamble.block [OF _ preamble.none], of "CHR '' ''" "'' /* x */ */''"]
    by (simp add: is_space_def)
  moreover have "\<not> word_char (hd ?r)" by (simp add: word_char_def is_alpha_def is_lower_def is_upper_def)
  ultimately show ?thesis
    using detection_by_first_word [of Ili2 "''INTERLIS''"
        "\<lparr>sb_uri = ''a'', sb_text = '' /* /* x */ */INTERLIS 2.3;'', sb_version = 1\<rparr>"]
    by (metis (no_types, lifting) SourceBuffer.select_convs(2) append_Cons append_Nil)
qed

end
