(* ===== verification/Memory_Estimator.thy ===== *)
theory Memory_Estimator
  imports Snapshot_Types
begin

section \<open>Estimated memory of cached values\<close>

text \<open>
  Model of source/core/incremental/IncrementalMemoryEstimator.cpp. The estimate adds
  \<open>sizeof\<close> of the structs and \<open>capacity()\<close> of their strings and vectors.
  Both depend on the implementation of the language, so they are a parameter, a
  \<open>layout\<close>: \<open>sizeof\<close> by the name of the type, the capacity of a string by
  its content and the capacity of a vector by its length. The one law used of a layout is
  that a capacity is never below the size.
\<close>

record layout =
  ly_sizeof :: "string \<Rightarrow> nat"
  ly_capacity :: "string \<Rightarrow> nat"
  ly_slots :: "nat \<Rightarrow> nat"

definition layout_ok :: "layout \<Rightarrow> bool" where
  "layout_ok L \<longleftrightarrow> (\<forall>s. length s \<le> ly_capacity L s) \<and> (\<forall>n. n \<le> ly_slots L n)"

definition sum_by :: "('a \<Rightarrow> nat) \<Rightarrow> 'a list \<Rightarrow> nat" where
  "sum_by f xs = sum_list (map f xs)"

definition stringBytes :: "layout \<Rightarrow> string \<Rightarrow> nat" where
  "stringBytes L s = ly_capacity L s"

definition vectorBytes :: "layout \<Rightarrow> string \<Rightarrow> 'a list \<Rightarrow> nat" where
  "vectorBytes L type v = ly_slots L (length v) * ly_sizeof L type"

definition rangeBytes :: "layout \<Rightarrow> SourceRange \<Rightarrow> nat" where
  "rangeBytes L r = ly_sizeof L ''SourceRange'' + stringBytes L (sr_uri r)"

definition diagnosticBytes :: "layout \<Rightarrow> Diagnostic \<Rightarrow> nat" where
  "diagnosticBytes L d =
     ly_sizeof L ''Diagnostic'' + stringBytes L (dg_code d) + stringBytes L (dg_message d)
     + rangeBytes L (dg_range d) + stringBytes L (dg_source d)
     + vectorBytes L ''RelatedInformation'' (dg_related d)
     + vectorBytes L ''string'' (dg_notes d)
     + sum_by (\<lambda>r. rangeBytes L (ri_range r) + stringBytes L (ri_message r))
         (dg_related d)
     + sum_by (stringBytes L) (dg_notes d)"

definition memberBytes :: "layout \<Rightarrow> DiagramMember \<Rightarrow> nat" where
  "memberBytes L m = stringBytes L (dm_name m) + stringBytes L (dm_type m)
     + stringBytes L (dm_cardinality m) + stringBytes L (dm_declaringType m)
     + vectorBytes L ''string'' (dm_inlineEnumValues m)
     + sum_by (stringBytes L) (dm_inlineEnumValues m)"

definition nodeBytes :: "layout \<Rightarrow> DiagramNode \<Rightarrow> nat" where
  "nodeBytes L n = stringBytes L (dn_id n) + stringBytes L (dn_containerId n)
     + stringBytes L (dn_label n) + stringBytes L (dn_kind n) + rangeBytes L (dn_range n)
     + vectorBytes L ''string'' (dn_stereotypes n) + vectorBytes L ''DiagramMember'' (dn_members n)
     + vectorBytes L ''string'' (dn_enumValues n) + vectorBytes L ''string'' (dn_operations n)
     + sum_by (stringBytes L) (dn_stereotypes n) + sum_by (memberBytes L) (dn_members n)
     + sum_by (stringBytes L) (dn_enumValues n) + sum_by (stringBytes L) (dn_operations n)"

definition edgeBytes :: "layout \<Rightarrow> DiagramEdge \<Rightarrow> nat" where
  "edgeBytes L e = stringBytes L (dge_id e) + stringBytes L (dge_sourceId e)
     + stringBytes L (dge_targetId e) + stringBytes L (dge_kind e) + stringBytes L (dge_label e)
     + stringBytes L (dge_cardinality e) + stringBytes L (dge_sourceCardinality e)
     + stringBytes L (dge_targetCardinality e)"

definition diagramBytes :: "layout \<Rightarrow> DiagramProjection \<Rightarrow> nat" where
  "diagramBytes L v = ly_sizeof L ''DiagramProjection'' + vectorBytes L ''DiagramNode'' (dp_nodes v)
     + vectorBytes L ''DiagramEdge'' (dp_edges v)
     + sum_by (nodeBytes L) (dp_nodes v) + sum_by (edgeBytes L) (dp_edges v)"

definition rowBytes :: "layout \<Rightarrow> DocumentationRow \<Rightarrow> nat" where
  "rowBytes L r = stringBytes L (drow_name r) + stringBytes L (drow_cardinality r)
     + stringBytes L (drow_type r) + stringBytes L (drow_description r) + stringBytes L (drow_range r)"

definition roleBytes :: "layout \<Rightarrow> DocumentationRole \<Rightarrow> nat" where
  "roleBytes L r = stringBytes L (drole_name r) + stringBytes L (drole_cardinality r)
     + stringBytes L (drole_type r) + stringBytes L (drole_description r)"

definition uniqueBytes :: "layout \<Rightarrow> DocumentationUnique \<Rightarrow> nat" where
  "uniqueBytes L u = stringBytes L (du_scope u) + stringBytes L (du_prefix u)
     + stringBytes L (du_where u) + stringBytes L (du_origin u) + stringBytes L (du_inheritedFrom u)
     + vectorBytes L ''string'' (du_elements u) + sum_by (stringBytes L) (du_elements u)"

definition viewableBytes :: "layout \<Rightarrow> DocumentationViewable \<Rightarrow> nat" where
  "viewableBytes L v = stringBytes L (dv_name v) + stringBytes L (dv_kind v)
     + stringBytes L (dv_documentation v)
     + vectorBytes L ''DocumentationRow'' (dv_rows v) + vectorBytes L ''DocumentationRole'' (dv_roles v)
     + vectorBytes L ''DocumentationUnique'' (dv_uniqueness v)
     + sum_by (rowBytes L) (dv_rows v) + sum_by (roleBytes L) (dv_roles v)
     + sum_by (uniqueBytes L) (dv_uniqueness v)"

definition enumerationBytes :: "layout \<Rightarrow> DocumentationEnumeration \<Rightarrow> nat" where
  "enumerationBytes L e = stringBytes L (den_name e) + stringBytes L (den_documentation e)
     + vectorBytes L ''DocumentationEnumerationEntry'' (den_entries e)
     + sum_by (\<lambda>x. stringBytes L (dee_value x) + stringBytes L (dee_documentation x)
         + stringBytes L (dee_displayName x)) (den_entries e)"

definition topicBytes :: "layout \<Rightarrow> DocumentationTopic \<Rightarrow> nat" where
  "topicBytes L t = stringBytes L (dt_name t) + stringBytes L (dt_documentation t)
     + vectorBytes L ''DocumentationViewable'' (dt_viewables t)
     + vectorBytes L ''DocumentationEnumeration'' (dt_enumerations t)
     + sum_by (viewableBytes L) (dt_viewables t) + sum_by (enumerationBytes L) (dt_enumerations t)"

definition modelBytes :: "layout \<Rightarrow> DocumentationModel \<Rightarrow> nat" where
  "modelBytes L m = stringBytes L (dmo_name m) + stringBytes L (dmo_uri m)
     + stringBytes L (dmo_title m) + stringBytes L (dmo_shortDescription m)
     + vectorBytes L ''DocumentationTopic'' (dmo_topics m)
     + vectorBytes L ''DocumentationViewable'' (dmo_viewables m)
     + vectorBytes L ''DocumentationEnumeration'' (dmo_enumerations m)
     + sum_by (topicBytes L) (dmo_topics m)
     + sum_by (viewableBytes L) (dmo_viewables m) + sum_by (enumerationBytes L) (dmo_enumerations m)"

definition documentationBytes :: "layout \<Rightarrow> DocumentationProjection \<Rightarrow> nat" where
  "documentationBytes L v = ly_sizeof L ''DocumentationProjection'' + stringBytes L (dpr_title v)
     + vectorBytes L ''DocumentationSection'' (dpr_sections v)
     + vectorBytes L ''DocumentationModel'' (dpr_models v)
     + sum_by (\<lambda>s. stringBytes L (dsec_id s) + stringBytes L (dsec_title s)
         + stringBytes L (dsec_kind s) + stringBytes L (dsec_text s)) (dpr_sections v)
     + sum_by (modelBytes L) (dpr_models v)"

definition estimate_source :: "layout \<Rightarrow> string \<Rightarrow> nat" where
  "estimate_source L s = ly_sizeof L ''string'' + stringBytes L s"

definition estimate_diagnostics :: "layout \<Rightarrow> Diagnostic list \<Rightarrow> nat" where
  "estimate_diagnostics L ds = ly_sizeof L ''vector<Diagnostic>'' + vectorBytes L ''Diagnostic'' ds
     + sum_by (diagnosticBytes L) ds"

definition estimate_syntax :: "layout \<Rightarrow> SyntaxSnapshot \<Rightarrow> nat" where
  "estimate_syntax L v = ly_sizeof L ''SyntaxSnapshot'' + stringBytes L (sy_uri v)
     + stringBytes L (sy_iliVersion v)
     + vectorBytes L ''SyntaxToken'' (sy_tokens v) + vectorBytes L ''SyntaxNode'' (sy_nodes v)
     + vectorBytes L ''SyntaxContext'' (sy_contexts v) + vectorBytes L ''string'' (sy_imports v)
     + vectorBytes L ''SyntaxImportReference'' (sy_importReferences v)
     + estimate_diagnostics L (sy_diagnostics v)
     + sum_by (\<lambda>t. stringBytes L (tok_kind t) + stringBytes L (tok_text t)
         + rangeBytes L (tok_range t)) (sy_tokens v)
     + sum_by (\<lambda>n. stringBytes L (nd_kind n) + rangeBytes L (nd_range n)) (sy_nodes v)
     + sum_by (\<lambda>c. stringBytes L (cx_kind c) + rangeBytes L (cx_range c)) (sy_contexts v)
     + sum_by (stringBytes L) (sy_imports v)
     + sum_by (\<lambda>r. stringBytes L (im_model r) + rangeBytes L (im_range r)) (sy_importReferences v)"

definition estimate_editor :: "layout \<Rightarrow> EditorSnapshot \<Rightarrow> nat" where
  "estimate_editor L v = ly_sizeof L ''EditorSnapshot'' + stringBytes L (es_uri v)
     + stringBytes L (es_iliVersion v)
     + vectorBytes L ''EditorDeclaration'' (es_declarations v)
     + vectorBytes L ''EditorReference'' (es_references v)
     + vectorBytes L ''SyntaxImportReference'' (es_imports v)
     + vectorBytes L ''SyntaxContext'' (es_contexts v)
     + estimate_diagnostics L (es_diagnostics v)
     + sum_by (\<lambda>d. stringBytes L (ed_id d) + stringBytes L (ed_name d)
         + stringBytes L (ed_qualifiedName d) + stringBytes L (ed_containerId d)
         + rangeBytes L (ed_range d) + rangeBytes L (ed_selectionRange d)
         + rangeBytes L (ed_endRange d)) (es_declarations v)
     + sum_by (\<lambda>r. stringBytes L (er_text r) + stringBytes L (er_sourceId r)
         + rangeBytes L (er_range r)) (es_references v)
     + sum_by (\<lambda>r. stringBytes L (im_model r) + rangeBytes L (im_range r)) (es_imports v)
     + sum_by (\<lambda>c. stringBytes L (cx_kind c) + rangeBytes L (cx_range c)) (es_contexts v)"

definition estimate_artifact :: "layout \<Rightarrow> ParsedSourceArtifact \<Rightarrow> nat" where
  "estimate_artifact L a =
     ar_estimatedRetainedBytes a + estimate_diagnostics L (ar_parserDiagnostics a)"

definition result_bytes :: "layout \<Rightarrow> CompilationResult \<Rightarrow> nat" where
  "result_bytes L c = vectorBytes L ''string'' (cr_missingModels c)
     + vectorBytes L ''CompiledModel'' (cr_models c)
     + vectorBytes L ''Diagnostic'' (cr_diagnostics c) + vectorBytes L ''LogEvent'' (cr_logs c)
     + vectorBytes L ''string'' (cr_transcript c)
     + sum_by (\<lambda>m. stringBytes L (cm_name m) + stringBytes L (cm_iliVersion m) + stringBytes L (cm_uri m)
         + vectorBytes L ''MetaAttributeValue'' (cm_metaAttributes m)
         + sum_by (\<lambda>a. stringBytes L (mv_name a) + stringBytes L (mv_value a)) (cm_metaAttributes m))
         (cr_models c)
     + sum_by (stringBytes L) (cr_missingModels c)
     + sum_by (diagnosticBytes L) (cr_diagnostics c)
     + sum_by (\<lambda>e. stringBytes L (le_category e) + stringBytes L (le_message e)
         + sum_by (\<lambda>(k, v). stringBytes L k + stringBytes L v) (le_context e)) (cr_logs c)
     + sum_by (stringBytes L) (cr_transcript c)"

definition semantic_bytes :: "layout \<Rightarrow> SemanticSnapshot \<Rightarrow> nat" where
  "semantic_bytes L s = ly_sizeof L ''SemanticSnapshot''
     + vectorBytes L ''SemanticSymbol'' (se_symbols s)
     + vectorBytes L ''SemanticReference'' (se_references s)
     + vectorBytes L ''SemanticDependency'' (se_dependencies s)
     + vectorBytes L ''Diagnostic'' (se_diagnostics s)
     + length (se_documentVersions s) * (ly_sizeof L ''string'' + ly_sizeof L ''uint64_t'')
     + vectorBytes L ''string'' (se_missingModels s)
     + diagramBytes L (se_diagram s) + documentationBytes L (se_documentation s)
     + sum_by (\<lambda>(uri, _). stringBytes L uri) (se_documentVersions s)
     + sum_by (stringBytes L) (se_missingModels s)
     + sum_by (\<lambda>x. stringBytes L (ss_id x) + stringBytes L (ss_name x)
         + stringBytes L (ss_qualifiedName x) + stringBytes L (ss_kind x)
         + stringBytes L (ss_containerId x) + rangeBytes L (ss_range x)
         + rangeBytes L (ss_selectionRange x) + rangeBytes L (ss_endRange x)) (se_symbols s)
     + sum_by (\<lambda>r. stringBytes L (rf_sourceId r) + stringBytes L (rf_targetId r)
         + stringBytes L (rf_kind r) + rangeBytes L (rf_range r)) (se_references s)
     + sum_by (\<lambda>d. stringBytes L (de_sourceUri d) + stringBytes L (de_targetUri d)
         + stringBytes L (de_model d) + rangeBytes L (de_range d)) (se_dependencies s)
     + sum_by (diagnosticBytes L) (se_diagnostics s)"

definition estimate_compilation :: "layout \<Rightarrow> CompilationAnalysisResult \<Rightarrow> nat" where
  "estimate_compilation L v = ly_sizeof L ''CompilationAnalysisResult''
     + result_bytes L (an_compilation v) + vectorBytes L ''SyntaxSnapshot'' (an_syntax v)
     + semantic_bytes L (an_semantic v)
     + sum_by (estimate_syntax L) (an_syntax v)"

subsection \<open>The estimate covers the text it holds\<close>

lemma stringBytes_ge: "layout_ok L \<Longrightarrow> length s \<le> stringBytes L s"
  by (simp add: layout_ok_def stringBytes_def)

lemma sum_by_mono: "(\<And>x. x \<in> set xs \<Longrightarrow> f x \<le> g x) \<Longrightarrow> sum_by f xs \<le> sum_by g xs"
  unfolding sum_by_def by (rule sum_list_mono) auto

lemma sum_by_member_le: "x \<in> set xs \<Longrightarrow> f x \<le> sum_by f xs"
  by (simp add: sum_by_def member_le_sum_list)

lemma estimate_source_ge: "layout_ok L \<Longrightarrow> length s \<le> estimate_source L s"
  using stringBytes_ge [of L s] by (simp add: estimate_source_def)

definition sample_layout :: layout where
  "sample_layout = \<lparr>ly_sizeof = (\<lambda>_. 32), ly_capacity = (\<lambda>s. max 15 (length s)), ly_slots = id\<rparr>"

lemma sample_layout_ok: "layout_ok sample_layout"
  by (simp add: layout_ok_def sample_layout_def)

end
