(* ===== verification/Snapshot_Factory.thy ===== *)
theory Snapshot_Factory
  imports Snapshot_Projection Language_Detector Memory_Estimator
begin

section \<open>Building snapshots from sources\<close>

text \<open>
  source/core/ParsedSourceArtifactFactory.cpp with StrictSourceParser.cpp, TolerantEditorParser.cpp and
  SnapshotPipeline.cpp: one parse of a source gives the syntax snapshot, the editor snapshot and the artifact
  with its header. The generated lexers and parsers and their runtime are the argument \<open>recogniser\<close>: the
  lexer turns a normalised text into tokens and errors, the parser a token stream into a tree and errors, and
  either may throw. Both grammars end in EOF, so the parser has read the whole stream, and with it every error
  of the lexer, when it returns. The vocabulary gives the names of token types.
\<close>

datatype thrown = StdException string | UnknownException

record recogniser =
  rg_lexer :: "bool \<Rightarrow> string \<Rightarrow> thrown + antlr_token list \<times> parser_error list"
  rg_parser :: "bool \<Rightarrow> antlr_token list \<Rightarrow> thrown + tree option \<times> parser_error list"
  rg_vocabulary :: "bool \<Rightarrow> vocabulary"

fun mode_text :: "ParseMode \<Rightarrow> string" where
  "mode_text StrictCompiler = ''strict-compiler''"
| "mode_text TolerantEditor = ''tolerant-editor''"

definition token_text :: "antlr_token option \<Rightarrow> string list" where
  "token_text t = (case t of None \<Rightarrow> [] | Some k \<Rightarrow> [tk_text k])"

definition import_tokens :: "tree \<Rightarrow> (tree \<times> antlr_token) list" where
  "import_tokens model =
     concat (map (\<lambda>def. concat (map (\<lambda>imp. case import_name imp of None \<Rightarrow> [] | Some t \<Rightarrow> [(imp, t)])
       (rules_in ''importing'' def))) (rules_in ''importDef'' model))"

definition default_header :: ParsedSourceHeader where
  "default_header = \<lparr>ph_iliVersion = [], ph_models = [], ph_imports = [], ph_requiredModels = []\<rparr>"

definition add_model_header :: "tree \<Rightarrow> ParsedSourceHeader \<Rightarrow> ParsedSourceHeader" where
  "add_model_header model h =
     (let imports = map (\<lambda>(_, t). tk_text t) (import_tokens model) in
      h\<lparr>ph_models := ph_models h @ token_text (labelled ''modelname1'' model),
        ph_imports := ph_imports h @ imports,
        ph_requiredModels := ph_requiredModels h @ token_text (labelled ''translationOf'' model) @ imports\<rparr>)"

definition ili2Header :: "tree option \<Rightarrow> ParsedSourceHeader" where
  "ili2Header root =
     (case root of
        None \<Rightarrow> default_header
      | Some tree \<Rightarrow>
          fold add_model_header (rules_in ''modelDef'' tree)
            (case labelled ''iliversion'' tree of
               None \<Rightarrow> default_header
             | Some t \<Rightarrow> default_header\<lparr>ph_iliVersion := tk_text t\<rparr>))"

definition ili1Header :: "tree option \<Rightarrow> ParsedSourceHeader" where
  "ili1Header root =
     default_header\<lparr>ph_iliVersion := ''1.0'',
       ph_models := (case root of
          None \<Rightarrow> []
        | Some tree \<Rightarrow> (case rules_in ''modelDef'' tree of
            [] \<Rightarrow> []
          | model # _ \<Rightarrow> token_text (labelled ''modelname1'' model)))\<rparr>"

definition estimatedRetainedBytes :: "layout \<Rightarrow> SourceBuffer \<Rightarrow> nat \<Rightarrow> nat \<Rightarrow> Diagnostic list \<Rightarrow> nat" where
  "estimatedRetainedBytes L source tokenCount nodeCount ds =
     ly_sizeof L ''ParsedSourceArtifactImpl'' + stringBytes L (sb_text source)
     + tokenCount * (ly_sizeof L ''pointer'' * 8) + nodeCount * (ly_sizeof L ''pointer'' * 6)
     + sum_by (\<lambda>d. ly_sizeof L ''Diagnostic'' + stringBytes L (dg_code d) + stringBytes L (dg_message d)
         + stringBytes L (dg_source d) + vectorBytes L ''RelatedInformation'' (dg_related d)
         + vectorBytes L ''string'' (dg_notes d)) ds"

definition root_version :: "bool \<Rightarrow> tree option \<Rightarrow> string" where
  "root_version ili2 root =
     (case root of
        Some (Context c ts) \<Rightarrow>
          if rx_start c = None then ''unknown''
          else if ili2 then
            (case labelled ''iliversion'' (Context c ts) of None \<Rightarrow> ''unknown'' | Some t \<Rightarrow> tk_text t)
          else ''1.0''
      | _ \<Rightarrow> ''unknown'')"

definition syntax_imports :: "SourceRangeMapper \<Rightarrow> tree option \<Rightarrow> SyntaxImportReference list" where
  "syntax_imports ranges root =
     (case root of
        None \<Rightarrow> []
      | Some tree \<Rightarrow>
          concat (map (\<lambda>model. map (\<lambda>(imp, t). \<lparr>im_model = tk_text t,
              im_unqualified = (terminal_of_type ''UNQUALIFIED'' imp \<noteq> None), im_range = tree_token_range ranges t\<rparr>)
            (import_tokens model)) (rules_in ''modelDef'' tree)))"

definition unqualified_clause :: "SyntaxImportReference list \<Rightarrow> SyntaxImportReference list" where
  "unqualified_clause imports =
     (if list_ex im_unqualified imports then map (\<lambda>r. r\<lparr>im_unqualified := True\<rparr>) imports else imports)"

definition buildParsed ::
  "layout \<Rightarrow> vocabulary \<Rightarrow> bool \<Rightarrow> SourceBuffer \<Rightarrow> ParseMode \<Rightarrow> tree option \<Rightarrow> antlr_token list \<Rightarrow> bool
     \<Rightarrow> Diagnostic list \<Rightarrow> Diagnostic list \<Rightarrow> SnapshotBundle" where
  "buildParsed L v ili2 source mode root tokens recovered lexerErrors parserErrors =
     (let ranges = make_SourceRangeMapper source;
          references = (if ili2 then syntax_imports ranges root else []);
          version = root_version ili2 root;
          projected = syntax_project v ranges root tokens
            (default_syntax\<lparr>sy_uri := sb_uri source, sy_documentVersion := sb_version source,
               sy_iliVersion := version, sy_imports := map im_model references,
               sy_importReferences := references\<rparr>);
          ds = sortDiagnostics (lexerErrors @ parserErrors);
          syntax = projected\<lparr>sy_diagnostics := ds, sy_success := (ds = [])\<rparr>;
          editor = editor_project ili2 ranges version root ds (ds = []) recovered;
          tokenCount = length (sy_tokens syntax);
          nodeCount = (case root of None \<Rightarrow> 0 | Some tree \<Rightarrow> countParseTreeNodes tree);
          artifact = \<lparr>ar_mode = mode, ar_supportsMetaModelBuild = (mode = StrictCompiler),
             ar_header = (if ili2 then ili2Header root else ili1Header root),
             ar_parserDiagnostics = lexerErrors @ parserErrors, ar_tokenCount = tokenCount,
             ar_parseTreeNodeCount = nodeCount,
             ar_estimatedRetainedBytes =
               estimatedRetainedBytes L source tokenCount nodeCount (lexerErrors @ parserErrors)\<rparr>
      in \<lparr>bu_syntax = syntax, bu_editor = editor\<lparr>es_imports := unqualified_clause (es_imports editor)\<rparr>,
          bu_artifact = Some artifact, bu_mode = mode\<rparr>)"

definition build_language ::
  "layout \<Rightarrow> recogniser \<Rightarrow> bool \<Rightarrow> SourceBuffer \<Rightarrow> ParseMode \<Rightarrow> thrown + SnapshotBundle" where
  "build_language L rg ili2 source mode =
     (let ranges = make_SourceRangeMapper source;
          report = map (snapshot_syntaxError ranges ''compiler'') in
      case rg_lexer rg ili2 (normalizedUtf8 ranges) of
        Inl e \<Rightarrow> Inl e
      | Inr (tokens, lexerErrors) \<Rightarrow>
          let (tokens, recovered) = (if ili2 \<and> mode = TolerantEditor then recoverBareModelHeaders tokens else (tokens, False)) in
          (case rg_parser rg ili2 tokens of
             Inl e \<Rightarrow> Inl e
           | Inr (root, parserErrors) \<Rightarrow>
               Inr (buildParsed L (rg_vocabulary rg ili2) ili2 source mode root tokens recovered
                 (report lexerErrors) (report parserErrors))))"

definition failure_message :: "thrown \<Rightarrow> string" where
  "failure_message e = (case e of
     StdException what \<Rightarrow> ''snapshot parser failure: '' @ what
   | UnknownException \<Rightarrow> ''snapshot parser failure: unknown exception'')"

definition empty_bundle :: "ParseMode \<Rightarrow> SnapshotBundle" where
  "empty_bundle mode = \<lparr>bu_syntax = default_syntax, bu_editor = default_editor, bu_artifact = None, bu_mode = mode\<rparr>"

definition failure_bundle :: "SourceBuffer \<Rightarrow> ParseMode \<Rightarrow> thrown \<Rightarrow> SnapshotBundle" where
  "failure_bundle source mode e =
     (let diagnostic = default_diagnostic\<lparr>dg_severity := SevError, dg_code := ''ILIC-SYNTAX'',
            dg_message := failure_message e, dg_range := eof_range (make_SourceRangeMapper source),
            dg_source := ''compiler''\<rparr>;
          failure = (empty_bundle mode)\<lparr>bu_syntax := default_syntax\<lparr>sy_uri := sb_uri source,
            sy_documentVersion := sb_version source, sy_iliVersion := ''unknown'', sy_diagnostics := [diagnostic]\<rparr>\<rparr>
      in if mode = TolerantEditor
         then failure\<lparr>bu_editor := default_editor\<lparr>es_uri := sb_uri source, es_documentVersion := sb_version source,
                es_iliVersion := ''unknown'', es_diagnostics := [diagnostic], es_recovered := True\<rparr>\<rparr>
         else failure)"

definition build_source :: "layout \<Rightarrow> recogniser \<Rightarrow> SourceBuffer \<Rightarrow> ParseMode \<Rightarrow> SnapshotBundle" where
  "build_source L rg source mode =
     (case build_language L rg (detect source \<noteq> Ili1) source mode of
        Inl e \<Rightarrow> failure_bundle source mode e
      | Inr bundle \<Rightarrow> bundle)"

definition not_found :: "string \<Rightarrow> Diagnostic" where
  "not_found message = default_diagnostic\<lparr>dg_severity := SevError, dg_code := ''ILIC-SOURCE-NOT-FOUND'',
     dg_message := message\<rparr>"

definition missingEditor :: "string \<Rightarrow> EditorSnapshot" where
  "missingEditor uri = default_editor\<lparr>es_uri := uri, es_diagnostics := [not_found ''editor source is not registered'']\<rparr>"

definition missingSyntax :: "string \<Rightarrow> SyntaxSnapshot" where
  "missingSyntax uri = default_syntax\<lparr>sy_uri := uri, sy_diagnostics := [not_found ''syntax source is not registered'']\<rparr>"

definition missing_bundle :: "string \<Rightarrow> ParseMode \<Rightarrow> SnapshotBundle" where
  "missing_bundle uri mode =
     (empty_bundle mode)\<lparr>bu_syntax := missingSyntax uri,
       bu_editor := (if mode = TolerantEditor then missingEditor uri else default_editor)\<rparr>"

definition build_uri :: "layout \<Rightarrow> recogniser \<Rightarrow> SourceManager \<Rightarrow> string \<Rightarrow> ParseMode \<Rightarrow> SnapshotBundle" where
  "build_uri L rg sources uri mode =
     (case SourceManager_get sources uri of
        None \<Rightarrow> missing_bundle uri mode
      | Some source \<Rightarrow> build_source L rg source mode)"

definition pipeline_syntax :: "layout \<Rightarrow> recogniser \<Rightarrow> SourceManager \<Rightarrow> string \<Rightarrow> SyntaxSnapshot" where
  "pipeline_syntax L rg sources uri = bu_syntax (build_uri L rg sources uri StrictCompiler)"

definition pipeline_editor :: "layout \<Rightarrow> recogniser \<Rightarrow> SourceManager \<Rightarrow> string \<Rightarrow> EditorSnapshot" where
  "pipeline_editor L rg sources uri = bu_editor (build_uri L rg sources uri TolerantEditor)"

subsection \<open>Every build returns a consistent bundle\<close>

lemma syntax_project_frame:
  "sy_uri (syntax_project v ranges root tokens s) = sy_uri s"
  "sy_documentVersion (syntax_project v ranges root tokens s) = sy_documentVersion s"
proof -
  have "\<exists>new. appendSyntaxNodes ranges p h tree s = s\<lparr>sy_nodes := sy_nodes s @ new, sy_contexts := sy_contexts s @ node_contexts new\<rparr>"
    for p h tree and s :: SyntaxSnapshot
    using syntax_nodes(1) [of p h tree s ranges] by (auto simp: nodes_appended_def)
  then have "sy_uri (appendSyntaxNodes ranges p h tree s) = sy_uri s
    \<and> sy_documentVersion (appendSyntaxNodes ranges p h tree s) = sy_documentVersion s" for p h tree and s :: SyntaxSnapshot
    by (metis SyntaxSnapshot.select_convs(2,3) SyntaxSnapshot.surjective SyntaxSnapshot.update_convs(6,7))
  then show "sy_uri (syntax_project v ranges root tokens s) = sy_uri s"
    "sy_documentVersion (syntax_project v ranges root tokens s) = sy_documentVersion s"
    by (auto simp: syntax_project_def Let_def appendSyntaxTokens_def split: option.splits)
qed

definition located_in :: "SourceBuffer \<Rightarrow> SourceRange \<Rightarrow> bool" where
  "located_in source r \<longleftrightarrow>
     sr_valid r \<and> sr_uri r = sb_uri source \<and> po_byteOffset (sr_start r) \<le> po_byteOffset (sr_end r)
     \<and> po_byteOffset (sr_end r) \<le> length (sb_text source) \<and> po_line (sr_start r) \<le> po_line (sr_end r)"

lemma mapper_source [simp]: "rm_source (make_SourceRangeMapper source) = source"
  by (simp add: make_SourceRangeMapper_def Let_def)

lemma located_mapper_range: "located_in source (mapper_range (make_SourceRangeMapper source) (sb_uri source) b e)"
  using mapper_range_ordered [of source "sb_uri source" b e] by (simp add: located_in_def Let_def)

lemma located_eof [simp]: "located_in source (eof_range (make_SourceRangeMapper source))"
  by (simp add: eof_range_def located_mapper_range)

lemma located_token:
  "sr_valid (token_range (make_SourceRangeMapper source) t) \<Longrightarrow> located_in source (token_range (make_SourceRangeMapper source) t)"
  by (auto simp: token_range_def codepointRange_def located_mapper_range default_range_def split: option.splits if_splits)

lemma located_error: "located_in source (dg_range (snapshot_syntaxError (make_SourceRangeMapper source) name e))"
  using located_token by (auto simp: snapshot_syntaxError_def Let_def split: option.splits)

definition header_of :: "accumulator \<Rightarrow> string \<times> u64" where
  "header_of ac = (es_uri (ac_snapshot ac), es_documentVersion (ac_snapshot ac))"

interpretation header: editor_traversal "\<lambda>ac. header_of ac = h" ranges for h ranges
  by unfold_locales (auto simp: header_of_def addDeclaration_def addReference_def addImport_def Let_def)

lemma editor_project_header:
  "es_uri (editor_project ili2 ranges v root ds complete recovered) = sb_uri (rm_source ranges)"
  "es_documentVersion (editor_project ili2 ranges v root ds complete recovered) = sb_version (rm_source ranges)"
proof -
  let ?ac = "make_accumulator ranges v"
  have "header_of (collect_editor ili2 ranges root ?ac) = (sb_uri (rm_source ranges), sb_version (rm_source ranges))"
    by (rule header.collect_keeps) (simp add: header_of_def make_accumulator_def)
  then show "es_uri (editor_project ili2 ranges v root ds complete recovered) = sb_uri (rm_source ranges)"
    "es_documentVersion (editor_project ili2 ranges v root ds complete recovered) = sb_version (rm_source ranges)"
    by (auto simp: header_of_def editor_project_def Let_def finish_def appendSyntaxDiagnostics_def markRecovered_def)
qed

definition bundle_ok :: "SourceBuffer \<Rightarrow> ParseMode \<Rightarrow> SnapshotBundle \<Rightarrow> bool" where
  "bundle_ok source mode b \<longleftrightarrow>
     bu_mode b = mode
     \<and> sy_uri (bu_syntax b) = sb_uri source \<and> sy_documentVersion (bu_syntax b) = sb_version source
     \<and> (sy_success (bu_syntax b) \<longleftrightarrow> sy_diagnostics (bu_syntax b) = [])
     \<and> (\<forall>d \<in> set (sy_diagnostics (bu_syntax b)). located_in source (dg_range d) \<and> dg_severity d = SevError)
     \<and> sorted (map diagnostic_key (sy_diagnostics (bu_syntax b)))
     \<and> (mode = TolerantEditor \<longrightarrow>
          es_uri (bu_editor b) = sb_uri source \<and> es_documentVersion (bu_editor b) = sb_version source
          \<and> (es_complete (bu_editor b) \<longrightarrow> sy_success (bu_syntax b)))
     \<and> (case bu_artifact b of
          None \<Rightarrow> \<not> sy_success (bu_syntax b)
        | Some a \<Rightarrow> ar_mode a = mode \<and> (ar_supportsMetaModelBuild a \<longleftrightarrow> mode = StrictCompiler)
            \<and> (ar_parserDiagnostics a = [] \<longleftrightarrow> sy_success (bu_syntax b))
            \<and> ar_tokenCount a = length (sy_tokens (bu_syntax b)))"

lemma editor_complete:
  "es_complete (editor_project ili2 ranges v root ds complete recovered) \<Longrightarrow> complete"
  by (simp add: editor_project_def Let_def finish_flags(2))

lemma buildParsed_ok:
  assumes "\<forall>d \<in> set (lexerErrors @ parserErrors). located_in source (dg_range d) \<and> dg_severity d = SevError"
  shows "bundle_ok source mode (buildParsed L v ili2 source mode root tokens recovered lexerErrors parserErrors)"
proof -
  let ?ds = "lexerErrors @ parserErrors"
  have "\<forall>d \<in> set (sortDiagnostics ?ds). located_in source (dg_range d) \<and> dg_severity d = SevError"
    using assms sortDiagnostics_set [of ?ds] by blast
  moreover have "sorted (map diagnostic_key (sortDiagnostics ?ds))" using sortDiagnostics_sound by blast
  moreover have "sortDiagnostics ?ds = [] \<longleftrightarrow> ?ds = []" by simp
  ultimately show ?thesis
    by (auto simp: bundle_ok_def buildParsed_def Let_def syntax_project_frame editor_project_header dest: editor_complete)
qed

lemma failure_ok: "bundle_ok source mode (failure_bundle source mode e)"
  by (simp add: bundle_ok_def failure_bundle_def Let_def empty_bundle_def default_syntax_def default_editor_def)

lemma build_language_ok: "build_language L rg ili2 source mode = Inr b \<Longrightarrow> bundle_ok source mode b"
proof -
  assume "build_language L rg ili2 source mode = Inr b"
  then obtain root tokens recovered le pe where b: "b = buildParsed L (rg_vocabulary rg ili2) ili2 source mode root tokens recovered
      (map (snapshot_syntaxError (make_SourceRangeMapper source) ''compiler'') le)
      (map (snapshot_syntaxError (make_SourceRangeMapper source) ''compiler'') pe)"
    by (auto simp: build_language_def Let_def split: sum.splits prod.splits if_splits)
  have "dg_severity (snapshot_syntaxError ranges n e) = SevError" for ranges n e
    by (simp add: snapshot_syntaxError_def Let_def)
  then show ?thesis unfolding b by (intro buildParsed_ok) (auto simp: located_error)
qed


text \<open>The flag of one import reaches every import of the source, not only those of its clause.\<close>

lemma unqualified_reaches_all:
  "r \<in> set imports \<Longrightarrow> im_unqualified r \<Longrightarrow> list_all im_unqualified (unqualified_clause imports)"
  by (auto simp: unqualified_clause_def list_all_iff list_ex_iff)

end
