(* ===== verification/Lru_Cache.thy ===== *)
theory Lru_Cache
  imports Ilic_Prelude "HOL-Library.List_Lexorder" "HOL-Library.Char_ord"
begin

section \<open>Least-recently-used eviction\<close>

text \<open>
  The two caches of the incremental compiler (source/core/incremental/ParsedSourceCache.cpp and
  RootAnalysisCache.cpp) hold the same eviction loop: while the cache is over one of its two
  budgets, \<open>std::min_element\<close> picks the entry with the smallest use tick (the smaller
  key among equals), which is erased. The locale \<open>lru_cache\<close> states what the loop
  needs of a cache; what the loop guarantees is proved here once and interpreted on both
  caches.
\<close>

definition older :: "('e \<Rightarrow> u64) \<Rightarrow> string \<times> 'e \<Rightarrow> string \<times> 'e \<Rightarrow> bool" where
  "older tick left right =
     (if tick (snd left) \<noteq> tick (snd right) then tick (snd left) < tick (snd right)
      else fst left < fst right)"

fun min_element :: "('a \<Rightarrow> 'a \<Rightarrow> bool) \<Rightarrow> 'a list \<Rightarrow> 'a option" where
  "min_element lt [] = None"
| "min_element lt (x # xs) = Some (foldl (\<lambda>best y. if lt y best then y else best) x xs)"

lemma older_irrefl [simp]: "\<not> older t a a"
  by (simp add: older_def)

lemma older_trans: "older t a b \<Longrightarrow> older t b c \<Longrightarrow> older t a c"
  by (auto simp: older_def split: if_splits)

lemma older_total: "fst a \<noteq> fst b \<Longrightarrow> older t a b \<or> older t b a"
  by (auto simp: older_def)

lemma not_older_chain: "\<not> older t a b \<Longrightarrow> \<not> older t b c \<Longrightarrow> \<not> older t a c"
  by (auto simp: older_def split: if_splits)

lemma older_asym: "older t a b \<Longrightarrow> \<not> older t b a"
  by (auto simp: older_def split: if_splits)

lemma foldl_min_member:
  "foldl (\<lambda>best y. if lt y best then y else best) x xs \<in> insert x (set xs)"
proof (induction xs arbitrary: x)
  case (Cons y ys)
  then show ?case using Cons [of "if lt y x then y else x"] by (auto split: if_splits)
qed simp

lemma foldl_min_least:
  assumes "y \<in> insert x (set xs)"
  shows "\<not> older t y (foldl (\<lambda>best y. if older t y best then y else best) x xs)"
  using assms
proof (induction xs arbitrary: x y)
  case (Cons z zs)
  let ?b = "if older t z x then z else x"
  consider "y \<in> set zs" | "y = x" | "y = z" using Cons.prems by auto
  then show ?case
  proof cases
    case 1
    then show ?thesis using Cons.IH [of y ?b] by simp
  next
    case 2
    then have "\<not> older t y ?b" by (auto dest: older_asym)
    then show ?thesis using Cons.IH [of ?b ?b] not_older_chain by fastforce
  next
    case 3
    then have "\<not> older t y ?b" by auto
    then show ?thesis using Cons.IH [of ?b ?b] not_older_chain by fastforce
  qed
qed simp

lemma min_element_Some:
  assumes "min_element (older t) m = Some v"
  shows "v \<in> set m" and "\<And>y. y \<in> set m \<Longrightarrow> \<not> older t y v"
proof -
  obtain x xs where m: "m = x # xs" using assms by (cases m) auto
  with assms have v: "v = foldl (\<lambda>best y. if older t y best then y else best) x xs" by simp
  show "v \<in> set m" using v m foldl_min_member [of "older t" x xs] by simp
  show "\<not> older t y v" if "y \<in> set m" for y using v m that foldl_min_least [of y x xs t] by simp
qed

lemma min_element_None_iff [simp]: "min_element lt m = None \<longleftrightarrow> m = []"
  by (cases m) auto

text \<open>The minimum is strictly older than every entry under another key.\<close>

lemma min_element_oldest:
  assumes "min_element (older t) m = Some v" and "y \<in> set m" and "fst y \<noteq> fst v"
  shows "older t v y"
  using min_element_Some(2) [OF assms(1,2)] older_total [OF assms(3), of t] by blast

subsection \<open>The interface of an evicting cache\<close>

locale lru_cache =
  fixes entries :: "'c \<Rightarrow> (string, 'e) omap"
    and retained :: "'c \<Rightarrow> nat"
    and weight :: "'e \<Rightarrow> nat"
    and used :: "'e \<Rightarrow> u64"
    and max_entries :: "'c \<Rightarrow> nat"
    and max_bytes :: "'c \<Rightarrow> nat"
    and evictions :: "'c \<Rightarrow> u64"
    and evict_one :: "string \<Rightarrow> 'c \<Rightarrow> 'c"
    and evict :: "'c \<Rightarrow> 'c"
  assumes one_entries: "entries (evict_one k c) = erase k (entries c)"
    and one_retained: "map_of (entries c) k = Some e \<Longrightarrow>
      retained (evict_one k c) = retained c - min (retained c) (weight e)"
    and one_evictions: "evictions (evict_one k c) = evictions c + 1"
    and one_budget: "max_entries (evict_one k c) = max_entries c"
      "max_bytes (evict_one k c) = max_bytes c"
    and evict_unfold: "evict c = (case min_element (older used) (entries c) of
        None \<Rightarrow> c
      | Some v \<Rightarrow> if max_entries c < length (entries c) \<or> max_bytes c < retained c
          then evict (evict_one (fst v) c) else c)"
begin

definition accounted :: "'c \<Rightarrow> bool" where
  "accounted c \<longleftrightarrow> omap_wf (entries c) \<and> retained c = weight_of weight (entries c)"

definition within :: "'c \<Rightarrow> bool" where
  "within c \<longleftrightarrow> length (entries c) \<le> max_entries c \<and> retained c \<le> max_bytes c"

lemma accounted_one:
  assumes "accounted c" and "map_of (entries c) k = Some e"
  shows "accounted (evict_one k c)"
    and "retained c = weight e + retained (evict_one k c)"
    and "length (entries c) = Suc (length (entries (evict_one k c)))"
proof -
  have w: "weight_of weight (entries c) = weight e + weight_of weight (erase k (entries c))"
    using assms by (intro weight_of_erase) (auto simp: accounted_def)
  then show "accounted (evict_one k c)"
    using assms by (simp add: accounted_def one_entries one_retained)
  show "retained c = weight e + retained (evict_one k c)"
    using w assms by (simp add: accounted_def one_retained)
  show "length (entries c) = Suc (length (entries (evict_one k c)))"
    using assms erase_length [of "entries c" k e] by (simp add: accounted_def one_entries)
qed

text \<open>Induction along the loop: either it stops, or the victim is the oldest entry.\<close>

lemma evict_cases:
  assumes "accounted c"
  obtains (stop) "evict c = c" "within c"
  | (step) k e where "map_of (entries c) k = Some e" "\<not> within c"
      "evict c = evict (evict_one k c)"
      "\<And>y. y \<in> set (entries c) \<Longrightarrow> fst y \<noteq> k \<Longrightarrow> older used (k, e) y"
proof (cases "min_element (older used) (entries c)")
  case None
  then have "entries c = []" by simp
  with assms have "within c" by (simp add: accounted_def within_def)
  with None show ?thesis using stop by (simp add: evict_unfold [of c])
next
  case (Some v)
  have mem: "map_of (entries c) (fst v) = Some (snd v)"
    using min_element_Some(1) [OF Some] assms by (simp add: accounted_def lookup_iff_in_set)
  show ?thesis
  proof (cases "within c")
    case True
    then have "evict c = c" by (simp add: evict_unfold [of c] Some within_def)
    then show ?thesis using True stop by blast
  next
    case False
    then have "evict c = evict (evict_one (fst v) c)"
      by (subst evict_unfold) (auto simp: Some within_def)
    then show ?thesis using step [OF mem False] min_element_oldest [OF Some] by simp
  qed
qed

lemma evict_induct [consumes 1, case_names stop step]:
  assumes "accounted c"
    and "\<And>c. accounted c \<Longrightarrow> evict c = c \<Longrightarrow> within c \<Longrightarrow> P c"
    and "\<And>c k e. accounted c \<Longrightarrow> map_of (entries c) k = Some e \<Longrightarrow> \<not> within c \<Longrightarrow>
      evict c = evict (evict_one k c) \<Longrightarrow>
      (\<And>y. y \<in> set (entries c) \<Longrightarrow> fst y \<noteq> k \<Longrightarrow> older used (k, e) y) \<Longrightarrow>
      P (evict_one k c) \<Longrightarrow> P c"
  shows "P c"
  using assms(1)
proof (induction "length (entries c)" arbitrary: c)
  case 0
  show ?case using 0(2)
  proof (cases rule: evict_cases)
    case stop
    then show ?thesis using assms(2) 0(2) by blast
  next
    case (step k e)
    then show ?thesis using 0(1) by simp
  qed
next
  case (Suc n)
  show ?case using Suc(3)
  proof (cases rule: evict_cases)
    case stop
    then show ?thesis using assms(2) Suc(3) by blast
  next
    case (step k e)
    have "P (evict_one k c)"
      using Suc(1,2) accounted_one [OF Suc(3) step(1)] by simp
    then show ?thesis using assms(3) [OF Suc(3)] step by blast
  qed
qed

lemma evict_accounted: "accounted c \<Longrightarrow> accounted (evict c)"
  by (induction rule: evict_induct) (auto dest: accounted_one(1))

lemma evict_within: "accounted c \<Longrightarrow> within (evict c)"
  by (induction rule: evict_induct) auto

lemma evict_budget: "accounted c \<Longrightarrow> max_entries (evict c) = max_entries c \<and> max_bytes (evict c) = max_bytes c"
  by (induction rule: evict_induct) (auto simp: one_budget)

lemma evict_subset: "accounted c \<Longrightarrow> set (entries (evict c)) \<subseteq> set (entries c)"
  by (induction rule: evict_induct) (auto simp: one_entries set_erase)

lemma evict_idle: "accounted c \<Longrightarrow> within c \<Longrightarrow> evict c = c"
  by (erule evict_cases) auto

text \<open>Whatever was evicted is older than whatever stayed.\<close>

lemma evict_lru:
  "accounted c \<Longrightarrow> r \<in> set (entries c) \<Longrightarrow> r \<notin> set (entries (evict c)) \<Longrightarrow>
     s \<in> set (entries (evict c)) \<Longrightarrow> older used r s"
proof (induction rule: evict_induct)
  case (step c k e)
  have sub: "set (entries (evict (evict_one k c))) \<subseteq> set (entries (evict_one k c))"
    using evict_subset accounted_one(1) [OF step(1,2)] by blast
  show ?case
  proof (cases "fst r = k")
    case True
    have "map_of (entries c) (fst r) = Some (snd r)"
      using step(1,7) by (simp add: accounted_def lookup_iff_in_set)
    with True step(2) have "r = (k, e)" by (cases r) simp
    moreover have "s \<in> set (entries c)" "fst s \<noteq> k"
      using sub step(4,9) by (auto simp: one_entries set_erase)
    ultimately show ?thesis using step(5) by simp
  next
    case False
    then have "r \<in> set (entries (evict_one k c))" using step(7) by (simp add: one_entries set_erase)
    then show ?thesis using step(4,6,8,9) by simp
  qed
qed simp

text \<open>Nothing is evicted beyond need: the youngest victim alone, put back, would exceed a
  budget again.\<close>

lemma evict_minimal:
  "accounted c \<Longrightarrow> evict c \<noteq> c \<Longrightarrow>
     \<exists>k e. (k, e) \<in> set (entries c) \<and> (k, e) \<notin> set (entries (evict c))
       \<and> (\<forall>r \<in> set (entries c) - set (entries (evict c)). r = (k, e) \<or> older used r (k, e))
       \<and> (max_entries c < Suc (length (entries (evict c)))
          \<or> max_bytes c < retained (evict c) + weight e)"
proof (induction rule: evict_induct)
  case (step c k e)
  note one = accounted_one [OF step(1,2)]
  have ke: "r = (k, e)" if "r \<in> set (entries c)" "fst r = k" for r
    using that step(1,2) lookup_iff_in_set [of "entries c" "fst r" "snd r"]
    by (cases r) (auto simp: accounted_def)
  show ?case
  proof (cases "evict (evict_one k c) = evict_one k c")
    case True
    then have "max_entries c < Suc (length (entries (evict c)))
        \<or> max_bytes c < retained (evict c) + weight e"
      using step(3,4) one(2,3) by (auto simp: within_def)
    moreover have "(k, e) \<notin> set (entries (evict c))"
      and "\<forall>r \<in> set (entries c) - set (entries (evict c)). r = (k, e)"
      using step(4) True ke by (auto simp: one_entries set_erase)
    ultimately show ?thesis using step(2) lookup_in_set by fast
  next
    case False
    then obtain k' e' where v: "(k', e') \<in> set (entries (evict_one k c))"
      "(k', e') \<notin> set (entries (evict c))"
      "\<forall>r \<in> set (entries (evict_one k c)) - set (entries (evict c)). r = (k', e') \<or> older used r (k', e')"
      "max_entries c < Suc (length (entries (evict c))) \<or> max_bytes c < retained (evict c) + weight e'"
      using step(4,6) one_budget by auto
    have "r = (k', e') \<or> older used r (k', e')"
      if r: "r \<in> set (entries c) - set (entries (evict c))" for r
    proof (cases "fst r = k")
      case True
      then have "r = (k, e)" using ke r by blast
      then show ?thesis using step(5) [of "(k', e')"] v(1) by (simp add: one_entries set_erase)
    next
      case False
      then show ?thesis using v(3) r by (auto simp: one_entries set_erase)
    qed
    moreover have "(k', e') \<in> set (entries c)" using v(1) by (simp add: one_entries set_erase)
    ultimately show ?thesis using v(2,4) by blast
  qed
qed simp

text \<open>An entry that fits the budget alone and is younger than all others survives.\<close>

lemma evict_keeps_youngest:
  assumes "accounted c" and "(k, e) \<in> set (entries c)"
    and "\<And>r. r \<in> set (entries c) \<Longrightarrow> r = (k, e) \<or> older used r (k, e)"
    and "0 < max_entries c" and "weight e \<le> max_bytes c"
  shows "(k, e) \<in> set (entries (evict c))"
proof (rule ccontr)
  assume gone: "(k, e) \<notin> set (entries (evict c))"
  have empty: "entries (evict c) = []"
  proof (cases "entries (evict c)")
    case (Cons s ss)
    then have s: "s \<in> set (entries (evict c))" by simp
    then have "s \<in> set (entries c)" "s \<noteq> (k, e)" using evict_subset [OF assms(1)] gone by auto
    then have "older used s (k, e)" using assms(3) by blast
    moreover have "older used (k, e) s" using evict_lru [OF assms(1,2) gone s] .
    ultimately show ?thesis using older_asym by blast
  qed simp
  then have none: "retained (evict c) = 0"
    using evict_accounted [OF assms(1)] by (simp add: accounted_def)
  have "evict c \<noteq> c" using gone assms(2) by auto
  then obtain k' e' where v: "(k', e') \<in> set (entries c)"
    "\<forall>r \<in> set (entries c) - set (entries (evict c)). r = (k', e') \<or> older used r (k', e')"
    "max_entries c < Suc 0 \<or> max_bytes c < weight e'"
    using evict_minimal [OF assms(1)] empty none by auto
  have "(k, e) = (k', e')"
    using v(1,2) assms(2,3) empty older_asym by fastforce
  then show False using v(3) assms(4,5) by auto
qed

lemma evict_counts:
  "accounted c \<Longrightarrow> evictions (evict c)
     = evictions c + of_nat (length (entries c) - length (entries (evict c)))"
proof (induction rule: evict_induct)
  case (step c k e)
  note one = accounted_one [OF step(1,2)]
  have "length (entries (evict (evict_one k c))) \<le> length (entries (evict_one k c))"
    using evict_subset [OF one(1)] evict_accounted [OF one(1)] omap_wf_length_mono
    by (auto simp: accounted_def)
  then show ?case using step one by (simp add: one_evictions Suc_diff_le)
qed simp

end

end
