(* ===== verification/Parsed_Source_Cache.thy ===== *)
theory Parsed_Source_Cache
  imports Lru_Cache Memory_Estimator Ilic_Text
begin

section \<open>The cache of parsed sources\<close>

text \<open>
  Model of source/core/incremental/ParsedSourceCache.cpp. A parse is stored under the
  canonical string of its key (URI, content revision, content hash, byte length, parse mode,
  grammar fingerprint) together with the bytes it was built from; a hit needs the same
  canonical string and the same bytes. The builder, which runs the ANTLR parser, is an argument.
  Ticks and counters are 64-bit words, \<open>size_t\<close> is \<open>nat\<close>.
\<close>

record ParsedSourceCacheOptions =
  pco_maxEntries :: nat
  pco_maxRetainedBytes :: nat
  pco_retainOversizedEntry :: bool

record ParsedSourceKey =
  pk_uri :: string
  pk_contentRevision :: u64
  pk_contentHash :: string
  pk_byteLength :: nat
  pk_mode :: ParseMode
  pk_grammarFingerprint :: string

record ParsedSourceCacheEntry =
  pe_key :: ParsedSourceKey
  pe_sourceBytes :: string
  pe_artifact :: ParsedSourceArtifactPtr
  pe_syntax :: SyntaxSnapshot
  pe_editor :: EditorSnapshot
  pe_retainedBytes :: nat
  pe_lastUsedTick :: u64

record ParsedSourceCacheMetrics =
  pm_strictBuilds :: u64
  pm_tolerantBuilds :: u64
  pm_strictHits :: u64
  pm_tolerantHits :: u64
  pm_evictions :: u64
  pm_entries :: nat
  pm_retainedBytes :: nat

record ParsedSourceCache =
  pc_options :: ParsedSourceCacheOptions
  pc_entries :: "(string, ParsedSourceCacheEntry) omap"
  pc_retainedBytes :: nat
  pc_tick :: u64
  pc_metrics :: ParsedSourceCacheMetrics

definition default_parsed_metrics :: ParsedSourceCacheMetrics where
  "default_parsed_metrics = \<lparr>pm_strictBuilds = 0, pm_tolerantBuilds = 0, pm_strictHits = 0,
     pm_tolerantHits = 0, pm_evictions = 0, pm_entries = 0, pm_retainedBytes = 0\<rparr>"

definition make_ParsedSourceCache :: "ParsedSourceCacheOptions \<Rightarrow> ParsedSourceCache" where
  "make_ParsedSourceCache options = \<lparr>pc_options = options, pc_entries = [], pc_retainedBytes = 0,
     pc_tick = 0, pc_metrics = default_parsed_metrics\<rparr>"

subsection \<open>Keys\<close>

fun mode_number :: "ParseMode \<Rightarrow> nat" where
  "mode_number StrictCompiler = 0"
| "mode_number TolerantEditor = 1"

definition canonicalString :: "ParsedSourceKey \<Rightarrow> string" where
  "canonicalString key =
     netstring (pk_uri key) @ ''|'' @ dec (unat (pk_contentRevision key)) @ ''|''
     @ netstring (pk_contentHash key) @ ''|'' @ dec (pk_byteLength key) @ ''|''
     @ dec (mode_number (pk_mode key)) @ ''|'' @ netstring (pk_grammarFingerprint key)"

subsection \<open>Operations\<close>

definition count_hit :: "ParseMode \<Rightarrow> ParsedSourceCacheMetrics \<Rightarrow> ParsedSourceCacheMetrics" where
  "count_hit mode m = (if mode = StrictCompiler
     then m\<lparr>pm_strictHits := pm_strictHits m + 1\<rparr>
     else m\<lparr>pm_tolerantHits := pm_tolerantHits m + 1\<rparr>)"

definition count_build :: "ParseMode \<Rightarrow> ParsedSourceCacheMetrics \<Rightarrow> ParsedSourceCacheMetrics" where
  "count_build mode m = (if mode = StrictCompiler
     then m\<lparr>pm_strictBuilds := pm_strictBuilds m + 1\<rparr>
     else m\<lparr>pm_tolerantBuilds := pm_tolerantBuilds m + 1\<rparr>)"

definition publish_sizes :: "ParsedSourceCache \<Rightarrow> ParsedSourceCache" where
  "publish_sizes c = c\<lparr>pc_metrics := (pc_metrics c)\<lparr>pm_entries := length (pc_entries c),
     pm_retainedBytes := pc_retainedBytes c\<rparr>\<rparr>"

definition parsed_erase :: "string \<Rightarrow> ParsedSourceCache \<Rightarrow> nat \<times> ParsedSourceCache" where
  "parsed_erase k c = (case map_of (pc_entries c) k of
     None \<Rightarrow> (0, c)
   | Some e \<Rightarrow>
       let released = pe_retainedBytes e in
       (released, publish_sizes (c\<lparr>
          pc_entries := erase k (pc_entries c),
          pc_retainedBytes := pc_retainedBytes c - min (pc_retainedBytes c) released\<rparr>)))"

definition count_eviction :: "ParsedSourceCache \<Rightarrow> ParsedSourceCache" where
  "count_eviction c =
     c\<lparr>pc_metrics := (pc_metrics c)\<lparr>pm_evictions := pm_evictions (pc_metrics c) + 1\<rparr>\<rparr>"

definition parsed_evict_one :: "string \<Rightarrow> ParsedSourceCache \<Rightarrow> ParsedSourceCache" where
  "parsed_evict_one k c = count_eviction (snd (parsed_erase k c))"

lemma parsed_evict_one_entries: "pc_entries (parsed_evict_one k c) = erase k (pc_entries c)"
  by (simp add: parsed_evict_one_def count_eviction_def parsed_erase_def publish_sizes_def Let_def
      erase_None split: option.splits)

function parsed_evictUntilWithinBudget :: "ParsedSourceCache \<Rightarrow> ParsedSourceCache" where
  "parsed_evictUntilWithinBudget c =
     (case min_element (older pe_lastUsedTick) (pc_entries c) of
        None \<Rightarrow> c
      | Some victim \<Rightarrow>
          if pco_maxEntries (pc_options c) < length (pc_entries c)
             \<or> pco_maxRetainedBytes (pc_options c) < pc_retainedBytes c
          then parsed_evictUntilWithinBudget (parsed_evict_one (fst victim) c)
          else c)"
  by pat_completeness auto

termination
proof (relation "measure (\<lambda>c. length (pc_entries c))", goal_cases)
  case (2 c v)
  have "v \<in> set (pc_entries c)" using min_element_Some(1) [OF 2(1)] .
  then show ?case
    by (auto simp: parsed_evict_one_entries erase_def intro: length_filter_less)
qed simp

declare parsed_evictUntilWithinBudget.simps [simp del]

definition new_parsed_entry ::
  "layout \<Rightarrow> ParsedSourceKey \<Rightarrow> string \<Rightarrow> SnapshotBundle \<Rightarrow> u64 \<Rightarrow> ParsedSourceCacheEntry" where
  "new_parsed_entry L key bytes bundle tick =
     \<lparr>pe_key = key, pe_sourceBytes = bytes, pe_artifact = bu_artifact bundle,
      pe_syntax = bu_syntax bundle, pe_editor = bu_editor bundle,
      pe_retainedBytes = estimate_source L bytes
        + (case bu_artifact bundle of None \<Rightarrow> 0 | Some a \<Rightarrow> estimate_artifact L a)
        + estimate_syntax L (bu_syntax bundle) + estimate_editor L (bu_editor bundle),
      pe_lastUsedTick = tick\<rparr>"

definition parsed_key :: "SourceBuffer \<Rightarrow> SourceIdentity \<Rightarrow> ParseMode \<Rightarrow> string \<Rightarrow> ParsedSourceKey" where
  "parsed_key source identity mode grammar =
     \<lparr>pk_uri = sb_uri source, pk_contentRevision = contentRevision identity,
      pk_contentHash = si_contentHash identity, pk_byteLength = length (sb_text source),
      pk_mode = mode, pk_grammarFingerprint = grammar\<rparr>"

definition parsed_hit ::
  "string \<Rightarrow> ParseMode \<Rightarrow> ParsedSourceCacheEntry \<Rightarrow> ParsedSourceCache
     \<Rightarrow> ParsedSourceCacheEntry \<times> ParsedSourceCache" where
  "parsed_hit canonical mode e c =
     (let t = pc_tick c + 1; e' = e\<lparr>pe_lastUsedTick := t\<rparr> in
      (e', c\<lparr>pc_entries := assign canonical e' (pc_entries c), pc_tick := t,
             pc_metrics := count_hit mode (pc_metrics c)\<rparr>))"

definition parsed_store ::
  "string \<Rightarrow> ParseMode \<Rightarrow> ParsedSourceCacheEntry \<Rightarrow> ParsedSourceCache \<Rightarrow> ParsedSourceCache" where
  "parsed_store canonical mode entry c =
     (let c1 = snd (parsed_erase canonical c);
          c2 = c1\<lparr>pc_metrics := count_build mode (pc_metrics c1)\<rparr>;
          c3 = (if pe_retainedBytes entry \<le> pco_maxRetainedBytes (pc_options c2)
                   \<or> pco_retainOversizedEntry (pc_options c2)
                then parsed_evictUntilWithinBudget
                  (c2\<lparr>pc_retainedBytes := pc_retainedBytes c2 + pe_retainedBytes entry,
                      pc_entries := assign canonical entry (pc_entries c2)\<rparr>)
                else count_eviction c2) in
      publish_sizes c3)"

definition getOrBuild ::
  "layout \<Rightarrow> (SourceBuffer \<Rightarrow> ParseMode \<Rightarrow> SnapshotBundle) \<Rightarrow> SourceBuffer \<Rightarrow> SourceIdentity \<Rightarrow> ParseMode
     \<Rightarrow> string \<Rightarrow> ParsedSourceCache \<Rightarrow> ParsedSourceCacheEntry \<times> ParsedSourceCache" where
  "getOrBuild L builder source identity mode grammar c =
     (let key = parsed_key source identity mode grammar;
          canonical = canonicalString key;
          build = (let t = pc_tick c + 1;
                       entry = new_parsed_entry L key (sb_text source) (builder source mode) t in
                   (entry, parsed_store canonical mode entry (c\<lparr>pc_tick := t\<rparr>))) in
      case map_of (pc_entries c) canonical of
        Some e \<Rightarrow> if pe_sourceBytes e = sb_text source then parsed_hit canonical mode e c else build
      | None \<Rightarrow> build)"

fun invalidate_loop ::
  "string \<Rightarrow> (string \<times> ParsedSourceCacheEntry) list \<Rightarrow> nat \<Rightarrow> ParsedSourceCache
     \<Rightarrow> nat \<times> ParsedSourceCache" where
  "invalidate_loop uri [] released c = (released, c)"
| "invalidate_loop uri ((k, e) # rest) released c =
     (if pk_uri (pe_key e) \<noteq> uri then invalidate_loop uri rest released c
      else let (n, c') = parsed_erase k c in invalidate_loop uri rest (released + n) c')"

definition invalidateUri :: "string \<Rightarrow> ParsedSourceCache \<Rightarrow> nat \<times> ParsedSourceCache" where
  "invalidateUri uri c = invalidate_loop uri (pc_entries c) 0 c"

definition parsed_clear :: "ParsedSourceCache \<Rightarrow> nat \<times> ParsedSourceCache" where
  "parsed_clear c = (pc_retainedBytes c,
     c\<lparr>pc_entries := [], pc_retainedBytes := 0,
       pc_metrics := (pc_metrics c)\<lparr>pm_entries := 0, pm_retainedBytes := 0\<rparr>\<rparr>)"

definition parsed_resetMetrics :: "ParsedSourceCache \<Rightarrow> ParsedSourceCache" where
  "parsed_resetMetrics c = c\<lparr>pc_metrics := default_parsed_metrics\<lparr>
     pm_entries := length (pc_entries c), pm_retainedBytes := pc_retainedBytes c\<rparr>\<rparr>"

definition parsed_metrics :: "ParsedSourceCache \<Rightarrow> ParsedSourceCacheMetrics" where
  "parsed_metrics c = (pc_metrics c)\<lparr>pm_entries := length (pc_entries c),
     pm_retainedBytes := pc_retainedBytes c\<rparr>"

definition parsed_checkInvariants :: "ParsedSourceCache \<Rightarrow> string option" where
  "parsed_checkInvariants c =
     (let s = weight_of pe_retainedBytes (pc_entries c) in
      if s = pc_retainedBytes c \<and> length (pc_entries c) = pm_entries (pc_metrics c) then None
      else Some (''parsed cache accounting mismatch: sum='' @ dec s
        @ '' retained='' @ dec (pc_retainedBytes c) @ '' entries='' @ dec (length (pc_entries c))
        @ '' metrics='' @ dec (pm_entries (pc_metrics c))))"

subsection \<open>Keys are injective\<close>

lemma mode_number_inj [simp]: "mode_number m = mode_number n \<longleftrightarrow> m = n"
  by (cases m; cases n) auto

lemma canonicalString_inj: "canonicalString a = canonicalString b \<longleftrightarrow> a = b"
  by (cases a; cases b) (auto simp: canonicalString_def word_unat_eq_iff)

subsection \<open>Accounting\<close>

lemma parsed_evict_one_retained:
  "map_of (pc_entries c) k = Some e \<Longrightarrow> pc_retainedBytes (parsed_evict_one k c)
     = pc_retainedBytes c - min (pc_retainedBytes c) (pe_retainedBytes e)"
  by (simp add: parsed_evict_one_def count_eviction_def parsed_erase_def publish_sizes_def Let_def)

lemma parsed_evict_one_frame:
  "pc_options (parsed_evict_one k c) = pc_options c"
  "pc_tick (parsed_evict_one k c) = pc_tick c"
  "pm_evictions (pc_metrics (parsed_evict_one k c)) = pm_evictions (pc_metrics c) + 1"
  by (simp_all add: parsed_evict_one_def count_eviction_def parsed_erase_def publish_sizes_def Let_def
      split: option.splits)

interpretation parsed: lru_cache pc_entries pc_retainedBytes pe_retainedBytes pe_lastUsedTick
  "\<lambda>c. pco_maxEntries (pc_options c)" "\<lambda>c. pco_maxRetainedBytes (pc_options c)"
  "\<lambda>c. pm_evictions (pc_metrics c)" parsed_evict_one parsed_evictUntilWithinBudget
  by unfold_locales
     (simp_all add: parsed_evict_one_entries parsed_evict_one_retained parsed_evict_one_frame
       parsed_evictUntilWithinBudget.simps)

lemma parsed_evict_options:
  "parsed.accounted c \<Longrightarrow> pc_options (parsed_evictUntilWithinBudget c) = pc_options c"
  by (induction rule: parsed.evict_induct) (auto simp: parsed_evict_one_frame)

lemma parsed_evict_tick:
  "parsed.accounted c \<Longrightarrow> pc_tick (parsed_evictUntilWithinBudget c) = pc_tick c"
  by (induction rule: parsed.evict_induct) (auto simp: parsed_evict_one_frame)

text \<open>An entry holds what the builder made of its source; the version of the buffer it was
  built from may be an earlier one.\<close>

definition built_by ::
  "(SourceBuffer \<Rightarrow> ParseMode \<Rightarrow> SnapshotBundle) \<Rightarrow> ParsedSourceCacheEntry \<Rightarrow> bool" where
  "built_by builder e \<longleftrightarrow> (\<exists>v.
     let b = builder \<lparr>sb_uri = pk_uri (pe_key e), sb_text = pe_sourceBytes e, sb_version = v\<rparr>
       (pk_mode (pe_key e)) in
     pe_artifact e = bu_artifact b \<and> pe_syntax e = bu_syntax b \<and> pe_editor e = bu_editor b)"

definition entries_ok ::
  "(SourceBuffer \<Rightarrow> ParseMode \<Rightarrow> SnapshotBundle) \<Rightarrow> (string, ParsedSourceCacheEntry) omap \<Rightarrow> bool" where
  "entries_ok builder m \<longleftrightarrow>
     (\<forall>(k, e) \<in> set m. k = canonicalString (pe_key e) \<and> built_by builder e)"

definition parsed_inv ::
  "(SourceBuffer \<Rightarrow> ParseMode \<Rightarrow> SnapshotBundle) \<Rightarrow> ParsedSourceCache \<Rightarrow> bool" where
  "parsed_inv builder c \<longleftrightarrow> parsed.accounted c \<and> parsed.within c
     \<and> pm_entries (pc_metrics c) = length (pc_entries c)
     \<and> pm_retainedBytes (pc_metrics c) = pc_retainedBytes c
     \<and> entries_ok builder (pc_entries c)"

lemma entries_ok_subset: "entries_ok builder m \<Longrightarrow> set n \<subseteq> set m \<Longrightarrow> entries_ok builder n"
  by (auto simp: entries_ok_def)

lemma entries_ok_assign:
  "entries_ok builder m \<Longrightarrow> built_by builder e \<Longrightarrow>
     entries_ok builder (assign (canonicalString (pe_key e)) e m)"
  using set_assign_subset [of "canonicalString (pe_key e)" e m] by (auto simp: entries_ok_def)

lemma parsed_invD:
  assumes "parsed_inv builder c"
  shows "parsed.accounted c" and "parsed.within c" and "omap_wf (pc_entries c)"
    and "entries_ok builder (pc_entries c)"
    and "pm_entries (pc_metrics c) = length (pc_entries c)"
    and "pm_retainedBytes (pc_metrics c) = pc_retainedBytes c"
    and "pc_retainedBytes c = weight_of pe_retainedBytes (pc_entries c)"
  using assms by (auto simp: parsed_inv_def parsed.accounted_def)


subsection \<open>Every operation keeps the invariant\<close>

lemma parsed_erase_frame:
  "pc_entries (snd (parsed_erase k c)) = erase k (pc_entries c)"
  "pc_options (snd (parsed_erase k c)) = pc_options c"
  "pc_tick (snd (parsed_erase k c)) = pc_tick c"
  by (auto simp: parsed_erase_def publish_sizes_def Let_def erase_None split: option.splits)

lemma parsed_erase_released:
  assumes "parsed.accounted c"
  shows "pc_retainedBytes c = fst (parsed_erase k c) + pc_retainedBytes (snd (parsed_erase k c))"
    and "parsed.accounted (snd (parsed_erase k c))"
    and "fst (parsed_erase k c) =
      (case map_of (pc_entries c) k of None \<Rightarrow> 0 | Some e \<Rightarrow> pe_retainedBytes e)"
  using assms weight_of_erase [of "pc_entries c" k _ pe_retainedBytes]
  by (auto simp: parsed_erase_def publish_sizes_def Let_def parsed.accounted_def split: option.splits)

lemma parsed_erase_inv: "parsed_inv builder c \<Longrightarrow> parsed_inv builder (snd (parsed_erase k c))"
proof -
  assume inv: "parsed_inv builder c"
  note d = parsed_invD [OF inv]
  have "length (erase k (pc_entries c)) \<le> length (pc_entries c)" by (simp add: erase_def)
  moreover have "pc_retainedBytes (snd (parsed_erase k c)) \<le> pc_retainedBytes c"
    using parsed_erase_released(1) [OF d(1), of k] by simp
  moreover have "pm_entries (pc_metrics (snd (parsed_erase k c))) = length (erase k (pc_entries c))"
    "pm_retainedBytes (pc_metrics (snd (parsed_erase k c))) = pc_retainedBytes (snd (parsed_erase k c))"
    using d(5,6) by (auto simp: parsed_erase_def publish_sizes_def Let_def erase_None split: option.splits)
  moreover have "entries_ok builder (erase k (pc_entries c))"
    using d(4) by (rule entries_ok_subset) (auto simp: set_erase)
  ultimately show ?thesis
    using parsed_erase_released(2) [OF d(1)] d(2)
    by (auto simp: parsed_inv_def parsed.within_def parsed_erase_frame)
qed

lemma parsed_store_inserted:
  assumes "parsed.accounted c"
  shows "parsed.accounted ((snd (parsed_erase k c))\<lparr>pc_metrics := m,
      pc_retainedBytes := pc_retainedBytes (snd (parsed_erase k c)) + pe_retainedBytes e,
      pc_entries := assign k e (erase k (pc_entries c))\<rparr>)"
  using parsed_erase_released(2) [OF assms, of k] weight_of_assign_fresh [of k "erase k (pc_entries c)"]
  by (simp add: parsed.accounted_def parsed_erase_frame)

lemma parsed_store_inv:
  assumes "parsed_inv builder c" and "built_by builder e" and "k = canonicalString (pe_key e)"
  shows "parsed_inv builder (parsed_store k mode e c)"
proof -
  note d = parsed_invD [OF parsed_erase_inv [OF assms(1), of k]]
  let ?c1 = "snd (parsed_erase k c)"
  let ?c3 = "?c1\<lparr>pc_metrics := count_build mode (pc_metrics ?c1),
      pc_retainedBytes := pc_retainedBytes ?c1 + pe_retainedBytes e,
      pc_entries := assign k e (erase k (pc_entries c))\<rparr>"
  have acc: "parsed.accounted ?c3"
    using parsed_store_inserted [OF parsed_invD(1) [OF assms(1)]] .
  have ok: "entries_ok builder (pc_entries ?c3)"
    using entries_ok_assign [OF d(4) assms(2)] assms(3) by (simp add: parsed_erase_frame)
  have stored: "parsed_inv builder (publish_sizes (parsed_evictUntilWithinBudget ?c3))"
    using parsed.evict_accounted [OF acc] parsed.evict_within [OF acc]
      entries_ok_subset [OF ok parsed.evict_subset [OF acc]]
    by (simp add: parsed_inv_def publish_sizes_def parsed.accounted_def parsed.within_def)
  have skipped: "parsed_inv builder (publish_sizes (count_eviction
      (?c1\<lparr>pc_metrics := count_build mode (pc_metrics ?c1)\<rparr>)))"
    using d(1-4)
    by (simp add: parsed_inv_def publish_sizes_def count_eviction_def parsed.accounted_def
        parsed.within_def)
  show ?thesis using stored skipped by (simp add: parsed_store_def Let_def parsed_erase_frame)
qed

lemma parsed_tick_inv: "parsed_inv builder c \<Longrightarrow> parsed_inv builder (c\<lparr>pc_tick := t\<rparr>)"
  by (simp add: parsed_inv_def parsed.accounted_def parsed.within_def)

lemma built_by_tick [simp]: "built_by builder (e\<lparr>pe_lastUsedTick := t\<rparr>) = built_by builder e"
  by (simp add: built_by_def)

lemma parsed_hit_inv:
  assumes "parsed_inv builder c" and "map_of (pc_entries c) k = Some e"
  shows "parsed_inv builder (snd (parsed_hit k mode e c))"
proof -
  note d = parsed_invD [OF assms(1)]
  have ke: "k = canonicalString (pe_key e)" "built_by builder e"
    using lookup_in_set [OF assms(2)] d(4) by (auto simp: entries_ok_def)
  let ?e = "e\<lparr>pe_lastUsedTick := pc_tick c + 1\<rparr>"
  have "weight_of pe_retainedBytes (assign k ?e (pc_entries c)) = weight_of pe_retainedBytes (pc_entries c)"
    using weight_of_assign [OF d(3)] weight_of_erase [OF d(3) assms(2), of pe_retainedBytes] by simp
  moreover have "entries_ok builder (assign k ?e (pc_entries c))"
    using entries_ok_assign [OF d(4), of ?e] ke by simp
  ultimately show ?thesis
    using d assign_present_length [OF d(3) assms(2), of ?e]
    by (simp add: parsed_hit_def Let_def parsed_inv_def parsed.accounted_def parsed.within_def count_hit_def)
qed

lemma new_entry_built: "built_by builder (new_parsed_entry L (parsed_key source identity mode g)
    (sb_text source) (builder source mode) t)"
  unfolding built_by_def
  by (rule exI [of _ "sb_version source"])
     (cases source, simp add: new_parsed_entry_def parsed_key_def Let_def)

lemma new_entry_fields [simp]:
  "pe_key (new_parsed_entry L key bytes b t) = key"
  "pe_sourceBytes (new_parsed_entry L key bytes b t) = bytes"
  "pe_lastUsedTick (new_parsed_entry L key bytes b t) = t"
  by (simp_all add: new_parsed_entry_def)

text \<open>The two outcomes of a lookup.\<close>

lemma getOrBuild_cases:
  obtains (hit) e where "map_of (pc_entries c) (canonicalString (parsed_key source identity mode g)) = Some e"
      "pe_sourceBytes e = sb_text source"
      "getOrBuild L builder source identity mode g c
         = parsed_hit (canonicalString (parsed_key source identity mode g)) mode e c"
  | (build) e where "e = new_parsed_entry L (parsed_key source identity mode g) (sb_text source)
        (builder source mode) (pc_tick c + 1)"
      "getOrBuild L builder source identity mode g c = (e, parsed_store
         (canonicalString (parsed_key source identity mode g)) mode e (c\<lparr>pc_tick := pc_tick c + 1\<rparr>))"
proof (cases "\<exists>e. map_of (pc_entries c) (canonicalString (parsed_key source identity mode g)) = Some e
    \<and> pe_sourceBytes e = sb_text source")
  case True
  then obtain e where e: "map_of (pc_entries c) (canonicalString (parsed_key source identity mode g)) = Some e"
    "pe_sourceBytes e = sb_text source" by blast
  then show ?thesis using hit [OF e] by (simp add: getOrBuild_def Let_def)
next
  case False
  then show ?thesis
    using build [OF refl] by (simp add: getOrBuild_def Let_def split: option.splits)
qed

lemma getOrBuild_inv:
  assumes "parsed_inv builder c"
  shows "parsed_inv builder (snd (getOrBuild L builder source identity mode g c))"
proof (cases rule: getOrBuild_cases [of c source identity mode g L builder])
  case (hit e)
  then show ?thesis using parsed_hit_inv [OF assms hit(1)] by simp
next
  case (build e)
  then show ?thesis
    using parsed_store_inv [OF parsed_tick_inv [OF assms], of e] new_entry_built by simp
qed

lemma getOrBuild_result:
  assumes "parsed_inv builder c" and "(e, c') = getOrBuild L builder source identity mode g c"
  shows "built_by builder e" and "pe_key e = parsed_key source identity mode g"
    and "pe_sourceBytes e = sb_text source"
proof -
  have "built_by builder e \<and> pe_key e = parsed_key source identity mode g \<and> pe_sourceBytes e = sb_text source"
  proof (cases rule: getOrBuild_cases [of c source identity mode g L builder])
    case (hit x)
    then have "built_by builder x" "pe_key x = parsed_key source identity mode g"
      using lookup_in_set [OF hit(1)] parsed_invD(4) [OF assms(1)]
      by (auto simp: entries_ok_def canonicalString_inj)
    then show ?thesis using hit assms(2) by (auto simp: parsed_hit_def Let_def)
  next
    case (build x)
    then show ?thesis using assms(2) new_entry_built by simp
  qed
  then show "built_by builder e" "pe_key e = parsed_key source identity mode g"
    "pe_sourceBytes e = sb_text source" by auto
qed

lemma built_by_source:
  assumes "built_by builder e" and "pe_key e = parsed_key b identity mode g" and "pe_sourceBytes e = sb_text b"
  shows "\<exists>v. pe_artifact e = bu_artifact (builder (b\<lparr>sb_version := v\<rparr>) mode)
    \<and> pe_syntax e = bu_syntax (builder (b\<lparr>sb_version := v\<rparr>) mode)
    \<and> pe_editor e = bu_editor (builder (b\<lparr>sb_version := v\<rparr>) mode)"
  using assms(1) by (cases b) (simp add: built_by_def assms(2,3) Let_def parsed_key_def)

lemma invalidate_loop_inv:
  "parsed_inv builder c \<Longrightarrow> parsed_inv builder (snd (invalidate_loop uri m n c))"
proof (induction uri m n c rule: invalidate_loop.induct)
  case (2 uri k e rest released c)
  then show ?case using parsed_erase_inv [of builder c k] by (auto simp: split_beta)
qed simp

lemma invalidate_loop_effect:
  "parsed.accounted c \<Longrightarrow> parsed.accounted (snd (invalidate_loop uri m n c))
     \<and> set (pc_entries (snd (invalidate_loop uri m n c)))
       = {x \<in> set (pc_entries c). fst x \<notin> set (map fst (filter (\<lambda>y. pk_uri (pe_key (snd y)) = uri) m))}
     \<and> fst (invalidate_loop uri m n c) + pc_retainedBytes (snd (invalidate_loop uri m n c))
       = n + pc_retainedBytes c"
proof (induction uri m n c rule: invalidate_loop.induct)
  case (2 uri k e rest released c)
  note er = parsed_erase_released [OF 2(3), of k]
  show ?case
  proof (cases "pk_uri (pe_key e) = uri")
    case True
    then show ?thesis
      using 2(2) [OF _ _ surjective_pairing er(2)] er(1)
      by (auto simp: split_beta parsed_erase_frame set_erase)
  next
    case False
    then show ?thesis using 2(1) [OF False 2(3)] by auto
  qed
qed auto


lemma parsed_clear_inv: "parsed_inv builder (snd (parsed_clear c))"
  by (simp add: parsed_clear_def parsed_inv_def parsed.accounted_def parsed.within_def entries_ok_def)

lemma parsed_resetMetrics_inv: "parsed_inv builder c \<Longrightarrow> parsed_inv builder (parsed_resetMetrics c)"
  by (simp add: parsed_resetMetrics_def parsed_inv_def parsed.accounted_def parsed.within_def)

lemma make_parsed_inv: "parsed_inv builder (make_ParsedSourceCache options)"
  by (simp add: make_ParsedSourceCache_def default_parsed_metrics_def parsed_inv_def
      parsed.accounted_def parsed.within_def entries_ok_def)

subsection \<open>Options and ticks\<close>

lemma parsed_store_frame:
  assumes "parsed.accounted c"
  shows "pc_options (parsed_store k mode e c) = pc_options c"
    and "pc_tick (parsed_store k mode e c) = pc_tick c"
  using parsed_evict_options [OF parsed_store_inserted [OF assms]]
    parsed_evict_tick [OF parsed_store_inserted [OF assms]]
  by (simp_all add: parsed_store_def Let_def publish_sizes_def count_eviction_def parsed_erase_frame)

lemma getOrBuild_options:
  assumes "parsed_inv builder c"
  shows "pc_options (snd (getOrBuild L builder source identity mode g c)) = pc_options c"
proof (cases rule: getOrBuild_cases [of c source identity mode g L builder])
  case (hit e)
  then show ?thesis by (simp add: parsed_hit_def Let_def)
next
  case (build e)
  then show ?thesis
    using parsed_store_frame(1) [OF parsed_invD(1) [OF parsed_tick_inv [OF assms]]] by simp
qed

lemma invalidate_loop_options: "pc_options (snd (invalidate_loop uri m n c)) = pc_options c"
  by (induction uri m n c rule: invalidate_loop.induct) (auto simp: split_beta parsed_erase_frame)

lemma parsed_store_keeps:
  assumes "parsed.accounted c"
    and "\<And>r. r \<in> set (pc_entries c) \<Longrightarrow> pe_lastUsedTick (snd r) < pe_lastUsedTick e"
    and "0 < pco_maxEntries (pc_options c)"
    and "pe_retainedBytes e \<le> pco_maxRetainedBytes (pc_options c)"
  shows "map_of (pc_entries (parsed_store k mode e c)) k = Some e"
proof -
  let ?c1 = "snd (parsed_erase k c)"
  let ?c3 = "?c1\<lparr>pc_metrics := count_build mode (pc_metrics ?c1),
      pc_retainedBytes := pc_retainedBytes ?c1 + pe_retainedBytes e,
      pc_entries := assign k e (erase k (pc_entries c))\<rparr>"
  have acc: "parsed.accounted ?c3" using parsed_store_inserted [OF assms(1)] .
  have "r = (k, e) \<or> r \<in> set (pc_entries c)" if "r \<in> set (pc_entries ?c3)" for r
    using that set_assign_subset [of k e "erase k (pc_entries c)"] by (auto simp: set_erase)
  moreover have "older pe_lastUsedTick r (k, e)" if "r \<in> set (pc_entries c)" for r
    using assms(2) [OF that] by (auto simp: older_def)
  ultimately have young: "r = (k, e) \<or> older pe_lastUsedTick r (k, e)" if "r \<in> set (pc_entries ?c3)" for r
    using that by blast
  have "(k, e) \<in> set (pc_entries ?c3)" by (simp add: lookup_in_set)
  from parsed.evict_keeps_youngest [OF acc this young] assms(3,4)
  have "(k, e) \<in> set (pc_entries (parsed_evictUntilWithinBudget ?c3))" by (simp add: parsed_erase_frame)
  then show ?thesis
    using parsed.evict_accounted [OF acc] assms(4)
    by (simp add: parsed_store_def Let_def publish_sizes_def lookup_iff_in_set parsed.accounted_def
        parsed_erase_frame)
qed

definition ticks_ok :: "ParsedSourceCache \<Rightarrow> bool" where
  "ticks_ok c \<longleftrightarrow> (\<forall>(k, e) \<in> set (pc_entries c). pe_lastUsedTick e \<le> pc_tick c)"

inductive parsed_reach ::
  "layout \<Rightarrow> (SourceBuffer \<Rightarrow> ParseMode \<Rightarrow> SnapshotBundle) \<Rightarrow> ParsedSourceCacheOptions
     \<Rightarrow> ParsedSourceCache \<Rightarrow> bool" for L builder options where
  fresh: "parsed_reach L builder options (make_ParsedSourceCache options)"
| lookup: "parsed_reach L builder options c \<Longrightarrow>
    parsed_reach L builder options (snd (getOrBuild L builder source identity mode g c))"
| invalidate: "parsed_reach L builder options c \<Longrightarrow>
    parsed_reach L builder options (snd (invalidateUri uri c))"
| clear: "parsed_reach L builder options c \<Longrightarrow> parsed_reach L builder options (snd (parsed_clear c))"
| reset: "parsed_reach L builder options c \<Longrightarrow> parsed_reach L builder options (parsed_resetMetrics c)"

lemma parsed_reach_inv:
  "parsed_reach L builder options c \<Longrightarrow> parsed_inv builder c \<and> pc_options c = options"
proof (induction rule: parsed_reach.induct)
  case fresh
  then show ?case by (simp add: make_parsed_inv) (simp add: make_ParsedSourceCache_def)
next
  case (lookup c source identity mode g)
  then show ?case by (simp add: getOrBuild_inv getOrBuild_options)
next
  case (invalidate c uri)
  then show ?case by (simp add: invalidateUri_def invalidate_loop_inv invalidate_loop_options)
next
  case (clear c)
  then show ?case by (simp add: parsed_clear_inv) (simp add: parsed_clear_def)
next
  case (reset c)
  then show ?case by (simp add: parsed_resetMetrics_inv) (simp add: parsed_resetMetrics_def)
qed

subsection \<open>Properties\<close>

text \<open>In every state the cache can reach by lookups, invalidations, clears and metric
  resets, its own consistency check passes, the counters it publishes are the true ones, and
  the number of entries and the retained bytes are within the configured budgets.\<close>

lemma parsed_cache_always_consistent:
  assumes "parsed_reach L builder options c"
  shows "parsed_checkInvariants c = None \<and> parsed_metrics c = pc_metrics c
    \<and> length (pc_entries c) \<le> pco_maxEntries options
    \<and> weight_of pe_retainedBytes (pc_entries c) \<le> pco_maxRetainedBytes options"
proof -
  have o: "pc_options c = options" and inv: "parsed_inv builder c"
    using parsed_reach_inv [OF assms] by auto
  note d = parsed_invD [OF inv]
  have "parsed_checkInvariants c = None" using d by (simp add: parsed_checkInvariants_def)
  moreover have "parsed_metrics c = pc_metrics c" using d(5,6) by (simp add: parsed_metrics_def)
  ultimately show ?thesis using d(2,7) o by (simp add: parsed.within_def)
qed

definition example_builder :: "SourceBuffer \<Rightarrow> ParseMode \<Rightarrow> SnapshotBundle" where
  "example_builder source mode = \<lparr>bu_syntax = default_syntax\<lparr>sy_uri := sb_uri source\<rparr>,
     bu_editor = default_editor, bu_artifact = None, bu_mode = mode\<rparr>"

definition example_options :: ParsedSourceCacheOptions where
  "example_options = \<lparr>pco_maxEntries = 2, pco_maxRetainedBytes = 10000, pco_retainOversizedEntry = False\<rparr>"

lemma example_limits:
  "pco_maxEntries example_options = 2" "pco_maxRetainedBytes example_options = 10000"
  by (simp_all add: example_options_def)

definition example_source :: "string \<Rightarrow> SourceBuffer" where
  "example_source bytes = \<lparr>sb_uri = ''a'', sb_text = bytes, sb_version = 1\<rparr>"

definition example_parsed :: ParsedSourceCache where
  "example_parsed = snd (getOrBuild sample_layout example_builder (example_source ''x'')
     default_identity StrictCompiler ''g'' (make_ParsedSourceCache example_options))"

lemma example_parsed_reach: "parsed_reach sample_layout example_builder example_options example_parsed"
  unfolding example_parsed_def by (intro parsed_reach.intros)

lemma parsed_cache_always_consistent_witness:
  "parsed_checkInvariants example_parsed = None \<and> length (pc_entries example_parsed) \<le> 2"
  using parsed_cache_always_consistent [OF example_parsed_reach] by (simp add: example_options_def)

text \<open>C7. The cache is transparent: whatever lookups came before, a lookup returns what the
  builder makes of the asked URI, bytes and mode. Only the document version of the buffer the
  stored parse was built from can differ from the asked one.\<close>

theorem parsed_cache_transparent:
  assumes "parsed_reach L builder options c"
    and "getOrBuild L builder source identity mode g c = (e, c')"
  shows "\<exists>v. pe_artifact e = bu_artifact (builder (source\<lparr>sb_version := v\<rparr>) mode)
    \<and> pe_syntax e = bu_syntax (builder (source\<lparr>sb_version := v\<rparr>) mode)
    \<and> pe_editor e = bu_editor (builder (source\<lparr>sb_version := v\<rparr>) mode)"
proof -
  have inv: "parsed_inv builder c" using parsed_reach_inv [OF assms(1)] by simp
  note r = getOrBuild_result [OF inv assms(2) [symmetric]]
  show ?thesis using built_by_source [OF r] .
qed

theorem parsed_cache_transparent_witness:
  "sy_uri (pe_syntax (fst (getOrBuild sample_layout example_builder (example_source ''x'')
     default_identity StrictCompiler ''g'' example_parsed))) = ''a''"
  using parsed_cache_transparent [OF example_parsed_reach surjective_pairing,
      of "example_source ''x''" default_identity StrictCompiler "''g''"]
  by (auto simp: example_builder_def example_source_def)

text \<open>C31. What was looked up stays found: if the new parse fits the byte budget and the cache
  may hold an entry at all, then repeating the lookup at once is a hit that does not run the
  builder, as long as the 64-bit use counter has not wrapped.\<close>

theorem parsed_repeat_is_hit:
  assumes "parsed_inv builder c" and "ticks_ok c" and "pc_tick c \<noteq> - 1"
    and "getOrBuild L builder source identity mode g c = (e, c')"
    and "0 < pco_maxEntries (pc_options c)"
    and "pe_retainedBytes e \<le> pco_maxRetainedBytes (pc_options c)"
  shows "getOrBuild L other source identity mode g c' =
    parsed_hit (canonicalString (parsed_key source identity mode g)) mode e c'"
proof -
  let ?k = "canonicalString (parsed_key source identity mode g)"
  have "map_of (pc_entries c') ?k = Some e"
  proof (cases rule: getOrBuild_cases [of c source identity mode g L builder])
    case (hit x)
    then show ?thesis using assms(4) by (auto simp: parsed_hit_def Let_def)
  next
    case (build x)
    have "pe_lastUsedTick (snd r) < pe_lastUsedTick x" if "r \<in> set (pc_entries c)" for r
      using that assms(2,3) inc_greater_le [of "pc_tick c" "pe_lastUsedTick (snd r)"] build(1)
      by (auto simp: ticks_ok_def)
    from parsed_store_keeps [OF parsed_invD(1) [OF parsed_tick_inv [OF assms(1)]], of _ x] this
    show ?thesis using build(2) assms(4,5,6) by simp
  qed
  moreover have "pe_sourceBytes e = sb_text source"
    using getOrBuild_result(3) [OF assms(1) assms(4) [symmetric]] .
  ultimately show ?thesis by (simp add: getOrBuild_def Let_def)
qed

theorem parsed_repeat_is_hit_witness:
  "\<exists>e. getOrBuild sample_layout (\<lambda>_ _. undefined) (example_source ''x'') default_identity StrictCompiler ''g''
       example_parsed = parsed_hit (canonicalString (parsed_key (example_source ''x'')
         default_identity StrictCompiler ''g'')) StrictCompiler e example_parsed"
proof -
  let ?c = "make_ParsedSourceCache example_options"
  let ?r = "getOrBuild sample_layout example_builder (example_source ''x'') default_identity StrictCompiler ''g'' ?c"
  have c: "pc_tick ?c = 0" "ticks_ok ?c" "pc_options ?c = example_options" "pc_entries ?c = []"
    by (simp_all add: make_ParsedSourceCache_def ticks_ok_def)
  have "pe_retainedBytes (fst ?r) \<le> 10000"
    by (simp add: getOrBuild_def Let_def c new_parsed_entry_def example_builder_def
        estimate_source_def estimate_syntax_def estimate_editor_def estimate_diagnostics_def
        stringBytes_def vectorBytes_def sum_by_def sample_layout_def example_source_def
        default_syntax_def default_editor_def)
  then have "getOrBuild sample_layout (\<lambda>_ _. undefined) (example_source ''x'') default_identity
      StrictCompiler ''g'' (snd ?r) = parsed_hit (canonicalString (parsed_key (example_source ''x'')
        default_identity StrictCompiler ''g'')) StrictCompiler (fst ?r) (snd ?r)"
    by (intro parsed_repeat_is_hit [where builder = example_builder and c = ?c])
       (simp_all add: c make_parsed_inv example_limits)
  then show ?thesis unfolding example_parsed_def by blast
qed

text \<open>Invalidating a URI removes exactly the parses of that URI, in both parse modes and of
  every revision, and reports the bytes that this released.\<close>

lemma invalidateUri_exact:
  assumes "parsed_inv builder c" and "invalidateUri uri c = (released, c')"
  shows "set (pc_entries c') = {x \<in> set (pc_entries c). pk_uri (pe_key (snd x)) \<noteq> uri}
    \<and> parsed_inv builder c' \<and> pc_retainedBytes c = released + pc_retainedBytes c'"
proof -
  note d = parsed_invD [OF assms(1)]
  have "set (pc_entries c') = {x \<in> set (pc_entries c). fst x \<notin> set (map fst
      (filter (\<lambda>y. pk_uri (pe_key (snd y)) = uri) (pc_entries c)))}"
    and "released + pc_retainedBytes c' = pc_retainedBytes c"
    using invalidate_loop_effect [OF d(1), of uri "pc_entries c" 0] assms(2) by (auto simp: invalidateUri_def)
  moreover have "parsed_inv builder c'"
    using invalidate_loop_inv [OF assms(1), of uri "pc_entries c" 0] assms(2) by (simp add: invalidateUri_def)
  moreover have "fst x \<in> set (map fst (filter (\<lambda>y. pk_uri (pe_key (snd y)) = uri) (pc_entries c)))
      \<longleftrightarrow> pk_uri (pe_key (snd x)) = uri" if "x \<in> set (pc_entries c)" for x
    using omap_wf_key_filter [OF d(3) that, of "\<lambda>y. pk_uri (pe_key (snd y)) = uri"] .
  ultimately show ?thesis by auto
qed

lemma invalidateUri_exact_witness:
  "set (pc_entries (snd (invalidateUri ''a'' example_parsed)))
     = {x \<in> set (pc_entries example_parsed). pk_uri (pe_key (snd x)) \<noteq> ''a''}
   \<and> parsed_inv example_builder (snd (invalidateUri ''a'' example_parsed))"
proof -
  have inv: "parsed_inv example_builder example_parsed"
    using parsed_reach_inv [OF example_parsed_reach] by simp
  show ?thesis using invalidateUri_exact [OF inv surjective_pairing, of "''a''"] by simp
qed

end
