(* ===== verification/Source_Model_Index.thy ===== *)
theory Source_Model_Index
  imports Snapshot_Types Ilic_Text
begin

section \<open>Models by source, sources by model\<close>

text \<open>
  Model of source/core/incremental/SourceModelIndex.cpp: the record of every source of the session
  (which models it declares, imports and requires) and two reverse indexes, from a model to
  the sources that declare it and to those that require it. The locale
  \<open>reverse_index\<close> says what a client may rely on; it is interpreted on both reverse
  indexes here and on the dependency index in its own theory.
\<close>

record SourceModelRecord =
  mr_uri :: string
  mr_iliVersion :: string
  mr_declaredModels :: "string list"
  mr_importedModels :: "string list"
  mr_requiredModels :: "string list"
  mr_identity :: SourceIdentity
  mr_syntacticallyUsable :: bool

record SourceModelIndexUpdate =
  mu_addedModels :: "string list"
  mu_removedModels :: "string list"
  mu_addedRequirements :: "string list"
  mu_removedRequirements :: "string list"
  mu_iliVersionChanged :: bool
  mu_usabilityChanged :: bool
  mu_previous :: SourceModelRecord
  mu_current :: SourceModelRecord

record SourceModelIndex =
  mi_records :: "(string, SourceModelRecord) omap"
  mi_definers :: "(string, string list) omap"
  mi_requirers :: "(string, string list) omap"

definition default_record :: SourceModelRecord where
  "default_record = \<lparr>mr_uri = [], mr_iliVersion = [], mr_declaredModels = [], mr_importedModels = [],
     mr_requiredModels = [], mr_identity = default_identity, mr_syntacticallyUsable = False\<rparr>"

definition default_index_update :: SourceModelIndexUpdate where
  "default_index_update = \<lparr>mu_addedModels = [], mu_removedModels = [], mu_addedRequirements = [],
     mu_removedRequirements = [], mu_iliVersionChanged = False, mu_usabilityChanged = False,
     mu_previous = default_record, mu_current = default_record\<rparr>"

definition empty_model_index :: SourceModelIndex where
  "empty_model_index = \<lparr>mi_records = [], mi_definers = [], mi_requirers = []\<rparr>"

definition difference :: "string list \<Rightarrow> string list \<Rightarrow> string list" where
  "difference left right = filter (\<lambda>v. v \<notin> set right) left"

subsection \<open>Reverse maps\<close>

definition rev_lookup :: "(string, string list) omap \<Rightarrow> string \<Rightarrow> string list" where
  "rev_lookup m model = (case map_of m model of None \<Rightarrow> [] | Some us \<Rightarrow> us)"

definition drop_value :: "string \<Rightarrow> string \<Rightarrow> (string, string list) omap \<Rightarrow> (string, string list) omap" where
  "drop_value uri model m = (case map_of m model of
     None \<Rightarrow> m
   | Some us \<Rightarrow> let us' = removeAll uri us in if us' = [] then erase model m else assign model us' m)"

definition add_value :: "string \<Rightarrow> string \<Rightarrow> (string, string list) omap \<Rightarrow> (string, string list) omap" where
  "add_value uri model m =
     (let us = rev_lookup m model;
          us' = (if uri \<in> set us then us else us @ [uri]) in
      assign model (sort us') m)"

definition removeReverse :: "SourceModelRecord \<Rightarrow> SourceModelIndex \<Rightarrow> SourceModelIndex" where
  "removeReverse r i = i\<lparr>
     mi_definers := fold (drop_value (mr_uri r)) (mr_declaredModels r) (mi_definers i),
     mi_requirers := fold (drop_value (mr_uri r)) (mr_requiredModels r) (mi_requirers i)\<rparr>"

definition addReverse :: "SourceModelRecord \<Rightarrow> SourceModelIndex \<Rightarrow> SourceModelIndex" where
  "addReverse r i = i\<lparr>
     mi_definers := fold (add_value (mr_uri r)) (sorted_unique (mr_declaredModels r)) (mi_definers i),
     mi_requirers := fold (add_value (mr_uri r)) (sorted_unique (mr_requiredModels r)) (mi_requirers i)\<rparr>"

subsection \<open>Operations\<close>

definition make_record :: "SourceIdentity \<Rightarrow> ParsedSourceHeader \<Rightarrow> bool \<Rightarrow> SourceModelRecord" where
  "make_record identity header usable = \<lparr>mr_uri = si_uri identity, mr_iliVersion = ph_iliVersion header,
     mr_declaredModels = sorted_unique (ph_models header),
     mr_importedModels = sorted_unique (ph_imports header),
     mr_requiredModels = sorted_unique (ph_requiredModels header),
     mr_identity = identity, mr_syntacticallyUsable = usable\<rparr>"

definition index_replace ::
  "SourceIdentity \<Rightarrow> ParsedSourceHeader \<Rightarrow> bool \<Rightarrow> SourceModelIndex
     \<Rightarrow> SourceModelIndexUpdate \<times> SourceModelIndex" where
  "index_replace identity header usable i =
     (let found = map_of (mi_records i) (si_uri identity);
          previous = (case found of None \<Rightarrow> default_record | Some r \<Rightarrow> r);
          i1 = (case found of None \<Rightarrow> i | Some r \<Rightarrow> removeReverse r i);
          record = make_record identity header usable;
          i2 = addReverse record (i1\<lparr>mi_records := assign (mr_uri record) record (mi_records i1)\<rparr>) in
      (\<lparr>mu_addedModels = difference (mr_declaredModels record) (mr_declaredModels previous),
        mu_removedModels = difference (mr_declaredModels previous) (mr_declaredModels record),
        mu_addedRequirements = difference (mr_requiredModels record) (mr_requiredModels previous),
        mu_removedRequirements = difference (mr_requiredModels previous) (mr_requiredModels record),
        mu_iliVersionChanged = (mr_iliVersion previous \<noteq> mr_iliVersion record),
        mu_usabilityChanged = (mr_syntacticallyUsable previous \<noteq> mr_syntacticallyUsable record),
        mu_previous = previous, mu_current = record\<rparr>, i2))"

definition index_remove :: "string \<Rightarrow> SourceModelIndex \<Rightarrow> SourceModelIndexUpdate \<times> SourceModelIndex" where
  "index_remove uri i = (case map_of (mi_records i) uri of
     None \<Rightarrow> (default_index_update, i)
   | Some r \<Rightarrow>
       let i1 = removeReverse r i in
       (default_index_update\<lparr>mu_removedModels := mr_declaredModels r,
          mu_removedRequirements := mr_requiredModels r, mu_previous := r\<rparr>,
        i1\<lparr>mi_records := erase uri (mi_records i1)\<rparr>))"

definition byUri :: "SourceModelIndex \<Rightarrow> string \<Rightarrow> SourceModelRecord option" where
  "byUri i uri = map_of (mi_records i) uri"

definition definingUris :: "SourceModelIndex \<Rightarrow> string \<Rightarrow> string \<Rightarrow> string list" where
  "definingUris i model iliVersion =
     filter (\<lambda>uri. case byUri i uri of None \<Rightarrow> False
       | Some r \<Rightarrow> iliVersion = [] \<or> mr_iliVersion r = iliVersion) (rev_lookup (mi_definers i) model)"

definition requiringUris :: "SourceModelIndex \<Rightarrow> string \<Rightarrow> string list" where
  "requiringUris i model = rev_lookup (mi_requirers i) model"

definition allUris :: "SourceModelIndex \<Rightarrow> string list" where
  "allUris i = map fst (mi_records i)"

definition index_checkInvariants :: "SourceModelIndex \<Rightarrow> bool" where
  "index_checkInvariants i \<longleftrightarrow> (\<forall>(uri, r) \<in> set (mi_records i).
     (\<forall>model \<in> set (mr_declaredModels r). mr_uri r \<in> set (rev_lookup (mi_definers i) model))
     \<and> (\<forall>model \<in> set (mr_requiredModels r). mr_uri r \<in> set (rev_lookup (mi_requirers i) model)))"

subsection \<open>The reverse map represents a relation\<close>

definition represents :: "(string, string list) omap \<Rightarrow> (string \<Rightarrow> string set) \<Rightarrow> bool" where
  "represents m rel \<longleftrightarrow> omap_wf m \<and> (\<forall>k us. map_of m k = Some us \<longrightarrow> us \<noteq> [])
     \<and> (\<forall>k. sorted_wrt (<) (rev_lookup m k) \<and> set (rev_lookup m k) = rel k)"

lemma represents_empty [simp]: "represents [] (\<lambda>_. {})"
  by (simp add: represents_def rev_lookup_def)

lemma strict_removeAll: "sorted_wrt (<) (xs :: string list) \<Longrightarrow> sorted_wrt (<) (removeAll x xs)"
  by (simp add: removeAll_filter_not_eq sorted_wrt_filter)

lemma strict_sort_insert:
  assumes "sorted_wrt (<) (us :: string list)"
  shows "sorted_wrt (<) (sort (if u \<in> set us then us else us @ [u]))"
proof -
  have "distinct us" using assms by (induction us) auto
  then have "distinct (sort (if u \<in> set us then us else us @ [u]))" by auto
  then show ?thesis by (simp only: strict_sorted_iff sorted_sort simp_thms)
qed

lemma rev_lookup_assign [simp]: "rev_lookup (assign k v m) j = (if j = k then v else rev_lookup m j)"
  by (simp add: rev_lookup_def)

lemma rev_lookup_erase [simp]: "rev_lookup (erase k m) j = (if j = k then [] else rev_lookup m j)"
  by (simp add: rev_lookup_def)

lemma rev_lookup_drop_value [simp]:
  "rev_lookup (drop_value u k m) j = (if j = k then removeAll u (rev_lookup m k) else rev_lookup m j)"
  by (cases "map_of m k") (auto simp: drop_value_def Let_def rev_lookup_def)

lemma rev_lookup_add_value [simp]:
  "rev_lookup (add_value u k m) j =
     (if j = k then sort (if u \<in> set (rev_lookup m k) then rev_lookup m k else rev_lookup m k @ [u])
      else rev_lookup m j)"
  by (simp add: add_value_def Let_def)

lemma representsI:
  assumes "omap_wf m" and "\<And>k us. map_of m k = Some us \<Longrightarrow> us \<noteq> []"
    and "\<And>k. sorted_wrt (<) (rev_lookup m k)" and "\<And>k. set (rev_lookup m k) = rel k"
  shows "represents m rel"
  using assms by (simp add: represents_def)

lemma represents_drop_value:
  assumes "represents m rel"
  shows "represents (drop_value u k m) (rel(k := rel k - {u}))"
proof (rule representsI)
  show "omap_wf (drop_value u k m)"
    using assms by (simp add: represents_def drop_value_def Let_def split: option.splits)
  show "us \<noteq> []" if "map_of (drop_value u k m) j = Some us" for j us
    using assms that by (auto simp: represents_def drop_value_def Let_def split: option.splits if_splits)
  show "sorted_wrt (<) (rev_lookup (drop_value u k m) j)" for j
    using assms by (simp add: represents_def strict_removeAll)
  show "set (rev_lookup (drop_value u k m) j) = (rel(k := rel k - {u})) j" for j
    using assms by (simp add: represents_def)
qed

lemma represents_add_value:
  assumes "represents m rel"
  shows "represents (add_value u k m) (rel(k := insert u (rel k)))"
proof (rule representsI)
  show "omap_wf (add_value u k m)" using assms by (simp add: represents_def add_value_def Let_def)
  show "us \<noteq> []" if "map_of (add_value u k m) j = Some us" for j us
  proof (cases "j = k")
    case True
    then have "u \<in> set us" using that by (auto simp: add_value_def Let_def split: if_splits)
    then show ?thesis by auto
  next
    case False
    then show ?thesis using that assms by (simp add: add_value_def Let_def represents_def)
  qed
  show "sorted_wrt (<) (rev_lookup (add_value u k m) j)" for j
    using assms strict_sort_insert [of "rev_lookup m k" u] by (auto simp: represents_def)
  show "set (rev_lookup (add_value u k m) j) = (rel(k := insert u (rel k))) j" for j
    using assms by (auto simp: represents_def)
qed

lemma represents_drop_values:
  "represents m rel \<Longrightarrow>
     represents (fold (drop_value u) ks m) (\<lambda>k. if k \<in> set ks then rel k - {u} else rel k)"
proof (induction ks arbitrary: m rel)
  case (Cons k ks)
  have "(\<lambda>j. if j \<in> set ks then (rel(k := rel k - {u})) j - {u} else (rel(k := rel k - {u})) j)
      = (\<lambda>j. if j \<in> set (k # ks) then rel j - {u} else rel j)" by (rule ext) auto
  then show ?case using Cons.IH [OF represents_drop_value [OF Cons.prems], of u k] by simp
qed simp

lemma represents_add_values:
  "represents m rel \<Longrightarrow>
     represents (fold (add_value u) ks m) (\<lambda>k. if k \<in> set ks then insert u (rel k) else rel k)"
proof (induction ks arbitrary: m rel)
  case (Cons k ks)
  have "(\<lambda>j. if j \<in> set ks then insert u ((rel(k := insert u (rel k))) j) else (rel(k := insert u (rel k))) j)
      = (\<lambda>j. if j \<in> set (k # ks) then insert u (rel j) else rel j)" by (rule ext) auto
  then show ?case using Cons.IH [OF represents_add_value [OF Cons.prems], of u k] by simp
qed simp

subsection \<open>The interface of a reverse index\<close>

locale reverse_index =
  fixes ok :: "'i \<Rightarrow> bool"
    and forward :: "'i \<Rightarrow> string \<Rightarrow> string set"
    and lookup :: "'i \<Rightarrow> string \<Rightarrow> string list"
    and put :: "'a \<Rightarrow> 'i \<Rightarrow> 'i"
    and source_of :: "'a \<Rightarrow> string"
    and models_of :: "'a \<Rightarrow> string set"
    and remove :: "string \<Rightarrow> 'i \<Rightarrow> 'i"
  assumes ok_put: "ok i \<Longrightarrow> ok (put a i)"
    and ok_remove: "ok i \<Longrightarrow> ok (remove u i)"
    and forward_put: "ok i \<Longrightarrow> forward (put a i) = (forward i)(source_of a := models_of a)"
    and forward_remove: "ok i \<Longrightarrow> forward (remove u i) = (forward i)(u := {})"
    and lookup_set: "ok i \<Longrightarrow> set (lookup i m) = {u. m \<in> forward i u}"
    and lookup_sorted: "ok i \<Longrightarrow> sorted_wrt (<) (lookup i m)"
begin

lemma lookup_ext: "ok i \<Longrightarrow> ok j \<Longrightarrow> forward i = forward j \<Longrightarrow> lookup i m = lookup j m"
  using lookup_set [of i m] lookup_set [of j m] lookup_sorted [of i m] lookup_sorted [of j m]
  by (simp add: strict_sorted_set_eq)

lemma lookup_put:
  "ok i \<Longrightarrow> set (lookup (put a i) m) =
     (set (lookup i m) - {source_of a}) \<union> (if m \<in> models_of a then {source_of a} else {})"
  by (auto simp: lookup_set ok_put forward_put)

lemma lookup_remove: "ok i \<Longrightarrow> set (lookup (remove u i) m) = set (lookup i m) - {u}"
  by (auto simp: lookup_set ok_remove forward_remove)

lemma put_overrides:
  "ok i \<Longrightarrow> source_of a = source_of b \<Longrightarrow> lookup (put a (put b i)) m = lookup (put a i) m"
  by (intro lookup_ext) (simp_all add: ok_put forward_put)

lemma remove_undoes_put:
  "ok i \<Longrightarrow> lookup (remove (source_of a) (put a i)) m = lookup (remove (source_of a) i) m"
  by (intro lookup_ext) (simp_all add: ok_put ok_remove forward_put forward_remove)

end

definition declared_in :: "SourceModelIndex \<Rightarrow> string \<Rightarrow> string set" where
  "declared_in i uri = (case map_of (mi_records i) uri of None \<Rightarrow> {} | Some r \<Rightarrow> set (mr_declaredModels r))"

definition required_in :: "SourceModelIndex \<Rightarrow> string \<Rightarrow> string set" where
  "required_in i uri = (case map_of (mi_records i) uri of None \<Rightarrow> {} | Some r \<Rightarrow> set (mr_requiredModels r))"

definition index_inv :: "SourceModelIndex \<Rightarrow> bool" where
  "index_inv i \<longleftrightarrow> omap_wf (mi_records i)
     \<and> (\<forall>uri r. map_of (mi_records i) uri = Some r \<longrightarrow> mr_uri r = uri)
     \<and> represents (mi_definers i) (\<lambda>m. {u. m \<in> declared_in i u})
     \<and> represents (mi_requirers i) (\<lambda>m. {u. m \<in> required_in i u})"

lemma index_invD:
  assumes "index_inv i"
  shows "omap_wf (mi_records i)" and "\<And>uri r. map_of (mi_records i) uri = Some r \<Longrightarrow> mr_uri r = uri"
    and "represents (mi_definers i) (\<lambda>m. {u. m \<in> declared_in i u})"
    and "represents (mi_requirers i) (\<lambda>m. {u. m \<in> required_in i u})"
  using assms by (auto simp: index_inv_def)

text \<open>Taking a record out of the reverse maps removes its source from every entry.\<close>

lemma removeReverse_represents:
  assumes "index_inv i" and "map_of (mi_records i) uri = Some r"
  shows "represents (mi_definers (removeReverse r i)) (\<lambda>m. {u. m \<in> declared_in i u} - {uri})"
    and "represents (mi_requirers (removeReverse r i)) (\<lambda>m. {u. m \<in> required_in i u} - {uri})"
proof -
  note d = index_invD [OF assms(1)]
  have u: "mr_uri r = uri" using d(2) [OF assms(2)] .
  have "(\<lambda>m. if m \<in> set (mr_declaredModels r) then {u. m \<in> declared_in i u} - {uri} else {u. m \<in> declared_in i u})
      = (\<lambda>m. {u. m \<in> declared_in i u} - {uri})"
    using assms(2) by (intro ext) (auto simp: declared_in_def)
  then show "represents (mi_definers (removeReverse r i)) (\<lambda>m. {u. m \<in> declared_in i u} - {uri})"
    using represents_drop_values [OF d(3), of uri "mr_declaredModels r"] by (simp add: removeReverse_def u)
  have "(\<lambda>m. if m \<in> set (mr_requiredModels r) then {u. m \<in> required_in i u} - {uri} else {u. m \<in> required_in i u})
      = (\<lambda>m. {u. m \<in> required_in i u} - {uri})"
    using assms(2) by (intro ext) (auto simp: required_in_def)
  then show "represents (mi_requirers (removeReverse r i)) (\<lambda>m. {u. m \<in> required_in i u} - {uri})"
    using represents_drop_values [OF d(4), of uri "mr_requiredModels r"] by (simp add: removeReverse_def u)
qed

lemma absent_represents:
  assumes "index_inv i" and "map_of (mi_records i) uri = None"
  shows "represents (mi_definers i) (\<lambda>m. {u. m \<in> declared_in i u} - {uri})"
    and "represents (mi_requirers i) (\<lambda>m. {u. m \<in> required_in i u} - {uri})"
proof -
  have "(\<lambda>m. {u. m \<in> declared_in i u} - {uri}) = (\<lambda>m. {u. m \<in> declared_in i u})"
    and "(\<lambda>m. {u. m \<in> required_in i u} - {uri}) = (\<lambda>m. {u. m \<in> required_in i u})"
    using assms(2) by (auto simp: declared_in_def required_in_def)
  then show "represents (mi_definers i) (\<lambda>m. {u. m \<in> declared_in i u} - {uri})"
    and "represents (mi_requirers i) (\<lambda>m. {u. m \<in> required_in i u} - {uri})"
    using index_invD(3,4) [OF assms(1)] by simp_all
qed

lemma removeReverse_records [simp]: "mi_records (removeReverse r i) = mi_records i"
  by (simp add: removeReverse_def)

lemma addReverse_records [simp]: "mi_records (addReverse r i) = mi_records i"
  by (simp add: addReverse_def)

lemma index_remove_inv:
  assumes "index_inv i"
  shows "index_inv (snd (index_remove uri i))"
proof (cases "map_of (mi_records i) uri")
  case None
  then show ?thesis using assms by (simp add: index_remove_def)
next
  case (Some r)
  let ?i = "snd (index_remove uri i)"
  have i: "?i = (removeReverse r i)\<lparr>mi_records := erase uri (mi_records i)\<rparr>"
    using Some by (simp add: index_remove_def Let_def)
  have "(\<lambda>m. {u. m \<in> declared_in ?i u}) = (\<lambda>m. {u. m \<in> declared_in i u} - {uri})"
    and "(\<lambda>m. {u. m \<in> required_in ?i u}) = (\<lambda>m. {u. m \<in> required_in i u} - {uri})"
    unfolding i by (auto simp: declared_in_def required_in_def)
  then show ?thesis
    using removeReverse_represents [OF assms Some] index_invD(1,2) [OF assms]
    unfolding index_inv_def by (simp add: i)
qed

lemma index_replace_inv:
  assumes "index_inv i"
  shows "index_inv (snd (index_replace identity header usable i))"
proof -
  let ?r = "make_record identity header usable"
  let ?uri = "si_uri identity"
  let ?i1 = "case map_of (mi_records i) ?uri of None \<Rightarrow> i | Some r \<Rightarrow> removeReverse r i"
  let ?i = "snd (index_replace identity header usable i)"
  have u: "mr_uri ?r = ?uri" by (simp add: make_record_def)
  have i: "?i = addReverse ?r (?i1\<lparr>mi_records := assign ?uri ?r (mi_records i)\<rparr>)"
    by (simp add: index_replace_def Let_def u split: option.splits)
  have base: "represents (mi_definers ?i1) (\<lambda>m. {u. m \<in> declared_in i u} - {?uri})"
    "represents (mi_requirers ?i1) (\<lambda>m. {u. m \<in> required_in i u} - {?uri})"
    using removeReverse_represents [OF assms, of ?uri] absent_represents [OF assms, of ?uri]
    by (simp_all split: option.split)
  have "declared_in ?i = (declared_in i)(?uri := set (mr_declaredModels ?r))"
    and "required_in ?i = (required_in i)(?uri := set (mr_requiredModels ?r))"
    unfolding i by (auto simp: declared_in_def required_in_def fun_eq_iff)
  then have "(\<lambda>m. {u. m \<in> declared_in ?i u}) = (\<lambda>m. if m \<in> set (sorted_unique (mr_declaredModels ?r))
        then insert ?uri ({u. m \<in> declared_in i u} - {?uri}) else {u. m \<in> declared_in i u} - {?uri})"
    and "(\<lambda>m. {u. m \<in> required_in ?i u}) = (\<lambda>m. if m \<in> set (sorted_unique (mr_requiredModels ?r))
        then insert ?uri ({u. m \<in> required_in i u} - {?uri}) else {u. m \<in> required_in i u} - {?uri})"
    by (auto simp: fun_eq_iff)
  moreover have "mi_definers ?i = fold (add_value ?uri) (sorted_unique (mr_declaredModels ?r)) (mi_definers ?i1)"
    "mi_requirers ?i = fold (add_value ?uri) (sorted_unique (mr_requiredModels ?r)) (mi_requirers ?i1)"
    "mi_records ?i = assign ?uri ?r (mi_records i)"
    unfolding i by (simp_all add: addReverse_def u)
  ultimately show ?thesis
    using represents_add_values [OF base(1), of ?uri "sorted_unique (mr_declaredModels ?r)"]
      represents_add_values [OF base(2), of ?uri "sorted_unique (mr_requiredModels ?r)"]
      index_invD(1,2) [OF assms] u
    unfolding index_inv_def by simp
qed

lemma index_replace_forward:
  "declared_in (snd (index_replace identity header usable i))
     = (declared_in i)(si_uri identity := set (ph_models header))"
  "required_in (snd (index_replace identity header usable i))
     = (required_in i)(si_uri identity := set (ph_requiredModels header))"
  by (auto simp: index_replace_def Let_def declared_in_def required_in_def make_record_def fun_eq_iff
      split: option.splits)

lemma index_remove_forward:
  "declared_in (snd (index_remove uri i)) = (declared_in i)(uri := {})"
  "required_in (snd (index_remove uri i)) = (required_in i)(uri := {})"
  by (auto simp: index_remove_def Let_def declared_in_def required_in_def fun_eq_iff
      split: option.splits)

lemma definingUris_any:
  assumes "index_inv i"
  shows "definingUris i m [] = rev_lookup (mi_definers i) m"
proof -
  have "\<forall>u \<in> set (rev_lookup (mi_definers i) m). byUri i u \<noteq> None"
    using index_invD(3) [OF assms] by (auto simp: represents_def declared_in_def byUri_def split: option.splits)
  then show ?thesis unfolding definingUris_def by (intro filter_True) auto
qed

lemma reverse_lookups:
  assumes "index_inv i"
  shows "sorted_wrt (<) (rev_lookup (mi_definers i) m)" and "sorted_wrt (<) (rev_lookup (mi_requirers i) m)"
    and "set (rev_lookup (mi_definers i) m) = {u. m \<in> declared_in i u}"
    and "set (rev_lookup (mi_requirers i) m) = {u. m \<in> required_in i u}"
  using index_invD(3,4) [OF assms] by (simp_all add: represents_def)

interpretation definers: reverse_index index_inv declared_in "\<lambda>i m. definingUris i m []"
  "\<lambda>(identity, header, usable) i. snd (index_replace identity header usable i)"
  "\<lambda>(identity, header, usable). si_uri identity" "\<lambda>(identity, header, usable). set (ph_models header)"
  "\<lambda>uri i. snd (index_remove uri i)"
  by unfold_locales
     (auto simp: index_replace_inv index_remove_inv index_replace_forward index_remove_forward
       definingUris_any reverse_lookups)

interpretation requirers: reverse_index index_inv required_in requiringUris
  "\<lambda>(identity, header, usable) i. snd (index_replace identity header usable i)"
  "\<lambda>(identity, header, usable). si_uri identity"
  "\<lambda>(identity, header, usable). set (ph_requiredModels header)"
  "\<lambda>uri i. snd (index_remove uri i)"
  by unfold_locales
     (auto simp: index_replace_inv index_remove_inv index_replace_forward index_remove_forward
       requiringUris_def reverse_lookups)

lemma empty_model_index_inv: "index_inv empty_model_index"
  by (simp add: index_inv_def empty_model_index_def declared_in_def required_in_def)

inductive index_reach :: "SourceModelIndex \<Rightarrow> bool" where
  empty: "index_reach empty_model_index"
| replace: "index_reach i \<Longrightarrow> index_reach (snd (index_replace identity header usable i))"
| remove: "index_reach i \<Longrightarrow> index_reach (snd (index_remove uri i))"

lemma index_reach_inv: "index_reach i \<Longrightarrow> index_inv i"
  by (induction rule: index_reach.induct)
     (auto simp: empty_model_index_inv index_replace_inv index_remove_inv)

subsection \<open>Properties\<close>

text \<open>C29. The reverse indexes are exact in every state that replacing and removing sources can
  reach: the sources listed for a model are, in strictly increasing order, those whose record
  declares it (and has the asked language version) or requires it, and the index's own check
  passes.\<close>

theorem model_index_exact:
  assumes "index_reach i"
  shows "sorted_wrt (<) (definingUris i m v)
    \<and> set (definingUris i m v) = {u. \<exists>r. byUri i u = Some r \<and> m \<in> set (mr_declaredModels r)
         \<and> (v = [] \<or> mr_iliVersion r = v)}
    \<and> sorted_wrt (<) (requiringUris i m)
    \<and> set (requiringUris i m) = {u. \<exists>r. byUri i u = Some r \<and> m \<in> set (mr_requiredModels r)}
    \<and> index_checkInvariants i"
proof -
  have inv: "index_inv i" using assms by (rule index_reach_inv)
  note d = index_invD [OF inv]
  have "sorted_wrt (<) (definingUris i m v)"
    using d(3) by (simp add: definingUris_def represents_def sorted_wrt_filter)
  moreover have "set (definingUris i m v) = {u. \<exists>r. byUri i u = Some r \<and> m \<in> set (mr_declaredModels r)
      \<and> (v = [] \<or> mr_iliVersion r = v)}"
    using d(3) by (auto simp: definingUris_def represents_def declared_in_def byUri_def split: option.splits)
  moreover have "set (requiringUris i m) = {u. \<exists>r. byUri i u = Some r \<and> m \<in> set (mr_requiredModels r)}"
    using requirers.lookup_set [OF inv, of m] by (auto simp: required_in_def byUri_def split: option.splits)
  moreover have "index_checkInvariants i"
    unfolding index_checkInvariants_def
  proof (intro ballI, clarify, intro conjI ballI)
    fix uri r model assume mem: "(uri, r) \<in> set (mi_records i)"
    then have lk: "map_of (mi_records i) uri = Some r" using d(1) by (simp add: lookup_iff_in_set)
    show "mr_uri r \<in> set (rev_lookup (mi_definers i) model)" if "model \<in> set (mr_declaredModels r)"
      using that lk d(2) [OF lk] d(3) by (simp add: represents_def declared_in_def)
    show "mr_uri r \<in> set (rev_lookup (mi_requirers i) model)" if "model \<in> set (mr_requiredModels r)"
      using that lk d(2) [OF lk] d(4) by (simp add: represents_def required_in_def)
  qed
  ultimately show ?thesis using requirers.lookup_sorted [OF inv] by blast
qed

definition example_header :: "string list \<Rightarrow> string list \<Rightarrow> ParsedSourceHeader" where
  "example_header models required =
     \<lparr>ph_iliVersion = ''2.4'', ph_models = models, ph_imports = required, ph_requiredModels = required\<rparr>"

definition example_index :: SourceModelIndex where
  "example_index = snd (index_replace (default_identity\<lparr>si_uri := ''a''\<rparr>) (example_header [''M''] [''N'']) True
     (snd (index_replace (default_identity\<lparr>si_uri := ''b''\<rparr>) (example_header [''N''] []) True empty_model_index)))"

lemma example_index_reach: "index_reach example_index"
  unfolding example_index_def by (intro index_reach.intros)

theorem model_index_exact_witness:
  "set (definingUris example_index ''N'' []) = {''b''} \<and> index_checkInvariants example_index"
proof -
  have "set (definingUris example_index ''N'' []) = {u. ''N'' \<in> declared_in example_index u}"
    using definers.lookup_set [OF index_reach_inv [OF example_index_reach]] .
  then have "set (definingUris example_index ''N'' []) = {''b''}"
    by (auto simp: example_index_def index_replace_forward example_header_def declared_in_def
        empty_model_index_def split: if_splits)
  then show ?thesis using model_index_exact [OF example_index_reach] by blast
qed

end
