(* ===== verification/Source_Dependency_Index.thy ===== *)
theory Source_Dependency_Index
  imports Source_Model_Index
begin

section \<open>Dependencies between sources\<close>

text \<open>
  Model of source/core/incremental/SourceDependencyIndex.cpp: which models each source requires, the
  reverse map, and the transitive closure of a set of root sources. The closure is a
  depth-first traversal with an explicit stack; the stack is a list whose head is the C++
  vector's back. The traversal's result is characterised by reachability along ``requires a
  model whose first defining source is''.
\<close>

record SourceDependencyIndex =
  di_requiredByUri :: "(string, string list) omap"
  di_urisByRequiredModel :: "(string, string list) omap"

definition empty_dependency_index :: SourceDependencyIndex where
  "empty_dependency_index = \<lparr>di_requiredByUri = [], di_urisByRequiredModel = []\<rparr>"

definition removeSource :: "string \<Rightarrow> SourceDependencyIndex \<Rightarrow> SourceDependencyIndex" where
  "removeSource uri d = (case map_of (di_requiredByUri d) uri of
     None \<Rightarrow> d
   | Some models \<Rightarrow> d\<lparr>
       di_urisByRequiredModel := fold (drop_value uri) models (di_urisByRequiredModel d),
       di_requiredByUri := erase uri (di_requiredByUri d)\<rparr>)"

definition push_value :: "string \<Rightarrow> string \<Rightarrow> (string, string list) omap \<Rightarrow> (string, string list) omap" where
  "push_value uri model m = assign model (rev_lookup m model @ [uri]) m"

definition normalize_values :: "(string, string list) omap \<Rightarrow> (string, string list) omap" where
  "normalize_values m = map (\<lambda>(k, us). (k, sorted_unique us)) m"

definition replaceSourceDependencies ::
  "string \<Rightarrow> string list \<Rightarrow> SourceDependencyIndex \<Rightarrow> SourceDependencyIndex" where
  "replaceSourceDependencies uri requiredModels d =
     (let d1 = removeSource uri d; models = sorted_unique requiredModels in
      d1\<lparr>di_requiredByUri := assign uri models (di_requiredByUri d1),
         di_urisByRequiredModel := normalize_values (fold (push_value uri) models (di_urisByRequiredModel d1))\<rparr>)"

definition directRequiredModels :: "SourceDependencyIndex \<Rightarrow> string \<Rightarrow> string list" where
  "directRequiredModels d uri = rev_lookup (di_requiredByUri d) uri"

definition dependentSourceUrisForModel :: "SourceDependencyIndex \<Rightarrow> string \<Rightarrow> string list" where
  "dependentSourceUrisForModel d model = rev_lookup (di_urisByRequiredModel d) model"

fun push_definers :: "SourceModelIndex \<Rightarrow> string list \<Rightarrow> string list \<Rightarrow> string list" where
  "push_definers models [] pending = pending"
| "push_definers models (m # ms) pending =
     (case definingUris models m [] of
        [] \<Rightarrow> push_definers models ms pending
      | u # _ \<Rightarrow> push_definers models ms (u # pending))"

text \<open>Only the finitely many sources of the index push anything.\<close>

lemma directRequiredModels_absent: "uri \<notin> fst ` set (di_requiredByUri d) \<Longrightarrow> directRequiredModels d uri = []"
  by (simp add: directRequiredModels_def rev_lookup_def map_of_eq_None_iff [THEN iffD2])

function closure_loop ::
  "SourceDependencyIndex \<Rightarrow> SourceModelIndex \<Rightarrow> string list \<Rightarrow> string list \<Rightarrow> string list" where
  "closure_loop d models visited [] = visited"
| "closure_loop d models visited (uri # pending) =
     (if uri \<in> set visited then closure_loop d models visited pending
      else closure_loop d models (insort uri visited)
        (push_definers models (directRequiredModels d uri) pending))"
  by pat_completeness auto

termination
proof (relation "measures [\<lambda>(d, models, visited, pending). card (fst ` set (di_requiredByUri d) - set visited),
    \<lambda>(d, models, visited, pending). length pending]", goal_cases)
  case (3 d models visited uri pending)
  show ?case
  proof (cases "uri \<in> fst ` set (di_requiredByUri d)")
    case True
    have "card (fst ` set (di_requiredByUri d) - insert uri (set visited))
        < card (fst ` set (di_requiredByUri d) - set visited)"
      by (rule psubset_card_mono) (use True 3 in auto)
    then show ?thesis by (simp add: set_insort_key)
  next
    case False
    then have "fst ` set (di_requiredByUri d) - insert uri (set visited)
        = fst ` set (di_requiredByUri d) - set visited" by auto
    then show ?thesis using False by (simp add: directRequiredModels_absent set_insort_key)
  qed
qed auto

definition transitiveClosureForRoots ::
  "SourceDependencyIndex \<Rightarrow> SourceModelIndex \<Rightarrow> string list \<Rightarrow> string list" where
  "transitiveClosureForRoots d models roots = closure_loop d models [] (rev roots)"

definition dependency_checkInvariants :: "SourceDependencyIndex \<Rightarrow> bool" where
  "dependency_checkInvariants d \<longleftrightarrow> (\<forall>(uri, models) \<in> set (di_requiredByUri d). \<forall>model \<in> set models.
     uri \<in> set (rev_lookup (di_urisByRequiredModel d) model))"

subsection \<open>The reverse map is exact\<close>

definition required_by :: "SourceDependencyIndex \<Rightarrow> string \<Rightarrow> string set" where
  "required_by d uri = set (directRequiredModels d uri)"

definition dependency_inv :: "SourceDependencyIndex \<Rightarrow> bool" where
  "dependency_inv d \<longleftrightarrow> omap_wf (di_requiredByUri d)
     \<and> represents (di_urisByRequiredModel d) (\<lambda>m. {u. m \<in> required_by d u})"

lemma removeSource_forward: "required_by (removeSource uri d) = (required_by d)(uri := {})"
  by (auto simp: removeSource_def required_by_def directRequiredModels_def rev_lookup_def fun_eq_iff
      split: option.splits)

lemma removeSource_inv:
  assumes "dependency_inv d"
  shows "dependency_inv (removeSource uri d)"
proof (cases "map_of (di_requiredByUri d) uri")
  case None
  then show ?thesis using assms by (simp add: removeSource_def)
next
  case (Some models)
  have "(\<lambda>m. {u. m \<in> required_by (removeSource uri d) u})
      = (\<lambda>m. if m \<in> set models then {u. m \<in> required_by d u} - {uri} else {u. m \<in> required_by d u})"
    unfolding removeSource_forward using Some
    by (intro ext) (auto simp: required_by_def directRequiredModels_def rev_lookup_def)
  then show ?thesis
    using represents_drop_values [of "di_urisByRequiredModel d" _ uri models] assms Some
    by (simp add: dependency_inv_def removeSource_def)
qed

lemma rev_lookup_pushes:
  "distinct models \<Longrightarrow> rev_lookup (fold (push_value uri) models m) k
     = rev_lookup m k @ (if k \<in> set models then [uri] else [])"
  by (induction models arbitrary: m) (auto simp: push_value_def)

lemma pushes_wf: "omap_wf m \<Longrightarrow> omap_wf (fold (push_value uri) models m)"
  by (induction models arbitrary: m) (auto simp: push_value_def)

lemma pushes_nonempty:
  "\<forall>k us. map_of m k = Some us \<longrightarrow> us \<noteq> [] \<Longrightarrow>
     map_of (fold (push_value uri) models m) k = Some us \<Longrightarrow> us \<noteq> []"
proof (induction models arbitrary: m)
  case (Cons x xs)
  have "\<forall>k us. map_of (push_value uri x m) k = Some us \<longrightarrow> us \<noteq> []"
    using Cons.prems(1) by (auto simp: push_value_def)
  then show ?case using Cons.IH Cons.prems(2) by simp
qed simp

lemma map_of_normalize: "map_of (normalize_values m) k = map_option sorted_unique (map_of m k)"
  by (induction m) (auto simp: normalize_values_def)

lemma rev_lookup_normalize: "rev_lookup (normalize_values m) k = sorted_unique (rev_lookup m k)"
  by (simp add: rev_lookup_def map_of_normalize sorted_unique_def split: option.splits)

lemma normalize_wf: "omap_wf m \<Longrightarrow> omap_wf (normalize_values m)"
  by (simp add: omap_wf_def normalize_values_def comp_def split_beta)

lemma replace_forward:
  "required_by (replaceSourceDependencies uri models d) = (required_by d)(uri := set models)"
proof -
  have "required_by (replaceSourceDependencies uri models d)
      = (required_by (removeSource uri d))(uri := set models)"
    by (auto simp: replaceSourceDependencies_def Let_def required_by_def directRequiredModels_def fun_eq_iff)
  then show ?thesis by (simp add: removeSource_forward)
qed

lemma replace_inv:
  assumes "dependency_inv d"
  shows "dependency_inv (replaceSourceDependencies uri models d)"
proof -
  let ?d = "removeSource uri d"
  let ?m = "fold (push_value uri) (sorted_unique models) (di_urisByRequiredModel ?d)"
  have d: "omap_wf (di_requiredByUri ?d)" "represents (di_urisByRequiredModel ?d) (\<lambda>m. {u. m \<in> required_by ?d u})"
    using removeSource_inv [OF assms, of uri] by (auto simp: dependency_inv_def)
  have "represents (normalize_values ?m) (\<lambda>m. {u. m \<in> required_by (replaceSourceDependencies uri models d) u})"
  proof (rule representsI)
    show "omap_wf (normalize_values ?m)"
      using d(2) by (intro normalize_wf pushes_wf) (simp add: represents_def)
    show "us \<noteq> []" if us: "map_of (normalize_values ?m) k = Some us" for k us
    proof -
      obtain vs where vs: "map_of ?m k = Some vs" "us = sorted_unique vs"
        using us by (auto simp: map_of_normalize)
      have "vs \<noteq> []" using pushes_nonempty [OF _ vs(1)] d(2) by (simp add: represents_def)
      then show ?thesis using vs(2) set_sorted_unique [of vs] by (metis set_empty)
    qed
    show "sorted_wrt (<) (rev_lookup (normalize_values ?m) k)" for k
      by (simp add: rev_lookup_normalize strict_sorted_unique)
    show "set (rev_lookup (normalize_values ?m) k) = {u. k \<in> required_by (replaceSourceDependencies uri models d) u}" for k
      using d(2) by (auto simp: rev_lookup_normalize rev_lookup_pushes represents_def replace_forward
          removeSource_forward split: if_splits)
  qed
  then show ?thesis using d(1) by (simp add: dependency_inv_def replaceSourceDependencies_def Let_def)
qed

lemma dependency_lookup:
  assumes "dependency_inv d"
  shows "set (dependentSourceUrisForModel d m) = {u. m \<in> required_by d u}"
    and "sorted_wrt (<) (dependentSourceUrisForModel d m)"
  using assms by (simp_all add: dependency_inv_def represents_def dependentSourceUrisForModel_def)

interpretation dependents: reverse_index dependency_inv required_by dependentSourceUrisForModel
  "\<lambda>(uri, models). replaceSourceDependencies uri models" fst "\<lambda>(uri, models). set models" removeSource
  by unfold_locales
     (auto simp: replace_inv removeSource_inv replace_forward removeSource_forward dependency_lookup)

lemma dependency_check:
  assumes "dependency_inv d"
  shows "dependency_checkInvariants d"
  unfolding dependency_checkInvariants_def
proof (intro ballI, clarify)
  fix u ms m assume mem: "(u, ms) \<in> set (di_requiredByUri d)" "m \<in> set ms"
  then have "map_of (di_requiredByUri d) u = Some ms"
    using assms by (simp add: lookup_iff_in_set dependency_inv_def)
  then have "m \<in> required_by d u"
    using mem(2) by (simp add: required_by_def directRequiredModels_def rev_lookup_def)
  then show "u \<in> set (rev_lookup (di_urisByRequiredModel d) m)"
    using assms by (simp add: dependency_inv_def represents_def)
qed

subsection \<open>The closure is reachability\<close>

definition depends_on :: "SourceDependencyIndex \<Rightarrow> SourceModelIndex \<Rightarrow> string \<Rightarrow> string \<Rightarrow> bool" where
  "depends_on d models u v \<longleftrightarrow>
     (\<exists>m \<in> set (directRequiredModels d u). \<exists>rest. definingUris models m [] = v # rest)"

lemma set_push_definers:
  "set (push_definers models ms pending)
     = set pending \<union> {v. \<exists>m \<in> set ms. \<exists>rest. definingUris models m [] = v # rest}"
  by (induction models ms pending rule: push_definers.induct) (auto split: list.splits)

lemma closure_loop_sorted: "sorted_wrt (<) visited \<Longrightarrow> sorted_wrt (<) (closure_loop d models visited pending)"
proof (induction d models visited pending rule: closure_loop.induct)
  case (2 d models visited uri pending)
  have "uri \<notin> set visited \<Longrightarrow> sorted_wrt (<) (insort uri visited)"
    using 2(3) by (simp add: strict_sorted_iff sorted_insort distinct_insort)
  then show ?case using 2 by simp
qed simp

lemma closure_loop_sound:
  assumes "set visited \<union> set pending \<subseteq> R" and "\<And>u v. u \<in> R \<Longrightarrow> depends_on d models u v \<Longrightarrow> v \<in> R"
  shows "set (closure_loop d models visited pending) \<subseteq> R"
  using assms
proof (induction d models visited pending rule: closure_loop.induct)
  case (2 d models visited uri pending)
  show ?case
  proof (cases "uri \<in> set visited")
    case False
    have "set (insort uri visited) \<union> set (push_definers models (directRequiredModels d uri) pending) \<subseteq> R"
      using 2(3,4) by (auto simp: set_insort_key set_push_definers depends_on_def)
    then show ?thesis using 2(2) [OF False] 2(4) False by simp
  qed (use 2 in simp)
qed simp

lemma closure_loop_complete:
  assumes "\<forall>u \<in> set visited. \<forall>v. depends_on d models u v \<longrightarrow> v \<in> set visited \<union> set pending"
  shows "set visited \<union> set pending \<subseteq> set (closure_loop d models visited pending)
    \<and> (\<forall>u \<in> set (closure_loop d models visited pending). \<forall>v. depends_on d models u v \<longrightarrow>
         v \<in> set (closure_loop d models visited pending))"
  using assms
proof (induction d models visited pending rule: closure_loop.induct)
  case (2 d models visited uri pending)
  show ?case
  proof (cases "uri \<in> set visited")
    case True
    then show ?thesis using 2(1) [OF True] 2(3) by auto
  next
    case False
    let ?p = "push_definers models (directRequiredModels d uri) pending"
    have "\<forall>u \<in> set (insort uri visited). \<forall>v. depends_on d models u v \<longrightarrow> v \<in> set (insort uri visited) \<union> set ?p"
      using 2(3) by (auto simp: set_insort_key set_push_definers depends_on_def)
    from 2(2) [OF False this] show ?thesis using False by (auto simp: set_insort_key set_push_definers)
  qed
qed simp

subsection \<open>Properties\<close>

text \<open>C13. The traversal always ends, and its result is exactly the set of sources reachable from
  the roots along dependencies (a source depends on the first source that defines a model it
  requires), in strictly increasing order. Cycles among sources do no harm.\<close>

theorem transitive_closure_is_reachability:
  "set (transitiveClosureForRoots d models roots)
     = {v. \<exists>r \<in> set roots. (depends_on d models)\<^sup>*\<^sup>* r v}
   \<and> sorted_wrt (<) (transitiveClosureForRoots d models roots)"
proof -
  let ?R = "{v. \<exists>r \<in> set roots. (depends_on d models)\<^sup>*\<^sup>* r v}"
  let ?c = "transitiveClosureForRoots d models roots"
  have "set ?c \<subseteq> ?R"
    unfolding transitiveClosureForRoots_def
    by (rule closure_loop_sound) (auto intro: rtranclp.rtrancl_into_rtrancl)
  moreover have roots: "set roots \<subseteq> set ?c"
    and closed: "\<forall>u \<in> set ?c. \<forall>v. depends_on d models u v \<longrightarrow> v \<in> set ?c"
    using closure_loop_complete [of "[]" d models "rev roots"] by (auto simp: transitiveClosureForRoots_def)
  have "v \<in> set ?c" if "(depends_on d models)\<^sup>*\<^sup>* r v" "r \<in> set roots" for r v
    using that by (induction rule: rtranclp_induct) (use roots closed in auto)
  then have "?R \<subseteq> set ?c" by blast
  moreover have "sorted_wrt (<) ?c" by (simp add: transitiveClosureForRoots_def closure_loop_sorted)
  ultimately show ?thesis by blast
qed

text \<open>Replacing and removing dependencies keeps both directions of the dependency index
  in step: afterwards a source is listed for a model exactly when the model is among its
  direct requirements, every other source is as before, and the index's own check passes.\<close>

lemma dependency_index_exact:
  assumes "dependency_inv d" and "added = replaceSourceDependencies uri required d"
    and "removed = removeSource uri d"
  shows "dependency_inv added \<and> dependency_checkInvariants added
      \<and> directRequiredModels added uri = sorted_unique required
      \<and> (\<forall>m. set (dependentSourceUrisForModel added m)
           = (set (dependentSourceUrisForModel d m) - {uri}) \<union> (if m \<in> set required then {uri} else {}))
      \<and> dependency_inv removed \<and> dependency_checkInvariants removed
      \<and> directRequiredModels removed uri = []
      \<and> (\<forall>m. set (dependentSourceUrisForModel removed m) = set (dependentSourceUrisForModel d m) - {uri})"
proof -
  have inv: "dependency_inv added" "dependency_inv removed"
    using assms replace_inv removeSource_inv by auto
  moreover have "directRequiredModels added uri = sorted_unique required"
    by (simp add: assms(2) Let_def directRequiredModels_def replaceSourceDependencies_def)
  moreover have "directRequiredModels removed uri = []"
    using removeSource_forward [of uri d] assms(3) by (simp add: required_by_def fun_eq_iff split: if_splits)
  ultimately show ?thesis
    using dependents.lookup_put [OF assms(1), of "(uri, required)"] dependents.lookup_remove [OF assms(1), of uri]
      inv [THEN dependency_check] assms(2,3) by simp
qed

lemma empty_dependency_inv: "dependency_inv empty_dependency_index"
  by (simp add: dependency_inv_def empty_dependency_index_def required_by_def directRequiredModels_def
      rev_lookup_def)

lemma dependency_index_exact_witness:
  "set (dependentSourceUrisForModel (replaceSourceDependencies ''u'' [''M'', ''M''] empty_dependency_index) ''M'')
     = {''u''}"
  using dependency_index_exact [OF empty_dependency_inv refl refl, of "''u''" "[''M'', ''M'']"]
  by (simp add: dependentSourceUrisForModel_def empty_dependency_index_def rev_lookup_def)

end
