(* ===== verification/Root_Analysis_Cache.thy ===== *)
theory Root_Analysis_Cache
  imports Lru_Cache Memory_Estimator Ilic_Text
begin

section \<open>The cache of root analyses\<close>

text \<open>
  Model of source/core/incremental/RootAnalysisCache.cpp: results of whole compilations,
  stored under a key that names the request and the content of every source of the closure. A
  lookup walks the entries in key order and takes the first one made for the same request
  whose recorded source identities are still the session's. \<open>size_t\<close> is
  \<open>nat\<close>; the tick and the counters are 64-bit words.
\<close>

record RootAnalysisCacheOptions =
  rco_maxEntries :: nat
  rco_maxRetainedBytes :: nat

record RootAnalysisCacheEntry =
  re_baseKey :: string
  re_key :: string
  re_closureUris :: "string list"
  re_identities :: "SourceIdentity list"
  re_resolvedModels :: "string list"
  re_missingModels :: "string list"
  re_hadMissingModels :: bool
  re_result :: CompilationAnalysisResult
  re_retainedBytes :: nat
  re_lastUsedTick :: u64

record RootInvalidationResult =
  iv_invalidatedKeyIds :: "string list"
  iv_invalidatedRoots :: "string list"
  iv_releasedBytes :: nat

record RootAnalysisCacheMetrics =
  rm_hits :: u64
  rm_misses :: u64
  rm_evictions :: u64
  rm_entries :: nat
  rm_retainedBytes :: nat

record RootAnalysisCache =
  rc_options :: RootAnalysisCacheOptions
  rc_entries :: "(string, RootAnalysisCacheEntry) omap"
  rc_retainedBytes :: nat
  rc_tick :: u64
  rc_metrics :: RootAnalysisCacheMetrics

definition default_root_metrics :: RootAnalysisCacheMetrics where
  "default_root_metrics =
     \<lparr>rm_hits = 0, rm_misses = 0, rm_evictions = 0, rm_entries = 0, rm_retainedBytes = 0\<rparr>"

definition default_invalidation :: RootInvalidationResult where
  "default_invalidation =
     \<lparr>iv_invalidatedKeyIds = [], iv_invalidatedRoots = [], iv_releasedBytes = 0\<rparr>"

definition make_RootAnalysisCache :: "RootAnalysisCacheOptions \<Rightarrow> RootAnalysisCache" where
  "make_RootAnalysisCache options = \<lparr>rc_options = options, rc_entries = [], rc_retainedBytes = 0,
     rc_tick = 0, rc_metrics = default_root_metrics\<rparr>"

subsection \<open>Lookup\<close>

definition same_content :: "SourceIdentity \<Rightarrow> SourceIdentity \<Rightarrow> bool" where
  "same_content i j \<longleftrightarrow> contentRevision i = contentRevision j \<and> si_contentHash i = si_contentHash j
     \<and> byteLength i = byteLength j"

fun closure_current :: "SourceManager \<Rightarrow> string list \<Rightarrow> SourceIdentity list \<Rightarrow> bool" where
  "closure_current sources [] ids = True"
| "closure_current sources (u # us) [] = False"
| "closure_current sources (u # us) (i # ids) =
     (case SourceManager_identity sources u of
        None \<Rightarrow> False
      | Some identity \<Rightarrow> same_content identity i \<and> closure_current sources us ids)"

definition entry_matches :: "string \<Rightarrow> SourceManager \<Rightarrow> RootAnalysisCacheEntry \<Rightarrow> bool" where
  "entry_matches baseKey sources e \<longleftrightarrow> re_baseKey e = baseKey
     \<and> \<not> (re_hadMissingModels e \<and> length (re_identities e) \<noteq> length (SourceManager_uris sources))
     \<and> closure_current sources (re_closureUris e) (re_identities e)"

definition findExact ::
  "string \<Rightarrow> SourceManager \<Rightarrow> RootAnalysisCache \<Rightarrow> RootAnalysisCacheEntry option \<times> RootAnalysisCache" where
  "findExact baseKey sources c =
     (case find (\<lambda>x. entry_matches baseKey sources (snd x)) (rc_entries c) of
        Some (k, e) \<Rightarrow>
          let t = rc_tick c + 1; e' = e\<lparr>re_lastUsedTick := t\<rparr> in
          (Some e', c\<lparr>rc_entries := assign k e' (rc_entries c), rc_tick := t,
             rc_metrics := (rc_metrics c)\<lparr>rm_hits := rm_hits (rc_metrics c) + 1\<rparr>\<rparr>)
      | None \<Rightarrow>
          (None, c\<lparr>rc_metrics := (rc_metrics c)\<lparr>rm_misses := rm_misses (rc_metrics c) + 1\<rparr>\<rparr>))"

subsection \<open>Insertion and eviction\<close>

definition root_publish_sizes :: "RootAnalysisCache \<Rightarrow> RootAnalysisCache" where
  "root_publish_sizes c = c\<lparr>rc_metrics := (rc_metrics c)\<lparr>rm_entries := length (rc_entries c),
     rm_retainedBytes := rc_retainedBytes c\<rparr>\<rparr>"

definition note_invalidation ::
  "RootAnalysisCacheEntry \<Rightarrow> RootInvalidationResult \<Rightarrow> RootInvalidationResult" where
  "note_invalidation e r = r\<lparr>
     iv_releasedBytes := iv_releasedBytes r + re_retainedBytes e,
     iv_invalidatedKeyIds := iv_invalidatedKeyIds r @ [re_key e],
     iv_invalidatedRoots := iv_invalidatedRoots r @ re_closureUris e\<rparr>"

definition root_erase ::
  "string \<Rightarrow> RootInvalidationResult option \<Rightarrow> RootAnalysisCache
     \<Rightarrow> nat \<times> RootInvalidationResult option \<times> RootAnalysisCache" where
  "root_erase k result c = (case map_of (rc_entries c) k of
     None \<Rightarrow> (0, result, c)
   | Some e \<Rightarrow>
       let released = re_retainedBytes e in
       (released, map_option (note_invalidation e) result, root_publish_sizes (c\<lparr>
          rc_entries := erase k (rc_entries c),
          rc_retainedBytes := rc_retainedBytes c - min (rc_retainedBytes c) released\<rparr>)))"

definition root_erase_plain :: "string \<Rightarrow> RootAnalysisCache \<Rightarrow> RootAnalysisCache" where
  "root_erase_plain k c = snd (snd (root_erase k None c))"

definition root_evict_one :: "string \<Rightarrow> RootAnalysisCache \<Rightarrow> RootAnalysisCache" where
  "root_evict_one k c = (let c1 = root_erase_plain k c in
     c1\<lparr>rc_metrics := (rc_metrics c1)\<lparr>rm_evictions := rm_evictions (rc_metrics c1) + 1\<rparr>\<rparr>)"

lemma root_erase_plain_entries: "rc_entries (root_erase_plain k c) = erase k (rc_entries c)"
  by (simp add: root_erase_plain_def root_erase_def root_publish_sizes_def Let_def erase_None
      split: option.splits)

lemma root_evict_one_entries: "rc_entries (root_evict_one k c) = erase k (rc_entries c)"
  by (simp add: root_evict_one_def Let_def root_erase_plain_entries)

function root_evictUntilWithinBudget :: "RootAnalysisCache \<Rightarrow> RootAnalysisCache" where
  "root_evictUntilWithinBudget c =
     (case min_element (older re_lastUsedTick) (rc_entries c) of
        None \<Rightarrow> c
      | Some victim \<Rightarrow>
          if rco_maxEntries (rc_options c) < length (rc_entries c)
             \<or> rco_maxRetainedBytes (rc_options c) < rc_retainedBytes c
          then root_evictUntilWithinBudget (root_evict_one (fst victim) c)
          else c)"
  by pat_completeness auto
termination
proof (relation "measure (\<lambda>c. length (rc_entries c))", goal_cases)
  case (2 c v)
  have "v \<in> set (rc_entries c)" using min_element_Some(1) [OF 2(1)] .
  then show ?case by (auto simp: root_evict_one_entries erase_def intro: length_filter_less)
qed simp

declare root_evictUntilWithinBudget.simps [simp del]

definition root_entry_bytes :: "layout \<Rightarrow> RootAnalysisCacheEntry \<Rightarrow> nat" where
  "root_entry_bytes L e = ly_sizeof L ''RootAnalysisCacheEntry''
     + stringBytes L (re_baseKey e) + stringBytes L (re_key e)
     + vectorBytes L ''string'' (re_closureUris e)
     + vectorBytes L ''SourceIdentity'' (re_identities e)
     + vectorBytes L ''string'' (re_resolvedModels e)
     + vectorBytes L ''string'' (re_missingModels e)
     + estimate_compilation L (re_result e)
     + sum_by (stringBytes L) (re_closureUris e)
     + sum_by (\<lambda>i. stringBytes L (si_uri i) + stringBytes L (si_contentHash i)) (re_identities e)
     + sum_by (stringBytes L) (re_resolvedModels e)
     + sum_by (stringBytes L) (re_missingModels e)"

definition root_insert :: "layout \<Rightarrow> RootAnalysisCacheEntry \<Rightarrow> RootAnalysisCache \<Rightarrow> RootAnalysisCache" where
  "root_insert L entry c =
     (let t = rc_tick c + 1;
          e = entry\<lparr>re_retainedBytes := root_entry_bytes L entry, re_lastUsedTick := t\<rparr>;
          c1 = root_erase_plain (re_key e) (c\<lparr>rc_tick := t\<rparr>) in
      root_publish_sizes (root_evictUntilWithinBudget
        (c1\<lparr>rc_retainedBytes := rc_retainedBytes c1 + re_retainedBytes e,
            rc_entries := assign (re_key e) e (rc_entries c1)\<rparr>)))"

subsection \<open>Invalidation\<close>

fun invalidateIf_loop ::
  "(RootAnalysisCacheEntry \<Rightarrow> bool) \<Rightarrow> (string \<times> RootAnalysisCacheEntry) list \<Rightarrow> RootInvalidationResult
     \<Rightarrow> RootAnalysisCache \<Rightarrow> RootInvalidationResult \<times> RootAnalysisCache" where
  "invalidateIf_loop P [] result c = (result, c)"
| "invalidateIf_loop P ((k, e) # rest) result c =
     (if \<not> P e then invalidateIf_loop P rest result c
      else case root_erase k (Some result) c of
        (_, Some result', c') \<Rightarrow> invalidateIf_loop P rest result' c'
      | (_, None, c') \<Rightarrow> invalidateIf_loop P rest result c')"

definition invalidateIf ::
  "(RootAnalysisCacheEntry \<Rightarrow> bool) \<Rightarrow> RootAnalysisCache \<Rightarrow> RootInvalidationResult \<times> RootAnalysisCache" where
  "invalidateIf P c =
     (let (r, c') = invalidateIf_loop P (rc_entries c) default_invalidation c in
      (r\<lparr>iv_invalidatedKeyIds := sorted_unique (iv_invalidatedKeyIds r),
         iv_invalidatedRoots := sorted_unique (iv_invalidatedRoots r)\<rparr>, c'))"

definition invalidateBySource ::
  "string \<Rightarrow> RootAnalysisCache \<Rightarrow> RootInvalidationResult \<times> RootAnalysisCache" where
  "invalidateBySource uri = invalidateIf (\<lambda>e. uri \<in> set (re_closureUris e))"

definition root_clear :: "RootAnalysisCache \<Rightarrow> RootInvalidationResult \<times> RootAnalysisCache" where
  "root_clear c =
     (default_invalidation\<lparr>iv_releasedBytes := weight_of re_retainedBytes (rc_entries c),
        iv_invalidatedKeyIds := map (re_key \<circ> snd) (rc_entries c)\<rparr>,
      c\<lparr>rc_entries := [], rc_retainedBytes := 0,
        rc_metrics := (rc_metrics c)\<lparr>rm_entries := 0, rm_retainedBytes := 0\<rparr>\<rparr>)"

definition root_resetMetrics :: "RootAnalysisCache \<Rightarrow> RootAnalysisCache" where
  "root_resetMetrics c = c\<lparr>rc_metrics := default_root_metrics\<lparr>
     rm_entries := length (rc_entries c), rm_retainedBytes := rc_retainedBytes c\<rparr>\<rparr>"

definition root_metrics :: "RootAnalysisCache \<Rightarrow> RootAnalysisCacheMetrics" where
  "root_metrics c = (rc_metrics c)\<lparr>rm_entries := length (rc_entries c),
     rm_retainedBytes := rc_retainedBytes c\<rparr>"

definition root_checkInvariants :: "RootAnalysisCache \<Rightarrow> string option" where
  "root_checkInvariants c =
     (let s = weight_of re_retainedBytes (rc_entries c) in
      if s = rc_retainedBytes c \<and> length (rc_entries c) = rm_entries (rc_metrics c) then None
      else Some (''root cache accounting mismatch: sum='' @ dec s
        @ '' retained='' @ dec (rc_retainedBytes c) @ '' entries='' @ dec (length (rc_entries c))
        @ '' metrics='' @ dec (rm_entries (rc_metrics c))))"

subsection \<open>Accounting\<close>

lemma root_evict_one_retained:
  "map_of (rc_entries c) k = Some e \<Longrightarrow> rc_retainedBytes (root_evict_one k c)
     = rc_retainedBytes c - min (rc_retainedBytes c) (re_retainedBytes e)"
  by (simp add: root_evict_one_def root_erase_plain_def root_erase_def root_publish_sizes_def Let_def)

lemma root_evict_one_frame:
  "rc_options (root_evict_one k c) = rc_options c"
  "rc_tick (root_evict_one k c) = rc_tick c"
  "rm_evictions (rc_metrics (root_evict_one k c)) = rm_evictions (rc_metrics c) + 1"
  by (simp_all add: root_evict_one_def root_erase_plain_def root_erase_def root_publish_sizes_def Let_def
      split: option.splits)

interpretation root: lru_cache rc_entries rc_retainedBytes re_retainedBytes re_lastUsedTick
  "\<lambda>c. rco_maxEntries (rc_options c)" "\<lambda>c. rco_maxRetainedBytes (rc_options c)"
  "\<lambda>c. rm_evictions (rc_metrics c)" root_evict_one root_evictUntilWithinBudget
  by unfold_locales
     (simp_all add: root_evict_one_entries root_evict_one_retained root_evict_one_frame
       root_evictUntilWithinBudget.simps)


definition root_inv :: "RootAnalysisCache \<Rightarrow> bool" where
  "root_inv c \<longleftrightarrow> root.accounted c \<and> root.within c
     \<and> rm_entries (rc_metrics c) = length (rc_entries c)
     \<and> rm_retainedBytes (rc_metrics c) = rc_retainedBytes c
     \<and> (\<forall>(k, e) \<in> set (rc_entries c). re_key e = k)"

lemma root_invD:
  assumes "root_inv c"
  shows "root.accounted c" and "root.within c" and "omap_wf (rc_entries c)"
    and "rm_entries (rc_metrics c) = length (rc_entries c)"
    and "rm_retainedBytes (rc_metrics c) = rc_retainedBytes c"
    and "rc_retainedBytes c = weight_of re_retainedBytes (rc_entries c)"
    and "\<And>k e. (k, e) \<in> set (rc_entries c) \<Longrightarrow> re_key e = k"
  using assms by (auto simp: root_inv_def root.accounted_def)

lemma root_erase_frame:
  "rc_entries (snd (snd (root_erase k r c))) = erase k (rc_entries c)"
  "rc_options (snd (snd (root_erase k r c))) = rc_options c"
  "rc_tick (snd (snd (root_erase k r c))) = rc_tick c"
  by (auto simp: root_erase_def root_publish_sizes_def Let_def erase_None split: option.splits)

lemma root_erase_result: "snd (snd (root_erase k r c)) = root_erase_plain k c"
  by (simp add: root_erase_plain_def root_erase_def Let_def split: option.splits)

lemma root_plain_frame:
  "rc_options (root_erase_plain k c) = rc_options c"
  "rc_tick (root_erase_plain k c) = rc_tick c"
  by (simp_all add: root_erase_plain_def root_erase_frame)

lemma root_plain_accounted:
  assumes "root.accounted c"
  shows "root.accounted (root_erase_plain k c)"
    and "rc_retainedBytes c = (case map_of (rc_entries c) k of None \<Rightarrow> 0 | Some e \<Rightarrow> re_retainedBytes e)
      + rc_retainedBytes (root_erase_plain k c)"
  using assms weight_of_erase [of "rc_entries c" k _ re_retainedBytes]
  by (auto simp: root_erase_plain_def root_erase_def root_publish_sizes_def Let_def root.accounted_def
      split: option.splits)

lemma root_plain_inv: "root_inv c \<Longrightarrow> root_inv (root_erase_plain k c)"
proof -
  assume inv: "root_inv c"
  note d = root_invD [OF inv]
  have "length (erase k (rc_entries c)) \<le> length (rc_entries c)" by (simp add: erase_def)
  moreover have "rc_retainedBytes (root_erase_plain k c) \<le> rc_retainedBytes c"
    using root_plain_accounted(2) [OF d(1), of k] by simp
  moreover have "rm_entries (rc_metrics (root_erase_plain k c)) = length (erase k (rc_entries c))"
    "rm_retainedBytes (rc_metrics (root_erase_plain k c)) = rc_retainedBytes (root_erase_plain k c)"
    using d(4,5) by (auto simp: root_erase_plain_def root_erase_def root_publish_sizes_def Let_def erase_None
        split: option.splits)
  ultimately show ?thesis
    using root_plain_accounted(1) [OF d(1)] d(2,7)
    by (auto simp: root_inv_def root.within_def root_plain_frame root_erase_plain_entries set_erase)
qed

lemma root_inserted_accounted:
  assumes "root.accounted c"
  shows "root.accounted ((root_erase_plain k c)\<lparr>
      rc_retainedBytes := rc_retainedBytes (root_erase_plain k c) + re_retainedBytes e,
      rc_entries := assign k e (erase k (rc_entries c))\<rparr>)"
  using root_plain_accounted(1) [OF assms, of k] weight_of_assign_fresh [of k "erase k (rc_entries c)"]
  by (simp add: root.accounted_def root_erase_plain_entries)

lemma root_evict_options:
  "root.accounted c \<Longrightarrow> rc_options (root_evictUntilWithinBudget c) = rc_options c"
  by (induction rule: root.evict_induct) (auto simp: root_evict_one_frame)

lemma root_publish_inv:
  assumes "root.accounted c" and "root.within c" and "\<And>k e. (k, e) \<in> set (rc_entries c) \<Longrightarrow> re_key e = k"
  shows "root_inv (root_publish_sizes c)"
  using assms by (auto simp: root_inv_def root_publish_sizes_def root.accounted_def root.within_def)

lemma root_insert_inv:
  assumes "root_inv c"
  shows "root_inv (root_insert L entry c)" and "rc_options (root_insert L entry c) = rc_options c"
proof -
  let ?e = "entry\<lparr>re_retainedBytes := root_entry_bytes L entry, re_lastUsedTick := rc_tick c + 1\<rparr>"
  let ?c = "c\<lparr>rc_tick := rc_tick c + 1\<rparr>"
  let ?c1 = "root_erase_plain (re_key ?e) ?c"
  let ?c2 = "?c1\<lparr>rc_retainedBytes := rc_retainedBytes ?c1 + re_retainedBytes ?e,
      rc_entries := assign (re_key ?e) ?e (erase (re_key ?e) (rc_entries c))\<rparr>"
  note d = root_invD [OF assms]
  have acc: "root.accounted ?c2"
    using root_inserted_accounted [of ?c "re_key ?e" ?e] d(1) by (simp add: root.accounted_def)
  have new: "root_insert L entry c = root_publish_sizes (root_evictUntilWithinBudget ?c2)"
    by (simp add: root_insert_def Let_def root_erase_plain_entries)
  have "set (rc_entries ?c2) \<subseteq> insert (re_key ?e, ?e) (set (rc_entries c))"
    using set_assign_subset [of "re_key ?e" ?e "erase (re_key ?e) (rc_entries c)"]
    by (auto simp: set_erase)
  then have sub: "set (rc_entries (root_evictUntilWithinBudget ?c2)) \<subseteq> insert (re_key ?e, ?e) (set (rc_entries c))"
    using root.evict_subset [OF acc] by (rule order_trans [rotated])
  have "re_key x = k" if "(k, x) \<in> set (rc_entries (root_evictUntilWithinBudget ?c2))" for k x
    using subsetD [OF sub that]
  proof (rule insertE)
    assume "(k, x) = (re_key ?e, ?e)"
    then show ?thesis by (simp only: prod.inject)
  qed (rule d(7))
  then show "root_inv (root_insert L entry c)"
    unfolding new by (intro root_publish_inv root.evict_accounted root.evict_within acc)
  show "rc_options (root_insert L entry c) = rc_options c"
    using root_evict_options [OF acc] by (simp add: new root_publish_sizes_def root_plain_frame)
qed

lemma find_mem: "find P xs = Some x \<Longrightarrow> x \<in> set xs \<and> P x"
  by (auto simp: find_Some_iff)

lemma findExact_cases:
  obtains (hit) k e where "find (\<lambda>x. entry_matches baseKey sources (snd x)) (rc_entries c) = Some (k, e)"
      "findExact baseKey sources c = (Some (e\<lparr>re_lastUsedTick := rc_tick c + 1\<rparr>),
         c\<lparr>rc_entries := assign k (e\<lparr>re_lastUsedTick := rc_tick c + 1\<rparr>) (rc_entries c),
           rc_tick := rc_tick c + 1,
           rc_metrics := (rc_metrics c)\<lparr>rm_hits := rm_hits (rc_metrics c) + 1\<rparr>\<rparr>)"
  | (miss) "\<forall>x \<in> set (rc_entries c). \<not> entry_matches baseKey sources (snd x)"
      "findExact baseKey sources c = (None,
         c\<lparr>rc_metrics := (rc_metrics c)\<lparr>rm_misses := rm_misses (rc_metrics c) + 1\<rparr>\<rparr>)"
proof (cases "find (\<lambda>x. entry_matches baseKey sources (snd x)) (rc_entries c)")
  case None
  have "\<forall>x \<in> set (rc_entries c). \<not> entry_matches baseKey sources (snd x)"
    using None by (auto simp: find_None_iff)
  moreover have "findExact baseKey sources c = (None,
      c\<lparr>rc_metrics := (rc_metrics c)\<lparr>rm_misses := rm_misses (rc_metrics c) + 1\<rparr>\<rparr>)"
    using None by (simp add: findExact_def)
  ultimately show ?thesis by (rule miss)
next
  case (Some x)
  then show ?thesis using hit [of "fst x" "snd x"] by (simp add: findExact_def Let_def split_beta)
qed

lemma findExact_inv:
  assumes "root_inv c"
  shows "root_inv (snd (findExact baseKey sources c))"
    and "rc_options (snd (findExact baseKey sources c)) = rc_options c"
proof -
  note d = root_invD [OF assms]
  have "root_inv (snd (findExact baseKey sources c)) \<and> rc_options (snd (findExact baseKey sources c)) = rc_options c"
  proof (cases rule: findExact_cases [of baseKey sources c])
    case (hit k e)
    let ?e = "e\<lparr>re_lastUsedTick := rc_tick c + 1\<rparr>"
    have mem: "(k, e) \<in> set (rc_entries c)" using find_mem [OF hit(1)] by simp
    then have m: "map_of (rc_entries c) k = Some e" using d(3) by (simp add: lookup_iff_in_set)
    have "weight_of re_retainedBytes (assign k ?e (rc_entries c)) = weight_of re_retainedBytes (rc_entries c)"
      using weight_of_assign [OF d(3)] weight_of_erase [OF d(3) m, of re_retainedBytes] by simp
    moreover have "\<forall>(k', e') \<in> set (assign k ?e (rc_entries c)). re_key e' = k'"
      using set_assign_subset [of k ?e "rc_entries c"] d(7) mem by auto
    ultimately show ?thesis
      using hit(2) d assign_present_length [OF d(3) m, of ?e]
      by (simp add: root_inv_def root.accounted_def root.within_def)
  next
    case miss
    then show ?thesis
      using assms by (auto simp: root_inv_def root.accounted_def root.within_def)
  qed
  then show "root_inv (snd (findExact baseKey sources c))"
    and "rc_options (snd (findExact baseKey sources c)) = rc_options c" by auto
qed


lemma invalidateIf_loop_inv: "root_inv c \<Longrightarrow> root_inv (snd (invalidateIf_loop P m r c))"
proof (induction P m r c rule: invalidateIf_loop.induct)
  case (2 P k e rest r c)
  show ?case
  proof (cases "P e")
    case True
    obtain n r' c' where er: "root_erase k (Some r) c = (n, r', c')" by (metis prod_cases3)
    have "root_inv c'" using root_plain_inv [OF 2(4), of k] root_erase_result [of k "Some r" c] er by simp
    then show ?thesis using 2(2,3) True er by (cases r') auto
  next
    case False
    then show ?thesis using 2 by simp
  qed
qed simp

lemma invalidateIf_loop_options: "rc_options (snd (invalidateIf_loop P m r c)) = rc_options c"
proof (induction P m r c rule: invalidateIf_loop.induct)
  case (2 P k e rest r c)
  obtain n r' c' where er: "root_erase k (Some r) c = (n, r', c')" by (metis prod_cases3)
  then show ?case
    using 2 root_erase_frame(2) [of k "Some r" c] by (cases r') auto
qed simp

text \<open>The loop over the map's own entries, by the keys still ahead of it.\<close>

lemma invalidateIf_loop_effect:
  assumes "omap_wf m" and "set m \<subseteq> set (rc_entries c)" and "root.accounted c"
  shows "set (rc_entries (snd (invalidateIf_loop P m r c)))
      = {x \<in> set (rc_entries c). fst x \<notin> set (map fst (filter (P \<circ> snd) m))}
    \<and> iv_invalidatedKeyIds (fst (invalidateIf_loop P m r c))
      = iv_invalidatedKeyIds r @ map (re_key \<circ> snd) (filter (P \<circ> snd) m)
    \<and> iv_invalidatedRoots (fst (invalidateIf_loop P m r c))
      = iv_invalidatedRoots r @ concat (map (re_closureUris \<circ> snd) (filter (P \<circ> snd) m))
    \<and> iv_releasedBytes (fst (invalidateIf_loop P m r c)) + rc_retainedBytes (snd (invalidateIf_loop P m r c))
      = iv_releasedBytes r + rc_retainedBytes c"
  using assms
proof (induction P m r c rule: invalidateIf_loop.induct)
  case (2 P k e rest r c)
  have rest: "omap_wf rest" "set rest \<subseteq> set (rc_entries c)" "k \<notin> fst ` set rest"
    using 2(4,5) by (auto simp: omap_wf_Cons)
  show ?case
  proof (cases "P e")
    case True
    have wf: "omap_wf (rc_entries c)" using 2(6) by (simp add: root.accounted_def)
    have m: "map_of (rc_entries c) k = Some e" using 2(5) wf by (simp add: lookup_iff_in_set)
    have er: "root_erase k (Some r) c
        = (re_retainedBytes e, Some (note_invalidation e r), root_erase_plain k c)"
      using m by (simp add: root_erase_def root_erase_plain_def Let_def)
    have sub: "set rest \<subseteq> set (rc_entries (root_erase_plain k c))"
      using rest(2,3) by (auto simp: root_erase_plain_entries set_erase)
    note ih = 2(3) [OF _ er [symmetric] refl refl rest(1) sub root_plain_accounted(1) [OF 2(6)]]
    show ?thesis
      using ih True er root_plain_accounted(2) [OF 2(6), of k] m
      by (auto simp: note_invalidation_def root_erase_plain_entries set_erase)
  next
    case False
    then show ?thesis using 2(1) [OF False rest(1,2) 2(6)] by simp
  qed
qed simp

lemma root_clear_inv: "root_inv (snd (root_clear c))"
  by (simp add: root_clear_def root_inv_def root.accounted_def root.within_def)

lemma root_resetMetrics_inv: "root_inv c \<Longrightarrow> root_inv (root_resetMetrics c)"
  by (simp add: root_resetMetrics_def root_inv_def root.accounted_def root.within_def)

lemma make_root_inv: "root_inv (make_RootAnalysisCache options)"
  by (simp add: make_RootAnalysisCache_def default_root_metrics_def root_inv_def
      root.accounted_def root.within_def)

lemma invalidateIf_inv:
  "root_inv c \<Longrightarrow> root_inv (snd (invalidateIf P c))"
  "rc_options (snd (invalidateIf P c)) = rc_options c"
  using invalidateIf_loop_inv [of c P "rc_entries c" default_invalidation]
    invalidateIf_loop_options [of P "rc_entries c" default_invalidation c]
  by (simp_all add: invalidateIf_def split_beta)

inductive root_reach :: "layout \<Rightarrow> RootAnalysisCacheOptions \<Rightarrow> RootAnalysisCache \<Rightarrow> bool" for L options where
  fresh: "root_reach L options (make_RootAnalysisCache options)"
| lookup: "root_reach L options c \<Longrightarrow> root_reach L options (snd (findExact baseKey sources c))"
| insert: "root_reach L options c \<Longrightarrow> root_reach L options (root_insert L entry c)"
| invalidate: "root_reach L options c \<Longrightarrow> root_reach L options (snd (invalidateIf P c))"
| clear: "root_reach L options c \<Longrightarrow> root_reach L options (snd (root_clear c))"
| reset: "root_reach L options c \<Longrightarrow> root_reach L options (root_resetMetrics c)"

lemma root_reach_inv: "root_reach L options c \<Longrightarrow> root_inv c \<and> rc_options c = options"
proof (induction rule: root_reach.induct)
  case fresh
  then show ?case by (simp add: make_root_inv) (simp add: make_RootAnalysisCache_def)
next
  case (clear c)
  then show ?case by (simp add: root_clear_inv) (simp add: root_clear_def)
next
  case (reset c)
  then show ?case by (simp add: root_resetMetrics_inv) (simp add: root_resetMetrics_def)
qed (simp_all add: findExact_inv root_insert_inv invalidateIf_inv)

subsection \<open>Properties\<close>

text \<open>In every state the cache can reach, its consistency check passes, the counters it
  publishes are the true ones and both budgets are respected.\<close>

lemma root_cache_always_consistent:
  assumes "root_reach L options c"
  shows "root_checkInvariants c = None \<and> root_metrics c = rc_metrics c
    \<and> length (rc_entries c) \<le> rco_maxEntries options
    \<and> weight_of re_retainedBytes (rc_entries c) \<le> rco_maxRetainedBytes options"
proof -
  have o: "rc_options c = options" and inv: "root_inv c" using root_reach_inv [OF assms] by auto
  note d = root_invD [OF inv]
  have "root_checkInvariants c = None" using d by (simp add: root_checkInvariants_def)
  moreover have "root_metrics c = rc_metrics c" using d(4,5) by (simp add: root_metrics_def)
  ultimately show ?thesis using d(2,6) o by (simp add: root.within_def)
qed


definition empty_analysis :: CompilationAnalysisResult where
  "empty_analysis = \<lparr>
     an_compilation = \<lparr>cr_success = True, cr_cancelled = False, cr_errorCount = 0, cr_warningCount = 0,
       cr_missingModels = [], cr_models = [], cr_diagnostics = [], cr_logs = [], cr_transcript = []\<rparr>,
     an_semantic = \<lparr>se_success = True, se_cancelled = False, se_roots = [], se_documentVersions = [],
       se_missingModels = [], se_symbols = [], se_references = [], se_dependencies = [],
       se_diagram = \<lparr>dp_nodes = [], dp_edges = []\<rparr>,
       se_documentation = \<lparr>dpr_title = [], dpr_sections = [], dpr_models = []\<rparr>,
       se_diagnostics = [], se_logs = []\<rparr>,
     an_syntax = []\<rparr>"

definition example_root_entry :: "string \<Rightarrow> string list \<Rightarrow> RootAnalysisCacheEntry" where
  "example_root_entry key uris = \<lparr>re_baseKey = ''b'', re_key = key, re_closureUris = uris,
     re_identities = map (\<lambda>u. default_identity\<lparr>si_uri := u\<rparr>) uris, re_resolvedModels = [],
     re_missingModels = [], re_hadMissingModels = False, re_result = empty_analysis,
     re_retainedBytes = 0, re_lastUsedTick = 0\<rparr>"

definition example_root_options :: RootAnalysisCacheOptions where
  "example_root_options = \<lparr>rco_maxEntries = 2, rco_maxRetainedBytes = 100000\<rparr>"

definition example_root :: RootAnalysisCache where
  "example_root = root_insert sample_layout (example_root_entry ''k'' [''u''])
     (make_RootAnalysisCache example_root_options)"

lemma example_root_reach: "root_reach sample_layout example_root_options example_root"
  unfolding example_root_def by (intro root_reach.intros)

lemma root_cache_always_consistent_witness:
  "root_checkInvariants example_root = None \<and> length (rc_entries example_root) \<le> 2"
  using root_cache_always_consistent [OF example_root_reach] by (simp add: example_root_options_def)

text \<open>C21. Eviction is least recently used and minimal. From an accounted cache the loop
  ends within both budgets; it only removes entries; every removed entry was used before
  every kept one (ties by key); putting back the youngest removed one would exceed a budget
  again; and the eviction counter grows by the number of entries removed.\<close>

theorem root_eviction_is_lru:
  assumes "omap_wf (rc_entries c)" and "rc_retainedBytes c = weight_of re_retainedBytes (rc_entries c)"
  shows "let c' = root_evictUntilWithinBudget c in
    length (rc_entries c') \<le> rco_maxEntries (rc_options c)
    \<and> rc_retainedBytes c' = weight_of re_retainedBytes (rc_entries c')
    \<and> rc_retainedBytes c' \<le> rco_maxRetainedBytes (rc_options c)
    \<and> set (rc_entries c') \<subseteq> set (rc_entries c)
    \<and> (\<forall>r \<in> set (rc_entries c) - set (rc_entries c'). \<forall>s \<in> set (rc_entries c'). older re_lastUsedTick r s)
    \<and> (c' \<noteq> c \<longrightarrow> (\<exists>(k, e) \<in> set (rc_entries c) - set (rc_entries c').
          (\<forall>r \<in> set (rc_entries c) - set (rc_entries c'). r = (k, e) \<or> older re_lastUsedTick r (k, e))
          \<and> (rco_maxEntries (rc_options c) < Suc (length (rc_entries c'))
             \<or> rco_maxRetainedBytes (rc_options c) < rc_retainedBytes c' + re_retainedBytes e)))
    \<and> rm_evictions (rc_metrics c') = rm_evictions (rc_metrics c)
        + of_nat (length (rc_entries c) - length (rc_entries c'))"
proof -
  have acc: "root.accounted c" using assms by (simp add: root.accounted_def)
  let ?c = "root_evictUntilWithinBudget c"
  have "root.within ?c" "root.accounted ?c" "rc_options ?c = rc_options c"
    using root.evict_within [OF acc] root.evict_accounted [OF acc] root_evict_options [OF acc] .
  moreover have "\<forall>r \<in> set (rc_entries c) - set (rc_entries ?c). \<forall>s \<in> set (rc_entries ?c).
      older re_lastUsedTick r s"
    using root.evict_lru [OF acc] by blast
  moreover have "?c \<noteq> c \<longrightarrow> (\<exists>(k, e) \<in> set (rc_entries c) - set (rc_entries ?c).
      (\<forall>r \<in> set (rc_entries c) - set (rc_entries ?c). r = (k, e) \<or> older re_lastUsedTick r (k, e))
      \<and> (rco_maxEntries (rc_options c) < Suc (length (rc_entries ?c))
         \<or> rco_maxRetainedBytes (rc_options c) < rc_retainedBytes ?c + re_retainedBytes e))"
    using root.evict_minimal [OF acc] by fast
  ultimately show ?thesis
    using root.evict_subset [OF acc] root.evict_counts [OF acc]
    by (simp add: Let_def root.within_def root.accounted_def)
qed

theorem root_eviction_is_lru_witness:
  "rc_retainedBytes (root_evictUntilWithinBudget example_root) \<le> 100000"
proof -
  have "root_inv example_root" "rc_options example_root = example_root_options"
    using root_reach_inv [OF example_root_reach] by auto
  then show ?thesis
    using root_eviction_is_lru [of example_root] root_invD(3,6)
    by (simp add: Let_def example_root_options_def)
qed

text \<open>Lookup by position: a closure is current when each of its sources has the recorded content.\<close>

lemma closure_current_iff:
  "closure_current sources us ids \<longleftrightarrow> length us \<le> length ids \<and>
     (\<forall>i < length us. \<exists>identity. SourceManager_identity sources (us ! i) = Some identity
        \<and> same_content identity (ids ! i))"
proof (induction sources us ids rule: closure_current.induct)
  case (3 sources u us i ids)
  show ?case
    by (auto simp: 3 All_less_Suc2 split: option.splits)
qed auto


definition example_cache :: RootAnalysisCache where
  "example_cache = \<lparr>rc_options = example_root_options,
     rc_entries = [(''k'', example_root_entry ''k'' [''u''])], rc_retainedBytes = 0, rc_tick = 7,
     rc_metrics = default_root_metrics\<lparr>rm_entries := 1\<rparr>\<rparr>"

lemma example_cache_inv: "root_inv example_cache"
  by (simp add: example_cache_def root_inv_def root.accounted_def root.within_def omap_wf_def
      example_root_entry_def default_root_metrics_def example_root_options_def)


text \<open>Invalidation by a predicate removes exactly the entries that satisfy it. The result
  lists their keys and the union of their closures, each sorted and without duplicates, and
  the bytes they held.\<close>

lemma invalidateIf_exact:
  assumes "root_inv c" and "invalidateIf P c = (r, c')"
  shows "set (rc_entries c') = {x \<in> set (rc_entries c). \<not> P (snd x)}
    \<and> set (iv_invalidatedKeyIds r) = {k. \<exists>e. (k, e) \<in> set (rc_entries c) \<and> P e}
    \<and> set (iv_invalidatedRoots r)
        = {u. \<exists>(k, e) \<in> set (rc_entries c). P e \<and> u \<in> set (re_closureUris e)}
    \<and> sorted_wrt (<) (iv_invalidatedKeyIds r) \<and> sorted_wrt (<) (iv_invalidatedRoots r)
    \<and> rc_retainedBytes c = iv_releasedBytes r + rc_retainedBytes c'
    \<and> root_inv c'"
proof -
  note d = root_invD [OF assms(1)]
  let ?l = "invalidateIf_loop P (rc_entries c) default_invalidation c"
  have r: "r = (fst ?l)\<lparr>iv_invalidatedKeyIds := sorted_unique (iv_invalidatedKeyIds (fst ?l)),
      iv_invalidatedRoots := sorted_unique (iv_invalidatedRoots (fst ?l))\<rparr>" "c' = snd ?l"
    using assms(2) by (auto simp: invalidateIf_def split_beta)
  note l = invalidateIf_loop_effect [OF d(3) order_refl d(1), of P default_invalidation]
  have keep: "fst x \<in> set (map fst (filter (P \<circ> snd) (rc_entries c))) \<longleftrightarrow> P (snd x)"
    if "x \<in> set (rc_entries c)" for x
    using omap_wf_key_filter [OF d(3) that, of "P \<circ> snd"] by simp
  have "set (rc_entries c') = {x \<in> set (rc_entries c). \<not> P (snd x)}"
    using l keep r(2) by (simp cong: conj_cong)
  moreover have "set (iv_invalidatedKeyIds r) = {k. \<exists>e. (k, e) \<in> set (rc_entries c) \<and> P e}"
    using l d(7) r(1) by (force simp: default_invalidation_def image_iff)
  moreover have "set (iv_invalidatedRoots r)
      = {u. \<exists>(k, e) \<in> set (rc_entries c). P e \<and> u \<in> set (re_closureUris e)}"
    using l r(1) by (auto simp: default_invalidation_def)
  moreover have "root_inv c'" using invalidateIf_inv(1) [OF assms(1), of P] assms(2) by simp
  moreover have "rc_retainedBytes c = iv_releasedBytes r + rc_retainedBytes c'"
    using l r by (simp add: default_invalidation_def)
  ultimately show ?thesis using r(1) by (simp add: strict_sorted_unique)
qed

lemma invalidateIf_exact_witness:
  "rc_entries (snd (invalidateIf (\<lambda>_. True) example_root)) = []"
proof -
  have inv: "root_inv example_root" using root_reach_inv [OF example_root_reach] by simp
  show ?thesis using invalidateIf_exact [OF inv surjective_pairing, of "\<lambda>_. True"] by simp
qed

end
