(* ===== verification/Source_Impact.thy ===== *)
theory Source_Impact
  imports Root_Analysis_Cache Source_Model_Index
begin

section \<open>Impact of a source update\<close>

text \<open>
  Model of source/core/incremental/SourceImpactAnalyzer.cpp: from the kind of an update and the model
  records of the source before and after it, which caches the update affects. The root cache
  is only read, for its number of entries.
\<close>

record SourceImpact =
  im_invalidateParser :: bool
  im_replaceSourceIndex :: bool
  im_invalidateAllRoots :: bool
  im_mayCreateAmbiguity :: bool
  im_observedRootEntries :: nat
  im_affectedModels :: "string list"
  im_missingModelsResolved :: "string list"

definition appendUnique :: "string list \<Rightarrow> string list \<Rightarrow> string list" where
  "appendUnique vs additions =
     sort (fold (\<lambda>v acc. if v \<in> set acc then acc else acc @ [v]) additions vs)"

definition affected_by :: "SourceModelRecord option \<Rightarrow> string list \<Rightarrow> string list" where
  "affected_by rec models = (case rec of
     None \<Rightarrow> models
   | Some r \<Rightarrow> appendUnique (appendUnique models (mr_declaredModels r)) (mr_requiredModels r))"

definition analyze ::
  "SourceUpdateResult \<Rightarrow> SourceModelRecord option \<Rightarrow> SourceModelRecord option \<Rightarrow> RootAnalysisCache
     \<Rightarrow> SourceImpact" where
  "analyze update before after roots =
     (let kind = ur_kind update;
          resolved = (case (before, after) of
              (Some b, Some a) \<Rightarrow> filter (\<lambda>m. m \<notin> set (mr_declaredModels a)) (mr_declaredModels b)
            | _ \<Rightarrow> []);
          opaque = (case after of None \<Rightarrow> True
            | Some a \<Rightarrow> \<not> mr_syntacticallyUsable a \<or> mr_declaredModels a = []);
          shared = (case (before, after) of
              (Some b, Some a) \<Rightarrow> list_ex (\<lambda>m. m \<in> set (mr_declaredModels b)) (mr_declaredModels a)
            | _ \<Rightarrow> False) in
      \<lparr>im_invalidateParser = (kind = ContentChanged \<or> kind = Reintroduced),
       im_replaceSourceIndex = (ur_accepted update \<and> kind \<noteq> Unchanged \<and> kind \<noteq> VersionOnly),
       im_invalidateAllRoots = (kind = Added \<and> opaque
          \<and> \<not> (kind = ContentChanged \<or> kind = Reintroduced \<or> kind = Removed)),
       im_mayCreateAmbiguity = (kind = Added \<and> \<not> opaque \<and> shared),
       im_observedRootEntries = rm_entries (root_metrics roots),
       im_affectedModels = affected_by after (affected_by before []),
       im_missingModelsResolved = sort resolved\<rparr>)"

subsection \<open>Properties\<close>

lemma set_fold_append:
  "set (fold (\<lambda>v acc. if v \<in> set acc then acc else acc @ [v]) additions vs) = set vs \<union> set additions"
  by (induction additions arbitrary: vs) auto

lemma distinct_fold_append:
  "distinct vs \<Longrightarrow> distinct (fold (\<lambda>v acc. if v \<in> set acc then acc else acc @ [v]) additions vs)"
  by (induction additions arbitrary: vs) auto

lemma appendUnique_props:
  "sorted (appendUnique vs additions)"
  "distinct vs \<Longrightarrow> distinct (appendUnique vs additions)"
  "set (appendUnique vs additions) = set vs \<union> set additions"
  by (simp_all add: appendUnique_def set_fold_append distinct_fold_append)

lemma affected_by_strict:
  assumes "sorted_wrt (<) models"
  shows "sorted_wrt (<) (affected_by rec models)"
    and "set (affected_by rec models) = set models
      \<union> (case rec of None \<Rightarrow> {} | Some r \<Rightarrow> set (mr_declaredModels r) \<union> set (mr_requiredModels r))"
  using assms by (auto simp: affected_by_def appendUnique_props strict_sorted_iff split: option.splits)

text \<open>The impact of an update names, in strictly increasing order, every model that the source
  declared or required before or after it; the parser cache is affected exactly when the bytes
  of a known or returning source changed; all roots are affected only by an added source whose
  models are not known. The list called \<open>missingModelsResolved\<close> holds the models the
  source no longer declares.\<close>

lemma impact_complete:
  "let impact = analyze update before after roots;
       models = (\<lambda>rec. case rec of None \<Rightarrow> {} | Some r \<Rightarrow> set (mr_declaredModels r) \<union> set (mr_requiredModels r)) in
     sorted_wrt (<) (im_affectedModels impact)
     \<and> set (im_affectedModels impact) = models before \<union> models after
     \<and> (im_invalidateParser impact \<longleftrightarrow> ur_kind update \<in> {ContentChanged, Reintroduced})
     \<and> (im_invalidateAllRoots impact \<longleftrightarrow> ur_kind update = Added
          \<and> (\<forall>r. after = Some r \<longrightarrow> \<not> mr_syntacticallyUsable r \<or> mr_declaredModels r = []))
     \<and> set (im_missingModelsResolved impact) = {m. \<exists>b a. before = Some b \<and> after = Some a
          \<and> m \<in> set (mr_declaredModels b) \<and> m \<notin> set (mr_declaredModels a)}"
  by (auto simp: analyze_def Let_def affected_by_strict split: option.splits)

lemma impact_complete_witness:
  "im_invalidateAllRoots (analyze (default_result\<lparr>ur_kind := Added, ur_accepted := True\<rparr>) None None
     (make_RootAnalysisCache example_root_options))"
  using impact_complete [of "default_result\<lparr>ur_kind := Added, ur_accepted := True\<rparr>" None None
      "make_RootAnalysisCache example_root_options"]
  by (simp add: Let_def)

end
