(* ===== verification/Compilation_Keys.thy ===== *)
theory Compilation_Keys
  imports Root_Analysis_Cache
begin

section \<open>Keys of compilations\<close>

text \<open>
  Model of source/core/CompilationKeys.cpp and source/core/incremental/IncrementalFingerprint.cpp. The
  key of a request and the key of an analysed root are strings built from length-prefixed and
  separated fields. The runtime version (from a generated header) and the text of the built-in
  model are arguments.
\<close>

record CompilerFingerprint =
  fp_compilerVersion :: string
  fp_abiVersion :: u32
  fp_grammarFingerprint :: string
  fp_builtinFingerprint :: string
  fp_semanticRulesFingerprint :: string

definition fingerprint_canonicalString :: "CompilerFingerprint \<Rightarrow> string" where
  "fingerprint_canonicalString f =
     ''compiler='' @ fp_compilerVersion f @ ''|abi='' @ dec (unat (fp_abiVersion f))
     @ ''|grammar='' @ fp_grammarFingerprint f @ ''|builtin='' @ fp_builtinFingerprint f
     @ ''|semantic='' @ fp_semanticRulesFingerprint f"

definition currentCompilerFingerprint :: "string \<Rightarrow> string \<Rightarrow> CompilerFingerprint" where
  "currentCompilerFingerprint version builtin =
     \<lparr>fp_compilerVersion = version, fp_abiVersion = 1,
      fp_grammarFingerprint = ''generated-antlr-v1-recovery-v1'',
      fp_builtinFingerprint = contentHash builtin,
      fp_semanticRulesFingerprint = ''semantic-checker-v1-translation-checker-v1''\<rparr>"

definition sourceIdentity_uri :: "SourceManager \<Rightarrow> string \<Rightarrow> SourceIdentity" where
  "sourceIdentity_uri sources uri = (case SourceManager_identity sources uri of
     Some identity \<Rightarrow> identity
   | None \<Rightarrow> (case SourceManager_get sources uri of
       None \<Rightarrow> default_identity\<lparr>si_uri := uri\<rparr>
     | Some source \<Rightarrow> default_identity\<lparr>si_uri := uri, documentVersion := sb_version source,
         si_contentHash := contentHash (sb_text source), byteLength := length (sb_text source)\<rparr>))"

definition sourceIdentity_buffer :: "SourceManager \<Rightarrow> SourceBuffer \<Rightarrow> SourceIdentity" where
  "sourceIdentity_buffer sources source = (case SourceManager_identity sources (sb_uri source) of
     Some identity \<Rightarrow> identity
   | None \<Rightarrow> default_identity\<lparr>si_uri := sb_uri source, documentVersion := sb_version source,
       si_contentHash := contentHash (sb_text source), byteLength := length (sb_text source)\<rparr>)"

definition flag :: "bool \<Rightarrow> string" where
  "flag b = (if b then ''1'' else ''0'')"

definition string_items :: "string list \<Rightarrow> string" where
  "string_items xs = concat (map (\<lambda>x. netstring x @ '';'') xs)"

definition attribute_item :: "ExternalMetaAttribute \<Rightarrow> string" where
  "attribute_item a = netstring (ea_element a) @ '':'' @ netstring (ea_name a) @ '':''
     @ netstring (ea_value a) @ '';''"

definition requestKey :: "CompilationRequest \<Rightarrow> string" where
  "requestKey request =
     flag (co_autoSearch (rq_options request)) @ '':''
     @ flag (co_warningsAsErrors (rq_options request)) @ '':''
     @ string_items (rq_roots request) @ ''|''
     @ string_items (co_modelDirectories (rq_options request)) @ ''|''
     @ concat (map attribute_item (rq_externalMetaAttributes request))"

definition source_item :: "SourceManager \<Rightarrow> string \<Rightarrow> string" where
  "source_item sources uri =
     (let identity = sourceIdentity_uri sources uri in
      netstring uri @ '':'' @ dec (unat (contentRevision identity)) @ '':''
      @ si_contentHash identity @ '':'' @ dec (byteLength identity) @ '';'')"

definition rootKey :: "string \<Rightarrow> string \<Rightarrow> string \<Rightarrow> string list \<Rightarrow> SourceManager \<Rightarrow> string" where
  "rootKey version builtin base uris sources =
     base @ ''|fingerprint=''
     @ fingerprint_canonicalString (currentCompilerFingerprint version builtin) @ '';''
     @ concat (map (source_item sources) uris)"

subsection \<open>Items that end where they say\<close>

lemma colon_field: "\<not> is_digit CHR '':''"
  by simp

text \<open>Sequences of self-delimiting items, closed by something no item starts with.\<close>

lemma items_inj:
  assumes item: "\<And>x y u v. P x \<Longrightarrow> P y \<Longrightarrow> f x @ u = f y @ v \<Longrightarrow> x = y \<and> u = v"
    and start: "\<And>x. \<exists>c r. f x = c # r \<and> is_digit c"
    and u: "u = [] \<or> \<not> is_digit (hd u)" and v: "v = [] \<or> \<not> is_digit (hd v)"
    and "list_all P xs" and "list_all P ys"
    and "concat (map f xs) @ u = concat (map f ys) @ v"
  shows "xs = ys \<and> u = v"
  using assms(5-7)
proof (induction xs arbitrary: ys)
  case Nil
  show ?case
  proof (cases ys)
    case (Cons y ys')
    then show ?thesis using Nil start [of y] u by auto
  qed (use Nil in simp)
next
  case (Cons x xs)
  show ?case
  proof (cases ys)
    case Nil
    then show ?thesis using Cons.prems start [of x] v by auto
  next
    case (Cons y ys')
    then have "x = y \<and> concat (map f xs) @ u = concat (map f ys') @ v"
      using Cons.prems item [of x y "concat (map f xs) @ u"] by simp
    then show ?thesis using Cons.IH [of ys'] Cons Cons.prems by simp
  qed
qed

lemma list_all_True [simp]: "list_all (\<lambda>_. True) xs"
  by (simp add: list_all_iff)

lemma netstring_item:
  "(netstring x @ '';'') @ u = (netstring y @ '';'') @ v \<Longrightarrow> x = y \<and> u = v"
  "\<exists>c r. netstring x @ '';'' = c # r \<and> is_digit c"
  using netstring_starts_with_digit [of x] by auto

lemma attribute_item_inj: "attribute_item x @ u = attribute_item y @ v \<Longrightarrow> x = y \<and> u = v"
  by (cases x; cases y) (simp add: attribute_item_def)

lemma attribute_item_start: "\<exists>c r. attribute_item x = c # r \<and> is_digit c"
  using netstring_starts_with_digit [of "ea_element x"] by (auto simp: attribute_item_def)

lemma string_items_inj:
  assumes "string_items xs @ CHR ''|'' # u = string_items ys @ CHR ''|'' # v"
  shows "xs = ys \<and> u = v"
  using items_inj [of "\<lambda>_. True" "\<lambda>x. netstring x @ '';''" "CHR ''|'' # u" "CHR ''|'' # v" xs ys,
      OF netstring_item] assms
  by (simp add: string_items_def)

lemma flag_inj [simp]: "flag a @ u = flag b @ v \<longleftrightarrow> a = b \<and> u = v"
  by (auto simp: flag_def)

text \<open>A request key, followed by nothing or by another separator, determines the request.\<close>

lemma requestKey_delimited:
  assumes "requestKey a @ s = requestKey b @ t" and "s = [] \<or> \<not> is_digit (hd s)" and "t = [] \<or> \<not> is_digit (hd t)"
  shows "a = b \<and> s = t"
proof -
  have o: "co_autoSearch (rq_options a) = co_autoSearch (rq_options b)"
      "co_warningsAsErrors (rq_options a) = co_warningsAsErrors (rq_options b)"
    and r: "string_items (rq_roots a) @ CHR ''|'' # string_items (co_modelDirectories (rq_options a)) @ CHR ''|''
        # concat (map attribute_item (rq_externalMetaAttributes a)) @ s
      = string_items (rq_roots b) @ CHR ''|'' # string_items (co_modelDirectories (rq_options b)) @ CHR ''|''
        # concat (map attribute_item (rq_externalMetaAttributes b)) @ t"
    using assms(1) by (auto simp: requestKey_def)
  note d = string_items_inj [OF conjunct2 [OF string_items_inj [OF r]]]
  have "rq_externalMetaAttributes a = rq_externalMetaAttributes b \<and> s = t"
    by (rule items_inj [of "\<lambda>_. True" attribute_item])
       (use attribute_item_inj attribute_item_start assms(2,3) d in simp_all)
  with o d string_items_inj [OF r] show ?thesis
    by (intro conjI CompilationRequest.equality CompilerOptions.equality) simp_all
qed

subsection \<open>Items of sources\<close>

definition content_item :: "string \<times> u64 \<times> string \<times> nat \<Rightarrow> string" where
  "content_item x = (case x of (uri, revision, hash, len) \<Rightarrow>
     netstring uri @ '':'' @ dec (unat revision) @ '':'' @ hash @ '':'' @ dec len @ '';'')"

definition content_of :: "SourceManager \<Rightarrow> string \<Rightarrow> string \<times> u64 \<times> string \<times> nat" where
  "content_of sources uri = (let i = sourceIdentity_uri sources uri in
     (uri, contentRevision i, si_contentHash i, byteLength i))"

lemma source_item_content: "source_item sources = content_item \<circ> content_of sources"
  by (simp add: source_item_def content_item_def content_of_def Let_def fun_eq_iff)

lemma colon_delimited:
  "CHR '':'' \<notin> set s \<Longrightarrow> CHR '':'' \<notin> set t \<Longrightarrow> s @ CHR '':'' # u = t @ CHR '':'' # v \<Longrightarrow> s = t \<and> u = v"
  using prefix_by_predicate [of s "CHR '':''" u t "CHR '':''" v "\<lambda>c. c \<noteq> CHR '':''"] by auto

lemma content_item_inj:
  assumes "CHR '':'' \<notin> set (fst (snd (snd x)))" and "CHR '':'' \<notin> set (fst (snd (snd y)))"
    and "content_item x @ u = content_item y @ v"
  shows "x = y \<and> u = v"
proof -
  obtain a r h n where x: "x = (a, r, h, n)" by (metis prod_cases4)
  obtain b q k l where y: "y = (b, q, k, l)" by (metis prod_cases4)
  have 1: "a = b" "unat r = unat q"
    and 2: "h @ CHR '':'' # dec n @ CHR '';'' # u = k @ CHR '':'' # dec l @ CHR '';'' # v"
    using assms(3) by (simp_all add: x y content_item_def)
  have "h = k \<and> dec n @ CHR '';'' # u = dec l @ CHR '';'' # v"
    by (rule colon_delimited [OF _ _ 2]) (use assms(1,2) in \<open>simp_all add: x y\<close>)
  then show ?thesis using 1 by (simp add: x y word_unat_eq_iff)
qed

lemma content_item_start: "\<exists>c r. content_item x = c # r \<and> is_digit c"
  using netstring_starts_with_digit [of "fst x"] by (cases x) (auto simp: content_item_def)

lemma content_items_inj:
  assumes "list_all (\<lambda>x. CHR '':'' \<notin> set (fst (snd (snd x)))) xs"
    and "list_all (\<lambda>x. CHR '':'' \<notin> set (fst (snd (snd x)))) ys"
    and "concat (map content_item xs) = concat (map content_item ys)"
  shows "xs = ys"
proof -
  have "xs = ys \<and> ([] :: string) = []"
  proof (rule items_inj [where P = "\<lambda>x. CHR '':'' \<notin> set (fst (snd (snd x)))" and f = content_item])
    show "x = y \<and> u = v" if "CHR '':'' \<notin> set (fst (snd (snd x)))" "CHR '':'' \<notin> set (fst (snd (snd y)))"
      "content_item x @ u = content_item y @ v" for x y u v
      using content_item_inj [OF that] .
  qed (use assms content_item_start in simp_all)
  then show ?thesis by simp
qed

lemma hex_of_no_colon: "CHR '':'' \<notin> set (hex_of w n)"
proof (induction w n rule: hex_of.induct)
  case (2 w n)
  have "byte_of (hex_digit (n mod 16)) \<noteq> 58" by (simp add: hex_digit_def)
  then have "hex_digit (n mod 16) \<noteq> CHR '':''" by auto
  then show ?case using 2 by auto
qed simp

lemma hash_no_colon: "CHR '':'' \<notin> set (contentHash s)"
  using hex_of_no_colon by (simp add: contentHash_def hex16_def)

lemma identity_no_colon:
  assumes "manager_inv m"
  shows "CHR '':'' \<notin> set (fst (snd (snd (content_of m u))))"
proof (cases "map_of (sm_sources m) u")
  case None
  then have "map_of (sm_identities m) u = None" using manager_invD(4) [OF assms] by simp
  then show ?thesis
    using None by (simp add: content_of_def Let_def sourceIdentity_uri_def SourceManager_identity_def
        SourceManager_get_def default_identity_def)
next
  case (Some b)
  then obtain i where "map_of (sm_identities m) u = Some i" "describes i b"
    using known_source [OF assms] by blast
  then show ?thesis
    using hash_no_colon by (simp add: content_of_def Let_def sourceIdentity_uri_def SourceManager_identity_def
        describes_def)
qed

subsection \<open>Revisions over a history\<close>

text \<open>Any number of updates and removals of the session's sources.\<close>

inductive manager_steps :: "SourceManager \<Rightarrow> nat \<Rightarrow> SourceManager \<Rightarrow> bool" for m0 where
  refl: "manager_steps m0 0 m0"
| update: "manager_steps m0 n m \<Longrightarrow> SourceManager_update u t v m = Some (r, m') \<Longrightarrow> manager_steps m0 (Suc n) m'"
| remove: "manager_steps m0 n m \<Longrightarrow> SourceManager_remove u m = (ok, m') \<Longrightarrow> manager_steps m0 (Suc n) m'"

lemma manager_steps_reach: "manager_steps m0 n m \<Longrightarrow> manager_reach k m0 \<Longrightarrow> manager_reach (k + n) m"
  by (induction rule: manager_steps.induct) (auto intro: manager_reach.intros)

text \<open>A revision not newer than the start of the history still stands for the bytes it had then.\<close>

definition remembers :: "SourceManager \<Rightarrow> SourceManager \<Rightarrow> bool" where
  "remembers m0 m \<longleftrightarrow> sm_nextContentRevision m0 \<le> sm_nextContentRevision m
     \<and> (\<forall>u i. map_of (sm_identities m) u = Some i \<longrightarrow> contentRevision i \<le> sm_nextContentRevision m0 \<longrightarrow>
          map_option contentRevision (map_of (sm_identities m0) u) = Some (contentRevision i)
          \<and> map_option sb_text (map_of (sm_sources m0) u) = map_option sb_text (map_of (sm_sources m) u))"

lemma remembersD:
  assumes "remembers m0 m" and "map_of (sm_identities m) u = Some i"
    and "contentRevision i \<le> sm_nextContentRevision m0"
  shows "map_option contentRevision (map_of (sm_identities m0) u) = Some (contentRevision i)"
    and "map_option sb_text (map_of (sm_sources m0) u) = map_option sb_text (map_of (sm_sources m) u)"
  using assms by (auto simp: remembers_def)

lemma remembers_update:
  assumes "manager_inv m" and "SourceManager_update u t v m = Some (r, m')"
    and "remembers m0 m" and "sm_nextContentRevision m \<noteq> - 1"
  shows "remembers m0 m'"
  using assms(1,2)
proof (cases rule: update_revision_cases)
  case kept
  show ?thesis
    unfolding remembers_def
  proof (intro conjI allI impI)
    show "sm_nextContentRevision m0 \<le> sm_nextContentRevision m'"
      using assms(3) kept(1) by (simp add: remembers_def)
    fix w i assume i: "map_of (sm_identities m') w = Some i" "contentRevision i \<le> sm_nextContentRevision m0"
    obtain j where j: "map_of (sm_identities m) w = Some j" "contentRevision j = contentRevision i"
      using kept(2) [of w] i(1) by (auto simp: map_option_case split: option.splits)
    show "map_option contentRevision (map_of (sm_identities m0) w) = Some (contentRevision i)"
      using remembersD(1) [OF assms(3) j(1)] i(2) j(2) by simp
    show "map_option sb_text (map_of (sm_sources m0) w) = map_option sb_text (map_of (sm_sources m') w)"
      using remembersD(2) [OF assms(3) j(1)] i(2) j(2) kept(3) [of w] by simp
  qed
next
  case (fresh cur)
  have le: "sm_nextContentRevision m0 \<le> sm_nextContentRevision m" using assms(3) by (simp add: remembers_def)
  have new: "\<not> sm_nextContentRevision m + 1 \<le> sm_nextContentRevision m0"
    using inc_greater_le [OF assms(4) le] by simp
  show ?thesis
    unfolding remembers_def
  proof (intro conjI allI impI)
    show "sm_nextContentRevision m0 \<le> sm_nextContentRevision m'"
      using inc_greater_le [OF assms(4) le] fresh(1) by simp
    fix w i assume i: "map_of (sm_identities m') w = Some i" "contentRevision i \<le> sm_nextContentRevision m0"
    have w: "w \<noteq> u" using i fresh(2,3) new by auto
    then have j: "map_of (sm_identities m) w = Some i" using i(1) fresh(2) by simp
    show "map_option contentRevision (map_of (sm_identities m0) w) = Some (contentRevision i)"
      using remembersD(1) [OF assms(3) j i(2)] .
    show "map_option sb_text (map_of (sm_sources m0) w) = map_option sb_text (map_of (sm_sources m') w)"
      using remembersD(2) [OF assms(3) j i(2)] w fresh by simp
  qed
qed

lemma remembers_remove:
  assumes "SourceManager_remove u m = (ok, m')" and "remembers m0 m"
  shows "remembers m0 m'"
  using assms remove_revisions [OF assms(1)]
  by (auto simp: remembers_def SourceManager_remove_def Let_def split: if_splits option.splits)

lemma manager_steps_remembers:
  assumes "manager_steps m0 n m" and "manager_reach k m0" and "k + n < 2 ^ 64"
  shows "remembers m0 m"
  using assms
proof (induction rule: manager_steps.induct)
  case refl
  then show ?case by (simp add: remembers_def)
next
  case (update n m u t v r m')
  have reach: "manager_reach (k + n) m" using manager_steps_reach [OF update(1) update(4)] .
  have "unat (sm_nextContentRevision m) \<le> k + n"
    using manager_reach_counter [OF reach] update(5) by simp
  then have "sm_nextContentRevision m \<noteq> - 1" using update(5) by (auto simp: unat_max_u64)
  then show ?case using remembers_update [OF manager_reach_inv [OF reach] update(2)] update by simp
next
  case (remove n m u ok m')
  then show ?case using remembers_remove by simp
qed

subsection \<open>Properties\<close>

text \<open>C23. Keys do not collide. Two root keys of the same compiler are equal only if the requests
  are equal, field by field, and the closures list the same sources with the same content
  revision, hash and length.\<close>

theorem rootKey_injective:
  assumes "manager_inv m" and "manager_inv m'"
    and "rootKey version builtin (requestKey q) uris m = rootKey version builtin (requestKey q') uris' m'"
  shows "q = q' \<and> uris = uris'
    \<and> (\<forall>u \<in> set uris. same_content (sourceIdentity_uri m u) (sourceIdentity_uri m' u))"
proof -
  have split: "q = q' \<and> concat (map content_item (map (content_of m) uris))
      = concat (map content_item (map (content_of m') uris'))"
    using requestKey_delimited [OF assms(3) [unfolded rootKey_def]] by (auto simp: source_item_content)
  have contents: "map (content_of m) uris = map (content_of m') uris'"
    by (rule content_items_inj)
       (use conjunct2 [OF split] identity_no_colon [OF assms(1)] identity_no_colon [OF assms(2)]
        in \<open>simp_all add: list_all_iff\<close>)
  have "map fst (map (content_of m) uris) = uris" "map fst (map (content_of m') uris') = uris'"
    by (simp_all add: content_of_def Let_def comp_def)
  then have uris: "uris = uris'" using contents by metis
  then have "content_of m u = content_of m' u" if "u \<in> set uris" for u using contents that by auto
  then show ?thesis using split uris by (auto simp: content_of_def Let_def same_content_def)
qed

theorem rootKey_injective_witness:
  "rootKey ''1'' ''b'' (requestKey \<lparr>rq_roots = [''a;b''], rq_options = \<lparr>co_autoSearch = True,
      co_warningsAsErrors = False, co_modelDirectories = []\<rparr>, rq_externalMetaAttributes = []\<rparr>) [''a''] empty_manager
   \<noteq> rootKey ''1'' ''b'' (requestKey \<lparr>rq_roots = [''a'', ''b''], rq_options = \<lparr>co_autoSearch = True,
      co_warningsAsErrors = False, co_modelDirectories = []\<rparr>, rq_externalMetaAttributes = []\<rparr>) [''a''] empty_manager"
  using rootKey_injective [OF manager_inv_empty manager_inv_empty] by blast

text \<open>C1. A cached root analysis is only reused for unchanged input. Let an entry record the
  identities that its closure had in an earlier state of the session. If, after any sequence of
  updates and removals, a lookup returns that entry, then every source of the closure has the
  bytes it had when the entry was made. (Fewer than \<open>2^64\<close> operations in all.)\<close>

theorem root_hit_same_bytes:
  assumes "manager_reach k m0" and "manager_steps m0 n m" and "k + n < 2 ^ 64"
    and "root_inv c" and "findExact baseKey m c = (Some e, c')"
    and "re_identities e = map (sourceIdentity_uri m0) (re_closureUris e)"
    and "u \<in> set (re_closureUris e)"
    and "SourceManager_contains m0 u"
  shows "map_option sb_text (SourceManager_get m u) = map_option sb_text (SourceManager_get m0 u)"
proof -
  obtain x where x: "entry_matches baseKey m x" "re_closureUris x = re_closureUris e"
      "re_identities x = re_identities e"
  proof (cases rule: findExact_cases [of baseKey m c])
    case (hit key y)
    then show ?thesis using that [of y] find_mem [OF hit(1)] assms(5) by auto
  next
    case miss
    then show ?thesis using assms(5) by simp
  qed
  obtain i where i: "i < length (re_closureUris e)" "re_closureUris e ! i = u"
    using assms(7) by (auto simp: in_set_conv_nth)
  obtain j where j: "SourceManager_identity m u = Some j"
      "contentRevision j = contentRevision (sourceIdentity_uri m0 u)"
    using x i assms(6) by (auto simp: entry_matches_def closure_current_iff same_content_def)
  obtain b where "map_of (sm_sources m0) u = Some b"
    using assms(8) by (auto simp: SourceManager_contains_def)
  from known_source [OF manager_reach_inv [OF assms(1)] this]
  obtain i0 where b: "map_of (sm_identities m0) u = Some i0" by blast
  have "contentRevision i0 \<le> sm_nextContentRevision m0"
    using manager_reach_revisions_ok [OF assms(1)] assms(3) b by (auto simp: revisions_ok_def)
  then have "contentRevision j \<le> sm_nextContentRevision m0"
    using j(2) b by (simp add: sourceIdentity_uri_def SourceManager_identity_def)
  then show ?thesis
    using remembersD(2) [OF manager_steps_remembers [OF assms(2,1,3)], of u j] j(1)
    by (simp add: SourceManager_get_def SourceManager_identity_def)
qed

definition one_source :: SourceManager where
  "one_source = snd (the (SourceManager_update ''u'' ''MODEL'' 1 empty_manager))"

definition one_entry_cache :: RootAnalysisCache where
  "one_entry_cache = \<lparr>rc_options = example_root_options,
     rc_entries = [(''k'', (example_root_entry ''k'' [''u''])
       \<lparr>re_identities := [sourceIdentity_uri one_source ''u'']\<rparr>)],
     rc_retainedBytes = 0, rc_tick = 7, rc_metrics = default_root_metrics\<lparr>rm_entries := 1\<rparr>\<rparr>"

theorem root_hit_same_bytes_witness:
  "map_option sb_text (SourceManager_get one_source ''u'') = Some ''MODEL''"
proof -
  have up: "SourceManager_update ''u'' ''MODEL'' 1 empty_manager = Some (update_new ''u'' ''MODEL'' 1 empty_manager)"
    by (simp add: SourceManager_update_def invalidUri_def empty_manager_def)
  have reach: "manager_reach (Suc 0) one_source"
    by (rule manager_reach.update [OF manager_reach.start, of "''u''" "''MODEL''" 1
          "fst (update_new ''u'' ''MODEL'' 1 empty_manager)"]) (simp add: up one_source_def)
  have src: "SourceManager_get one_source ''u'' = Some \<lparr>sb_uri = ''u'', sb_text = ''MODEL'', sb_version = 1\<rparr>"
    by (simp add: one_source_def up update_new_def Let_def store_buffer_def SourceManager_get_def)
  have id: "SourceManager_identity one_source ''u'' \<noteq> None"
    by (simp add: one_source_def up update_new_def Let_def store_buffer_def SourceManager_identity_def)
  have inv: "root_inv one_entry_cache"
    by (simp add: one_entry_cache_def root_inv_def root.accounted_def root.within_def omap_wf_def
        example_root_entry_def default_root_metrics_def example_root_options_def)
  let ?e = "(example_root_entry ''k'' [''u''])
       \<lparr>re_identities := [sourceIdentity_uri one_source ''u''], re_lastUsedTick := 8\<rparr>"
  have "fst (findExact ''b'' one_source one_entry_cache) = Some ?e"
    using id by (auto simp: findExact_def entry_matches_def one_entry_cache_def example_root_entry_def
        sourceIdentity_uri_def same_content_def Let_def)
  then have "findExact ''b'' one_source one_entry_cache = (Some ?e, snd (findExact ''b'' one_source one_entry_cache))"
    by (simp add: prod_eq_iff)
  from root_hit_same_bytes [OF reach manager_steps.refl _ inv this, of "''u''"] src
  show ?thesis by (simp add: example_root_entry_def SourceManager_contains_def SourceManager_get_def)
qed

end
