(* ===== verification/Compiler_Session.thy ===== *)
theory Compiler_Session
  imports Parsed_Source_Cache Source_Dependency_Index Source_Impact Compilation_Keys
begin

section \<open>The incremental compiler session\<close>

text \<open>
  Model of source/core/CompilerSessionState.cpp, SourceUpdateCoordinator.cpp, SnapshotService.cpp,
  CompilationOrchestrator.cpp and of the facade Compiler.cpp. A session holds the sources, the
  two caches, the two indexes, counters and the trace of the last operation. Every public
  operation runs under one mutex, so operations are atomic steps on the state.

  Arguments stand for what the session calls but does not own: the memory layout, the builder
  (ANTLR parser and snapshot projection), one compilation run (which sources it asks parses
  for, its result and its closure), the semantic snapshot and the clock. They are collected in
  the record \<open>services\<close>.
\<close>

record IncrementalStats =
  stat_sourceAdds :: u64
  stat_sourceRemoves :: u64
  stat_sourceNoOps :: u64
  stat_versionOnlyUpdates :: u64
  stat_contentChanges :: u64
  stat_sourceReintroductions :: u64
  stat_rejectedUpdates :: u64
  stat_parseRequests :: u64
  stat_editorSnapshotRequests :: u64
  stat_strictParserBuilds :: u64
  stat_tolerantParserBuilds :: u64
  stat_strictParserHits :: u64
  stat_tolerantParserHits :: u64
  stat_parserEntries :: u64
  stat_parserRetainedBytes :: u64
  stat_parserBuilds :: u64
  stat_parserHits :: u64
  stat_parserEvictions :: u64
  stat_parserBytes :: u64
  stat_syntaxMaterializations :: u64
  stat_editorMaterializations :: u64
  stat_rootAnalysisHits :: u64
  stat_rootAnalysisMisses :: u64
  stat_rootAnalysisBuilds :: u64
  stat_rootAnalysisEvictions :: u64
  stat_rootEntries :: u64
  stat_rootRetainedBytes :: u64
  stat_invalidatedRootEntries :: u64
  stat_reusedClosureSources :: u64
  stat_reparsedClosureSources :: u64
  stat_compilationInvocations :: u64
  stat_cancelledPlans :: u64
  stat_compileRequests :: u64
  stat_compileExecutions :: u64

record IncrementalTrace =
  tr_operation :: string
  tr_planKind :: string
  tr_roots :: "string list"
  tr_closure :: "string list"
  tr_parserHits :: "string list"
  tr_parserMisses :: "string list"
  tr_strictParserHits :: "string list"
  tr_strictParserBuilds :: "string list"
  tr_tolerantParserHits :: "string list"
  tr_tolerantParserBuilds :: "string list"
  tr_invalidatedRoots :: "string list"
  tr_reasons :: "string list"
  tr_bytesRetained :: nat
  tr_bytesReleased :: nat

record IncrementalCacheSnapshot =
  snap_parserEntries :: u64
  snap_parserRetainedBytes :: u64
  snap_parserEvictions :: u64
  snap_rootEntries :: u64
  snap_rootRetainedBytes :: u64
  snap_rootEvictions :: u64
  snap_parserInvariants :: bool
  snap_rootInvariants :: bool

definition default_stats0 :: IncrementalStats where
  "default_stats0 = \<lparr>
     stat_sourceAdds = 0, stat_sourceRemoves = 0, stat_sourceNoOps = 0, stat_versionOnlyUpdates = 0,
     stat_contentChanges = 0, stat_sourceReintroductions = 0, stat_rejectedUpdates = 0,
     stat_parseRequests = 0, stat_editorSnapshotRequests = 0, stat_strictParserBuilds = 0,
     stat_tolerantParserBuilds = 0, stat_strictParserHits = 0, stat_tolerantParserHits = 0,
     stat_parserEntries = 0, stat_parserRetainedBytes = 0, stat_parserBuilds = 0, stat_parserHits = 0,
     stat_parserEvictions = 0, stat_parserBytes = 0, stat_syntaxMaterializations = 0,
     stat_editorMaterializations = 0, stat_rootAnalysisHits = 0, stat_rootAnalysisMisses = 0,
     stat_rootAnalysisBuilds = 0, stat_rootAnalysisEvictions = 0, stat_rootEntries = 0,
     stat_rootRetainedBytes = 0, stat_invalidatedRootEntries = 0, stat_reusedClosureSources = 0,
     stat_reparsedClosureSources = 0, stat_compilationInvocations = 0, stat_cancelledPlans = 0,
     stat_compileRequests = 0, stat_compileExecutions = 0\<rparr>"

definition default_trace :: IncrementalTrace where
  "default_trace = \<lparr>tr_operation = [], tr_planKind = [], tr_roots = [], tr_closure = [],
     tr_parserHits = [], tr_parserMisses = [], tr_strictParserHits = [], tr_strictParserBuilds = [],
     tr_tolerantParserHits = [], tr_tolerantParserBuilds = [], tr_invalidatedRoots = [],
     tr_reasons = [], tr_bytesRetained = 0, tr_bytesReleased = 0\<rparr>"

record CompilerSessionState =
  ses_sources :: SourceManager
  ses_parsedCache :: ParsedSourceCache
  ses_rootCache :: RootAnalysisCache
  ses_modelIndex :: SourceModelIndex
  ses_dependencyIndex :: SourceDependencyIndex
  ses_stats :: IncrementalStats
  ses_trace :: IncrementalTrace
  ses_compileInvocationCount :: u64

text \<open>A compilation run asks the session for the parses of the sources it visits, in order, and
  returns its result and the URIs of its closure.\<close>

record run_outcome =
  ro_requested :: "SourceBuffer list"
  ro_result :: CompilationResult
  ro_sourceUris :: "string list"

record services =
  sv_layout :: layout
  sv_builder :: "SourceBuffer \<Rightarrow> ParseMode \<Rightarrow> SnapshotBundle"
  sv_missing :: "string \<Rightarrow> ParseMode \<Rightarrow> SnapshotBundle"
  sv_run :: "SourceManager \<Rightarrow> CompilationRequest \<Rightarrow> run_outcome"
  sv_semantic :: "SourceManager \<Rightarrow> CompilationRequest \<Rightarrow> CompilationResult \<Rightarrow> string list
     \<Rightarrow> SyntaxSnapshot list \<Rightarrow> SemanticSnapshot"
  sv_version :: string
  sv_builtin :: string
  sv_timestamp :: string

definition make_session ::
  "ParsedSourceCacheOptions \<Rightarrow> RootAnalysisCacheOptions \<Rightarrow> CompilerSessionState" where
  "make_session parsed root = \<lparr>ses_sources = empty_manager,
     ses_parsedCache = make_ParsedSourceCache parsed, ses_rootCache = make_RootAnalysisCache root,
     ses_modelIndex = empty_model_index, ses_dependencyIndex = empty_dependency_index,
     ses_stats = default_stats0, ses_trace = default_trace, ses_compileInvocationCount = 0\<rparr>"

subsection \<open>Session state\<close>

definition note_parse :: "string \<Rightarrow> ParseMode \<Rightarrow> bool \<Rightarrow> bool \<Rightarrow> IncrementalTrace \<Rightarrow> IncrementalTrace" where
  "note_parse uri mode built hit t =
     (if built then
        let t1 = (if mode = StrictCompiler
          then t\<lparr>tr_strictParserBuilds := tr_strictParserBuilds t @ [uri]\<rparr>
          else t\<lparr>tr_tolerantParserBuilds := tr_tolerantParserBuilds t @ [uri]\<rparr>) in
        t1\<lparr>tr_parserMisses := tr_parserMisses t1 @ [uri]\<rparr>
      else if hit then
        let t1 = (if mode = StrictCompiler
          then t\<lparr>tr_strictParserHits := tr_strictParserHits t @ [uri]\<rparr>
          else t\<lparr>tr_tolerantParserHits := tr_tolerantParserHits t @ [uri]\<rparr>) in
        t1\<lparr>tr_parserHits := tr_parserHits t1 @ [uri]\<rparr>
      else t)"

definition ensureParsed ::
  "services \<Rightarrow> SourceBuffer \<Rightarrow> ParseMode \<Rightarrow> CompilerSessionState
     \<Rightarrow> ParsedSourceCacheEntry \<times> CompilerSessionState" where
  "ensureParsed sv source mode s =
     (let identity = sourceIdentity_buffer (ses_sources s) source;
          before = parsed_metrics (ses_parsedCache s);
          (entry, cache) = getOrBuild (sv_layout sv) (sv_builder sv) source identity mode
            ''generated-grammar-v1'' (ses_parsedCache s);
          after = parsed_metrics cache;
          built = (if mode = StrictCompiler then pm_strictBuilds before < pm_strictBuilds after
                   else pm_tolerantBuilds before < pm_tolerantBuilds after);
          hit = (if mode = StrictCompiler then pm_strictHits before < pm_strictHits after
                 else pm_tolerantHits before < pm_tolerantHits after) in
      (entry, s\<lparr>ses_parsedCache := cache,
         ses_trace := note_parse (sb_uri source) mode built hit (ses_trace s)\<rparr>))"

definition parsedArtifact ::
  "services \<Rightarrow> SourceBuffer \<Rightarrow> CompilerSessionState \<Rightarrow> ParsedSourceArtifactPtr \<times> CompilerSessionState" where
  "parsedArtifact sv source s =
     (let (entry, s') = ensureParsed sv source StrictCompiler s in (pe_artifact entry, s'))"

definition syncCacheStats :: "CompilerSessionState \<Rightarrow> CompilerSessionState" where
  "syncCacheStats s =
     (let parsed = parsed_metrics (ses_parsedCache s); root = root_metrics (ses_rootCache s) in
      s\<lparr>ses_stats := (ses_stats s)\<lparr>
          stat_strictParserBuilds := pm_strictBuilds parsed,
          stat_tolerantParserBuilds := pm_tolerantBuilds parsed,
          stat_strictParserHits := pm_strictHits parsed,
          stat_tolerantParserHits := pm_tolerantHits parsed,
          stat_parserBuilds := pm_strictBuilds parsed + pm_tolerantBuilds parsed,
          stat_parserHits := pm_strictHits parsed + pm_tolerantHits parsed,
          stat_parserEvictions := pm_evictions parsed,
          stat_parserEntries := of_nat (pm_entries parsed),
          stat_parserRetainedBytes := of_nat (pm_retainedBytes parsed),
          stat_parserBytes := of_nat (pm_retainedBytes parsed),
          stat_rootEntries := of_nat (rm_entries root),
          stat_rootRetainedBytes := of_nat (rm_retainedBytes root),
          stat_rootAnalysisEvictions := rm_evictions root\<rparr>,
        ses_trace := (ses_trace s)\<lparr>
          tr_bytesRetained := pm_retainedBytes parsed + rm_retainedBytes root\<rparr>\<rparr>)"

subsection \<open>Updating and removing sources\<close>

definition count_update :: "SourceUpdateKind \<Rightarrow> IncrementalStats \<Rightarrow> IncrementalStats" where
  "count_update kind st = (case kind of
     Added \<Rightarrow> st\<lparr>stat_sourceAdds := stat_sourceAdds st + 1\<rparr>
   | Reintroduced \<Rightarrow> st\<lparr>stat_sourceReintroductions := stat_sourceReintroductions st + 1\<rparr>
   | Unchanged \<Rightarrow> st\<lparr>stat_sourceNoOps := stat_sourceNoOps st + 1\<rparr>
   | VersionOnly \<Rightarrow> st\<lparr>stat_versionOnlyUpdates := stat_versionOnlyUpdates st + 1\<rparr>
   | ContentChanged \<Rightarrow> st\<lparr>stat_contentChanges := stat_contentChanges st + 1\<rparr>
   | Rejected \<Rightarrow> st\<lparr>stat_rejectedUpdates := stat_rejectedUpdates st + 1\<rparr>
   | Removed \<Rightarrow> st)"

definition refresh_indexes ::
  "services \<Rightarrow> SourceUpdateResult \<Rightarrow> CompilerSessionState \<Rightarrow> CompilerSessionState" where
  "refresh_indexes sv result s =
     (case SourceManager_get (ses_sources s) (si_uri (ur_current result)) of
        None \<Rightarrow> s
      | Some source \<Rightarrow>
          if ur_kind result = Unchanged \<or> ur_kind result = VersionOnly then s
          else
            let (entry, s1) = ensureParsed sv source StrictCompiler s in
            case pe_artifact entry of
              None \<Rightarrow> s1
            | Some artifact \<Rightarrow>
                let (modelUpdate, models) = index_replace (ur_current result) (ar_header artifact)
                      (ar_parserDiagnostics artifact = []) (ses_modelIndex s1) in
                s1\<lparr>ses_modelIndex := models,
                   ses_dependencyIndex := replaceSourceDependencies (si_uri (ur_current result))
                     (mr_requiredModels (mu_current modelUpdate)) (ses_dependencyIndex s1)\<rparr>)"

definition touches :: "SourceModelRecord \<Rightarrow> RootAnalysisCacheEntry \<Rightarrow> bool" where
  "touches r entry \<longleftrightarrow> list_ex (\<lambda>model. model \<in> set (re_missingModels entry)
     \<or> model \<in> set (re_resolvedModels entry)) (mr_declaredModels r)"

definition invalidate_roots ::
  "SourceUpdateResult \<Rightarrow> SourceModelRecord option \<Rightarrow> SourceModelRecord option \<Rightarrow> RootAnalysisCache
     \<Rightarrow> RootInvalidationResult \<times> RootAnalysisCache" where
  "invalidate_roots result before after roots =
     (let impact = analyze result before after roots in
      if ur_kind result = ContentChanged \<or> ur_kind result = Reintroduced
      then invalidateBySource (si_uri (ur_current result)) roots
      else if ur_kind result = Added then
        (case after of
           None \<Rightarrow> invalidateIf (\<lambda>_. True) roots
         | Some record \<Rightarrow>
             if im_invalidateAllRoots impact \<or> \<not> mr_syntacticallyUsable record
                \<or> mr_declaredModels record = []
             then invalidateIf (\<lambda>_. True) roots
             else invalidateIf (touches record) roots)
      else (default_invalidation, roots))"

definition accept_update ::
  "services \<Rightarrow> SourceUpdateResult \<Rightarrow> CompilerSessionState \<Rightarrow> CompilerSessionState" where
  "accept_update sv result s =
     (let uri = si_uri (ur_current result);
          (parserReleased, cache) =
            (if ur_kind result = ContentChanged \<or> ur_kind result = Reintroduced
             then invalidateUri uri (ses_parsedCache s) else (0, ses_parsedCache s));
          s1 = s\<lparr>ses_parsedCache := cache\<rparr>;
          before = byUri (ses_modelIndex s1) uri;
          s2 = refresh_indexes sv result s1;
          after = byUri (ses_modelIndex s2) uri;
          (invalidated, roots) = invalidate_roots result before after (ses_rootCache s2) in
      s2\<lparr>ses_rootCache := roots,
         ses_stats := (ses_stats s2)\<lparr>stat_invalidatedRootEntries :=
           stat_invalidatedRootEntries (ses_stats s2) + of_nat (length (iv_invalidatedKeyIds invalidated))\<rparr>,
         ses_trace := (ses_trace s2)\<lparr>
           tr_bytesReleased := tr_bytesReleased (ses_trace s2) + parserReleased + iv_releasedBytes invalidated,
           tr_invalidatedRoots := iv_invalidatedRoots invalidated\<rparr>\<rparr>)"

definition coordinator_update ::
  "services \<Rightarrow> string \<Rightarrow> string \<Rightarrow> u64 \<Rightarrow> CompilerSessionState
     \<Rightarrow> (SourceUpdateResult \<times> CompilerSessionState) option" where
  "coordinator_update sv uri utf8 version s =
     (case SourceManager_update uri utf8 version (ses_sources s) of
        None \<Rightarrow> None
      | Some (result, sources) \<Rightarrow>
          let s1 = s\<lparr>ses_sources := sources,
                ses_trace := default_trace\<lparr>tr_operation := ''updateSource'',
                  tr_reasons := [if si_uri (ur_current result) = [] then ''rejected''
                    else si_uri (ur_current result)]\<rparr>,
                ses_stats := count_update (ur_kind result) (ses_stats s)\<rparr>;
              s2 = (if ur_accepted result then accept_update sv result s1 else s1) in
          Some (result, syncCacheStats s2))"

definition coordinator_remove :: "string \<Rightarrow> CompilerSessionState \<Rightarrow> bool \<times> CompilerSessionState" where
  "coordinator_remove uri s =
     (let s0 = s\<lparr>ses_trace := default_trace\<lparr>tr_operation := ''removeSource'', tr_reasons := [uri]\<rparr>\<rparr>;
          (removed, sources) = SourceManager_remove uri (ses_sources s0) in
      if \<not> removed then (False, s0\<lparr>ses_sources := sources\<rparr>)
      else
        let (parserReleased, cache) = invalidateUri uri (ses_parsedCache s0);
            models = snd (index_remove uri (ses_modelIndex s0));
            deps = removeSource uri (ses_dependencyIndex s0);
            (invalidated, roots) = invalidateIf (\<lambda>_. True) (ses_rootCache s0) in
        (True, syncCacheStats (s0\<lparr>ses_sources := sources, ses_parsedCache := cache,
           ses_modelIndex := models, ses_dependencyIndex := deps, ses_rootCache := roots,
           ses_stats := (ses_stats s0)\<lparr>stat_sourceRemoves := stat_sourceRemoves (ses_stats s0) + 1,
             stat_invalidatedRootEntries := stat_invalidatedRootEntries (ses_stats s0)
               + of_nat (length (iv_invalidatedKeyIds invalidated))\<rparr>,
           ses_trace := (ses_trace s0)\<lparr>
             tr_bytesReleased := parserReleased + iv_releasedBytes invalidated,
             tr_invalidatedRoots := iv_invalidatedRoots invalidated\<rparr>\<rparr>)))"

subsection \<open>Snapshots\<close>

definition snapshot_parse ::
  "services \<Rightarrow> string \<Rightarrow> CompilerSessionState \<Rightarrow> SyntaxSnapshot \<times> CompilerSessionState" where
  "snapshot_parse sv uri s =
     (let s0 = s\<lparr>ses_trace := default_trace\<lparr>tr_operation := ''parse'', tr_roots := [uri]\<rparr>,
            ses_stats := (ses_stats s)\<lparr>stat_parseRequests := stat_parseRequests (ses_stats s) + 1\<rparr>\<rparr> in
      case SourceManager_get (ses_sources s0) uri of
        None \<Rightarrow> (bu_syntax (sv_missing sv uri StrictCompiler), s0)
      | Some source \<Rightarrow>
          let (entry, s1) = ensureParsed sv source StrictCompiler s0;
              s2 = syncCacheStats (s1\<lparr>ses_stats := (ses_stats s1)\<lparr>
                stat_syntaxMaterializations := stat_syntaxMaterializations (ses_stats s1) + 1\<rparr>\<rparr>) in
          ((pe_syntax entry)\<lparr>sy_documentVersion := sb_version source\<rparr>, s2))"

definition snapshot_editor ::
  "services \<Rightarrow> string \<Rightarrow> CompilerSessionState \<Rightarrow> EditorSnapshot \<times> CompilerSessionState" where
  "snapshot_editor sv uri s =
     (let s0 = s\<lparr>ses_trace := default_trace\<lparr>tr_operation := ''editorSnapshot'', tr_roots := [uri]\<rparr>,
            ses_stats := (ses_stats s)\<lparr>
              stat_editorSnapshotRequests := stat_editorSnapshotRequests (ses_stats s) + 1\<rparr>\<rparr> in
      case SourceManager_get (ses_sources s0) uri of
        None \<Rightarrow> (bu_editor (sv_missing sv uri TolerantEditor), s0)
      | Some source \<Rightarrow>
          let (entry, s1) = ensureParsed sv source TolerantEditor s0;
              s2 = syncCacheStats (s1\<lparr>ses_stats := (ses_stats s1)\<lparr>
                stat_editorMaterializations := stat_editorMaterializations (ses_stats s1) + 1\<rparr>\<rparr>) in
          ((pe_editor entry)\<lparr>es_documentVersion := sb_version source\<rparr>, s2))"

subsection \<open>Compilation\<close>

definition retime :: "string \<Rightarrow> string \<Rightarrow> string" where
  "retime timestamp line = (if CHR '' '' \<in> set line
     then rev (dropWhile (\<lambda>c. c \<noteq> CHR '' '') (rev line)) @ timestamp else line)"

fun retime_first :: "string \<Rightarrow> string list \<Rightarrow> string list" where
  "retime_first timestamp [] = []"
| "retime_first timestamp (line # lines) =
     (if starts_with ''inf: ilic completed with '' line then retime timestamp line # lines
      else line # retime_first timestamp lines)"

definition refresh_versions :: "SourceManager \<Rightarrow> CompilationAnalysisResult \<Rightarrow> CompilationAnalysisResult" where
  "refresh_versions sources r = r\<lparr>
     an_semantic := (an_semantic r)\<lparr>se_documentVersions :=
       map (\<lambda>(uri, v). (uri, case SourceManager_get sources uri of None \<Rightarrow> v | Some b \<Rightarrow> sb_version b))
         (se_documentVersions (an_semantic r))\<rparr>,
     an_syntax := map (\<lambda>x. case SourceManager_get sources (sy_uri x) of None \<Rightarrow> x
       | Some b \<Rightarrow> x\<lparr>sy_documentVersion := sb_version b\<rparr>) (an_syntax r)\<rparr>"

definition refresh_transcript :: "string \<Rightarrow> CompilationAnalysisResult \<Rightarrow> CompilationAnalysisResult" where
  "refresh_transcript timestamp r = r\<lparr>an_compilation := (an_compilation r)\<lparr>cr_transcript :=
     rev (retime_first timestamp (rev (cr_transcript (an_compilation r))))\<rparr>\<rparr>"

fun parse_requested :: "services \<Rightarrow> SourceBuffer list \<Rightarrow> CompilerSessionState \<Rightarrow> CompilerSessionState" where
  "parse_requested sv [] s = s"
| "parse_requested sv (b # bs) s = parse_requested sv bs (snd (parsedArtifact sv b s))"

fun collect_syntax ::
  "services \<Rightarrow> string list \<Rightarrow> CompilerSessionState \<Rightarrow> SyntaxSnapshot list \<times> CompilerSessionState" where
  "collect_syntax sv [] s = ([], s)"
| "collect_syntax sv (uri # uris) s =
     (case SourceManager_get (ses_sources s) uri of
        None \<Rightarrow> collect_syntax sv uris s
      | Some source \<Rightarrow>
          let (entry, s1) = ensureParsed sv source StrictCompiler s;
              s2 = s1\<lparr>ses_stats := (ses_stats s1)\<lparr>
                stat_syntaxMaterializations := stat_syntaxMaterializations (ses_stats s1) + 1\<rparr>\<rparr>;
              (rest, s3) = collect_syntax sv uris s2 in
          ((pe_syntax entry)\<lparr>sy_documentVersion := sb_version source\<rparr> # rest, s3))"

definition make_root_entry ::
  "services \<Rightarrow> string \<Rightarrow> string list \<Rightarrow> SourceManager \<Rightarrow> CompilationAnalysisResult \<Rightarrow> RootAnalysisCacheEntry" where
  "make_root_entry sv baseKey uris sources result =
     \<lparr>re_baseKey = baseKey, re_key = rootKey (sv_version sv) (sv_builtin sv) baseKey uris sources,
      re_closureUris = uris, re_identities = map (sourceIdentity_uri sources) uris,
      re_resolvedModels = map cm_name (cr_models (an_compilation result)),
      re_missingModels = cr_missingModels (an_compilation result),
      re_hadMissingModels = (cr_missingModels (an_compilation result) \<noteq> []),
      re_result = result, re_retainedBytes = 0, re_lastUsedTick = 0\<rparr>"

definition serve_cached ::
  "services \<Rightarrow> RootAnalysisCacheEntry \<Rightarrow> CompilerSessionState \<Rightarrow> CompilationAnalysisResult \<times> CompilerSessionState" where
  "serve_cached sv cached s =
     (let result = refresh_transcript (sv_timestamp sv) (refresh_versions (ses_sources s) (re_result cached)) in
      (result, syncCacheStats (s\<lparr>
         ses_stats := (ses_stats s)\<lparr>
           stat_rootAnalysisHits := stat_rootAnalysisHits (ses_stats s) + 1,
           stat_reusedClosureSources := stat_reusedClosureSources (ses_stats s)
             + of_nat (length (re_closureUris cached))\<rparr>,
         ses_trace := (ses_trace s)\<lparr>tr_planKind := ''ExactCacheHit'', tr_closure := re_closureUris cached,
           tr_reasons := tr_reasons (ses_trace s) @ [''root cache hit'']\<rparr>\<rparr>)))"

definition rebuild_root ::
  "services \<Rightarrow> CompilationRequest \<Rightarrow> string \<Rightarrow> CompilerSessionState
     \<Rightarrow> CompilationAnalysisResult \<times> CompilerSessionState" where
  "rebuild_root sv request baseKey s =
     (let s0 = s\<lparr>ses_stats := (ses_stats s)\<lparr>
            stat_rootAnalysisMisses := stat_rootAnalysisMisses (ses_stats s) + 1,
            stat_compileExecutions := stat_compileExecutions (ses_stats s) + 1\<rparr>\<rparr>;
          parserBefore = parsed_metrics (ses_parsedCache s0);
          outcome = sv_run sv (ses_sources s0) request;
          sourceUris = ro_sourceUris outcome;
          s1 = parse_requested sv (ro_requested outcome) s0;
          (syntax, s2) = collect_syntax sv sourceUris s1;
          semantic = sv_semantic sv (ses_sources s2) request (ro_result outcome) sourceUris syntax;
          result = \<lparr>an_compilation = ro_result outcome, an_semantic = semantic, an_syntax = syntax\<rparr>;
          roots = root_insert (sv_layout sv)
            (make_root_entry sv baseKey sourceUris (ses_sources s2) result) (ses_rootCache s2);
          parserAfter = parsed_metrics (ses_parsedCache s2);
          reparsed = unat (pm_strictBuilds parserAfter - pm_strictBuilds parserBefore) in
      (result, syncCacheStats (s2\<lparr>ses_rootCache := roots,
         ses_stats := (ses_stats s2)\<lparr>
           stat_rootAnalysisBuilds := stat_rootAnalysisBuilds (ses_stats s2) + 1,
           stat_reparsedClosureSources := stat_reparsedClosureSources (ses_stats s2) + of_nat reparsed,
           stat_reusedClosureSources := stat_reusedClosureSources (ses_stats s2)
             + of_nat (if reparsed < length sourceUris then length sourceUris - reparsed else 0)\<rparr>,
         ses_trace := (ses_trace s2)\<lparr>tr_planKind := ''RebuildWithParseReuse'', tr_closure := sourceUris,
           tr_reasons := tr_reasons (ses_trace s2) @ [''root cache miss'']\<rparr>\<rparr>)))"

definition orchestrator_compileAndAnalyze ::
  "services \<Rightarrow> CompilationRequest \<Rightarrow> CompilerSessionState
     \<Rightarrow> CompilationAnalysisResult \<times> CompilerSessionState" where
  "orchestrator_compileAndAnalyze sv request s =
     (let s0 = s\<lparr>ses_trace := default_trace\<lparr>tr_operation := ''compileAndAnalyze'',
              tr_roots := rq_roots request\<rparr>,
            ses_compileInvocationCount := ses_compileInvocationCount s + 1,
            ses_stats := (ses_stats s)\<lparr>
              stat_compileRequests := stat_compileRequests (ses_stats s) + 1,
              stat_compilationInvocations := stat_compilationInvocations (ses_stats s) + 1\<rparr>\<rparr>;
          baseKey = requestKey request;
          (found, roots) = findExact baseKey (ses_sources s0) (ses_rootCache s0);
          s1 = s0\<lparr>ses_rootCache := roots\<rparr> in
      case found of
        Some cached \<Rightarrow> serve_cached sv cached s1
      | None \<Rightarrow> rebuild_root sv request baseKey s1)"

definition orchestrator_compile ::
  "services \<Rightarrow> CompilationRequest \<Rightarrow> CompilerSessionState \<Rightarrow> CompilationResult \<times> CompilerSessionState" where
  "orchestrator_compile sv request s =
     (let s0 = s\<lparr>ses_stats := (ses_stats s)\<lparr>
            stat_compileRequests := stat_compileRequests (ses_stats s) + 1,
            stat_compileExecutions := stat_compileExecutions (ses_stats s) + 1,
            stat_compilationInvocations := stat_compilationInvocations (ses_stats s) + 1\<rparr>\<rparr>;
          outcome = sv_run sv (ses_sources s0) request in
      (ro_result outcome, syncCacheStats (parse_requested sv (ro_requested outcome) s0)))"

subsection \<open>The session's interface\<close>

definition updateSource where
  "updateSource sv uri utf8 version s = coordinator_update sv uri utf8 version s"

definition putSource where
  "putSource sv uri utf8 version s = map_option snd (updateSource sv uri utf8 version s)"

definition session_removeSource where
  "session_removeSource uri s = coordinator_remove uri s"

definition session_parse where
  "session_parse sv uri s = snapshot_parse sv uri s"

definition editorSnapshot where
  "editorSnapshot sv uri s = snapshot_editor sv uri s"

definition compileAndAnalyze where
  "compileAndAnalyze sv request s = orchestrator_compileAndAnalyze sv request s"

definition session_analyze where
  "session_analyze sv request s = (let (r, s') = compileAndAnalyze sv request s in (an_semantic r, s'))"

definition session_compile where
  "session_compile sv request s = orchestrator_compile sv request
     (s\<lparr>ses_compileInvocationCount := ses_compileInvocationCount s + 1\<rparr>)"

definition incrementalStats :: "CompilerSessionState \<Rightarrow> IncrementalStats \<times> CompilerSessionState" where
  "incrementalStats s = (let s' = syncCacheStats s in (ses_stats s', s'))"

definition lastIncrementalTrace :: "CompilerSessionState \<Rightarrow> IncrementalTrace" where
  "lastIncrementalTrace s = ses_trace s"

definition incrementalCacheSnapshot :: "CompilerSessionState \<Rightarrow> IncrementalCacheSnapshot" where
  "incrementalCacheSnapshot s =
     (let parsed = parsed_metrics (ses_parsedCache s); root = root_metrics (ses_rootCache s) in
      \<lparr>snap_parserEntries = of_nat (pm_entries parsed),
       snap_parserRetainedBytes = of_nat (pm_retainedBytes parsed),
       snap_parserEvictions = pm_evictions parsed,
       snap_rootEntries = of_nat (rm_entries root),
       snap_rootRetainedBytes = of_nat (rm_retainedBytes root),
       snap_rootEvictions = rm_evictions root,
       snap_parserInvariants = (parsed_checkInvariants (ses_parsedCache s) = None),
       snap_rootInvariants = (root_checkInvariants (ses_rootCache s) = None)\<rparr>)"

definition resetIncrementalStats :: "CompilerSessionState \<Rightarrow> CompilerSessionState" where
  "resetIncrementalStats s = syncCacheStats (s\<lparr>
     ses_parsedCache := parsed_resetMetrics (ses_parsedCache s),
     ses_rootCache := root_resetMetrics (ses_rootCache s), ses_stats := default_stats0\<rparr>)"

definition clearIncrementalCaches :: "CompilerSessionState \<Rightarrow> CompilerSessionState" where
  "clearIncrementalCaches s =
     (let (parsedReleased, parsed) = parsed_clear (ses_parsedCache s);
          (rootReleased, root) = root_clear (ses_rootCache s) in
      syncCacheStats (s\<lparr>ses_parsedCache := parsed, ses_rootCache := root,
        ses_trace := default_trace\<lparr>tr_operation := ''clearIncrementalCaches'',
          tr_bytesReleased := parsedReleased + iv_releasedBytes rootReleased\<rparr>\<rparr>))"

end
