(* ===== verification/Session_Correctness.thy ===== *)
theory Session_Correctness
  imports Compiler_Session
begin

section \<open>Correctness of the session\<close>

text \<open>
  What every sequence of session operations keeps: the invariants of the parts, the agreement
  of the indexes with each other and with the sources, and what the answers of the session
  then mean.
\<close>

definition session_inv :: "services \<Rightarrow> CompilerSessionState \<Rightarrow> bool" where
  "session_inv sv s \<longleftrightarrow> manager_inv (ses_sources s)
     \<and> parsed_inv (sv_builder sv) (ses_parsedCache s) \<and> root_inv (ses_rootCache s)
     \<and> index_inv (ses_modelIndex s) \<and> dependency_inv (ses_dependencyIndex s)
     \<and> required_in (ses_modelIndex s) = required_by (ses_dependencyIndex s)
     \<and> (\<forall>u. byUri (ses_modelIndex s) u \<noteq> None \<longrightarrow> SourceManager_contains (ses_sources s) u)"

lemma session_invD:
  assumes "session_inv sv s"
  shows "manager_inv (ses_sources s)" and "parsed_inv (sv_builder sv) (ses_parsedCache s)"
    and "root_inv (ses_rootCache s)" and "index_inv (ses_modelIndex s)"
    and "dependency_inv (ses_dependencyIndex s)"
    and "required_in (ses_modelIndex s) = required_by (ses_dependencyIndex s)"
    and "byUri (ses_modelIndex s) u \<noteq> None \<Longrightarrow> SourceManager_contains (ses_sources s) u"
  using assms by (auto simp: session_inv_def)

subsection \<open>Frames\<close>

text \<open>Counters and trace do not matter to the invariant.\<close>

lemma session_inv_cong:
  assumes "session_inv sv s" and "ses_sources t = ses_sources s" and "ses_parsedCache t = ses_parsedCache s"
    and "ses_rootCache t = ses_rootCache s" and "ses_modelIndex t = ses_modelIndex s"
    and "ses_dependencyIndex t = ses_dependencyIndex s"
  shows "session_inv sv t"
  using assms by (simp add: session_inv_def)

lemma sync_frame [simp]:
  "ses_sources (syncCacheStats s) = ses_sources s"
  "ses_parsedCache (syncCacheStats s) = ses_parsedCache s"
  "ses_rootCache (syncCacheStats s) = ses_rootCache s"
  "ses_modelIndex (syncCacheStats s) = ses_modelIndex s"
  "ses_dependencyIndex (syncCacheStats s) = ses_dependencyIndex s"
  by (simp_all add: syncCacheStats_def Let_def)

lemma sync_inv [simp]: "session_inv sv (syncCacheStats s) = session_inv sv s"
  by (simp add: session_inv_def)

lemma ensureParsed_frame [simp]:
  "ses_sources (snd (ensureParsed sv b mode s)) = ses_sources s"
  "ses_rootCache (snd (ensureParsed sv b mode s)) = ses_rootCache s"
  "ses_modelIndex (snd (ensureParsed sv b mode s)) = ses_modelIndex s"
  "ses_dependencyIndex (snd (ensureParsed sv b mode s)) = ses_dependencyIndex s"
  "ses_stats (snd (ensureParsed sv b mode s)) = ses_stats s"
  "ses_parsedCache (snd (ensureParsed sv b mode s)) = snd (getOrBuild (sv_layout sv) (sv_builder sv) b
     (sourceIdentity_buffer (ses_sources s) b) mode ''generated-grammar-v1'' (ses_parsedCache s))"
  "fst (ensureParsed sv b mode s) = fst (getOrBuild (sv_layout sv) (sv_builder sv) b
     (sourceIdentity_buffer (ses_sources s) b) mode ''generated-grammar-v1'' (ses_parsedCache s))"
  by (simp_all add: ensureParsed_def Let_def split_beta)

lemma ensureParsed_inv: "session_inv sv s \<Longrightarrow> session_inv sv (snd (ensureParsed sv b mode s))"
  by (simp add: session_inv_def getOrBuild_inv)

lemma ensureParsed_options:
  "session_inv sv s \<Longrightarrow> pc_options (ses_parsedCache (snd (ensureParsed sv b mode s))) = pc_options (ses_parsedCache s)"
  by (simp add: session_inv_def getOrBuild_options)

lemma ensureParsed_result:
  assumes "session_inv sv s"
  shows "\<exists>v. pe_artifact (fst (ensureParsed sv b mode s)) = bu_artifact (sv_builder sv (b\<lparr>sb_version := v\<rparr>) mode)
    \<and> pe_syntax (fst (ensureParsed sv b mode s)) = bu_syntax (sv_builder sv (b\<lparr>sb_version := v\<rparr>) mode)
    \<and> pe_editor (fst (ensureParsed sv b mode s)) = bu_editor (sv_builder sv (b\<lparr>sb_version := v\<rparr>) mode)"
proof -
  note r = getOrBuild_result [OF session_invD(2) [OF assms] surjective_pairing [symmetric],
      of "sv_layout sv" b "sourceIdentity_buffer (ses_sources s) b" mode "''generated-grammar-v1''"]
  show ?thesis using built_by_source [OF r] by simp
qed

subsection \<open>Updates\<close>

lemma refresh_frame [simp]:
  "ses_sources (refresh_indexes sv r s) = ses_sources s"
  "ses_rootCache (refresh_indexes sv r s) = ses_rootCache s"
  by (simp_all add: refresh_indexes_def Let_def split_beta split: option.splits)

lemma index_replace_current:
  "mu_current (fst (index_replace identity header usable i)) = make_record identity header usable"
  by (simp add: index_replace_def Let_def)

lemma byUri_replace:
  "byUri (snd (index_replace identity header usable i)) =
     (byUri i)(si_uri identity \<mapsto> make_record identity header usable)"
proof -
  have "mr_uri (make_record identity header usable) = si_uri identity" by (simp add: make_record_def)
  then show ?thesis
    by (simp add: index_replace_def Let_def byUri_def fun_eq_iff split: option.splits)
qed

lemma byUri_remove: "byUri (snd (index_remove uri i)) = (byUri i)(uri := None)"
  by (auto simp: index_remove_def Let_def byUri_def fun_eq_iff split: option.splits)

lemma refresh_inv:
  assumes "session_inv sv s"
  shows "session_inv sv (refresh_indexes sv r s)"
proof (cases "SourceManager_get (ses_sources s) (si_uri (ur_current r))")
  case None
  then show ?thesis using assms by (simp add: refresh_indexes_def)
next
  case (Some source)
  let ?s = "snd (ensureParsed sv source StrictCompiler s)"
  have inv: "session_inv sv ?s" using assms by (rule ensureParsed_inv)
  show ?thesis
  proof (cases "ur_kind r = Unchanged \<or> ur_kind r = VersionOnly
      \<or> pe_artifact (fst (ensureParsed sv source StrictCompiler s)) = None")
    case True
    then show ?thesis
      using assms inv Some by (auto simp: refresh_indexes_def Let_def split_beta simp del: ensureParsed_frame(7))
  next
    case False
    then obtain a where a: "pe_artifact (fst (ensureParsed sv source StrictCompiler s)) = Some a" by auto
    let ?i = "index_replace (ur_current r) (ar_header a) (ar_parserDiagnostics a = []) (ses_modelIndex ?s)"
    have eq: "refresh_indexes sv r s = ?s\<lparr>ses_modelIndex := snd ?i,
        ses_dependencyIndex := replaceSourceDependencies (si_uri (ur_current r))
          (mr_requiredModels (mu_current (fst ?i))) (ses_dependencyIndex ?s)\<rparr>"
      using Some False a by (simp add: refresh_indexes_def Let_def split_beta del: ensureParsed_frame)
    note d = session_invD [OF inv]
    have "SourceManager_contains (ses_sources ?s) (si_uri (ur_current r))"
      using Some by (simp add: SourceManager_contains_def SourceManager_get_def)
    then show ?thesis
      using d unfolding eq session_inv_def
      by (simp add: index_replace_inv replace_inv index_replace_forward replace_forward
          index_replace_current byUri_replace make_record_def del: ensureParsed_frame)
  qed
qed

lemma invalidate_roots_inv:
  assumes "root_inv c"
  shows "root_inv (snd (invalidate_roots r before after c))"
    and "rc_options (snd (invalidate_roots r before after c)) = rc_options c"
  using assms by (auto simp: invalidate_roots_def invalidateBySource_def Let_def invalidateIf_inv
      split: option.splits)

lemma session_inv_parsed:
  "session_inv sv s \<Longrightarrow> parsed_inv (sv_builder sv) c \<Longrightarrow> session_inv sv (s\<lparr>ses_parsedCache := c\<rparr>)"
  by (simp add: session_inv_def)

lemma session_inv_root: "session_inv sv s \<Longrightarrow> root_inv c \<Longrightarrow> session_inv sv (s\<lparr>ses_rootCache := c\<rparr>)"
  by (simp add: session_inv_def)

lemma invalidateUri_inv: "parsed_inv builder c \<Longrightarrow> parsed_inv builder (snd (invalidateUri uri c))"
  by (simp add: invalidateUri_def invalidate_loop_inv)

text \<open>The parsed cache an accepted update starts from.\<close>

definition parser_invalidated :: "SourceUpdateResult \<Rightarrow> ParsedSourceCache \<Rightarrow> ParsedSourceCache" where
  "parser_invalidated r c = (if ur_kind r = ContentChanged \<or> ur_kind r = Reintroduced
     then snd (invalidateUri (si_uri (ur_current r)) c) else c)"

lemma accept_update_parts:
  fixes sv r s
  defines "s1 \<equiv> s\<lparr>ses_parsedCache := parser_invalidated r (ses_parsedCache s)\<rparr>"
  defines "s2 \<equiv> refresh_indexes sv r s1"
  shows "ses_sources (accept_update sv r s) = ses_sources s"
    and "ses_parsedCache (accept_update sv r s) = ses_parsedCache s2"
    and "ses_modelIndex (accept_update sv r s) = ses_modelIndex s2"
    and "ses_dependencyIndex (accept_update sv r s) = ses_dependencyIndex s2"
    and "ses_rootCache (accept_update sv r s) = snd (invalidate_roots r
      (byUri (ses_modelIndex s) (si_uri (ur_current r))) (byUri (ses_modelIndex s2) (si_uri (ur_current r)))
      (ses_rootCache s))"
  unfolding s2_def s1_def
  by (simp_all add: accept_update_def parser_invalidated_def Let_def split_beta)

lemma accept_update_inv:
  assumes "session_inv sv s"
  shows "session_inv sv (accept_update sv r s)"
proof -
  let ?s1 = "s\<lparr>ses_parsedCache := parser_invalidated r (ses_parsedCache s)\<rparr>"
  let ?s2 = "refresh_indexes sv r ?s1"
  have "session_inv sv ?s1"
    using assms session_invD(2) [OF assms]
    by (intro session_inv_parsed) (simp_all add: parser_invalidated_def invalidateUri_inv)
  then have "session_inv sv ?s2" by (rule refresh_inv)
  then show ?thesis
    unfolding session_inv_def accept_update_parts
    by (simp add: invalidate_roots_inv(1) session_invD(3) [OF assms])
qed

lemma update_contains:
  assumes "manager_inv m" and "SourceManager_update uri utf8 version m = Some (r, m')"
    and "SourceManager_contains m u"
  shows "SourceManager_contains m' u"
proof (cases "u = uri \<and> ur_accepted r")
  case True
  then show ?thesis
    using update_accepted_text [OF assms(1,2)] by (auto simp: SourceManager_contains_def SourceManager_get_def)
next
  case False
  then show ?thesis
    using update_frame(1) [OF assms(1,2), of u] update_rejected_same [OF assms(1,2)] assms(3)
    by (cases "u = uri") (simp_all add: SourceManager_contains_def SourceManager_get_def)
qed

lemma session_inv_sources:
  assumes "session_inv sv s" and "manager_inv m"
    and "\<And>u. SourceManager_contains (ses_sources s) u \<Longrightarrow> SourceManager_contains m u"
  shows "session_inv sv (s\<lparr>ses_sources := m, ses_trace := t, ses_stats := st\<rparr>)"
  using assms by (auto simp: session_inv_def)

lemma coordinator_update_inv:
  assumes "session_inv sv s" and "coordinator_update sv uri utf8 version s = Some (r, s')"
  shows "session_inv sv s'"
proof -
  note inv = session_invD(1) [OF assms(1)]
  obtain m where m: "SourceManager_update uri utf8 version (ses_sources s) = Some (r, m)"
    using assms(2) by (auto simp: coordinator_update_def Let_def split: option.splits prod.splits)
  have base: "session_inv sv (s\<lparr>ses_sources := m, ses_trace := t, ses_stats := st\<rparr>)" for t st
    using assms(1) update_inv_step [OF inv m] update_contains [OF inv m] by (rule session_inv_sources)
  then show ?thesis
    using assms(2) m accept_update_inv by (auto simp: coordinator_update_def Let_def split: if_splits)
qed

lemma coordinator_update_total:
  assumes "session_inv sv s"
  shows "\<exists>r s'. coordinator_update sv uri utf8 version s = Some (r, s')"
proof -
  obtain r m where "SourceManager_update uri utf8 version (ses_sources s) = Some (r, m)"
    using update_total [OF session_invD(1) [OF assms]] .
  then show ?thesis by (simp add: coordinator_update_def Let_def)
qed

lemma remove_contains:
  assumes "SourceManager_remove uri m = (ok, m')"
  shows "SourceManager_contains m' u \<longleftrightarrow> u \<noteq> uri \<and> SourceManager_contains m u"
    and "ok \<longleftrightarrow> SourceManager_contains m uri"
  using assms by (auto simp: SourceManager_remove_def SourceManager_contains_def Let_def
      split: if_splits option.splits)

lemma remove_get:
  assumes "SourceManager_remove uri m = (ok, m')" and "u \<noteq> uri"
  shows "SourceManager_get m' u = SourceManager_get m u"
  using assms by (auto simp: SourceManager_remove_def SourceManager_get_def Let_def split: if_splits option.splits)

lemma coordinator_remove_parts:
  assumes "coordinator_remove uri s = (True, s')"
  shows "SourceManager_remove uri (ses_sources s) = (True, ses_sources s')"
    and "ses_parsedCache s' = snd (invalidateUri uri (ses_parsedCache s))"
    and "ses_modelIndex s' = snd (index_remove uri (ses_modelIndex s))"
    and "ses_dependencyIndex s' = removeSource uri (ses_dependencyIndex s)"
    and "ses_rootCache s' = snd (invalidateIf (\<lambda>_. True) (ses_rootCache s))"
  using assms by (auto simp: coordinator_remove_def Let_def split_beta split: if_splits)
    (metis prod.collapse)

lemma coordinator_remove_False:
  assumes "coordinator_remove uri s = (False, s')"
  shows "ses_sources s' = ses_sources s" and "ses_parsedCache s' = ses_parsedCache s"
    and "ses_rootCache s' = ses_rootCache s" and "ses_modelIndex s' = ses_modelIndex s"
    and "ses_dependencyIndex s' = ses_dependencyIndex s" and "\<not> SourceManager_contains (ses_sources s) uri"
  using assms by (auto simp: coordinator_remove_def Let_def split_beta SourceManager_remove_def
      SourceManager_contains_def split: if_splits)

lemma coordinator_remove_inv:
  assumes "session_inv sv s" and "coordinator_remove uri s = (ok, s')"
  shows "session_inv sv s'"
proof (cases ok)
  case True
  note d = session_invD [OF assms(1)]
  have eq: "coordinator_remove uri s = (True, s')" using assms(2) True by simp
  note p = coordinator_remove_parts [OF eq]
  show ?thesis
    unfolding session_inv_def p(2-5)
    using d remove_inv_step [OF d(1) p(1)] remove_contains(1) [OF p(1)]
    by (simp add: invalidateUri_inv index_remove_inv removeSource_inv invalidateIf_inv
        index_remove_forward removeSource_forward byUri_remove)
next
  case False
  then have eq: "coordinator_remove uri s = (False, s')" using assms(2) by simp
  show ?thesis by (rule session_inv_cong [OF assms(1)]) (rule coordinator_remove_False [OF eq])+
qed

subsection \<open>Parsing and compiling\<close>

lemma snapshot_parse_inv: "session_inv sv s \<Longrightarrow> session_inv sv (snd (snapshot_parse sv uri s))"
  by (auto simp: snapshot_parse_def Let_def split_beta session_inv_def getOrBuild_inv split: option.splits)

lemma snapshot_editor_inv: "session_inv sv s \<Longrightarrow> session_inv sv (snd (snapshot_editor sv uri s))"
  by (auto simp: snapshot_editor_def Let_def split_beta session_inv_def getOrBuild_inv split: option.splits)

text \<open>Parsing on demand changes nothing but the parsed cache, counters and trace.\<close>

definition parse_only :: "services \<Rightarrow> CompilerSessionState \<Rightarrow> CompilerSessionState \<Rightarrow> bool" where
  "parse_only sv s t \<longleftrightarrow> ses_sources t = ses_sources s \<and> ses_rootCache t = ses_rootCache s
     \<and> ses_modelIndex t = ses_modelIndex s \<and> ses_dependencyIndex t = ses_dependencyIndex s
     \<and> (session_inv sv s \<longrightarrow> session_inv sv t
        \<and> pc_options (ses_parsedCache t) = pc_options (ses_parsedCache s))"

lemma parse_only_refl: "parse_only sv s s"
  by (simp add: parse_only_def)

lemma parse_only_trans: "parse_only sv s t \<Longrightarrow> parse_only sv t u \<Longrightarrow> parse_only sv s u"
  by (auto simp: parse_only_def)

lemma parse_only_stats: "parse_only sv s t \<Longrightarrow> parse_only sv s (t\<lparr>ses_stats := st\<rparr>)"
  by (auto simp: parse_only_def elim: session_inv_cong)

lemma ensureParsed_only: "parse_only sv s (snd (ensureParsed sv b mode s))"
  unfolding parse_only_def using ensureParsed_inv ensureParsed_options by (auto simp del: ensureParsed_frame(6))

lemma parse_requested_only: "parse_only sv s (parse_requested sv bs s)"
proof (induction sv bs s rule: parse_requested.induct)
  case (2 sv b bs s)
  have "parse_only sv s (snd (parsedArtifact sv b s))"
    using ensureParsed_only [of sv s b StrictCompiler] by (simp add: parsedArtifact_def split_beta)
  then show ?case using 2 parse_only_trans by fastforce
qed (simp add: parse_only_refl)

lemma collect_syntax_only: "parse_only sv s (snd (collect_syntax sv uris s))"
proof (induction uris arbitrary: s)
  case (Cons uri uris)
  show ?case
  proof (cases "SourceManager_get (ses_sources s) uri")
    case None
    then show ?thesis using Cons by simp
  next
    case (Some b)
    let ?s = "snd (ensureParsed sv b StrictCompiler s)"
    let ?t = "?s\<lparr>ses_stats := (ses_stats ?s)\<lparr>
      stat_syntaxMaterializations := stat_syntaxMaterializations (ses_stats ?s) + 1\<rparr>\<rparr>"
    have "parse_only sv s ?t" by (intro parse_only_stats ensureParsed_only)
    from parse_only_trans [OF this Cons [of ?t]] show ?thesis
      using Some by (simp add: Let_def split_beta del: ensureParsed_frame)
  qed
qed (simp add: parse_only_refl)


lemma rebuild_root_parts:
  fixes sv request baseKey s
  defines "outcome \<equiv> sv_run sv (ses_sources s) request"
  defines "s2 \<equiv> snd (collect_syntax sv (ro_sourceUris outcome) (parse_requested sv (ro_requested outcome)
      (s\<lparr>ses_stats := (ses_stats s)\<lparr>
            stat_rootAnalysisMisses := stat_rootAnalysisMisses (ses_stats s) + 1,
            stat_compileExecutions := stat_compileExecutions (ses_stats s) + 1\<rparr>\<rparr>)))"
  shows "parse_only sv s s2"
    and "ses_sources (snd (rebuild_root sv request baseKey s)) = ses_sources s"
    and "ses_parsedCache (snd (rebuild_root sv request baseKey s)) = ses_parsedCache s2"
    and "ses_modelIndex (snd (rebuild_root sv request baseKey s)) = ses_modelIndex s"
    and "ses_dependencyIndex (snd (rebuild_root sv request baseKey s)) = ses_dependencyIndex s"
    and "ses_rootCache (snd (rebuild_root sv request baseKey s)) = root_insert (sv_layout sv)
      (make_root_entry sv baseKey (ro_sourceUris outcome) (ses_sources s)
        (fst (rebuild_root sv request baseKey s))) (ses_rootCache s)"
    and "an_compilation (fst (rebuild_root sv request baseKey s)) = ro_result outcome"
proof -
  let ?s = "s\<lparr>ses_stats := (ses_stats s)\<lparr>
            stat_rootAnalysisMisses := stat_rootAnalysisMisses (ses_stats s) + 1,
            stat_compileExecutions := stat_compileExecutions (ses_stats s) + 1\<rparr>\<rparr>"
  show only: "parse_only sv s s2"
    unfolding s2_def
    by (rule parse_only_trans [OF parse_only_stats [OF parse_only_refl]
          parse_only_trans [OF parse_requested_only collect_syntax_only]])
  then have f: "ses_sources s2 = ses_sources s" "ses_rootCache s2 = ses_rootCache s"
    "ses_modelIndex s2 = ses_modelIndex s" "ses_dependencyIndex s2 = ses_dependencyIndex s"
    by (auto simp: parse_only_def)
  have src: "ses_sources (parse_requested sv (ro_requested outcome) ?s) = ses_sources s"
    using parse_requested_only [of sv ?s "ro_requested outcome"] by (simp add: parse_only_def)
  show "ses_sources (snd (rebuild_root sv request baseKey s)) = ses_sources s"
    and "ses_parsedCache (snd (rebuild_root sv request baseKey s)) = ses_parsedCache s2"
    and "ses_modelIndex (snd (rebuild_root sv request baseKey s)) = ses_modelIndex s"
    and "ses_dependencyIndex (snd (rebuild_root sv request baseKey s)) = ses_dependencyIndex s"
    and "ses_rootCache (snd (rebuild_root sv request baseKey s)) = root_insert (sv_layout sv)
      (make_root_entry sv baseKey (ro_sourceUris outcome) (ses_sources s)
        (fst (rebuild_root sv request baseKey s))) (ses_rootCache s)"
    and "an_compilation (fst (rebuild_root sv request baseKey s)) = ro_result outcome"
    using f unfolding s2_def outcome_def by (simp_all add: rebuild_root_def Let_def split_beta)
qed

lemma rebuild_root_inv:
  assumes "session_inv sv s"
  shows "session_inv sv (snd (rebuild_root sv request baseKey s))"
    and "pc_options (ses_parsedCache (snd (rebuild_root sv request baseKey s))) = pc_options (ses_parsedCache s)"
    and "rc_options (ses_rootCache (snd (rebuild_root sv request baseKey s))) = rc_options (ses_rootCache s)"
proof -
  note only = rebuild_root_parts(1) [where sv = sv and request = request and s = s]
  note p = rebuild_root_parts(2-6) [where sv = sv and request = request and baseKey = baseKey and s = s]
  note d = session_invD [OF assms]
  show "session_inv sv (snd (rebuild_root sv request baseKey s))"
    using only assms unfolding session_inv_def p
    by (simp add: parse_only_def session_inv_def root_insert_inv)
  show "pc_options (ses_parsedCache (snd (rebuild_root sv request baseKey s))) = pc_options (ses_parsedCache s)"
    using only assms unfolding p(2) by (simp add: parse_only_def)
  show "rc_options (ses_rootCache (snd (rebuild_root sv request baseKey s))) = rc_options (ses_rootCache s)"
    unfolding p(5) by (rule root_insert_inv(2) [OF d(3)])
qed

lemma serve_cached_frame:
  "ses_sources (snd (serve_cached sv e s)) = ses_sources s"
  "ses_parsedCache (snd (serve_cached sv e s)) = ses_parsedCache s"
  "ses_rootCache (snd (serve_cached sv e s)) = ses_rootCache s"
  "ses_modelIndex (snd (serve_cached sv e s)) = ses_modelIndex s"
  "ses_dependencyIndex (snd (serve_cached sv e s)) = ses_dependencyIndex s"
  by (simp_all add: serve_cached_def Let_def)


lemma compileAndAnalyze_inv:
  assumes "session_inv sv s"
  shows "session_inv sv (snd (orchestrator_compileAndAnalyze sv request s))"
    and "pc_options (ses_parsedCache (snd (orchestrator_compileAndAnalyze sv request s))) = pc_options (ses_parsedCache s)"
    and "rc_options (ses_rootCache (snd (orchestrator_compileAndAnalyze sv request s))) = rc_options (ses_rootCache s)"
proof -
  let ?f = "findExact (requestKey request) (ses_sources s) (ses_rootCache s)"
  have base: "session_inv sv (s\<lparr>ses_trace := t, ses_compileInvocationCount := n, ses_stats := st,
      ses_rootCache := snd ?f\<rparr>)" for t n st
    using assms findExact_inv(1) [OF session_invD(3) [OF assms], of "requestKey request" "ses_sources s"]
    by (simp add: session_inv_def)
  have opts: "rc_options (snd ?f) = rc_options (ses_rootCache s)"
    using findExact_inv(2) [OF session_invD(3) [OF assms]] .
  show "session_inv sv (snd (orchestrator_compileAndAnalyze sv request s))"
  proof (cases "fst ?f")
    case None
    then show ?thesis
      using rebuild_root_inv(1) [OF base]
      by (simp add: orchestrator_compileAndAnalyze_def Let_def split_beta)
  next
    case (Some e)
    then show ?thesis
      using session_inv_cong [OF base serve_cached_frame(1-3) serve_cached_frame(4,5)]
      by (simp add: orchestrator_compileAndAnalyze_def Let_def split_beta)
  qed
  show "pc_options (ses_parsedCache (snd (orchestrator_compileAndAnalyze sv request s))) = pc_options (ses_parsedCache s)"
    and "rc_options (ses_rootCache (snd (orchestrator_compileAndAnalyze sv request s))) = rc_options (ses_rootCache s)"
    using rebuild_root_inv(2,3) [OF base] opts
    by (simp_all add: orchestrator_compileAndAnalyze_def Let_def split_beta serve_cached_frame split: option.split)
qed

lemma compile_inv:
  assumes "session_inv sv s"
  shows "session_inv sv (snd (session_compile sv request s))"
    and "pc_options (ses_parsedCache (snd (session_compile sv request s))) = pc_options (ses_parsedCache s)"
    and "ses_rootCache (snd (session_compile sv request s)) = ses_rootCache s"
proof -
  have base: "session_inv sv (s\<lparr>ses_compileInvocationCount := n, ses_stats := st\<rparr>)" for n st
    using assms by (simp add: session_inv_def)
  show "session_inv sv (snd (session_compile sv request s))"
    and "pc_options (ses_parsedCache (snd (session_compile sv request s))) = pc_options (ses_parsedCache s)"
    and "ses_rootCache (snd (session_compile sv request s)) = ses_rootCache s"
    using parse_requested_only base
    by (simp_all add: session_compile_def orchestrator_compile_def Let_def parse_only_def)
qed

subsection \<open>Every reachable session\<close>

inductive session_reach ::
  "services \<Rightarrow> ParsedSourceCacheOptions \<Rightarrow> RootAnalysisCacheOptions \<Rightarrow> CompilerSessionState \<Rightarrow> bool"
  for sv po ro where
  create: "session_reach sv po ro (make_session po ro)"
| update: "session_reach sv po ro s \<Longrightarrow> updateSource sv uri utf8 version s = Some (r, s') \<Longrightarrow> session_reach sv po ro s'"
| remove: "session_reach sv po ro s \<Longrightarrow> session_removeSource uri s = (ok, s') \<Longrightarrow> session_reach sv po ro s'"
| parse: "session_reach sv po ro s \<Longrightarrow> session_reach sv po ro (snd (session_parse sv uri s))"
| editor: "session_reach sv po ro s \<Longrightarrow> session_reach sv po ro (snd (editorSnapshot sv uri s))"
| analyze: "session_reach sv po ro s \<Longrightarrow> session_reach sv po ro (snd (compileAndAnalyze sv request s))"
| compile: "session_reach sv po ro s \<Longrightarrow> session_reach sv po ro (snd (session_compile sv request s))"
| stats: "session_reach sv po ro s \<Longrightarrow> session_reach sv po ro (snd (incrementalStats s))"
| reset: "session_reach sv po ro s \<Longrightarrow> session_reach sv po ro (resetIncrementalStats s)"
| clear: "session_reach sv po ro s \<Longrightarrow> session_reach sv po ro (clearIncrementalCaches s)"

lemma make_session_inv: "session_inv sv (make_session po ro)"
  by (auto simp: session_inv_def make_session_def manager_inv_empty make_parsed_inv make_root_inv
      empty_model_index_inv [unfolded empty_model_index_def]
      empty_dependency_inv [unfolded empty_dependency_index_def] required_in_def required_by_def directRequiredModels_def
      rev_lookup_def byUri_def empty_model_index_def empty_dependency_index_def)

lemma reset_inv: "session_inv sv s \<Longrightarrow> session_inv sv (resetIncrementalStats s)"
  by (simp add: resetIncrementalStats_def session_inv_def parsed_resetMetrics_inv root_resetMetrics_inv)

lemma clear_inv: "session_inv sv s \<Longrightarrow> session_inv sv (clearIncrementalCaches s)"
  by (simp add: clearIncrementalCaches_def Let_def split_beta session_inv_def parsed_clear_inv root_clear_inv)

lemma session_reach_inv: "session_reach sv po ro s \<Longrightarrow> session_inv sv s"
proof (induction rule: session_reach.induct)
  case create
  show ?case by (rule make_session_inv)
next
  case (update s uri utf8 version r s')
  then show ?case using coordinator_update_inv by (simp add: updateSource_def)
next
  case (remove s uri ok s')
  then show ?case using coordinator_remove_inv by (simp add: session_removeSource_def)
qed (simp_all add: session_parse_def editorSnapshot_def compileAndAnalyze_def incrementalStats_def Let_def
    snapshot_parse_inv snapshot_editor_inv compileAndAnalyze_inv compile_inv reset_inv clear_inv)

subsection \<open>What the caches may hold\<close>

definition contents :: "(string, ParsedSourceCacheEntry) omap \<Rightarrow> (ParsedSourceKey \<times> string) set" where
  "contents m = (\<lambda>x. (pe_key (snd x), pe_sourceBytes (snd x))) ` set m"

lemma contents_assign: "contents (assign k e m) \<subseteq> insert (pe_key e, pe_sourceBytes e) (contents m)"
  using set_assign_subset [of k e m] by (auto simp: contents_def)

lemma parsed_store_contents:
  assumes "parsed.accounted c"
  shows "contents (pc_entries (parsed_store k mode e c)) \<subseteq> insert (pe_key e, pe_sourceBytes e) (contents (pc_entries c))"
proof -
  have er: "contents (erase k (pc_entries c)) \<subseteq> contents (pc_entries c)"
    by (auto simp: contents_def set_erase)
  have ins: "contents (assign k e (erase k (pc_entries c))) \<subseteq> insert (pe_key e, pe_sourceBytes e) (contents (pc_entries c))"
    using contents_assign er by blast
  let ?c1 = "snd (parsed_erase k c)"
  let ?c3 = "?c1\<lparr>pc_metrics := count_build mode (pc_metrics ?c1),
      pc_retainedBytes := pc_retainedBytes ?c1 + pe_retainedBytes e,
      pc_entries := assign k e (erase k (pc_entries c))\<rparr>"
  have "set (pc_entries (parsed_evictUntilWithinBudget ?c3)) \<subseteq> set (pc_entries ?c3)"
    by (rule parsed.evict_subset [OF parsed_store_inserted [OF assms]])
  then have "contents (pc_entries (parsed_evictUntilWithinBudget ?c3)) \<subseteq> contents (assign k e (erase k (pc_entries c)))"
    by (auto simp: contents_def)
  then show ?thesis
    using ins er
    by (auto simp: parsed_store_def Let_def publish_sizes_def count_eviction_def parsed_erase_frame)
qed

lemma getOrBuild_contents:
  assumes "parsed_inv builder c"
  shows "contents (pc_entries (snd (getOrBuild L builder b identity mode g c)))
    \<subseteq> insert (parsed_key b identity mode g, sb_text b) (contents (pc_entries c))"
proof (cases rule: getOrBuild_cases [of c b identity mode g L builder])
  case (hit e)
  have "(pe_key e, pe_sourceBytes e) \<in> contents (pc_entries c)"
    using lookup_in_set [OF hit(1)] by (force simp: contents_def)
  then show ?thesis
    using hit contents_assign [of _ "e\<lparr>pe_lastUsedTick := pc_tick c + 1\<rparr>" "pc_entries c"]
    by (auto simp: parsed_hit_def Let_def)
next
  case (build e)
  then show ?thesis
    using parsed_store_contents [OF parsed_invD(1) [OF parsed_tick_inv [OF assms]]] by fastforce
qed

lemma refresh_contents:
  assumes "session_inv sv s"
  shows "contents (pc_entries (ses_parsedCache (refresh_indexes sv r s))) \<subseteq> contents (pc_entries (ses_parsedCache s))
    \<union> {(key, bytes) | key bytes b. SourceManager_get (ses_sources s) (si_uri (ur_current r)) = Some b
         \<and> pk_uri key = sb_uri b \<and> bytes = sb_text b}"
proof -
  have sub: "contents (pc_entries (ses_parsedCache (snd (ensureParsed sv b StrictCompiler s))))
      \<subseteq> insert (parsed_key b (sourceIdentity_buffer (ses_sources s) b) StrictCompiler ''generated-grammar-v1'', sb_text b)
          (contents (pc_entries (ses_parsedCache s)))" for b
    using getOrBuild_contents [OF session_invD(2) [OF assms]] by simp
  show ?thesis
  proof (cases "SourceManager_get (ses_sources s) (si_uri (ur_current r))")
    case None
    then show ?thesis by (simp add: refresh_indexes_def)
  next
    case (Some b)
    have "ses_parsedCache (refresh_indexes sv r s) = ses_parsedCache s
        \<or> ses_parsedCache (refresh_indexes sv r s) = ses_parsedCache (snd (ensureParsed sv b StrictCompiler s))"
      using Some by (auto simp: refresh_indexes_def Let_def split_beta simp del: ensureParsed_frame split: option.split)
    then show ?thesis
    proof
      assume "ses_parsedCache (refresh_indexes sv r s) = ses_parsedCache (snd (ensureParsed sv b StrictCompiler s))"
      then show ?thesis using sub [of b] Some by (auto simp: parsed_key_def simp del: ensureParsed_frame)
    qed simp
  qed
qed

lemma changed_result:
  assumes "manager_inv m" and "SourceManager_update uri utf8 version m = Some (r, m')"
    and "ur_kind r = ContentChanged \<or> ur_kind r = Reintroduced"
  shows "ur_accepted r" and "si_uri (ur_current r) = uri"
proof -
  have "ur_accepted r \<and> si_uri (ur_current r) = uri"
    using assms(1,2)
  proof (cases rule: update_cases)
    case invalid
    then show ?thesis using assms(3) by (simp add: default_result_def)
  next
    case new
    then show ?thesis by (simp add: update_new_def Let_def)
  next
    case (known b i)
    then have "si_uri i = uri" by (simp add: describes_def)
    from known(7) show ?thesis
      by (cases rule: update_known_cases) (use assms(3) \<open>si_uri i = uri\<close> in \<open>auto simp: default_result_def\<close>)
  qed
  then show "ur_accepted r" and "si_uri (ur_current r) = uri" by auto
qed

lemma invalidateIf_kept:
  assumes "root_inv c"
  shows "set (rc_entries (snd (invalidateIf P c))) = {x \<in> set (rc_entries c). \<not> P (snd x)}"
proof -
  note d = root_invD [OF assms]
  show ?thesis
    using invalidateIf_loop_effect [OF d(3) order_refl d(1), of P default_invalidation]
      omap_wf_key_filter [OF d(3), of _ "P \<circ> snd"]
    by (auto simp: invalidateIf_def split_beta simp del: set_map)
qed

lemma invalidateUri_kept:
  assumes "parsed_inv builder c"
  shows "set (pc_entries (snd (invalidateUri uri c))) = {x \<in> set (pc_entries c). pk_uri (pe_key (snd x)) \<noteq> uri}"
proof -
  note d = parsed_invD [OF assms]
  show ?thesis
    using invalidate_loop_effect [OF d(1), of uri "pc_entries c" 0]
      omap_wf_key_filter [OF d(3), of _ "\<lambda>y. pk_uri (pe_key (snd y)) = uri"]
    by (auto simp: invalidateUri_def simp del: set_map)
qed

subsection \<open>Properties\<close>


definition example_services :: services where
  "example_services = \<lparr>sv_layout = sample_layout, sv_builder = example_builder,
     sv_missing = (\<lambda>_ m. \<lparr>bu_syntax = default_syntax, bu_editor = default_editor, bu_artifact = None, bu_mode = m\<rparr>),
     sv_run = (\<lambda>_ _. \<lparr>ro_requested = [], ro_result = an_compilation empty_analysis, ro_sourceUris = []\<rparr>),
     sv_semantic = (\<lambda>_ _ _ _ _. an_semantic empty_analysis), sv_version = ''1'', sv_builtin = ''b'',
     sv_timestamp = ''t''\<rparr>"

definition example_session :: CompilerSessionState where
  "example_session = make_session example_options example_root_options"

lemma example_session_reach: "session_reach example_services example_options example_root_options example_session"
  unfolding example_session_def by (rule session_reach.create)


text \<open>A snapshot is never stale: in every reachable session, parsing a known source gives
  what the parser makes of its current bytes, with the current document version, whatever was
  cached before; the same holds for the editor's snapshot.\<close>

lemma snapshots_are_fresh:
  assumes "session_reach sv po ro s" and "SourceManager_get (ses_sources s) uri = Some b"
  shows "\<exists>v w. fst (session_parse sv uri s)
      = (bu_syntax (sv_builder sv (b\<lparr>sb_version := v\<rparr>) StrictCompiler))\<lparr>sy_documentVersion := sb_version b\<rparr>
    \<and> fst (editorSnapshot sv uri s)
      = (bu_editor (sv_builder sv (b\<lparr>sb_version := w\<rparr>) TolerantEditor))\<lparr>es_documentVersion := sb_version b\<rparr>"
proof -
  have inv: "session_inv sv (s\<lparr>ses_trace := t, ses_stats := st\<rparr>)" for t st
    using session_reach_inv [OF assms(1)] by (simp add: session_inv_def)
  let ?p = "s\<lparr>ses_trace := default_trace\<lparr>tr_operation := ''parse'', tr_roots := [uri]\<rparr>,
      ses_stats := (ses_stats s)\<lparr>stat_parseRequests := stat_parseRequests (ses_stats s) + 1\<rparr>\<rparr>"
  let ?e = "s\<lparr>ses_trace := default_trace\<lparr>tr_operation := ''editorSnapshot'', tr_roots := [uri]\<rparr>,
      ses_stats := (ses_stats s)\<lparr>stat_editorSnapshotRequests := stat_editorSnapshotRequests (ses_stats s) + 1\<rparr>\<rparr>"
  have "fst (session_parse sv uri s)
      = (pe_syntax (fst (ensureParsed sv b StrictCompiler ?p)))\<lparr>sy_documentVersion := sb_version b\<rparr>"
    using assms(2) by (simp add: session_parse_def snapshot_parse_def Let_def split_beta del: ensureParsed_frame)
  moreover have "fst (editorSnapshot sv uri s)
      = (pe_editor (fst (ensureParsed sv b TolerantEditor ?e)))\<lparr>es_documentVersion := sb_version b\<rparr>"
    using assms(2) by (simp add: editorSnapshot_def snapshot_editor_def Let_def split_beta del: ensureParsed_frame)
  ultimately show ?thesis
    using ensureParsed_result [OF inv] by metis
qed

lemma updateSource_sources:
  assumes "updateSource sv uri utf8 version s = Some (r, s')"
  shows "SourceManager_update uri utf8 version (ses_sources s) = Some (r, ses_sources s')"
  using assms by (auto simp: updateSource_def coordinator_update_def Let_def accept_update_parts
      split: option.splits prod.splits if_splits)

lemma example_update_sources:
  assumes "updateSource example_services ''u'' ''x'' 1 example_session = Some (r, s')"
  shows "ses_sources s' = snd (update_new ''u'' ''x'' 1 empty_manager)"
  using updateSource_sources [OF assms]
  by (simp add: example_session_def make_session_def SourceManager_update_def invalidUri_def empty_manager_def
      prod_eq_iff)

lemma snapshots_are_fresh_witness:
  "\<exists>s' r. updateSource example_services ''u'' ''x'' 1 example_session = Some (r, s')
     \<and> sy_documentVersion (fst (session_parse example_services ''u'' s')) = 1"
proof -
  obtain r s' where up: "updateSource example_services ''u'' ''x'' 1 example_session = Some (r, s')"
    using coordinator_update_total [OF session_reach_inv [OF example_session_reach]] by (metis updateSource_def)
  have "SourceManager_get (ses_sources s') ''u'' = Some \<lparr>sb_uri = ''u'', sb_text = ''x'', sb_version = 1\<rparr>"
    using example_update_sources [OF up]
    by (simp add: update_new_def Let_def store_buffer_def SourceManager_get_def)
  from snapshots_are_fresh [OF session_reach.update [OF example_session_reach up] this] up
  show ?thesis by auto
qed

text \<open>C9. Nothing stale survives a change of content: after an update that changed the bytes of
  a source, no cached analysis has the source in its closure and every cached parse of the
  source, in either mode, was made from the new bytes.\<close>

theorem content_change_drops_stale:
  assumes "session_reach sv po ro s" and "updateSource sv uri utf8 version s = Some (r, s')"
    and "ur_kind r = ContentChanged"
  shows "(\<forall>(k, e) \<in> set (rc_entries (ses_rootCache s')). uri \<notin> set (re_closureUris e))
    \<and> (\<forall>(k, e) \<in> set (pc_entries (ses_parsedCache s')). pk_uri (pe_key e) = uri \<longrightarrow> pe_sourceBytes e = utf8)
    \<and> map_option sb_text (SourceManager_get (ses_sources s') uri) = Some utf8"
proof -
  have inv: "session_inv sv s" using assms(1) by (rule session_reach_inv)
  note d = session_invD [OF inv]
  obtain m where m: "SourceManager_update uri utf8 version (ses_sources s) = Some (r, m)"
    using assms(2) by (auto simp: updateSource_def coordinator_update_def Let_def split: option.splits prod.splits)
  have r: "ur_accepted r" "si_uri (ur_current r) = uri"
    using changed_result [OF d(1) m] assms(3) by auto
  let ?s = "s\<lparr>ses_sources := m, ses_trace := default_trace\<lparr>tr_operation := ''updateSource'',
      tr_reasons := [if si_uri (ur_current r) = [] then ''rejected'' else si_uri (ur_current r)]\<rparr>, ses_stats := count_update (ur_kind r) (ses_stats s)\<rparr>"
  have s': "s' = syncCacheStats (accept_update sv r ?s)"
    using assms(2) m r(1) by (simp add: updateSource_def coordinator_update_def Let_def)
  have base: "session_inv sv ?s"
    using inv update_inv_step [OF d(1) m] update_contains [OF d(1) m] by (rule session_inv_sources)
  obtain b where b: "SourceManager_get m uri = Some b" "sb_text b = utf8"
    using update_accepted_text [OF d(1) m r(1)] by blast
  have root: "ses_rootCache s' = snd (invalidateBySource uri (ses_rootCache s))"
    by (simp add: s' accept_update_parts invalidate_roots_def assms(3) r(2))
  have "\<forall>(k, e) \<in> set (rc_entries (ses_rootCache s')). uri \<notin> set (re_closureUris e)"
    using invalidateIf_kept [OF d(3), of "\<lambda>e. uri \<in> set (re_closureUris e)"]
    by (auto simp: root invalidateBySource_def)
  moreover have "pe_sourceBytes e = utf8"
    if mem: "(k, e) \<in> set (pc_entries (ses_parsedCache s'))" "pk_uri (pe_key e) = uri" for k e
  proof -
    let ?s1 = "?s\<lparr>ses_parsedCache := parser_invalidated r (ses_parsedCache ?s)\<rparr>"
    have inv1: "session_inv sv ?s1"
      using session_invD(2) [OF base] by (intro session_inv_parsed base) (simp add: parser_invalidated_def invalidateUri_inv)
    have "(pe_key e, pe_sourceBytes e) \<in> contents (pc_entries (ses_parsedCache (refresh_indexes sv r ?s1)))"
      using mem(1) by (force simp: contents_def s' accept_update_parts)
    then consider "(pe_key e, pe_sourceBytes e) \<in> contents (pc_entries (parser_invalidated r (ses_parsedCache s)))"
      | "pe_sourceBytes e = utf8"
      using refresh_contents [OF inv1, of r] b r(2) by auto
    then show ?thesis
    proof cases
      case 1
      then show ?thesis
        using invalidateUri_kept [OF d(2), of uri] mem(2) by (auto simp: contents_def parser_invalidated_def assms(3) r(2))
    qed
  qed
  moreover have "SourceManager_get (ses_sources s') uri = Some b"
    by (simp add: s' accept_update_parts b(1))
  ultimately show ?thesis using b(2) by auto
qed


theorem content_change_drops_stale_witness:
  "\<exists>r s1 r' s2. updateSource example_services ''u'' ''x'' 1 example_session = Some (r, s1)
     \<and> updateSource example_services ''u'' ''yy'' 2 s1 = Some (r', s2) \<and> ur_kind r' = ContentChanged
     \<and> (\<forall>(k, e) \<in> set (rc_entries (ses_rootCache s2)). ''u'' \<notin> set (re_closureUris e))"
proof -
  obtain r s1 where up: "updateSource example_services ''u'' ''x'' 1 example_session = Some (r, s1)"
    using coordinator_update_total [OF session_reach_inv [OF example_session_reach]] by (metis updateSource_def)
  have reach: "session_reach example_services example_options example_root_options s1"
    by (rule session_reach.update [OF example_session_reach up])
  obtain r' s2 where up': "updateSource example_services ''u'' ''yy'' 2 s1 = Some (r', s2)"
    using coordinator_update_total [OF session_reach_inv [OF reach]] by (metis updateSource_def)
  have "ur_kind r' = ContentChanged"
    using updateSource_sources [OF up'] unfolding example_update_sources [OF up]
    by (auto simp: update_new_def Let_def store_buffer_def SourceManager_update_def invalidUri_def
        update_known_def default_result_def)
  then show ?thesis using content_change_drops_stale [OF reach up'] up up' by blast
qed



text \<open>How a source enters the session decides which analyses survive. When a source is added,
  every cached analysis that resolved or missed one of its models is dropped. When the same
  source comes back after a removal, only analyses with the source in their closure are
  dropped: an analysis that resolved the model elsewhere stays, and its next lookup can hit.\<close>

theorem reintroduced_source_keeps_roots:
  assumes "root_inv c" and "(k, e) \<in> set (rc_entries c)"
    and "after = Some record" and "model \<in> set (mr_declaredModels record)"
    and "model \<in> set (re_resolvedModels e) \<or> model \<in> set (re_missingModels e)"
    and "si_uri (ur_current r) \<notin> set (re_closureUris e)"
  shows "(ur_kind r = Added \<longrightarrow> (k, e) \<notin> set (rc_entries (snd (invalidate_roots r before after c))))
    \<and> (ur_kind r = Reintroduced \<longrightarrow> (k, e) \<in> set (rc_entries (snd (invalidate_roots r before after c))))"
proof -
  have "touches record e" using assms(4,5) by (auto simp: touches_def list_ex_iff)
  then show ?thesis
    using assms(2,3,6) by (auto simp: invalidate_roots_def Let_def invalidateBySource_def invalidateIf_kept [OF assms(1)])
qed

theorem reintroduced_source_keeps_roots_witness:
  "rc_entries (snd (invalidate_roots (default_result\<lparr>ur_kind := Reintroduced,
      ur_current := default_identity\<lparr>si_uri := ''v''\<rparr>\<rparr>) None (Some (default_record\<lparr>mr_declaredModels := [''M'']\<rparr>))
      (example_cache\<lparr>rc_entries := [(''k'', (example_root_entry ''k'' [''u''])\<lparr>re_resolvedModels := [''M'']\<rparr>)]\<rparr>))) \<noteq> []"
proof -
  let ?c = "example_cache\<lparr>rc_entries := [(''k'', (example_root_entry ''k'' [''u''])\<lparr>re_resolvedModels := [''M'']\<rparr>)]\<rparr>"
  have "root_inv ?c"
    by (simp add: example_cache_def root_inv_def root.accounted_def root.within_def omap_wf_def
      example_root_entry_def default_root_metrics_def example_root_options_def)
  from reintroduced_source_keeps_roots [OF this, of "''k''" "(example_root_entry ''k'' [''u''])\<lparr>re_resolvedModels := [''M'']\<rparr>"
      "Some (default_record\<lparr>mr_declaredModels := [''M'']\<rparr>)" "default_record\<lparr>mr_declaredModels := [''M'']\<rparr>" "''M''"
      "default_result\<lparr>ur_kind := Reintroduced, ur_current := default_identity\<lparr>si_uri := ''v''\<rparr>\<rparr>" None]
  show ?thesis by (force simp: example_root_entry_def)
qed

end
