(* ===== verification/Session_Snapshots.thy ===== *)
theory Session_Snapshots
  imports Snapshot_Factory Session_Correctness
begin

section \<open>Snapshots of a session\<close>

text \<open>
  The session of Compiler_Session.thy with the snapshot pipeline of Snapshot_Factory.thy as its builder, the way
  CompilerSessionState::ensureParsed and SnapshotService.cpp connect them. The session caches what the pipeline
  built and replaces the document version; the pipeline keeps nothing. The main result is that a client cannot
  tell them apart: in every state the session answers what a fresh parse of the current source answers.

  The version of a source is nothing but a stamp on the snapshots: no range, node, declaration or diagnostic
  depends on it.
\<close>

subsection \<open>Builds of two versions of a source\<close>

lemma mapper_version:
  "make_SourceRangeMapper (b\<lparr>sb_version := v\<rparr>) = (make_SourceRangeMapper b)\<lparr>rm_source := b\<lparr>sb_version := v\<rparr>\<rparr>"
  by (simp add: make_SourceRangeMapper_def Let_def)

definition same_source :: "SourceRangeMapper \<Rightarrow> SourceRangeMapper \<Rightarrow> bool" where
  "same_source r r' \<longleftrightarrow> rm_positions r' = rm_positions r \<and> rm_codepointToByte r' = rm_codepointToByte r
     \<and> sb_uri (rm_source r') = sb_uri (rm_source r) \<and> sb_text (rm_source r') = sb_text (rm_source r)"

lemma same_source_version: "same_source (make_SourceRangeMapper b) (make_SourceRangeMapper (b\<lparr>sb_version := v\<rparr>))"
  by (simp add: same_source_def mapper_version)

lemma same_ranges:
  assumes "same_source r r'"
  shows "mapper_range r' u b e = mapper_range r u b e" and "eof_range r' = eof_range r"
    and "token_range r' t = token_range r t" and "context_range r' x = context_range r x"
    and "tree_token_range r' k = tree_token_range r k" and "tree_context_range r' c = tree_context_range r c"
    and "normalizedUtf8 r' = normalizedUtf8 r"
proof -
  have pos: "positionFromByteOffset r' n = positionFromByteOffset r n" for n
    using assms by (simp add: positionFromByteOffset_def same_source_def)
  show range: "mapper_range r' u b e = mapper_range r u b e" for u b e
    using assms by (simp add: mapper_range_def pos same_source_def)
  have cp: "codepointRange r' i j = codepointRange r i j" for i j
    using assms range by (simp add: codepointRange_def byteOffsetFromCodepointOffset_def same_source_def)
  show eof: "eof_range r' = eof_range r" using assms range by (simp add: eof_range_def same_source_def)
  show tok: "token_range r' t = token_range r t" for t
    by (simp add: token_range_def cp eof split: option.splits)
  show ctx: "context_range r' x = context_range r x" for x
    using assms by (simp add: context_range_def cp eof same_source_def split: option.splits)
  show "tree_token_range r' k = tree_token_range r k" "tree_context_range r' c = tree_context_range r c"
    by (simp_all add: tree_token_range_def tree_context_range_def tok ctx)
  show "normalizedUtf8 r' = normalizedUtf8 r" using assms by (simp add: normalizedUtf8_def same_source_def)
qed

lemma same_append_node:
  "same_source r r' \<Longrightarrow> append_node r' c p h (s\<lparr>sy_documentVersion := v\<rparr>) = (append_node r c p h s)\<lparr>sy_documentVersion := v\<rparr>"
  unfolding append_node_def by (simp only: same_ranges) (simp add: Let_def)

lemma same_append_nodes:
  "same_source r r' \<Longrightarrow>
     appendSyntaxNodes r' p h t (s\<lparr>sy_documentVersion := v\<rparr>) = (appendSyntaxNodes r p h t s)\<lparr>sy_documentVersion := v\<rparr>"
  "same_source r r' \<Longrightarrow>
     append_children r' p h ts (s\<lparr>sy_documentVersion := v\<rparr>) = (append_children r p h ts s)\<lparr>sy_documentVersion := v\<rparr>"
proof (induction r p h t s and r p h ts s rule: appendSyntaxNodes_append_children.induct)
  case (2 r p h c ts s)
  then show ?case using same_append_node [OF 2(2), where c = c and p = p and h = h and s = s and v = v] by simp
qed simp_all

lemma same_syntax_project:
  assumes "same_source r r'"
  shows "syntax_project vo r' root ts (s\<lparr>sy_documentVersion := v\<rparr>) = (syntax_project vo r root ts s)\<lparr>sy_documentVersion := v\<rparr>"
proof -
  have "appendSyntaxTokens vo r' ts (s\<lparr>sy_documentVersion := v\<rparr>) = (appendSyntaxTokens vo r ts s)\<lparr>sy_documentVersion := v\<rparr>"
    by (simp add: appendSyntaxTokens_def same_ranges [OF assms])
  then show ?thesis
    by (simp add: syntax_project_def Let_def same_append_nodes [OF assms] split: option.splits)
qed

definition stamp :: "u64 \<Rightarrow> accumulator \<Rightarrow> accumulator" where
  "stamp v ac = ac\<lparr>ac_snapshot := (ac_snapshot ac)\<lparr>es_documentVersion := v\<rparr>\<rparr>"

lemma same_make_declaration:
  assumes "same_source r r'"
  shows "make_declaration r' c k n e x = make_declaration r c k n e x" and "end_name_error r' d e = end_name_error r d e"
  by (cases e; simp add: make_declaration_def end_name_error_def Let_def same_ranges [OF assms])+

lemma same_addDeclaration:
  "same_source r r' \<Longrightarrow> addDeclaration r' c k n e i (stamp v ac) = map_prod id (stamp v) (addDeclaration r c k n e i ac)"
  unfolding addDeclaration_def by (simp only: same_make_declaration same_ranges) (simp add: stamp_def Let_def)

lemma same_addReference:
  "same_source r r' \<Longrightarrow> addReference r' c k t i (stamp v ac) = stamp v (addReference r c k t i ac)"
  unfolding addReference_def by (simp only: same_ranges) (cases i; simp add: stamp_def Let_def)

lemma same_addImport: "addImport x (stamp v ac) = stamp v (addImport x ac)"
  by (simp add: addImport_def stamp_def)

lemma same_addImports: "fold addImport xs (stamp v ac) = stamp v (fold addImport xs ac)"
  by (induction xs arbitrary: ac) (simp_all add: same_addImport)

lemma same_declare_match:
  "same_source r r' \<Longrightarrow> declare_match m r' t c d (stamp v ac)
     = (let (c', d', ac') = declare_match m r t c d ac in (c', d', stamp v ac'))"
  using same_addDeclaration [of r r'] by (simp add: declare_match_def Let_def split_beta split: tree.split option.split)

lemma same_collect_import: "same_source r r' \<Longrightarrow> collect_import r' t (stamp v ac) = stamp v (collect_import r t ac)"
  unfolding collect_import_def import_paths_def
  by (simp only: same_ranges) (simp add: Let_def same_addImport same_addImports split: option.split)

lemma same_collect_path:
  "same_source r r' \<Longrightarrow> collect_path r' ps t d (stamp v ac) = stamp v (collect_path r ps t d ac)"
  using same_addReference [of r r'] by (simp add: collect_path_def split: tree.split)

lemma same_collect_references:
  "same_source r r' \<Longrightarrow> collect_ili1_references r' t d (stamp v ac) = stamp v (collect_ili1_references r t d ac)"
  using same_addReference [of r r'] by (simp add: collect_ili1_references_def split: tree.split option.split)

lemma same_collect_ili2:
  "same_source r r' \<Longrightarrow> collectIli2Editor r' ps c d t (stamp v ac) = stamp v (collectIli2Editor r ps c d t ac)"
  "same_source r r' \<Longrightarrow> collect_ili2_children r' ps c d ts (stamp v ac) = stamp v (collect_ili2_children r ps c d ts ac)"
proof (induction r ps c d t ac and r ps c d ts ac rule: collectIli2Editor_collect_ili2_children.induct)
  case (2 r ps c d x ts ac)
  show ?case
    using 2(1) [OF HOL.refl HOL.refl prod.collapse prod.collapse HOL.refl 2(2)]
    by (simp add: same_declare_match [OF 2(2)] same_collect_path [OF 2(2)] same_collect_import [OF 2(2)] split_beta Let_def)
qed simp_all

lemma same_collect_ili1:
  "same_source r r' \<Longrightarrow> collectIli1Editor r' c d t (stamp v ac) = stamp v (collectIli1Editor r c d t ac)"
  "same_source r r' \<Longrightarrow> collect_ili1_children r' c d ts (stamp v ac) = stamp v (collect_ili1_children r c d ts ac)"
proof (induction r c d t ac and r c d ts ac rule: collectIli1Editor_collect_ili1_children.induct)
  case (2 r c d x ts ac)
  show ?case
    using 2(1) [OF HOL.refl HOL.refl prod.collapse prod.collapse HOL.refl 2(2)]
    by (simp add: same_declare_match [OF 2(2)] same_collect_references [OF 2(2)] split_beta Let_def)
qed simp_all

lemma same_editor_project:
  assumes "same_source r r'"
  shows "editor_project ili2 r' iv root ds ok rec
    = (editor_project ili2 r iv root ds ok rec)\<lparr>es_documentVersion := sb_version (rm_source r')\<rparr>"
proof -
  let ?v = "sb_version (rm_source r')"
  have "make_accumulator r' iv = stamp ?v (make_accumulator r iv)"
    using assms by (simp add: make_accumulator_def stamp_def same_source_def)
  then have "collect_editor ili2 r' root (make_accumulator r' iv)
      = stamp ?v (collect_editor ili2 r root (make_accumulator r iv))"
    by (simp add: collect_editor_def same_collect_ili2 [OF assms] same_collect_ili1 [OF assms] split: option.split)
  moreover have "markRecovered (stamp v ac) = stamp v (markRecovered ac)"
    "appendSyntaxDiagnostics ds (stamp v ac) = stamp v (appendSyntaxDiagnostics ds ac)"
    "finish ok (stamp v ac) = (finish ok ac)\<lparr>es_documentVersion := v\<rparr>" for v ac
    by (simp_all add: markRecovered_def appendSyntaxDiagnostics_def finish_def stamp_def Let_def)
  ultimately show ?thesis by (simp add: editor_project_def Let_def)
qed

lemma same_syntax_error: "same_source r r' \<Longrightarrow> snapshot_syntaxError r' src e = snapshot_syntaxError r src e"
  unfolding snapshot_syntaxError_def by (simp only: same_ranges)

text \<open>The snapshots of one source at two versions differ in the version alone.\<close>

definition restamped :: "u64 \<Rightarrow> SnapshotBundle \<Rightarrow> SnapshotBundle \<Rightarrow> bool" where
  "restamped v b b' \<longleftrightarrow> bu_syntax b' = (bu_syntax b)\<lparr>sy_documentVersion := v\<rparr>
     \<and> bu_editor b' = (bu_editor b)\<lparr>es_documentVersion := v\<rparr>"

lemma buildParsed_restamped:
  "restamped v (buildParsed L vo ili2 b mode root ts rec le pe)
     (buildParsed L vo ili2 (b\<lparr>sb_version := v\<rparr>) mode root ts rec le pe)"
proof -
  let ?r = "make_SourceRangeMapper b" and ?r' = "make_SourceRangeMapper (b\<lparr>sb_version := v\<rparr>)"
  note same = same_source_version [of b v]
  have refs: "syntax_imports ?r' root = syntax_imports ?r root"
    by (simp add: syntax_imports_def same_ranges [OF same] split: option.split)
  let ?refs = "if ili2 then syntax_imports ?r root else []"
  let ?s = "default_syntax\<lparr>sy_uri := sb_uri b, sy_documentVersion := sb_version b, sy_iliVersion := root_version ili2 root,
     sy_imports := map im_model ?refs, sy_importReferences := ?refs\<rparr>"
  have syn: "syntax_project vo ?r' root ts (?s\<lparr>sy_documentVersion := v\<rparr>)
      = (syntax_project vo ?r root ts ?s)\<lparr>sy_documentVersion := v\<rparr>"
    by (rule same_syntax_project [OF same])
  have editor: "editor_project ili2 ?r' iv root ds ok rec = (editor_project ili2 ?r iv root ds ok rec)\<lparr>es_documentVersion := v\<rparr>"
    for iv ds ok using same_editor_project [OF same] by simp
  have "bu_syntax (buildParsed L vo ili2 (b\<lparr>sb_version := v\<rparr>) mode root ts rec le pe)
      = (bu_syntax (buildParsed L vo ili2 b mode root ts rec le pe))\<lparr>sy_documentVersion := v\<rparr>"
    unfolding buildParsed_def Let_def refs using syn by (cases ili2) (simp_all add: default_syntax_def)
  moreover have "bu_editor (buildParsed L vo ili2 (b\<lparr>sb_version := v\<rparr>) mode root ts rec le pe)
      = (bu_editor (buildParsed L vo ili2 b mode root ts rec le pe))\<lparr>es_documentVersion := v\<rparr>"
    unfolding buildParsed_def Let_def by (simp add: editor)
  ultimately show ?thesis by (simp add: restamped_def)
qed

lemma build_language_cases:
  obtains (failed) e where "build_language L rg ili2 b mode = Inl e"
      "\<And>v. build_language L rg ili2 (b\<lparr>sb_version := v\<rparr>) mode = Inl e"
  | (built) x where "build_language L rg ili2 b mode = Inr x"
      "\<And>v. \<exists>y. build_language L rg ili2 (b\<lparr>sb_version := v\<rparr>) mode = Inr y \<and> restamped v x y"
proof -
  let ?r = "make_SourceRangeMapper b"
  have norm: "normalizedUtf8 (make_SourceRangeMapper (b\<lparr>sb_version := v\<rparr>)) = normalizedUtf8 ?r" for v
    using same_ranges(7) [OF same_source_version] .
  have report: "map (snapshot_syntaxError (make_SourceRangeMapper (b\<lparr>sb_version := v\<rparr>)) ''compiler'')
      = map (snapshot_syntaxError ?r ''compiler'')" for v
    using same_syntax_error [OF same_source_version] by (simp add: fun_eq_iff)
  show ?thesis
  proof (cases "rg_lexer rg ili2 (normalizedUtf8 ?r)")
    case (Inl e)
    then show ?thesis by (intro failed) (simp_all add: build_language_def norm)
  next
    case (Inr p)
    define ts where "ts = (if ili2 \<and> mode = TolerantEditor then recoverBareModelHeaders (fst p) else (fst p, False))"
    show ?thesis
    proof (cases "rg_parser rg ili2 (fst ts)")
      case Inl': (Inl e)
      then show ?thesis
        using Inr by (intro failed) (simp_all add: build_language_def norm split_beta Let_def ts_def)
    next
      case Inr': (Inr q)
      let ?b = "\<lambda>b. buildParsed L (rg_vocabulary rg ili2) ili2 b mode (fst q) (fst ts) (snd ts)
         (map (snapshot_syntaxError ?r ''compiler'') (snd p)) (map (snapshot_syntaxError ?r ''compiler'') (snd q))"
      have "build_language L rg ili2 (b\<lparr>sb_version := v\<rparr>) mode = Inr (?b (b\<lparr>sb_version := v\<rparr>))" for v
        using Inr Inr' by (simp add: build_language_def norm report split_beta Let_def ts_def)
      moreover have "build_language L rg ili2 b mode = Inr (?b b)"
        using Inr Inr' by (simp add: build_language_def split_beta Let_def ts_def)
      ultimately show ?thesis using built buildParsed_restamped by blast
    qed
  qed
qed

lemma failure_restamped:
  "bu_syntax (failure_bundle (b\<lparr>sb_version := v\<rparr>) mode e) = (bu_syntax (failure_bundle b mode e))\<lparr>sy_documentVersion := v\<rparr>"
  "bu_editor (failure_bundle (b\<lparr>sb_version := v\<rparr>) TolerantEditor e)
     = (bu_editor (failure_bundle b TolerantEditor e))\<lparr>es_documentVersion := v\<rparr>"
proof -
  have "eof_range (make_SourceRangeMapper (b\<lparr>sb_version := v\<rparr>)) = eof_range (make_SourceRangeMapper b)"
    by (rule same_ranges [OF same_source_version])
  then show "bu_syntax (failure_bundle (b\<lparr>sb_version := v\<rparr>) mode e)
      = (bu_syntax (failure_bundle b mode e))\<lparr>sy_documentVersion := v\<rparr>"
    and "bu_editor (failure_bundle (b\<lparr>sb_version := v\<rparr>) TolerantEditor e)
      = (bu_editor (failure_bundle b TolerantEditor e))\<lparr>es_documentVersion := v\<rparr>"
    by (simp_all add: failure_bundle_def Let_def empty_bundle_def)
qed

lemma build_source_restamped:
  "bu_syntax (build_source L rg (b\<lparr>sb_version := v\<rparr>) mode) = (bu_syntax (build_source L rg b mode))\<lparr>sy_documentVersion := v\<rparr>"
  "bu_editor (build_source L rg (b\<lparr>sb_version := v\<rparr>) TolerantEditor)
     = (bu_editor (build_source L rg b TolerantEditor))\<lparr>es_documentVersion := v\<rparr>"
proof -
  have lang: "detect (b\<lparr>sb_version := v\<rparr>) = detect b" by (simp add: detect_def)
  show "bu_syntax (build_source L rg (b\<lparr>sb_version := v\<rparr>) mode) = (bu_syntax (build_source L rg b mode))\<lparr>sy_documentVersion := v\<rparr>"
    for mode
  proof (cases rule: build_language_cases [of L rg "detect b \<noteq> Ili1" b mode])
    case (failed e)
    then show ?thesis by (simp add: build_source_def lang failure_restamped)
  next
    case (built x)
    then obtain y where "build_language L rg (detect b \<noteq> Ili1) (b\<lparr>sb_version := v\<rparr>) mode = Inr y" "restamped v x y" by blast
    then show ?thesis using built(1) by (simp add: build_source_def lang restamped_def)
  qed
  show "bu_editor (build_source L rg (b\<lparr>sb_version := v\<rparr>) TolerantEditor)
     = (bu_editor (build_source L rg b TolerantEditor))\<lparr>es_documentVersion := v\<rparr>"
  proof (cases rule: build_language_cases [of L rg "detect b \<noteq> Ili1" b TolerantEditor])
    case (failed e)
    then show ?thesis by (simp add: build_source_def lang failure_restamped)
  next
    case (built x)
    then obtain y where "build_language L rg (detect b \<noteq> Ili1) (b\<lparr>sb_version := v\<rparr>) TolerantEditor = Inr y" "restamped v x y"
      by blast
    then show ?thesis using built(1) by (simp add: build_source_def lang restamped_def)
  qed
qed

lemma build_source_version:
  "sy_documentVersion (bu_syntax (build_source L rg b mode)) = sb_version b"
  "es_documentVersion (bu_editor (build_source L rg b TolerantEditor)) = sb_version b"
proof -
  have b: "b\<lparr>sb_version := sb_version b\<rparr> = b" by simp
  have "bu_syntax (build_source L rg b mode) = (bu_syntax (build_source L rg b mode))\<lparr>sy_documentVersion := sb_version b\<rparr>"
    using build_source_restamped(1) [where b = b and v = "sb_version b"] unfolding b .
  from arg_cong [OF this, of sy_documentVersion]
  show "sy_documentVersion (bu_syntax (build_source L rg b mode)) = sb_version b" by simp
  have "bu_editor (build_source L rg b TolerantEditor)
      = (bu_editor (build_source L rg b TolerantEditor))\<lparr>es_documentVersion := sb_version b\<rparr>"
    using build_source_restamped(2) [where b = b and v = "sb_version b"] unfolding b .
  from arg_cong [OF this, of es_documentVersion]
  show "es_documentVersion (bu_editor (build_source L rg b TolerantEditor)) = sb_version b" by simp
qed

subsection \<open>The session and the pipeline\<close>

definition pipeline_services :: "layout \<Rightarrow> recogniser \<Rightarrow> services \<Rightarrow> services" where
  "pipeline_services L rg sv = sv\<lparr>sv_layout := L, sv_builder := build_source L rg, sv_missing := missing_bundle\<rparr>"

text \<open>C3. Refinement: a session that builds its snapshots with the snapshot pipeline answers, in every state it
  can reach, exactly what the pipeline answers without any cache for the sources of that state: the syntax
  snapshot and the editor snapshot of every URI, of known sources with their current bytes and version and of
  unknown ones. Caching, eviction, versions and the order of calls cannot be observed in a snapshot.\<close>

theorem session_refines_pipeline:
  fixes L rg sv
  defines "ps \<equiv> pipeline_services L rg sv"
  assumes "session_reach ps po ro s"
  shows "fst (session_parse ps uri s) = pipeline_syntax L rg (ses_sources s) uri
    \<and> fst (editorSnapshot ps uri s) = pipeline_editor L rg (ses_sources s) uri"
proof (cases "SourceManager_get (ses_sources s) uri")
  case None
  then show ?thesis
    by (simp add: session_parse_def snapshot_parse_def editorSnapshot_def snapshot_editor_def pipeline_syntax_def
        pipeline_editor_def build_uri_def Let_def ps_def pipeline_services_def)
next
  case (Some b)
  have builder: "sv_builder ps = build_source L rg" by (simp add: ps_def pipeline_services_def)
  obtain v w where "fst (session_parse ps uri s)
        = (bu_syntax (build_source L rg (b\<lparr>sb_version := v\<rparr>) StrictCompiler))\<lparr>sy_documentVersion := sb_version b\<rparr>"
      and "fst (editorSnapshot ps uri s)
        = (bu_editor (build_source L rg (b\<lparr>sb_version := w\<rparr>) TolerantEditor))\<lparr>es_documentVersion := sb_version b\<rparr>"
    using snapshots_are_fresh [OF assms(2) Some] builder by auto
  then show ?thesis
    using Some build_source_version [where L = L and rg = rg and b = b]
    by (simp add: build_source_restamped pipeline_syntax_def pipeline_editor_def build_uri_def)
qed

definition example_recogniser :: recogniser where
  "example_recogniser = \<lparr>rg_lexer = (\<lambda>_ _. Inr ([], [])), rg_parser = (\<lambda>_ _. Inr (None, [])),
     rg_vocabulary = (\<lambda>_. \<lparr>vo_symbolic = (\<lambda>t. t), vo_literal = (\<lambda>t. t)\<rparr>)\<rparr>"

theorem session_refines_pipeline_witness:
  "\<exists>r s. updateSource (pipeline_services sample_layout example_recogniser example_services) ''u'' ''x'' 1 example_session = Some (r, s)
     \<and> fst (session_parse (pipeline_services sample_layout example_recogniser example_services) ''u'' s)
       = pipeline_syntax sample_layout example_recogniser (ses_sources s) ''u''"
proof -
  let ?sv = "pipeline_services sample_layout example_recogniser example_services"
  have new: "session_reach ?sv example_options example_root_options example_session"
    unfolding example_session_def by (rule session_reach.create)
  obtain r s where up: "updateSource ?sv ''u'' ''x'' 1 example_session = Some (r, s)"
    using coordinator_update_total [OF session_reach_inv [OF new]] by (metis updateSource_def)
  from session_refines_pipeline [OF session_reach.update [OF new up]] up show ?thesis by blast
qed

end
