(* ===== verification/Compilation_Source_Store.thy ===== *)
theory Compilation_Source_Store
  imports Source_Range_Mapper
begin

unbundle bit_operations_syntax

section \<open>Sources of one compilation\<close>

text \<open>
  Model of source/core/CompilationSourceStore.cpp: the session's sources overlaid by the
  sources that one compilation reads from the file system, a repository or the built-in
  model. \<open>remember\<close> throws \<open>std::logic_error\<close> when a URI comes back with other bytes; the
  model returns \<open>Inl\<close>. The interface that position queries offer to their clients is
  the locale \<open>positioned_sources\<close>, interpreted on the session's manager and on the store.
\<close>

datatype SourceOrigin = OriginSession | OriginRepository | OriginFileSystem | OriginBuiltin

record CompilationSource =
  cs_buffer :: SourceBuffer
  cs_origin :: SourceOrigin

record CompilationSourceStore =
  st_session :: SourceManager
  st_owned :: "(string, CompilationSource) omap"

datatype store_error = LogicError string

subsection \<open>Positions by counting lead bytes\<close>

definition position_step :: "SourcePosition \<Rightarrow> char \<Rightarrow> SourcePosition" where
  "position_step p c =
     (let value = byte_of c in
      if value = 10 then p\<lparr>sp_line := sp_line p + 1, sp_utf16Column := 0\<rparr>
      else if value AND 0xc0 \<noteq> 0x80 then
        (if value < 0x80 \<or> value AND 0xe0 = 0xc0 \<or> value AND 0xf0 = 0xe0
         then p\<lparr>sp_utf16Column := sp_utf16Column p + 1\<rparr>
         else if value AND 0xf8 = 0xf0 then p\<lparr>sp_utf16Column := sp_utf16Column p + 2\<rparr>
         else p)
      else p)"

definition sourcePosition :: "SourceBuffer \<Rightarrow> nat \<Rightarrow> SourcePosition" where
  "sourcePosition source byteOffset =
     (let offset = min byteOffset (length (sb_text source)) in
      foldl position_step (default_position\<lparr>sp_offset := offset\<rparr>) (take offset (sb_text source)))"

subsection \<open>Operations\<close>

definition store_get :: "CompilationSourceStore \<Rightarrow> string \<Rightarrow> SourceBuffer option" where
  "store_get st uri = (case SourceManager_get (st_session st) uri of
     Some b \<Rightarrow> Some b
   | None \<Rightarrow> map_option cs_buffer (map_of (st_owned st) uri))"

definition store_contains :: "CompilationSourceStore \<Rightarrow> string \<Rightarrow> bool" where
  "store_contains st uri \<longleftrightarrow> store_get st uri \<noteq> None"

definition store_uris :: "CompilationSourceStore \<Rightarrow> string list" where
  "store_uris st = SourceManager_uris (st_session st)
     @ map fst (filter (\<lambda>e. \<not> SourceManager_contains (st_session st) (fst e)) (st_owned st))"

definition remember ::
  "string \<Rightarrow> string \<Rightarrow> SourceOrigin \<Rightarrow> CompilationSourceStore
     \<Rightarrow> store_error + (SourceBuffer \<times> CompilationSourceStore)" where
  "remember uri utf8 origin st = (case SourceManager_get (st_session st) uri of
     Some b \<Rightarrow> Inr (b, st)
   | None \<Rightarrow> (case map_of (st_owned st) uri of
       Some found \<Rightarrow>
         if sb_text (cs_buffer found) \<noteq> utf8
         then Inl (LogicError (''source URI already has different content: '' @ uri))
         else Inr (cs_buffer found, st)
     | None \<Rightarrow>
         let source = \<lparr>cs_buffer = \<lparr>sb_uri = uri, sb_text = utf8, sb_version = 0\<rparr>,
               cs_origin = origin\<rparr> in
         Inr (cs_buffer source, st\<lparr>st_owned := assign uri source (st_owned st)\<rparr>)))"

definition rememberFileSystemSource where
  "rememberFileSystemSource uri utf8 = remember uri utf8 OriginFileSystem"

definition rememberRepositorySource where
  "rememberRepositorySource uri utf8 = remember uri utf8 OriginRepository"

definition rememberBuiltinSource where
  "rememberBuiltinSource uri utf8 = remember uri utf8 OriginBuiltin"

definition store_position :: "CompilationSourceStore \<Rightarrow> string \<Rightarrow> nat \<Rightarrow> SourcePosition" where
  "store_position st uri byteOffset =
     (if SourceManager_contains (st_session st) uri
      then SourceManager_position (st_session st) uri byteOffset
      else case map_of (st_owned st) uri of
        None \<Rightarrow> default_position
      | Some source \<Rightarrow> sourcePosition (cs_buffer source) byteOffset)"

subsection \<open>The interface of position queries\<close>

locale positioned_sources =
  fixes lookup :: "'m \<Rightarrow> string \<Rightarrow> SourceBuffer option"
    and position :: "'m \<Rightarrow> string \<Rightarrow> nat \<Rightarrow> SourcePosition"
  assumes offset_known: "lookup m u = Some b \<Longrightarrow>
      sp_offset (position m u k) = min k (length (sb_text b))"
    and line_known: "lookup m u = Some b \<Longrightarrow>
      sp_line (position m u k) = newlines (take k (sb_text b))"
    and position_unknown: "lookup m u = None \<Longrightarrow> position m u k = default_position"
begin

lemma positions_ordered:
  assumes "lookup m u = Some b" and "j \<le> k"
  shows "sp_offset (position m u j) \<le> sp_offset (position m u k)"
    and "sp_line (position m u j) \<le> sp_line (position m u k)"
    and "sp_offset (position m u k) \<le> length (sb_text b)"
  using assms by (auto simp: offset_known line_known intro: newlines_take_mono)

lemma clamped_pair:
  assumes "lookup m u = Some b"
  shows "sp_offset (position m u (min s (length (sb_text b)))) = min s (length (sb_text b))"
    and "sp_offset (position m u (min (max e (min s (length (sb_text b)))) (length (sb_text b))))
       = max (min e (length (sb_text b))) (min s (length (sb_text b)))"
  using assms by (auto simp: offset_known)

end

interpretation manager: positioned_sources SourceManager_get SourceManager_position
  by unfold_locales
     (auto simp: SourceManager_position_def position_clamped sp_offset_walk sp_line_walk
       default_position_def take_min_length)

lemma position_step_offset [simp]: "sp_offset (position_step p c) = sp_offset p"
  by (simp add: position_step_def Let_def)

lemma position_step_line:
  "sp_line (position_step p c) = sp_line p + (if c = CHR 0x0A then 1 else 0)"
  by (simp add: position_step_def Let_def newline_byte)

lemma foldl_position_offset [simp]: "sp_offset (foldl position_step p s) = sp_offset p"
  by (induction s arbitrary: p) auto

lemma foldl_position_line: "sp_line (foldl position_step p s) = sp_line p + newlines s"
  by (induction s arbitrary: p) (auto simp: position_step_line)

lemma sourcePosition_offset_line:
  "sp_offset (sourcePosition b k) = min k (length (sb_text b))"
  "sp_line (sourcePosition b k) = newlines (take k (sb_text b))"
  by (simp_all add: sourcePosition_def Let_def foldl_position_line default_position_def take_min_length)

interpretation store: positioned_sources store_get store_position
  by unfold_locales
     (auto simp: store_get_def store_position_def SourceManager_contains_def SourceManager_get_def
       manager.offset_known manager.line_known sourcePosition_offset_line split: option.splits)

subsection \<open>The two position algorithms\<close>

function boundary :: "string \<Rightarrow> nat \<Rightarrow> bool" where
  "boundary s k =
     (if k = 0 then True
      else if s = [] \<or> k < dc_width (decode_head s) then False
      else boundary (drop (dc_width (decode_head s)) s) (k - dc_width (decode_head s)))"
  by pat_completeness auto
termination
  by (relation "measure (\<lambda>(s, k). k)") auto

declare boundary.simps [simp del]

lemma continuation_step: "continuation c \<Longrightarrow> position_step p c = p"
  by (auto simp: position_step_def continuation_iff Let_def byte_AND_facts)

lemma ascii_step:
  "byte_of c < 0x80 \<Longrightarrow> foldl position_step p [c] =
     advance \<lparr>dc_width = 1, dc_utf16Width = 1, dc_value = byte_of c\<rparr> p"
  by (simp add: position_step_def Let_def advance_def byte_AND_facts)

lemma lead_step:
  assumes "0xc0 \<le> byte_of c" and "byte_of c < 0xf8" and "dc_value v \<noteq> 10"
    and "dc_utf16Width v = (if byte_of c < 0xf0 then 1 else 2)"
  shows "position_step p c = advance v p"
  using assms by (auto simp: position_step_def Let_def advance_def byte_AND_facts)

lemma two_byte_shape:
  assumes "two_byte s = Some v"
  obtains l a r where "s = l # a # r" "0xc0 \<le> byte_of l" "byte_of l < 0xe0" "continuation a" "v \<noteq> 10"
  using assms by (auto simp: two_byte_def byte_AND_facts split: list.splits if_splits)

lemma three_byte_shape:
  assumes "three_byte s = Some v"
  obtains l a b r where "s = l # a # b # r" "0xe0 \<le> byte_of l" "byte_of l < 0xf0"
    "continuation a" "continuation b" "v \<noteq> 10"
  using assms by (auto simp: three_byte_def byte_AND_facts Let_def split: list.splits if_splits)

lemma four_byte_shape:
  assumes "four_byte s = Some v"
  obtains l a b c r where "s = l # a # b # c # r" "0xf0 \<le> byte_of l" "byte_of l < 0xf8"
    "continuation a" "continuation b" "continuation c" "v \<noteq> 10"
  using assms by (auto simp: four_byte_def byte_AND_facts Let_def split: list.splits if_splits)

lemma head_steps:
  assumes "s \<noteq> []" and "\<not> invalid_head s"
  shows "foldl position_step p (take (dc_width (decode_head s)) s) = advance (decode_head s) p"
proof (cases "byte_of (hd s) < 0x80")
  case True
  with assms(1) show ?thesis
    by (cases s) (simp_all add: ascii_head ascii_step [simplified])
next
  case False
  then have wide: "decode_head s \<noteq> default_codepoint"
    using assms by (auto simp: invalid_head_def default_codepoint_def)
  note dec = decode_head_wide [OF assms(1)]
  consider v where "two_byte s = Some v" | v where "two_byte s = None" "three_byte s = Some v"
    | v where "two_byte s = None" "three_byte s = None" "four_byte s = Some v"
    using wide dec False by (fastforce split: option.splits)
  then show ?thesis
  proof cases
    case (1 v)
    obtain l a r where s: "s = l # a # r" "0xc0 \<le> byte_of l" "byte_of l < 0xe0" "continuation a" "v \<noteq> 10"
      using two_byte_shape [OF 1] .
    have "decode_head s = \<lparr>dc_width = 2, dc_utf16Width = 1, dc_value = v\<rparr>" using dec False 1 by simp
    then show ?thesis using s by (simp add: continuation_step lead_step)
  next
    case (2 v)
    obtain l a b r where s: "s = l # a # b # r" "0xe0 \<le> byte_of l" "byte_of l < 0xf0"
      "continuation a" "continuation b" "v \<noteq> 10"
      using three_byte_shape [OF 2(2)] .
    have "decode_head s = \<lparr>dc_width = 3, dc_utf16Width = 1, dc_value = v\<rparr>" using dec False 2 by simp
    then show ?thesis using s by (simp add: continuation_step lead_step)
  next
    case (3 v)
    obtain l a b c r where s: "s = l # a # b # c # r" "0xf0 \<le> byte_of l" "byte_of l < 0xf8"
      "continuation a" "continuation b" "continuation c" "v \<noteq> 10"
      using four_byte_shape [OF 3(3)] .
    have "decode_head s = \<lparr>dc_width = 4, dc_utf16Width = 2, dc_value = v\<rparr>" using dec False 3 by simp
    then show ?thesis using s by (simp add: continuation_step lead_step)
  qed
qed

text \<open>Positions that differ in the offset only stay so.\<close>

lemma advance_with_offset: "advance v (p\<lparr>sp_offset := k\<rparr>) = (advance v p)\<lparr>sp_offset := k\<rparr>"
  by (simp add: advance_def)

lemma walk_boundary:
  assumes "wellformed s" and "boundary s k" and "k \<le> length s"
  shows "(walk s p k)\<lparr>sp_offset := j\<rparr> = foldl position_step (p\<lparr>sp_offset := j\<rparr>) (take k s)"
  using assms
proof (induction s p k rule: walk.induct)
  case (1 s p k)
  let ?w = "dc_width (decode_head s)"
  show ?case
  proof (cases "s = [] \<or> k < ?w")
    case True
    then have "k = 0"
      using 1(3,4) by (auto simp: boundary.simps [of s k] split: if_splits)
    with True show ?thesis by (subst walk.simps) (auto simp: Let_def)
  next
    case False
    then have k: "?w \<le> k" "k \<noteq> 0" by (auto intro: gr0I less_le_trans [OF decode_head_width_pos])
    have ok: "\<not> invalid_head s" "wellformed (drop ?w s)" "boundary (drop ?w s) (k - ?w)"
      using 1(2,3) False k
      by (auto simp: wellformed.simps [of s] boundary.simps [of s k] split: if_splits)
    have "take k s = take ?w s @ take (k - ?w) (drop ?w s)"
      using k by (metis le_add_diff_inverse take_add)
    then show ?thesis
      using 1(1) [OF _ refl _ ok(2,3)] False ok(1) 1(4)
      by (subst walk.simps) (simp add: Let_def head_steps advance_with_offset)
  qed
qed

subsection \<open>Properties\<close>

text \<open>The compilation store and the session compute positions by different algorithms (a
  byte loop that counts lead bytes, and a table built by decoding). On well-formed UTF-8 they
  give the same position at every code point boundary.\<close>

lemma position_algorithms_agree:
  assumes "wellformed (sb_text source)" and "boundary (sb_text source) k"
    and "k \<le> length (sb_text source)"
  shows "sourcePosition source k = positionFromByteOffset (make_SourceRangeMapper source) k"
proof -
  have "sp_offset (walk (sb_text source) default_position k) = k"
    using assms(3) by (simp add: sp_offset_walk default_position_def)
  then have "(walk (sb_text source) default_position k)\<lparr>sp_offset := k\<rparr>
      = walk (sb_text source) default_position k"
    by (rule sp_offset_self)
  then show ?thesis
    using walk_boundary [OF assms, where p = default_position and j = k] assms(3)
    by (simp add: sourcePosition_def Let_def table_is_walk)
qed

lemma position_algorithms_agree_witness:
  "sourcePosition \<lparr>sb_uri = ''u'', sb_text = [CHR 0xC3, CHR 0xA4, CHR 0x0A, CHR ''b''], sb_version = 0\<rparr> 3
   = positionFromByteOffset (make_SourceRangeMapper
       \<lparr>sb_uri = ''u'', sb_text = [CHR 0xC3, CHR 0xA4, CHR 0x0A, CHR ''b''], sb_version = 0\<rparr>) 3"
proof -
  let ?s = "\<lparr>sb_uri = ''u'', sb_text = [CHR 0xC3, CHR 0xA4, CHR 0x0A, CHR ''b''], sb_version = 0\<rparr>"
  have d: "decode_head [CHR 0xC3, CHR 0xA4, CHR 0x0A, CHR ''b''] =
      \<lparr>dc_width = 2, dc_utf16Width = 1, dc_value = 228\<rparr>"
    by (simp add: decode_head_def two_byte_def continuation_def value2_def push_bit_eq_mult)
  have n: "decode_head [CHR 0x0A, CHR ''b''] = \<lparr>dc_width = 1, dc_utf16Width = 1, dc_value = 10\<rparr>"
    "decode_head ''b'' = \<lparr>dc_width = 1, dc_utf16Width = 1, dc_value = 98\<rparr>"
    by (simp_all add: decode_head_def)
  have "wellformed (sb_text ?s)"
    by (simp add: wellformed.simps [of "[CHR 0xC3, CHR 0xA4, CHR 0x0A, CHR ''b'']"]
        wellformed.simps [of "[CHR 0x0A, CHR ''b'']"] wellformed.simps [of "''b''"]
        wellformed.simps [of "[]"] d n invalid_head_def)
  moreover have "boundary (sb_text ?s) 3"
    by (simp add: boundary.simps [of "[CHR 0xC3, CHR 0xA4, CHR 0x0A, CHR ''b'']"]
        boundary.simps [of "[CHR 0x0A, CHR ''b'']"] boundary.simps [of "''b''"] d n)
  ultimately show ?thesis using position_algorithms_agree [of ?s 3] by simp
qed

text \<open>Overlay semantics of the store: a session source always wins and is never
  replaced; a remembered source is found again with its bytes; remembering a URI again
  succeeds exactly when the bytes are the same, and then changes nothing; other URIs keep
  their buffers.\<close>

lemma remember_semantics:
  "case remember uri bytes origin st of
     Inl e \<Rightarrow> (\<exists>found. SourceManager_get (st_session st) uri = None
        \<and> map_of (st_owned st) uri = Some found \<and> sb_text (cs_buffer found) \<noteq> bytes)
   | Inr (b, st') \<Rightarrow> store_get st' uri = Some b
        \<and> st_session st' = st_session st
        \<and> (SourceManager_get (st_session st) uri = Some b \<or> sb_text b = bytes)
        \<and> (store_get st uri \<noteq> None \<longrightarrow> st' = st)
        \<and> (\<forall>u. u \<noteq> uri \<longrightarrow> store_get st' u = store_get st u)"
  by (auto simp: remember_def store_get_def Let_def split: option.splits)

lemma remember_semantics_witness:
  "remember ''a'' ''y'' OriginBuiltin
     \<lparr>st_session = empty_manager, st_owned = [(''a'', \<lparr>cs_buffer =
        \<lparr>sb_uri = ''a'', sb_text = ''x'', sb_version = 0\<rparr>, cs_origin = OriginBuiltin\<rparr>)]\<rparr>
   = Inl (LogicError ''source URI already has different content: a'')"
  using remember_semantics [where uri = "''a''" and bytes = "''y''" and origin = OriginBuiltin
     and st = "\<lparr>st_session = empty_manager, st_owned = [(''a'', \<lparr>cs_buffer =
        \<lparr>sb_uri = ''a'', sb_text = ''x'', sb_version = 0\<rparr>, cs_origin = OriginBuiltin\<rparr>)]\<rparr>"]
  by (simp add: remember_def SourceManager_get_def empty_manager_def)

end
