(* ===== verification/Diagnostic_Pipeline.thy ===== *)
theory Diagnostic_Pipeline
  imports Diagnostic_Catalog Compilation_Source_Store "HOL-Library.Product_Lexorder" "HOL-Library.Multiset"
begin

section \<open>Publication of diagnostics\<close>

text \<open>
  source/diagnostics/DiagnosticPipeline.cpp and DiagnosticRangeResolver.cpp. Candidates are
  normalised one by one, exact duplicates are dropped, cascades whose cause is present are
  suppressed, the rest is stably sorted and published with statistics. Each step of the source
  that counts something threads the statistics record.
\<close>

subsection \<open>Keys of a diagnostic\<close>

definition rangeKey :: "SourceRange \<Rightarrow> string" where
  "rangeKey r =
     (if \<not> sr_valid r then ''invalid''
      else sr_uri r @ '':'' @ dec (po_byteOffset (sr_start r)) @ '':'' @ dec (po_byteOffset (sr_end r)))"

fun collapse :: "bool \<Rightarrow> string \<Rightarrow> string" where
  "collapse previousSpace [] = []"
| "collapse previousSpace (c # cs) =
     (if c = CHR '' '' then (if previousSpace then collapse True cs else c # collapse True cs)
      else c # collapse False cs)"

definition blank :: "char \<Rightarrow> char" where
  "blank c = (if c = CHR 0x0D \<or> c = CHR 0x0A \<or> is_space c then CHR '' '' else c)"

definition pop_spaces :: "string \<Rightarrow> string" where
  "pop_spaces s = rev (dropWhile (\<lambda>c. c = CHR '' '') (rev s))"

definition normalizedMessage :: "string \<Rightarrow> string" where
  "normalizedMessage s = pop_spaces (collapse False (map blank s))"

definition identity :: "Diagnostic \<Rightarrow> string" where
  "identity d =
     dg_code d @ [CHR 0x1F] @ dec (severityRank (dg_severity d)) @ [CHR 0x1F] @ dg_source d
     @ [CHR 0x1F] @ rangeKey (dg_range d) @ [CHR 0x1F] @ normalizedMessage (dg_message d)
     @ [CHR 0x1F] @ (if dg_treatedAsError d then ''1'' else ''0'')
     @ concat (map (\<lambda>r. [CHR 0x1E] @ rangeKey (ri_range r) @ [CHR 0x1F] @ ri_message r) (dg_related d))
     @ concat (map (\<lambda>n. [CHR 0x1D] @ n) (dg_notes d))"

subsection \<open>Normalisation\<close>

type_synonym counted = "Diagnostic \<times> DiagnosticPipelineStats"

definition count_unknown :: "DiagnosticPipelineStats \<Rightarrow> DiagnosticPipelineStats" where
  "count_unknown st = st\<lparr>ps_unknownCodes := ps_unknownCodes st + 1\<rparr>"

definition count_range :: "DiagnosticPipelineStats \<Rightarrow> DiagnosticPipelineStats" where
  "count_range st = st\<lparr>ps_invalidRangesNormalized := ps_invalidRangesNormalized st + 1\<rparr>"

definition normalize_code :: "counted \<Rightarrow> counted" where
  "normalize_code = (\<lambda>(d, st).
     if dg_code d = [] then (d\<lparr>dg_code := ''ILIC-COMPILER-INTERNAL''\<rparr>, count_unknown st)
     else if \<not> isRegistered (dg_code d) then (d, count_unknown st)
     else (d, st))"

definition normalize_text :: "Diagnostic \<Rightarrow> Diagnostic" where
  "normalize_text d =
     (let message = normalizedMessage (dg_message d) in
      d\<lparr>dg_source := (if dg_source d = [] then ''compiler'' else dg_source d),
        dg_message := (if message = [] then ''The compiler reported an unspecified diagnostic.''
                       else message)\<rparr>)"

definition normalize_uri :: "counted \<Rightarrow> counted" where
  "normalize_uri = (\<lambda>(d, st).
     if sr_valid (dg_range d) \<and> sr_uri (dg_range d) = []
     then (d\<lparr>dg_range := (dg_range d)\<lparr>sr_valid := False\<rparr>\<rparr>, count_range st)
     else (d, st))"

definition normalize_order :: "counted \<Rightarrow> counted" where
  "normalize_order = (\<lambda>(d, st).
     if sr_valid (dg_range d)
        \<and> po_byteOffset (sr_end (dg_range d)) < po_byteOffset (sr_start (dg_range d))
     then (d\<lparr>dg_range := (dg_range d)\<lparr>sr_end := sr_start (dg_range d)\<rparr>\<rparr>, count_range st)
     else (d, st))"

definition normalize_phase :: "Diagnostic \<Rightarrow> Diagnostic" where
  "normalize_phase d =
     (if dg_phase d = PhUnknown
      then (case catalog_find (dg_code d) of
              Some descriptor \<Rightarrow> d\<lparr>dg_phase := de_phase descriptor\<rparr>
            | None \<Rightarrow> d)
      else d)"

definition same_related :: "RelatedInformation \<Rightarrow> RelatedInformation \<Rightarrow> bool" where
  "same_related a b \<longleftrightarrow>
     ri_message a = ri_message b \<and> rangeKey (ri_range a) = rangeKey (ri_range b)"

fun unique_related :: "RelatedInformation list \<Rightarrow> RelatedInformation list" where
  "unique_related (a # b # rs) =
     (if same_related a b then unique_related (a # rs) else a # unique_related (b # rs))"
| "unique_related rs = rs"

definition normalize_lists :: "Diagnostic \<Rightarrow> Diagnostic" where
  "normalize_lists d =
     d\<lparr>dg_related := unique_related (dg_related d),
       dg_notes := filter (\<lambda>n. n \<noteq> []) (dg_notes d)\<rparr>"

definition normalize_fingerprint :: "Diagnostic \<Rightarrow> Diagnostic" where
  "normalize_fingerprint d =
     (if dg_fingerprint d = [] then d\<lparr>dg_fingerprint := identity d\<rparr> else d)"

definition pipeline_normalize :: "Diagnostic \<Rightarrow> DiagnosticPipelineStats \<Rightarrow> counted" where
  "pipeline_normalize d st =
     (let (d, st) = normalize_code (d, st);
          (d, st) = normalize_order (normalize_uri (normalize_text d, st))
      in (normalize_fingerprint (normalize_lists (normalize_phase d)), st))"

fun normalize_all ::
  "DiagnosticCandidate list \<Rightarrow> DiagnosticPipelineStats \<Rightarrow> DiagnosticCandidate list \<times> DiagnosticPipelineStats" where
  "normalize_all [] st = ([], st)"
| "normalize_all (c # cs) st =
     (let (d, st) = pipeline_normalize (ca_diagnostic c) st;
          (cs, st) = normalize_all cs st
      in (c\<lparr>ca_diagnostic := d\<rparr> # cs, st))"

subsection \<open>Duplicates, cascades, order\<close>

fun dedup_loop ::
  "string set \<Rightarrow> DiagnosticCandidate list \<Rightarrow> DiagnosticPipelineStats
     \<Rightarrow> DiagnosticCandidate list \<times> DiagnosticPipelineStats" where
  "dedup_loop seen [] st = ([], st)"
| "dedup_loop seen (c # cs) st =
     (if identity (ca_diagnostic c) \<in> seen
      then dedup_loop seen cs (st\<lparr>ps_exactDuplicatesRemoved := ps_exactDuplicatesRemoved st + 1\<rparr>)
      else let (kept, st) = dedup_loop (insert (identity (ca_diagnostic c)) seen) cs st
           in (c # kept, st))"

definition deduplicate ::
  "DiagnosticCandidate list \<Rightarrow> DiagnosticPipelineStats \<Rightarrow> DiagnosticCandidate list \<times> DiagnosticPipelineStats" where
  "deduplicate cs st = dedup_loop {} cs st"

definition root_causes :: "DiagnosticCandidate list \<Rightarrow> DiagnosticCauseId set" where
  "root_causes cs = ca_cause ` set (filter
     (\<lambda>c. ca_cause c \<noteq> 0 \<and> ca_publicationClass c \<noteq> PubCascaded) cs)"

definition suppressed :: "DiagnosticCauseId set \<Rightarrow> DiagnosticCandidate \<Rightarrow> bool" where
  "suppressed causes c \<longleftrightarrow>
     ca_publicationClass c = PubCascaded \<and> list_ex (\<lambda>cause. cause \<in> causes) (ca_dependsOn c)"

fun suppress_loop ::
  "DiagnosticCauseId set \<Rightarrow> DiagnosticCandidate list \<Rightarrow> DiagnosticPipelineStats
     \<Rightarrow> DiagnosticCandidate list \<times> DiagnosticPipelineStats" where
  "suppress_loop causes [] st = ([], st)"
| "suppress_loop causes (c # cs) st =
     (if suppressed causes c
      then suppress_loop causes cs (st\<lparr>ps_cascadesSuppressed := ps_cascadesSuppressed st + 1\<rparr>)
      else let (kept, st) = suppress_loop causes cs st in (c # kept, st))"

definition suppressCascades ::
  "DiagnosticCandidate list \<Rightarrow> DiagnosticPipelineStats \<Rightarrow> DiagnosticCandidate list \<times> DiagnosticPipelineStats" where
  "suppressCascades cs st = suppress_loop (root_causes cs) cs st"

definition valid_uri :: "Diagnostic \<Rightarrow> string" where
  "valid_uri d = (if sr_valid (dg_range d) then sr_uri (dg_range d) else [])"

definition candidate_less :: "DiagnosticCandidate \<Rightarrow> DiagnosticCandidate \<Rightarrow> bool" where
  "candidate_less left right =
     (let a = ca_diagnostic left; b = ca_diagnostic right;
          aUri = valid_uri a; bUri = valid_uri b;
          ar = dg_range a; br = dg_range b in
      if aUri \<noteq> bUri then aUri < bUri
      else if sr_valid ar \<noteq> sr_valid br then sr_valid ar > sr_valid br
      else if sr_valid ar \<and> po_byteOffset (sr_start ar) \<noteq> po_byteOffset (sr_start br)
      then po_byteOffset (sr_start ar) < po_byteOffset (sr_start br)
      else if sr_valid ar \<and> po_byteOffset (sr_end ar) \<noteq> po_byteOffset (sr_end br)
      then po_byteOffset (sr_end ar) < po_byteOffset (sr_end br)
      else if dg_severity a \<noteq> dg_severity b
      then severityRank (dg_severity a) < severityRank (dg_severity b)
      else if dg_phase a \<noteq> dg_phase b then phaseRank (dg_phase a) < phaseRank (dg_phase b)
      else if dg_code a \<noteq> dg_code b then dg_code a < dg_code b
      else if dg_message a \<noteq> dg_message b then dg_message a < dg_message b
      else ca_producer left < ca_producer right)"

definition sort_candidates :: "DiagnosticCandidate list \<Rightarrow> DiagnosticCandidate list" where
  "sort_candidates cs = stable_sort candidate_less cs"

definition publish :: "DiagnosticCandidate list \<Rightarrow> PublishedDiagnostics" where
  "publish candidates =
     (let st = default_stats\<lparr>ps_candidates := of_nat (length candidates)\<rparr>;
          (cs, st) = normalize_all candidates st;
          (cs, st) = deduplicate cs st;
          (cs, st) = suppressCascades cs st;
          vs = map ca_diagnostic (sort_candidates cs)
      in \<lparr>pd_values = vs, pd_stats = st\<lparr>ps_published := of_nat (length vs)\<rparr>\<rparr>)"

subsection \<open>Normal messages\<close>

fun no_double :: "string \<Rightarrow> bool" where
  "no_double (a # b # cs) \<longleftrightarrow> \<not> (a = CHR '' '' \<and> b = CHR '' '') \<and> no_double (b # cs)"
| "no_double _ \<longleftrightarrow> True"

definition starts_blank :: "string \<Rightarrow> bool" where
  "starts_blank s \<longleftrightarrow> s \<noteq> [] \<and> hd s = CHR '' ''"

lemma no_double_Cons: "no_double (c # s) \<longleftrightarrow> no_double s \<and> \<not> (c = CHR '' '' \<and> starts_blank s)"
  by (cases s) (auto simp: starts_blank_def)

lemma no_double_append: "no_double (s @ t) \<Longrightarrow> no_double s"
  by (induction s) (auto simp: no_double_Cons starts_blank_def)

lemma collapse_no_double: "no_double (collapse b s) \<and> (b \<longrightarrow> \<not> starts_blank (collapse b s))"
  by (induction b s rule: collapse.induct) (auto simp: no_double_Cons starts_blank_def)

lemma collapse_fixed: "no_double s \<Longrightarrow> (b \<longrightarrow> \<not> starts_blank s) \<Longrightarrow> collapse b s = s"
  by (induction b s rule: collapse.induct) (auto simp: no_double_Cons starts_blank_def)

lemma set_collapse: "set (collapse b s) \<subseteq> set s"
  by (induction b s rule: collapse.induct) auto

lemma pop_spaces_prefix: "\<exists>t. s = pop_spaces s @ t"
  by (metis pop_spaces_def rev_append rev_rev_ident takeWhile_dropWhile_id)

lemma pop_spaces_idem [simp]: "pop_spaces (pop_spaces s) = pop_spaces s"
  by (simp add: pop_spaces_def)

lemma blank_blank [simp]: "blank (blank c) = blank c"
  by (simp add: blank_def)

lemma normalizedMessage_idem: "normalizedMessage (normalizedMessage s) = normalizedMessage s"
proof -
  let ?c = "collapse False (map blank s)" and ?m = "normalizedMessage s"
  obtain t where t: "?c = ?m @ t" using pop_spaces_prefix by (auto simp: normalizedMessage_def)
  have "set ?m \<subseteq> blank ` set s"
    using set_collapse [of False "map blank s"] t by (metis Un_subset_iff set_append set_map)
  then have "map blank ?m = ?m" by (auto intro!: map_idI)
  moreover have "collapse False ?m = ?m"
    using collapse_no_double [of False "map blank s"] no_double_append [of ?m t] t
    by (intro collapse_fixed) auto
  ultimately show ?thesis by (simp add: normalizedMessage_def [of ?m]) (simp add: normalizedMessage_def)
qed

lemma default_message_normal:
  "normalizedMessage ''The compiler reported an unspecified diagnostic.''
     = ''The compiler reported an unspecified diagnostic.''"
  by (simp add: normalizedMessage_def blank_def is_space_def pop_spaces_def)

subsection \<open>Normal diagnostics\<close>

definition range_normal :: "SourceRange \<Rightarrow> bool" where
  "range_normal r \<longleftrightarrow>
     (sr_valid r \<longrightarrow> sr_uri r \<noteq> [] \<and> po_byteOffset (sr_start r) \<le> po_byteOffset (sr_end r))"

definition normal :: "Diagnostic \<Rightarrow> bool" where
  "normal d \<longleftrightarrow> dg_code d \<noteq> [] \<and> dg_source d \<noteq> [] \<and> dg_message d \<noteq> []
     \<and> normalizedMessage (dg_message d) = dg_message d \<and> range_normal (dg_range d)
     \<and> (isRegistered (dg_code d) \<longrightarrow> dg_phase d \<noteq> PhUnknown)
     \<and> unique_related (dg_related d) = dg_related d \<and> [] \<notin> set (dg_notes d)
     \<and> dg_fingerprint d \<noteq> []"

definition normalized :: "Diagnostic \<Rightarrow> Diagnostic" where
  "normalized d = fst (pipeline_normalize d default_stats)"

lemma fst_normalize_code:
  "fst (normalize_code (d, st)) =
     d\<lparr>dg_code := (if dg_code d = [] then ''ILIC-COMPILER-INTERNAL'' else dg_code d)\<rparr>"
  by (simp add: normalize_code_def)

definition mend_range :: "SourceRange \<Rightarrow> SourceRange" where
  "mend_range r =
     (if \<not> sr_valid r then r
      else if sr_uri r = [] then r\<lparr>sr_valid := False\<rparr>
      else if po_byteOffset (sr_end r) < po_byteOffset (sr_start r) then r\<lparr>sr_end := sr_start r\<rparr>
      else r)"

lemma fst_normalize_range:
  "fst (normalize_order (normalize_uri (d, st))) = d\<lparr>dg_range := mend_range (dg_range d)\<rparr>"
  by (simp add: normalize_order_def normalize_uri_def mend_range_def)

lemma normalized_parts:
  "fst (pipeline_normalize d st) = normalize_fingerprint (normalize_lists (normalize_phase
     ((normalize_text (d\<lparr>dg_code := (if dg_code d = [] then ''ILIC-COMPILER-INTERNAL'' else dg_code d)\<rparr>))
        \<lparr>dg_range := mend_range (dg_range d)\<rparr>)))"
proof -
  have range: "dg_range (normalize_text x) = dg_range x" for x
    by (simp add: normalize_text_def Let_def)
  show ?thesis
    using fst_normalize_code [of d st] fst_normalize_range
    by (simp add: pipeline_normalize_def split_def range prod.collapse fst_normalize_code)
qed

lemma normalized_any: "fst (pipeline_normalize d st) = normalized d"
  by (simp add: normalized_def normalized_parts)

lemma range_normal_mend: "range_normal (mend_range r)"
  by (simp add: range_normal_def mend_range_def)

lemma mend_range_normal: "range_normal r \<Longrightarrow> mend_range r = r"
  by (auto simp add: range_normal_def mend_range_def)

lemma unique_related_length: "length (unique_related rs) \<le> length rs"
  by (induction rs rule: unique_related.induct) auto

lemma unique_related_Cons: "\<exists>ys. unique_related (a # rs) = a # ys"
  by (induction "a # rs" arbitrary: rs rule: unique_related.induct) auto

lemma unique_related_idem: "unique_related (unique_related rs) = unique_related rs"
proof (induction rs rule: unique_related.induct)
  case (1 a b rs)
  then show ?case using unique_related_Cons [of b rs] by auto
qed auto

lemma identity_nonempty: "identity d \<noteq> []"
  by (simp add: identity_def)

lemma normalize_phase_frame [simp]:
  "dg_code (normalize_phase d) = dg_code d" "dg_source (normalize_phase d) = dg_source d"
  "dg_message (normalize_phase d) = dg_message d" "dg_range (normalize_phase d) = dg_range d"
  "dg_related (normalize_phase d) = dg_related d" "dg_notes (normalize_phase d) = dg_notes d"
  "dg_fingerprint (normalize_phase d) = dg_fingerprint d"
  by (simp_all add: normalize_phase_def split: option.split)

lemma normalize_phase_known: "isRegistered (dg_code d) \<Longrightarrow> dg_phase (normalize_phase d) \<noteq> PhUnknown"
  by (cases "catalog_find (dg_code d)")
     (auto simp: normalize_phase_def isRegistered_def dest!: catalog_find_Some [THEN iffD1] descriptor_phase_known)

lemma normalize_phase_normal:
  "(isRegistered (dg_code d) \<longrightarrow> dg_phase d \<noteq> PhUnknown) \<Longrightarrow> normalize_phase d = d"
  by (auto simp: normalize_phase_def isRegistered_def)

lemma normal_message: "m \<noteq> [] \<Longrightarrow> normalizedMessage x = m \<Longrightarrow> normalizedMessage m = m"
  using normalizedMessage_idem by blast

lemma normal_normalized: "normal (normalized d)"
proof -
  let ?c = "d\<lparr>dg_code := (if dg_code d = [] then ''ILIC-COMPILER-INTERNAL'' else dg_code d)\<rparr>"
  let ?t = "(normalize_text ?c)\<lparr>dg_range := mend_range (dg_range d)\<rparr>"
  have t: "dg_code ?t \<noteq> []" "dg_source ?t \<noteq> []" "dg_message ?t \<noteq> []"
      "normalizedMessage (dg_message ?t) = dg_message ?t"
    by (simp_all add: normalize_text_def Let_def default_message_normal normalizedMessage_idem)
  have "dg_fingerprint (normalize_fingerprint x) \<noteq> []" for x
    by (simp add: normalize_fingerprint_def identity_nonempty)
  moreover have "dg_code (normalize_fingerprint x) = dg_code x" "dg_source (normalize_fingerprint x) = dg_source x"
    "dg_message (normalize_fingerprint x) = dg_message x" "dg_range (normalize_fingerprint x) = dg_range x"
    "dg_phase (normalize_fingerprint x) = dg_phase x" "dg_related (normalize_fingerprint x) = dg_related x"
    "dg_notes (normalize_fingerprint x) = dg_notes x" for x
    by (simp_all add: normalize_fingerprint_def)
  moreover have "normalized d = normalize_fingerprint (normalize_lists (normalize_phase ?t))"
    by (simp only: normalized_def normalized_parts)
  ultimately show ?thesis
    using t normalize_phase_known [of ?t] range_normal_mend [of "dg_range d"]
    by (simp add: normal_def normalize_lists_def unique_related_idem)
qed

lemma normalized_normal: "normal d \<Longrightarrow> normalized d = d"
proof -
  assume n: "normal d"
  then have "filter (\<lambda>n. n \<noteq> []) (dg_notes d) = dg_notes d"
    by (auto simp: normal_def filter_id_conv)
  with n have "normalize_text d = d" "mend_range (dg_range d) = dg_range d" "normalize_phase d = d"
    "normalize_lists d = d" "normalize_fingerprint d = d"
    by (auto simp: normal_def normalize_text_def Let_def mend_range_normal normalize_phase_normal
        normalize_lists_def normalize_fingerprint_def)
  then show ?thesis using n
    by (simp add: normalized_def normalized_parts normal_def)
qed

subsection \<open>The steps on lists of candidates\<close>

abbreviation normalized_candidate :: "DiagnosticCandidate \<Rightarrow> DiagnosticCandidate" where
  "normalized_candidate c \<equiv> c\<lparr>ca_diagnostic := normalized (ca_diagnostic c)\<rparr>"

lemma normalize_all_values: "fst (normalize_all cs st) = map normalized_candidate cs"
  by (induction cs arbitrary: st) (simp_all add: split_def normalized_any)

abbreviation removal_counters :: "DiagnosticPipelineStats \<Rightarrow> u64 \<times> u64 \<times> u64" where
  "removal_counters st \<equiv> (ps_candidates st, ps_exactDuplicatesRemoved st, ps_cascadesSuppressed st)"

lemma normalize_step_counters:
  "removal_counters (snd (normalize_code (d, st))) = removal_counters st"
  "removal_counters (snd (normalize_uri (d, st))) = removal_counters st"
  "removal_counters (snd (normalize_order (d, st))) = removal_counters st"
  by (simp_all add: normalize_code_def normalize_uri_def normalize_order_def count_unknown_def
      count_range_def)

lemma normalize_counters: "removal_counters (snd (pipeline_normalize d st)) = removal_counters st"
proof -
  obtain d1 st1 where 1: "normalize_code (d, st) = (d1, st1)" by fastforce
  obtain d2 st2 where 2: "normalize_uri (normalize_text d1, st1) = (d2, st2)" by fastforce
  have "removal_counters st1 = removal_counters st" "removal_counters st2 = removal_counters st1"
    using normalize_step_counters(1) [of d st] normalize_step_counters(2) [of "normalize_text d1" st1] 1 2
    by auto
  then show ?thesis
    using normalize_step_counters(3) [of d2 st2] by (simp add: pipeline_normalize_def 1 2 split_def Let_def)
qed

lemma normalize_all_counters: "removal_counters (snd (normalize_all cs st)) = removal_counters st"
proof (induction cs arbitrary: st)
  case (Cons c cs)
  then show ?case using normalize_counters [of "ca_diagnostic c" st] by (simp add: split_def Let_def)
qed simp

fun first_by :: "('a \<Rightarrow> 'k) \<Rightarrow> 'k set \<Rightarrow> 'a list \<Rightarrow> 'a list" where
  "first_by f seen [] = []"
| "first_by f seen (c # cs) =
     (if f c \<in> seen then first_by f seen cs else c # first_by f (insert (f c) seen) cs)"

lemma first_by_member: "c \<in> set (first_by f seen cs) \<Longrightarrow> f c \<notin> seen \<and> c \<in> set cs"
  by (induction f seen cs rule: first_by.induct) (auto split: if_splits)

lemma first_by_distinct: "distinct (map f (first_by f seen cs))"
proof (induction f seen cs rule: first_by.induct)
  case (2 f seen x cs)
  then show ?case using first_by_member [of _ f "insert (f x) seen" cs] by fastforce
qed simp

lemma first_by_complete:
  "c \<in> set cs \<Longrightarrow> f c \<notin> seen \<Longrightarrow> f c \<in> f ` set (first_by f seen cs)"
proof (induction f seen cs rule: first_by.induct)
  case (2 f seen x cs)
  then show ?case by (cases "f c = f x") auto
qed simp

lemma first_by_fixed:
  "distinct (map f cs) \<Longrightarrow> f ` set cs \<inter> seen = {} \<Longrightarrow> first_by f seen cs = cs"
  by (induction f seen cs rule: first_by.induct) auto

abbreviation identity_of :: "DiagnosticCandidate \<Rightarrow> string" where
  "identity_of c \<equiv> identity (ca_diagnostic c)"

lemma dedup_values: "fst (dedup_loop seen cs st) = first_by identity_of seen cs"
  by (induction seen cs st rule: dedup_loop.induct) (simp_all add: split_def)

lemma dedup_counters:
  "removal_counters (snd (dedup_loop seen cs st)) = (ps_candidates st,
     ps_exactDuplicatesRemoved st + of_nat (length cs) - of_nat (length (first_by identity_of seen cs)),
     ps_cascadesSuppressed st)"
  by (induction seen cs st rule: dedup_loop.induct) (auto simp: split_def Let_def algebra_simps)

lemma suppress_values: "fst (suppress_loop causes cs st) = filter (\<lambda>c. \<not> suppressed causes c) cs"
  by (induction causes cs st rule: suppress_loop.induct) (simp_all add: split_def)

lemma suppress_counters:
  "removal_counters (snd (suppress_loop causes cs st)) = (ps_candidates st, ps_exactDuplicatesRemoved st,
     ps_cascadesSuppressed st + of_nat (length cs)
       - of_nat (length (filter (\<lambda>c. \<not> suppressed causes c) cs)))"
  by (induction causes cs st rule: suppress_loop.induct) (auto simp: split_def Let_def algebra_simps)

text \<open>The comparator of the sort is the lexicographic order of a key.\<close>

definition diagnostic_key ::
  "Diagnostic \<Rightarrow> string \<times> bool \<times> nat \<times> nat \<times> DiagnosticSeverity \<times> DiagnosticPhase \<times> string \<times> string" where
  "diagnostic_key d =
     (let r = dg_range d; v = sr_valid r in
      (valid_uri d, \<not> v, if v then po_byteOffset (sr_start r) else 0,
       if v then po_byteOffset (sr_end r) else 0, dg_severity d, dg_phase d, dg_code d, dg_message d))"

definition candidate_key :: "DiagnosticCandidate \<Rightarrow>
  (string \<times> bool \<times> nat \<times> nat \<times> DiagnosticSeverity \<times> DiagnosticPhase \<times> string \<times> string) \<times> string" where
  "candidate_key c = (diagnostic_key (ca_diagnostic c), ca_producer c)"

lemma candidate_less_key: "candidate_less a b \<longleftrightarrow> candidate_key a < candidate_key b"
  unfolding candidate_less_def candidate_key_def diagnostic_key_def Let_def
    less_DiagnosticSeverity_def [symmetric] less_DiagnosticPhase_def [symmetric]
  by (simp add: less_prod_def' less_le)

lemma sort_candidates_key: "sort_candidates cs = sort_key candidate_key cs"
  unfolding sort_candidates_def by (rule stable_sort_key) (rule candidate_less_key)

subsection \<open>What is published\<close>

definition first_candidates :: "DiagnosticCandidate list \<Rightarrow> DiagnosticCandidate list" where
  "first_candidates cs = first_by identity_of {} (map normalized_candidate cs)"

definition survivors :: "DiagnosticCandidate list \<Rightarrow> DiagnosticCandidate list" where
  "survivors cs = filter (\<lambda>c. \<not> suppressed (root_causes (first_candidates cs)) c) (first_candidates cs)"

lemma publish_parts:
  "pd_values (publish cs) = map ca_diagnostic (sort_key candidate_key (survivors cs))
   \<and> ps_candidates (pd_stats (publish cs)) = of_nat (length cs)
   \<and> ps_exactDuplicatesRemoved (pd_stats (publish cs))
       = of_nat (length cs) - of_nat (length (first_candidates cs))
   \<and> ps_cascadesSuppressed (pd_stats (publish cs))
       = of_nat (length (first_candidates cs)) - of_nat (length (survivors cs))
   \<and> ps_published (pd_stats (publish cs)) = of_nat (length (survivors cs))"
proof -
  let ?st = "default_stats\<lparr>ps_candidates := of_nat (length cs)\<rparr>"
  obtain ns st1 where 1: "normalize_all cs ?st = (ns, st1)" by fastforce
  obtain us st2 where 2: "deduplicate ns st1 = (us, st2)" by fastforce
  obtain vs st3 where 3: "suppressCascades us st2 = (vs, st3)" by fastforce
  have ns: "ns = map normalized_candidate cs" using normalize_all_values [of cs ?st] 1 by simp
  have us: "us = first_candidates cs"
    using dedup_values [of "{}" ns st1] 2 by (simp add: deduplicate_def first_candidates_def ns)
  have vs: "vs = survivors cs"
    using suppress_values [of "root_causes us" us st2] 3 by (simp add: suppressCascades_def survivors_def us)
  have "removal_counters st1 = (of_nat (length cs), 0, 0)"
    using normalize_all_counters [of cs ?st] 1 by (simp add: default_stats_def)
  moreover have "removal_counters st2 = (ps_candidates st1,
      ps_exactDuplicatesRemoved st1 + of_nat (length ns) - of_nat (length us), ps_cascadesSuppressed st1)"
    using dedup_counters [of "{}" ns st1] 2 by (simp add: deduplicate_def dedup_values us first_candidates_def ns)
  moreover have "removal_counters st3 = (ps_candidates st2, ps_exactDuplicatesRemoved st2,
      ps_cascadesSuppressed st2 + of_nat (length us) - of_nat (length vs))"
    using suppress_counters [of "root_causes us" us st2] 3
    by (simp add: suppressCascades_def suppress_values vs survivors_def us)
  moreover have "publish cs = \<lparr>pd_values = map ca_diagnostic (sort_key candidate_key vs),
      pd_stats = st3\<lparr>ps_published := of_nat (length vs)\<rparr>\<rparr>"
    by (simp add: publish_def 1 2 3 sort_candidates_key Let_def)
  ultimately show ?thesis by (simp add: us vs ns)
qed

lemmas publish_values = publish_parts [THEN conjunct1]

lemma first_candidates_member:
  "k \<in> set (first_candidates cs) \<Longrightarrow> \<exists>c \<in> set cs. k = normalized_candidate c"
  using first_by_member [of k identity_of "{}" "map normalized_candidate cs"]
  by (auto simp: first_candidates_def)

lemma first_candidates_complete:
  assumes "c \<in> set cs"
  shows "\<exists>k \<in> set (first_candidates cs). identity_of k = identity (normalized (ca_diagnostic c))"
proof -
  have "normalized_candidate c \<in> set (map normalized_candidate cs)" using assms by simp
  from first_by_complete [OF this, of identity_of "{}"] show ?thesis
    by (auto simp: first_candidates_def image_iff)
qed

lemma published_sources:
  assumes "v \<in> set (pd_values (publish cs))"
  shows "normal v \<and> (\<exists>c \<in> set cs. v = normalized (ca_diagnostic c))"
proof -
  obtain k where "k \<in> set (first_candidates cs)" "v = ca_diagnostic k"
    using assms by (auto simp: publish_values survivors_def)
  then show ?thesis using first_candidates_member [of k cs] normal_normalized by auto
qed

lemma published_distinct: "distinct (map identity (pd_values (publish cs)))"
proof -
  have "distinct (map identity_of (first_candidates cs))"
    by (simp add: first_candidates_def first_by_distinct)
  then have "distinct (map identity_of (survivors cs))"
    by (simp add: survivors_def distinct_map_filter)
  then have "inj_on identity_of (set (survivors cs)) \<and> distinct (survivors cs)" by (simp add: distinct_map)
  then show ?thesis by (simp add: publish_values distinct_map comp_def inj_on_def)
qed

lemma sorted_map_fst:
  fixes xs :: "('a::linorder \<times> 'b::linorder) list"
  shows "sorted xs \<Longrightarrow> sorted (map fst xs)"
  by (auto simp: sorted_wrt_map less_eq_prod_def elim!: sorted_wrt_mono_rel [rotated])

lemma published_sorted: "sorted (map diagnostic_key (pd_values (publish cs)))"
proof -
  have "sorted (map candidate_key (sort_key candidate_key (survivors cs)))" by simp
  then have "sorted (map fst (map candidate_key (sort_key candidate_key (survivors cs))))"
    by (rule sorted_map_fst)
  then show ?thesis by (simp add: publish_values candidate_key_def comp_def)
qed

lemma survivor_published: "k \<in> set (survivors cs) \<Longrightarrow> ca_diagnostic k \<in> set (pd_values (publish cs))"
  by (simp add: publish_values)

lemma suppressed_cause:
  assumes "k \<in> set (first_candidates cs)" and "suppressed (root_causes (first_candidates cs)) k"
  shows "\<exists>p \<in> set cs. ca_cause p \<noteq> 0 \<and> ca_cause p \<in> set (ca_dependsOn k)
     \<and> ca_publicationClass p \<noteq> PubCascaded \<and> normalized (ca_diagnostic p) \<in> set (pd_values (publish cs))"
proof -
  obtain q where q: "q \<in> set (first_candidates cs)" "ca_cause q \<noteq> 0"
      "ca_publicationClass q \<noteq> PubCascaded" "ca_cause q \<in> set (ca_dependsOn k)"
    using assms(2) by (auto simp: suppressed_def root_causes_def list_ex_iff)
  then have "q \<in> set (survivors cs)" by (simp add: survivors_def suppressed_def)
  then have "ca_diagnostic q \<in> set (pd_values (publish cs))" by (rule survivor_published)
  moreover obtain p where "p \<in> set cs" "q = normalized_candidate p"
    using first_candidates_member [OF q(1)] by blast
  ultimately show ?thesis using q by (intro bexI [of _ p]) auto
qed


text \<open>C38. Publishing is idempotent: publishing the published diagnostics again, as primary
  candidates, publishes the same list.\<close>

theorem publish_idempotent:
  "pd_values (publish (map (\<lambda>d. default_candidate\<lparr>ca_diagnostic := d\<rparr>) (pd_values (publish cs))))
     = pd_values (publish cs)"
proof -
  let ?vs = "pd_values (publish cs)" and ?mk = "\<lambda>d. default_candidate\<lparr>ca_diagnostic := d\<rparr>"
  have norm: "map normalized_candidate (map ?mk ?vs) = map ?mk ?vs"
    using published_sources by (simp add: normalized_normal)
  have first: "first_candidates (map ?mk ?vs) = map ?mk ?vs"
    unfolding first_candidates_def norm using published_distinct [of cs]
    by (intro first_by_fixed) (simp_all add: comp_def)
  have rest: "survivors (map ?mk ?vs) = map ?mk ?vs"
    unfolding survivors_def first
    by (auto simp: filter_id_conv suppressed_def default_candidate_def)
  have "sorted (map candidate_key (map ?mk ?vs))"
    using published_sorted [of cs]
    by (auto simp: candidate_key_def default_candidate_def comp_def sorted_wrt_map less_eq_prod_def
        elim!: sorted_wrt_mono_rel [rotated])
  then have "sort_key candidate_key (map ?mk ?vs) = map ?mk ?vs" by (rule sort_key_id_if_sorted)
  then show ?thesis by (simp only: publish_values [of "map ?mk ?vs"] rest) (simp add: comp_def)
qed

definition example_diagnostic :: "string \<Rightarrow> Diagnostic" where
  "example_diagnostic m = default_diagnostic\<lparr>dg_code := ''ILIC-WARNING'', dg_message := m,
     dg_source := ''compiler'', dg_phase := PhSemantic, dg_fingerprint := ''f''\<rparr>"

lemma example_normal: "normal (example_diagnostic ''a'')" "normal (example_diagnostic ''b'')"
  by (simp_all add: normal_def example_diagnostic_def default_diagnostic_def default_range_def
      range_normal_def normalizedMessage_def blank_def is_space_def pop_spaces_def)

lemma example_identity: "identity (example_diagnostic ''a'') \<noteq> identity (example_diagnostic ''b'')"
  by (simp add: identity_def example_diagnostic_def default_diagnostic_def default_range_def
      rangeKey_def normalizedMessage_def blank_def is_space_def pop_spaces_def)


text \<open>An independent diagnostic can be lost. Duplicates are removed before cascades are
  suppressed and only the first candidate of an identity is kept: when a cascade with the same
  identity comes first and its cause is present, neither the cascade nor the independent
  candidate is published, although the architecture notes promise that independent diagnostics
  stay visible.\<close>

theorem independent_diagnostic_lost:
  assumes "normal d" "normal e" "identity d \<noteq> identity e" "cause \<noteq> 0"
  shows "pd_values (publish
      [default_candidate\<lparr>ca_diagnostic := d, ca_dependsOn := [cause], ca_publicationClass := PubCascaded\<rparr>,
       default_candidate\<lparr>ca_diagnostic := d, ca_publicationClass := PubIndependent\<rparr>,
       default_candidate\<lparr>ca_diagnostic := e, ca_cause := cause\<rparr>]) = [e]"
    (is "pd_values (publish ?cs) = _")
proof -
  have n: "normalized d = d" "normalized e = e" using assms by (simp_all add: normalized_normal)
  have "first_candidates ?cs =
      [default_candidate\<lparr>ca_diagnostic := d, ca_dependsOn := [cause], ca_publicationClass := PubCascaded\<rparr>,
       default_candidate\<lparr>ca_diagnostic := e, ca_cause := cause\<rparr>]"
    using assms by (simp add: first_candidates_def n)
  then have "survivors ?cs = [default_candidate\<lparr>ca_diagnostic := e, ca_cause := cause\<rparr>]"
    using assms by (simp add: survivors_def suppressed_def root_causes_def default_candidate_def)
  then show ?thesis by (simp add: publish_values)
qed

theorem independent_diagnostic_lost_witness:
  "pd_values (publish
      [default_candidate\<lparr>ca_diagnostic := example_diagnostic ''a'', ca_dependsOn := [7],
         ca_publicationClass := PubCascaded\<rparr>,
       default_candidate\<lparr>ca_diagnostic := example_diagnostic ''a'', ca_publicationClass := PubIndependent\<rparr>,
       default_candidate\<lparr>ca_diagnostic := example_diagnostic ''b'', ca_cause := 7\<rparr>])
     = [example_diagnostic ''b'']"
  using independent_diagnostic_lost [OF example_normal example_identity, of 7] by simp

subsection \<open>Resolving ranges against the session's sources\<close>

definition to_position :: "SourcePosition \<Rightarrow> Position" where
  "to_position p = \<lparr>po_line = sp_line p, po_character = sp_utf16Column p, po_byteOffset = sp_offset p\<rparr>"

definition byteRange :: "SourceManager \<Rightarrow> string \<Rightarrow> nat \<Rightarrow> nat \<Rightarrow> SourceRange" where
  "byteRange sources uri startByte endByte = (case SourceManager_get sources uri of
     None \<Rightarrow> default_range
   | Some source \<Rightarrow>
       let n = length (sb_text source);
           s = min startByte n;
           e = min (max endByte s) n
       in \<lparr>sr_uri = uri, sr_start = to_position (SourceManager_position sources uri s),
           sr_end = to_position (SourceManager_position sources uri e), sr_valid = True\<rparr>)"

definition insertionPoint :: "SourceManager \<Rightarrow> string \<Rightarrow> nat \<Rightarrow> SourceRange" where
  "insertionPoint sources uri byteOffset = byteRange sources uri byteOffset byteOffset"

definition resolver_normalize :: "SourceManager \<Rightarrow> SourceRange \<Rightarrow> SourceRange" where
  "resolver_normalize sources r =
     (if \<not> sr_valid r then r
      else if sr_uri r = [] then r\<lparr>sr_valid := False\<rparr>
      else
        let r = (if po_byteOffset (sr_end r) < po_byteOffset (sr_start r)
                 then r\<lparr>sr_end := sr_start r\<rparr> else r)
        in case SourceManager_get sources (sr_uri r) of
             None \<Rightarrow> r
           | Some source \<Rightarrow>
               let n = length (sb_text source);
                   s = min (po_byteOffset (sr_start r)) n;
                   e = min (max (po_byteOffset (sr_end r)) s) n
               in r\<lparr>sr_start := to_position (SourceManager_position sources (sr_uri r) s),
                    sr_end := to_position (SourceManager_position sources (sr_uri r) e)\<rparr>)"

lemma to_position_simps [simp]:
  "po_line (to_position p) = sp_line p" "po_byteOffset (to_position p) = sp_offset p"
  "po_character (to_position p) = sp_utf16Column p"
  by (simp_all add: to_position_def)

text \<open>A range of a known source that the resolver accepts: inside the text and ordered by byte
  offset and by line.\<close>

definition range_inside :: "SourceBuffer \<Rightarrow> SourceRange \<Rightarrow> bool" where
  "range_inside source r \<longleftrightarrow> sr_valid r
     \<and> po_byteOffset (sr_start r) \<le> po_byteOffset (sr_end r)
     \<and> po_byteOffset (sr_end r) \<le> length (sb_text source)
     \<and> po_line (sr_start r) \<le> po_line (sr_end r)
     \<and> po_line (sr_start r) = newlines (take (po_byteOffset (sr_start r)) (sb_text source))
     \<and> po_line (sr_end r) = newlines (take (po_byteOffset (sr_end r)) (sb_text source))"

lemma positions_inside:
  assumes "SourceManager_get m u = Some b" "s \<le> e" "e \<le> length (sb_text b)"
  shows "range_inside b \<lparr>sr_uri = u, sr_start = to_position (SourceManager_position m u s),
    sr_end = to_position (SourceManager_position m u e), sr_valid = True\<rparr>"
  using assms manager.positions_ordered [OF assms(1,2)]
  by (auto simp: range_inside_def manager.offset_known manager.line_known)

lemma resolver_is_byteRange:
  assumes "SourceManager_get m (sr_uri r) = Some b" "sr_valid r" "sr_uri r \<noteq> []"
  shows "resolver_normalize m r
    = byteRange m (sr_uri r) (po_byteOffset (sr_start r)) (po_byteOffset (sr_end r))"
proof -
  have "min (max e (min s n)) n = min (max s (min s n)) n" if "e < s" for e s n :: nat
    using that by auto
  then show ?thesis
    using assms by (cases r) (auto simp: resolver_normalize_def byteRange_def Let_def)
qed

lemma byteRange_inside:
  assumes "SourceManager_get m u = Some b"
  shows "range_inside b (byteRange m u s e) \<and> sr_uri (byteRange m u s e) = u
    \<and> po_byteOffset (sr_start (byteRange m u s e)) = min s (length (sb_text b))
    \<and> po_byteOffset (sr_end (byteRange m u s e)) = max (min e (length (sb_text b))) (min s (length (sb_text b)))"
proof -
  let ?n = "length (sb_text b)"
  have "range_inside b \<lparr>sr_uri = u, sr_start = to_position (SourceManager_position m u (min s ?n)),
      sr_end = to_position (SourceManager_position m u (min (max e (min s ?n)) ?n)), sr_valid = True\<rparr>"
    by (rule positions_inside [OF assms]) auto
  then show ?thesis using assms
    by (auto simp: byteRange_def Let_def manager.offset_known)
qed

text \<open>C40. Ranges are resolved against the text: a range of a known source is valid, ordered, inside
  the text and names the lines its offsets fall on, whatever offsets were asked for; an unknown
  source gives the invalid range; normalising a valid range of a known source resolves its
  offsets the same way and normalising again changes nothing, and without a source a valid range
  is only put in order.\<close>

theorem ranges_resolved:
  assumes "SourceManager_get m u = Some b" "u \<noteq> []"
  shows "range_inside b (byteRange m u s e)
    \<and> po_byteOffset (sr_start (byteRange m u s e)) = min s (length (sb_text b))
    \<and> po_byteOffset (sr_end (byteRange m u s e)) = max (min e (length (sb_text b))) (min s (length (sb_text b)))
    \<and> sr_start (insertionPoint m u s) = sr_end (insertionPoint m u s)
    \<and> (sr_valid r \<and> sr_uri r = u \<longrightarrow> resolver_normalize m r
         = byteRange m u (po_byteOffset (sr_start r)) (po_byteOffset (sr_end r)))
    \<and> (sr_uri r = u \<longrightarrow> resolver_normalize m (resolver_normalize m r) = resolver_normalize m r)
    \<and> (SourceManager_get m v = None \<longrightarrow> byteRange m v s e = default_range)
    \<and> (SourceManager_get m (sr_uri r) = None \<longrightarrow> resolver_normalize m r = mend_range r)"
proof (intro conjI impI)
  note inside = byteRange_inside [OF assms(1)]
  show "range_inside b (byteRange m u s e)"
    "po_byteOffset (sr_start (byteRange m u s e)) = min s (length (sb_text b))"
    "po_byteOffset (sr_end (byteRange m u s e)) = max (min e (length (sb_text b))) (min s (length (sb_text b)))"
    using inside by blast+
  show "sr_start (insertionPoint m u s) = sr_end (insertionPoint m u s)"
    using assms by (simp add: insertionPoint_def byteRange_def Let_def)
  show "resolver_normalize m r = byteRange m u (po_byteOffset (sr_start r)) (po_byteOffset (sr_end r))"
    if "sr_valid r \<and> sr_uri r = u"
    using resolver_is_byteRange [of m r b] assms that by blast
  show "resolver_normalize m (resolver_normalize m r) = resolver_normalize m r" if u: "sr_uri r = u"
  proof (cases "sr_valid r")
    case True
    let ?q = "byteRange m u (po_byteOffset (sr_start r)) (po_byteOffset (sr_end r))"
    have q: "resolver_normalize m r = ?q" using resolver_is_byteRange [of m r b] assms True u by blast
    have "resolver_normalize m ?q
        = byteRange m u (po_byteOffset (sr_start ?q)) (po_byteOffset (sr_end ?q))"
      using resolver_is_byteRange [of m ?q b] inside assms by (auto simp: range_inside_def)
    also have "\<dots> = ?q" using inside assms by (simp add: byteRange_def Let_def manager.offset_known max_def min_def)
    finally show ?thesis by (simp add: q)
  qed (simp add: resolver_normalize_def)
  show "byteRange m v s e = default_range" if "SourceManager_get m v = None"
    using that by (simp add: byteRange_def)
  show "resolver_normalize m r = mend_range r" if "SourceManager_get m (sr_uri r) = None"
    using that by (cases r) (auto simp: resolver_normalize_def mend_range_def Let_def)
qed

theorem ranges_resolved_witness:
  "sr_valid (byteRange example_manager ''a.ili'' 9 2)
   \<and> po_byteOffset (sr_start (byteRange example_manager ''a.ili'' 9 2)) = 7
   \<and> po_byteOffset (sr_end (byteRange example_manager ''a.ili'' 9 2)) = 7"
proof -
  have get: "SourceManager_get example_manager ''a.ili''
      = Some \<lparr>sb_uri = ''a.ili'', sb_text = ''MODEL A'', sb_version = 3\<rparr>"
    by (simp add: example_manager_def update_new_def store_buffer_def SourceManager_get_def
        empty_manager_def Let_def)
  show ?thesis
    using ranges_resolved [OF get, of 9 2 default_range] by (simp add: range_inside_def)
qed

end
