(* ===== verification/Repository_Types.thy ===== *)
theory Repository_Types
  imports Diagnostic_Types
begin

section \<open>Data of the model repository\<close>

text \<open>
  include/ilic/Repository.h, RepositoryContract.h and the result structures of the headers under
  source/repository. Durations and time points are integers (the representation of std::chrono is
  signed); paths are strings.
\<close>

record ModelMetadata =
  mm_name :: string
  mm_schemaLanguage :: string
  mm_file :: string
  mm_version :: string
  mm_publishingDate :: string
  mm_precursorVersion :: string
  mm_md5 :: string
  mm_repository :: string
  mm_dependencies :: "string list"
  mm_browseOnly :: bool

record RepositoryOptions =
  ro_repositories :: "string list"
  ro_cacheDirectory :: string
  ro_metadataTtl :: int
  ro_modelTtl :: int
  ro_offline :: bool
  ro_allowStaleOnError :: bool
  ro_followSiteLinks :: bool
  ro_validateChecksums :: bool

record ResolvedModel =
  rm_metadata :: ModelMetadata
  rm_uri :: string
  rm_localPath :: string
  rm_content :: string
  rm_fromCache :: bool
  rm_stale :: bool

record RepositoryResult =
  rr_success :: bool
  rr_models :: "ResolvedModel list"
  rr_diagnostics :: "Diagnostic list"

datatype RepositoryResourceKind = KindModelIndex | KindSiteIndex | KindModel

record RepositoryTransportRequest =
  tq_uri :: string
  tq_kind :: RepositoryResourceKind
  tq_maxBytes :: nat
  tq_maxRedirects :: nat

record RepositoryTransportResponse =
  tr_success :: bool
  tr_statusCode :: int
  tr_body :: string
  tr_finalUri :: string
  tr_error :: string
  tr_notFound :: bool
  tr_retryable :: bool

record RepositoryCacheEntry =
  ce_value :: string
  ce_storedAt :: int

record RepositoryCacheLookup =
  cl_hit :: bool
  cl_entry :: RepositoryCacheEntry
  cl_error :: string

record RepositoryCacheStoreResult =
  cr_success :: bool
  cr_error :: string
  cr_localPath :: string

record RepositoryIndex =
  ix_repository :: string
  ix_models :: "ModelMetadata list"

record RepositorySite =
  rs_parentSites :: "string list"
  rs_subsidiarySites :: "string list"

definition repositoryDiagnostic :: "DiagnosticSeverity \<Rightarrow> string \<Rightarrow> string \<Rightarrow> Diagnostic" where
  "repositoryDiagnostic severity code message =
     default_diagnostic\<lparr>dg_severity := severity, dg_code := code, dg_message := message\<rparr>"

definition hasErrors :: "Diagnostic list \<Rightarrow> bool" where
  "hasErrors ds \<longleftrightarrow> list_ex (\<lambda>d. dg_severity d = SevError) ds"

end
