(* ===== verification/Repository_Version.thy ===== *)
theory Repository_Version
  imports Repository_Types
begin

section \<open>Choosing the version of a model\<close>

text \<open>
  source/repository/RepositoryVersion.cpp. The code works with pointers to the entries of an
  index; a pointer is the position of its entry here, so that equal entries at different positions
  stay different.
\<close>

record VersionSelectionResult =
  vs_model :: "nat option"
  vs_diagnostics :: "Diagnostic list"

definition version_warning :: "string \<Rightarrow> Diagnostic" where
  "version_warning message =
     default_diagnostic\<lparr>dg_severity := SevWarning, dg_code := ''ILIC-REPO-VERSION'', dg_message := message\<rparr>"

definition version_candidates :: "ModelMetadata list \<Rightarrow> string \<Rightarrow> string \<Rightarrow> nat list" where
  "version_candidates models modelName schemaLanguage =
     filter (\<lambda>i. mm_name (models ! i) = modelName \<and> mm_schemaLanguage (models ! i) = schemaLanguage
        \<and> \<not> mm_browseOnly (models ! i)) [0..<length models]"

definition successors :: "ModelMetadata list \<Rightarrow> nat list \<Rightarrow> nat set \<Rightarrow> nat \<Rightarrow> nat list" where
  "successors models candidates accounted current =
     filter (\<lambda>i. i \<notin> accounted \<and> mm_precursorVersion (models ! i) = mm_version (models ! current)) candidates"

definition root_warning :: "string \<Rightarrow> ModelMetadata \<Rightarrow> Diagnostic" where
  "root_warning modelName m = version_warning (''model '' @ modelName @ '' has duplicate root version ''
     @ mm_version m @ ''; using the first root in repository order'')"

definition successor_warning :: "string \<Rightarrow> string \<Rightarrow> ModelMetadata \<Rightarrow> Diagnostic" where
  "successor_warning modelName chosen m = version_warning (''model '' @ modelName
     @ '' has multiple successors of version '' @ mm_precursorVersion m @ ''; using '' @ chosen
     @ '' in repository order'')"

function follow_chain ::
  "ModelMetadata list \<Rightarrow> string \<Rightarrow> nat list \<Rightarrow> nat set \<Rightarrow> nat \<Rightarrow> Diagnostic list
     \<Rightarrow> nat \<times> nat set \<times> Diagnostic list" where
  "follow_chain models modelName candidates accounted current ds =
     (case successors models candidates accounted current of
        [] \<Rightarrow> (current, accounted, ds)
      | s # others \<Rightarrow>
          follow_chain models modelName candidates (accounted \<union> set (s # others)) s
            (ds @ map (\<lambda>i. successor_warning modelName (mm_version (models ! s)) (models ! i)) others))"
  by pat_completeness auto
termination
proof (relation "measure (\<lambda>(models, modelName, candidates, accounted, current, ds).
    card (set candidates - accounted))", goal_cases)
  case (2 models modelName candidates accounted current ds s others)
  then have "s \<in> set candidates" "s \<notin> accounted"
    by (auto simp: successors_def filter_eq_Cons_iff)
  then have "set candidates - (accounted \<union> set (s # others)) \<subset> set candidates - accounted" by auto
  then show ?case by (simp add: psubset_card_mono)
qed simp

declare follow_chain.simps [simp del]

definition selectForLanguage :: "ModelMetadata list \<Rightarrow> string \<Rightarrow> string \<Rightarrow> VersionSelectionResult" where
  "selectForLanguage models modelName schemaLanguage =
     (let candidates = version_candidates models modelName schemaLanguage in
      if candidates = [] then \<lparr>vs_model = None, vs_diagnostics = []\<rparr>
      else case filter (\<lambda>i. mm_precursorVersion (models ! i) = []) candidates of
        [] \<Rightarrow> \<lparr>vs_model = None, vs_diagnostics = [version_warning (''model '' @ modelName @ '' (''
               @ schemaLanguage @ '') has no root version without precursorVersion'')]\<rparr>
      | root # others \<Rightarrow>
          let (current, accounted, ds) = follow_chain models modelName candidates
                (set (root # others)) root (map (\<lambda>i. root_warning modelName (models ! i)) others)
          in \<lparr>vs_model = Some current,
              vs_diagnostics = ds @ (if list_ex (\<lambda>i. i \<notin> accounted) candidates
                then [version_warning (''model '' @ modelName
                  @ '' has versions outside the precursorVersion chain; using version ''
                  @ mm_version (models ! current))]
                else [])\<rparr>)"

definition supportedSchemaLanguagePreference :: "string list" where
  "supportedSchemaLanguagePreference = [''ili2_4'', ''ili2_3'', ''ili1'']"

fun select_preferred ::
  "ModelMetadata list \<Rightarrow> string \<Rightarrow> string list \<Rightarrow> Diagnostic list \<Rightarrow> VersionSelectionResult" where
  "select_preferred models modelName [] ds = \<lparr>vs_model = None, vs_diagnostics = ds\<rparr>"
| "select_preferred models modelName (l # ls) ds =
     (let selected = selectForLanguage models modelName l;
          ds' = ds @ vs_diagnostics selected in
      case vs_model selected of
        Some m \<Rightarrow> \<lparr>vs_model = Some m, vs_diagnostics = ds'\<rparr>
      | None \<Rightarrow> select_preferred models modelName ls ds')"

definition selectLatestVersion :: "ModelMetadata list \<Rightarrow> string \<Rightarrow> string \<Rightarrow> VersionSelectionResult" where
  "selectLatestVersion models modelName schemaLanguage =
     (if schemaLanguage \<noteq> [] then selectForLanguage models modelName schemaLanguage
      else select_preferred models modelName supportedSchemaLanguagePreference [])"

subsection \<open>The chain of precursors\<close>

text \<open>A chain is a list of positions, latest first, in which every version names its
  predecessor as precursor and the first version names none.\<close>

fun version_chain :: "ModelMetadata list \<Rightarrow> nat list \<Rightarrow> bool" where
  "version_chain models [] \<longleftrightarrow> False"
| "version_chain models [i] \<longleftrightarrow> mm_precursorVersion (models ! i) = []"
| "version_chain models (i # j # is) \<longleftrightarrow>
     mm_precursorVersion (models ! i) = mm_version (models ! j) \<and> version_chain models (j # is)"

lemma successors_member:
  "set (successors models candidates accounted current) \<subseteq> set candidates - accounted"
  by (auto simp: successors_def)

lemma follow_chain_extends:
  "follow_chain models modelName candidates accounted current ds = (l, accounted', ds')
    \<Longrightarrow> \<exists>x. ds' = ds @ x"
proof (induction models modelName candidates accounted current ds rule: follow_chain.induct)
  case (1 models modelName candidates accounted current ds)
  then show ?case
    by (auto simp: follow_chain.simps [of models modelName candidates accounted current ds] split: list.splits)
qed

definition covered :: "nat list \<Rightarrow> nat set \<Rightarrow> nat list \<Rightarrow> bool" where
  "covered candidates accounted path \<longleftrightarrow> accounted \<inter> set candidates = set path"

lemma follow_chain_result:
  assumes "follow_chain models modelName candidates accounted current ds = (l, accounted', ds')"
    and "version_chain models (current # path)" and "distinct (current # path)"
    and "set (current # path) \<subseteq> set candidates \<inter> accounted"
  shows "\<exists>path'. version_chain models (l # path') \<and> distinct (l # path')
      \<and> set (l # path') \<subseteq> set candidates
      \<and> successors models candidates accounted' l = []
      \<and> (ds' = [] \<and> covered candidates accounted (current # path)
           \<longrightarrow> covered candidates accounted' (l # path'))"
  using assms
proof (induction models modelName candidates accounted current ds arbitrary: path rule: follow_chain.induct)
  case (1 models modelName candidates accounted current ds)
  note unfold = follow_chain.simps [of models modelName candidates accounted current ds]
  show ?case
  proof (cases "successors models candidates accounted current")
    case Nil
    then show ?thesis using "1.prems" by (intro exI [of _ path]) (auto simp: unfold)
  next
    case (Cons s others)
    let ?acc = "accounted \<union> set (s # others)"
    have s: "s \<in> set candidates" "s \<notin> accounted"
        "mm_precursorVersion (models ! s) = mm_version (models ! current)"
      using Cons by (auto simp: successors_def filter_eq_Cons_iff)
    have step: "follow_chain models modelName candidates ?acc s
        (ds @ map (\<lambda>i. successor_warning modelName (mm_version (models ! s)) (models ! i)) others)
        = (l, accounted', ds')"
      using "1.prems"(1) Cons by (simp add: unfold)
    then have quiet: "ds' = [] \<Longrightarrow> others = []" using follow_chain_extends by fastforce
    have chain: "version_chain models (s # current # path)" "distinct (s # current # path)"
        "set (s # current # path) \<subseteq> set candidates \<inter> ?acc"
      using "1.prems" s by auto
    have "covered candidates ?acc (s # current # path)"
      if "others = []" "covered candidates accounted (current # path)"
      using that s(1) by (auto simp: covered_def)
    with "1.IH" [OF Cons step chain] quiet show ?thesis by metis
  qed
qed

definition has_root :: "ModelMetadata list \<Rightarrow> string \<Rightarrow> string \<Rightarrow> bool" where
  "has_root models modelName l \<longleftrightarrow>
     list_ex (\<lambda>i. mm_precursorVersion (models ! i) = []) (version_candidates models modelName l)"

definition languages_tried :: "string \<Rightarrow> string list" where
  "languages_tried l = (if l \<noteq> [] then [l] else supportedSchemaLanguagePreference)"

lemma selectForLanguage_None: "vs_model (selectForLanguage models n l) = None \<longleftrightarrow> \<not> has_root models n l"
  by (auto simp: selectForLanguage_def has_root_def Let_def list_ex_iff filter_empty_conv split_def
      filter_eq_Cons_iff split: list.splits)

lemma selectForLanguage_Some:
  assumes "vs_model (selectForLanguage models n l) = Some i"
  shows "\<exists>path. version_chain models (i # path) \<and> distinct (i # path)
    \<and> set (i # path) \<subseteq> set (version_candidates models n l)
    \<and> (vs_diagnostics (selectForLanguage models n l) = []
         \<longrightarrow> set (i # path) = set (version_candidates models n l))"
proof -
  let ?cs = "version_candidates models n l"
  obtain root others where roots: "filter (\<lambda>i. mm_precursorVersion (models ! i) = []) ?cs = root # others"
    using assms by (auto simp: selectForLanguage_def Let_def split: if_splits list.splits)
  then have "set (root # others) \<subseteq> set ?cs" by (metis filter_is_subset)
  have root: "root \<in> set ?cs" "mm_precursorVersion (models ! root) = []"
    using roots by (auto simp: filter_eq_Cons_iff)
  obtain c acc ds where f: "follow_chain models n ?cs (set (root # others)) root
      (map (\<lambda>i. root_warning n (models ! i)) others) = (c, acc, ds)" by (cases rule: prod_cases3)
  from roots f root have sel: "selectForLanguage models n l = \<lparr>vs_model = Some c,
      vs_diagnostics = ds @ (if list_ex (\<lambda>i. i \<notin> acc) ?cs
        then [version_warning (''model '' @ n
          @ '' has versions outside the precursorVersion chain; using version '' @ mm_version (models ! c))]
        else [])\<rparr>"
    by (auto simp: selectForLanguage_def Let_def)
  with assms have i: "i = c" by simp
  have quiet: "others = []" if "ds = []" using follow_chain_extends [OF f] that by simp
  from follow_chain_result [OF f, of "[]"] root roots obtain path where
    path: "version_chain models (c # path)" "distinct (c # path)" "set (c # path) \<subseteq> set ?cs"
      and cov: "ds = [] \<and> covered ?cs (set (root # others)) [root] \<longrightarrow> covered ?cs acc (c # path)"
    by auto
  have "set (c # path) = set ?cs" if "vs_diagnostics (selectForLanguage models n l) = []"
  proof -
    have "ds = []" "set ?cs \<subseteq> acc" using that by (auto simp: sel list_ex_iff split: if_splits)
    with quiet cov root show ?thesis by (auto simp: covered_def)
  qed
  with path i show ?thesis by blast
qed

lemma select_preferred_model:
  "vs_model (select_preferred models n ls ds) =
     (case find (has_root models n) ls of None \<Rightarrow> None | Some l \<Rightarrow> vs_model (selectForLanguage models n l))"
proof (induction ls arbitrary: ds)
  case (Cons l ls)
  then show ?case using selectForLanguage_None [of models n l]
    by (auto simp: Let_def split: option.splits)
qed simp

lemma select_preferred_quiet:
  "vs_diagnostics (select_preferred models n ls ds) = [] \<Longrightarrow> find (has_root models n) ls = Some l
    \<Longrightarrow> vs_diagnostics (selectForLanguage models n l) = []"
proof (induction ls arbitrary: ds)
  case (Cons k ls)
  then show ?case using selectForLanguage_None [of models n k]
    by (cases "has_root models n k") (auto simp: Let_def split: option.splits)
qed simp

lemma selectLatestVersion_model:
  "vs_model (selectLatestVersion models n lang) =
     (case find (has_root models n) (languages_tried lang) of None \<Rightarrow> None
      | Some l \<Rightarrow> vs_model (selectForLanguage models n l))"
  using selectForLanguage_None [of models n lang]
  by (auto simp: selectLatestVersion_def languages_tried_def select_preferred_model)

lemma selectLatestVersion_quiet:
  "vs_diagnostics (selectLatestVersion models n lang) = [] \<Longrightarrow>
    find (has_root models n) (languages_tried lang) = Some l \<Longrightarrow>
    vs_diagnostics (selectForLanguage models n l) = []"
  by (auto simp: selectLatestVersion_def languages_tried_def intro: select_preferred_quiet split: if_splits)

text \<open>C27. Version selection: a model is found exactly when one of the requested languages, or of
  the preferred ones in their order, has an entry of that name without precursor. The entry
  chosen has the requested name and the first such language, is not browse-only, and ends a chain
  of precursors that starts at a version without precursor; when no warning was issued this chain
  has every candidate of the language, so that the entry is the latest version.\<close>

theorem latest_version_selected:
  "(vs_model (selectLatestVersion models n lang) = None
      \<longleftrightarrow> find (has_root models n) (languages_tried lang) = None)
   \<and> (\<forall>i. vs_model (selectLatestVersion models n lang) = Some i \<longrightarrow>
        (\<exists>l path. find (has_root models n) (languages_tried lang) = Some l
           \<and> i < length models \<and> mm_name (models ! i) = n \<and> mm_schemaLanguage (models ! i) = l
           \<and> \<not> mm_browseOnly (models ! i) \<and> version_chain models (i # path) \<and> distinct (i # path)
           \<and> set (i # path) \<subseteq> set (version_candidates models n l)
           \<and> (vs_diagnostics (selectLatestVersion models n lang) = []
                \<longrightarrow> set (i # path) = set (version_candidates models n l))))"
proof (intro conjI allI impI)
  show "vs_model (selectLatestVersion models n lang) = None
      \<longleftrightarrow> find (has_root models n) (languages_tried lang) = None"
  proof (cases "find (has_root models n) (languages_tried lang)")
    case (Some l)
    then have "has_root models n l" by (auto simp: find_Some_iff)
    then show ?thesis using Some by (simp add: selectLatestVersion_model selectForLanguage_None)
  qed (simp add: selectLatestVersion_model)
next
  fix i assume i: "vs_model (selectLatestVersion models n lang) = Some i"
  then obtain l where l: "find (has_root models n) (languages_tried lang) = Some l"
      "vs_model (selectForLanguage models n l) = Some i"
    by (auto simp: selectLatestVersion_model split: option.splits)
  from selectForLanguage_Some [OF l(2)] obtain path where
    "version_chain models (i # path)" "distinct (i # path)"
    "set (i # path) \<subseteq> set (version_candidates models n l)"
    "vs_diagnostics (selectForLanguage models n l) = []
       \<longrightarrow> set (i # path) = set (version_candidates models n l)" by blast
  moreover from this(3) have "i < length models" "mm_name (models ! i) = n"
    "mm_schemaLanguage (models ! i) = l" "\<not> mm_browseOnly (models ! i)"
    by (auto simp: version_candidates_def)
  ultimately show "\<exists>l path. find (has_root models n) (languages_tried lang) = Some l
           \<and> i < length models \<and> mm_name (models ! i) = n \<and> mm_schemaLanguage (models ! i) = l
           \<and> \<not> mm_browseOnly (models ! i) \<and> version_chain models (i # path) \<and> distinct (i # path)
           \<and> set (i # path) \<subseteq> set (version_candidates models n l)
           \<and> (vs_diagnostics (selectLatestVersion models n lang) = []
                \<longrightarrow> set (i # path) = set (version_candidates models n l))"
    using l(1) selectLatestVersion_quiet [OF _ l(1)] by blast
qed

definition example_metadata :: "string \<Rightarrow> string \<Rightarrow> ModelMetadata" where
  "example_metadata version precursor = \<lparr>mm_name = ''M'', mm_schemaLanguage = ''ili2_3'',
     mm_file = ''M.ili'', mm_version = version, mm_publishingDate = [], mm_precursorVersion = precursor,
     mm_md5 = [], mm_repository = [], mm_dependencies = [], mm_browseOnly = False\<rparr>"

lemma example_metadata_simps [simp]:
  "mm_version (example_metadata v p) = v" "mm_precursorVersion (example_metadata v p) = p"
  by (simp_all add: example_metadata_def)

theorem latest_version_selected_witness:
  "\<exists>path. version_chain [example_metadata ''2'' ''1'', example_metadata ''1'' []] (0 # path)
     \<and> set (0 # path) = {0, 1}"
proof -
  let ?ms = "[example_metadata ''2'' ''1'', example_metadata ''1'' []]"
  have cands: "version_candidates ?ms ''M'' ''ili2_3'' = [0, 1]"
    by (simp add: version_candidates_def example_metadata_def upt_rec)
  have "successors ?ms [0, 1] {1} 1 = [0]" "successors ?ms [0, 1] {0, 1} 0 = []"
    by (simp_all add: successors_def)
  then have chain: "follow_chain ?ms ''M'' [0, 1] {1} 1 [] = (0, {0, 1}, [])"
    by (simp add: follow_chain.simps [of _ _ _ "{Suc 0}"] follow_chain.simps [of _ _ _ "{0, Suc 0}"])
  have sel: "selectLatestVersion ?ms ''M'' ''ili2_3'' = \<lparr>vs_model = Some 0, vs_diagnostics = []\<rparr>"
    using chain by (simp add: selectLatestVersion_def selectForLanguage_def cands Let_def)
  have "find (has_root ?ms ''M'') (languages_tried ''ili2_3'') = Some ''ili2_3''"
    by (simp add: languages_tried_def has_root_def cands)
  with latest_version_selected [of ?ms "''M''" "''ili2_3''"] sel cands show ?thesis by auto
qed

end
