(* ===== verification/Repository_Uri.thy ===== *)
theory Repository_Uri
  imports Ilic_Text
begin

section \<open>Repository URIs and paths\<close>

text \<open>
  source/repository/RepositoryUri.cpp, as it is compiled on POSIX systems. A function that may
  throw or report an error returns a sum with the message on the left. \<open>std::filesystem\<close> paths are
  strings; \<open>path_append\<close> is \<open>operator/\<close>, \<open>lexically_normal\<close> and \<open>path_components\<close> are the members
  of that name and the iteration over a path, and the working directory that
  \<open>std::filesystem::absolute\<close> reads is an argument.
\<close>

subsection \<open>Text helpers\<close>

abbreviation slash :: char where
  "slash \<equiv> CHR ''/''"

definition normalize_backslashes :: "string \<Rightarrow> string" where
  "normalize_backslashes s = map (\<lambda>c. if c = CHR 0x5C then slash else c) s"

fun scheme_tail :: "string \<Rightarrow> bool" where
  "scheme_tail [] = False"
| "scheme_tail (c # cs) =
     (if c = CHR '':'' then True
      else if \<not> is_alnum c \<and> c \<noteq> CHR ''+'' \<and> c \<noteq> CHR ''-'' \<and> c \<noteq> CHR ''.'' then False
      else scheme_tail cs)"

definition hasScheme :: "string \<Rightarrow> bool" where
  "hasScheme s = (case s of [] \<Rightarrow> False | c # cs \<Rightarrow> is_alpha c \<and> scheme_tail cs)"

definition isWindowsDrivePath :: "string \<Rightarrow> bool" where
  "isWindowsDrivePath s = (case s of c # d # _ \<Rightarrow> is_alpha c \<and> d = CHR '':'' | _ \<Rightarrow> False)"

definition hex_value :: "char \<Rightarrow> nat option" where
  "hex_value c =
     (if 48 \<le> byte_of c \<and> byte_of c \<le> 57 then Some (byte_of c - 48)
      else if 97 \<le> byte_of c \<and> byte_of c \<le> 102 then Some (byte_of c - 97 + 10)
      else if 65 \<le> byte_of c \<and> byte_of c \<le> 70 then Some (byte_of c - 65 + 10)
      else None)"

fun percentDecode :: "string \<Rightarrow> string + string" where
  "percentDecode [] = Inr []"
| "percentDecode (c # cs) =
     (if c \<noteq> CHR ''%'' then map_sum id ((#) c) (percentDecode cs)
      else case cs of
        a # b # rest \<Rightarrow>
          (case (hex_value a, hex_value b) of
             (Some h, Some l) \<Rightarrow>
               if 16 * h + l = 0 then Inl ''NUL is not permitted in a file URI''
               else map_sum id ((#) (char_of (16 * h + l))) (percentDecode rest)
           | _ \<Rightarrow> Inl ''invalid percent escape in file URI'')
      | _ \<Rightarrow> Inl ''invalid percent escape in file URI'')"

subsection \<open>Normalisation of local and remote names\<close>

definition slash_prefix :: "string \<Rightarrow> string \<times> nat" where
  "slash_prefix v =
     (if starts_with ''//'' v then (''//'', 2)
      else if v \<noteq> [] \<and> hd v = slash then (''/'', 1)
      else if isWindowsDrivePath v
      then (if 2 < length v \<and> v ! 2 = slash then (take 2 v @ ''/'', 3) else (take 2 v, 2))
      else ([], 0))"

definition push_part :: "bool \<Rightarrow> string list \<Rightarrow> string \<Rightarrow> string list" where
  "push_part rooted parts part =
     (if part = [] \<or> part = ''.'' then parts
      else if part = ''..'' \<and> parts \<noteq> [] \<and> last parts \<noteq> ''..'' then butlast parts
      else if part \<noteq> ''..'' \<or> \<not> rooted then parts @ [part]
      else parts)"

definition add_part :: "string \<Rightarrow> string \<Rightarrow> string" where
  "add_part normalized part =
     (if normalized \<noteq> [] \<and> last normalized \<noteq> slash then normalized @ ''/'' else normalized) @ part"

function strip_slashes :: "bool \<Rightarrow> string \<Rightarrow> string" where
  "strip_slashes drive s =
     (if 1 < length s \<and> last s = slash \<and> \<not> (length s = 3 \<and> drive) then strip_slashes drive (butlast s)
      else s)"
  by pat_completeness auto
termination by (relation "measure (\<lambda>(drive, s). length s)") auto

declare strip_slashes.simps [simp del]

definition normalizeSlashes :: "string \<Rightarrow> string" where
  "normalizeSlashes value =
     (let v = normalize_backslashes value;
          (prefix, start) = slash_prefix v;
          parts = foldl (push_part (prefix \<noteq> [])) [] (split_on slash (drop start v));
          normalized = foldl add_part prefix parts
      in strip_slashes (isWindowsDrivePath v) (if normalized = [] then ''.'' else normalized))"

definition is_suffix_char :: "char \<Rightarrow> bool" where
  "is_suffix_char c \<longleftrightarrow> c = CHR ''?'' \<or> c = CHR 0x23"

definition splitUriSuffix :: "string \<Rightarrow> string \<times> string" where
  "splitUriSuffix v = split_at is_suffix_char v"

definition push_remote :: "string list \<Rightarrow> string \<Rightarrow> string list" where
  "push_remote parts part =
     (if part = [] \<or> part = ''.'' then parts
      else if part = ''..'' then butlast parts
      else parts @ [part])"

text \<open>The position after \<open>://\<close>; without it \<open>find\<close> returns \<open>npos\<close> and \<open>npos + 3\<close> wraps to 2.\<close>

definition after_scheme :: "string \<Rightarrow> nat" where
  "after_scheme base = (case find_sub ''://'' base of Some i \<Rightarrow> i + 3 | None \<Rightarrow> 2)"

definition split_authority :: "string \<Rightarrow> string \<times> string" where
  "split_authority base =
     (let k = after_scheme base; (a, p) = split_at (\<lambda>c. c = slash) (drop k base) in (take k base @ a, p))"

definition normalizeRemote :: "string \<Rightarrow> string" where
  "normalizeRemote value =
     (let (base, suffix) = splitUriSuffix value;
          (authority, path) = split_authority base
      in case path of
           [] \<Rightarrow> base @ suffix
         | _ # rest \<Rightarrow>
             let parts = foldl push_remote [] (split_on slash rest)
             in authority @ concat (map (\<lambda>p. slash # p) parts) @ suffix)"

subsection \<open>Parsing\<close>

datatype RepositoryUriKind = LocalPath | FileUri | Http | Https

record RepositoryUri =
  ru_kind :: RepositoryUriKind
  ru_original :: string
  ru_normalized :: string
  ru_localPath :: string

definition scheme_of :: "string \<Rightarrow> string" where
  "scheme_of original =
     (case split_at (\<lambda>c. c = CHR '':'') original of (s, []) \<Rightarrow> [] | (s, _ # _) \<Rightarrow> lower s)"

definition after_colon :: "string \<Rightarrow> string" where
  "after_colon original = snd (split_at (\<lambda>c. c = CHR '':'') original)"

definition file_name :: "string \<Rightarrow> string" where
  "file_name path = (if starts_with ''//'' path then ''file:'' @ path else ''file://'' @ path)"

definition uri_parse :: "string \<Rightarrow> string + RepositoryUri" where
  "uri_parse input =
     (if input = [] then Inl ''repository URI is empty''
      else
        let scheme = scheme_of input in
        if scheme = ''http'' \<or> scheme = ''https'' then
          (if \<not> starts_with ''://'' (after_colon input) then Inl ''HTTP repository URI requires //''
           else Inr \<lparr>ru_kind = (if scheme = ''http'' then Http else Https), ru_original = input,
                     ru_normalized = normalizeRemote input, ru_localPath = []\<rparr>)
        else if scheme = ''file'' then
          (if \<not> starts_with ''://'' (after_colon input) then Inl ''file repository URI requires //''
           else case percentDecode (drop 3 (after_colon input)) of
             Inl e \<Rightarrow> Inl e
           | Inr decoded \<Rightarrow>
               let local = (if decoded \<noteq> [] \<and> hd decoded = slash then decoded else ''//'' @ decoded);
                   path = normalizeSlashes local
               in Inr \<lparr>ru_kind = FileUri, ru_original = input, ru_normalized = file_name path,
                       ru_localPath = path\<rparr>)
        else if hasScheme input \<and> \<not> isWindowsDrivePath input
        then Inl ''unsupported repository URI scheme''
        else
          let normalized = normalizeSlashes input
          in Inr \<lparr>ru_kind = LocalPath, ru_original = input, ru_normalized = normalized,
                  ru_localPath = normalized\<rparr>)"

definition isRemote :: "RepositoryUri \<Rightarrow> bool" where
  "isRemote u \<longleftrightarrow> ru_kind u = Http \<or> ru_kind u = Https"

definition toLocalPath :: "RepositoryUri \<Rightarrow> string + string" where
  "toLocalPath u =
     (if isRemote u then Inl ''remote repository URI has no local path'' else Inr (ru_localPath u))"

subsection \<open>Paths of the file system library\<close>

definition path_append :: "string \<Rightarrow> string \<Rightarrow> string" where
  "path_append a b =
     (if starts_with ''/'' b then b
      else if a \<noteq> [] \<and> last a \<noteq> slash then a @ ''/'' @ b
      else a @ b)"

definition path_names :: "string \<Rightarrow> string list" where
  "path_names s = filter (\<lambda>p. p \<noteq> []) (split_on slash s)"

definition push_lexical :: "bool \<Rightarrow> string list \<Rightarrow> string \<Rightarrow> string list" where
  "push_lexical rooted parts p =
     (if p = ''.'' then parts
      else if p = ''..'' then
        (if parts \<noteq> [] \<and> last parts \<noteq> ''..'' then butlast parts
         else if rooted then parts else parts @ [p])
      else parts @ [p])"

definition lexically_normal :: "string \<Rightarrow> string" where
  "lexically_normal s =
     (if s = [] then []
      else
        let rooted = starts_with ''/'' s; names = path_names s;
            parts = foldl (push_lexical rooted) [] names;
            trailing = (names \<noteq> [] \<and> (last s = slash \<or> last names = ''.'' \<or> last names = ''..''));
            path = (if rooted then ''/'' else []) @ join_with slash parts
              @ (if trailing \<and> parts \<noteq> [] \<and> last parts \<noteq> ''..'' then ''/'' else [])
        in if path = [] then ''.'' else path)"

definition path_components :: "string \<Rightarrow> string list" where
  "path_components s =
     (if starts_with ''/'' s then [''/''] else []) @ path_names s
     @ (if path_names s \<noteq> [] \<and> last s = slash then [[]] else [])"

definition path_absolute :: "string \<Rightarrow> string \<Rightarrow> string" where
  "path_absolute cwd s = path_append cwd s"

fun within_loop :: "string list \<Rightarrow> string list \<Rightarrow> bool" where
  "within_loop [] targets = True"
| "within_loop (r # roots) targets = (case targets of [] \<Rightarrow> False
     | t # ts \<Rightarrow> if r = t then within_loop roots ts else False)"

definition isPathWithin :: "string \<Rightarrow> string \<Rightarrow> string \<Rightarrow> bool" where
  "isPathWithin cwd root target =
     within_loop (path_components (lexically_normal (path_absolute cwd root)))
       (path_components (lexically_normal (path_absolute cwd target)))"

subsection \<open>Resolving and validating relative names\<close>

definition pop_slashes :: "string \<Rightarrow> string" where
  "pop_slashes s = rev (dropWhile (\<lambda>c. c = slash) (rev s))"

definition uri_resolve :: "RepositoryUri \<Rightarrow> string \<Rightarrow> string + RepositoryUri" where
  "uri_resolve u relative =
     (if hasScheme relative \<or> isWindowsDrivePath relative \<or> starts_with [CHR 0x5C, CHR 0x5C] relative
      then uri_parse relative
      else
        let clean = normalize_backslashes relative in
        if isRemote u then
          let (base, suffix) = splitUriSuffix (ru_normalized u) in
          if starts_with ''//'' clean
          then uri_parse (fst (split_at (\<lambda>c. c = CHR '':'') base) @ '':'' @ clean)
          else if clean \<noteq> [] \<and> is_suffix_char (hd clean) then uri_parse (base @ clean)
          else if clean \<noteq> [] \<and> hd clean = slash then uri_parse (fst (split_authority base) @ clean)
          else uri_parse (pop_slashes base @ ''/'' @ clean @ suffix)
        else if starts_with ''/'' relative then uri_parse relative
        else case uri_parse (lexically_normal (path_append (ru_localPath u) clean)) of
          Inl e \<Rightarrow> Inl e
        | Inr joined \<Rightarrow>
            if ru_kind u = FileUri then
              let value = file_name (ru_normalized joined)
              in Inr \<lparr>ru_kind = FileUri, ru_original = value, ru_normalized = value,
                      ru_localPath = ru_normalized joined\<rparr>
            else Inr joined)"

record RelativePathValidation =
  rv_valid :: bool
  rv_normalized :: string
  rv_error :: string

definition invalid_path :: "string \<Rightarrow> RelativePathValidation" where
  "invalid_path e = \<lparr>rv_valid = False, rv_normalized = [], rv_error = e\<rparr>"

fun collect_parts :: "string list \<Rightarrow> string list option" where
  "collect_parts [] = Some []"
| "collect_parts (p # ps) =
     (if p = ''..'' then None
      else map_option (if p \<noteq> [] \<and> p \<noteq> ''.'' then (#) p else id) (collect_parts ps))"

definition validateRepositoryRelativePath :: "string \<Rightarrow> RelativePathValidation" where
  "validateRepositoryRelativePath input =
     (if input = [] then invalid_path ''repository path is empty''
      else
        let v = normalize_backslashes input in
        if hd v = slash \<or> starts_with ''//'' v \<or> isWindowsDrivePath v \<or> hasScheme v
        then invalid_path ''repository path must be relative''
        else case collect_parts (split_on slash v) of
          None \<Rightarrow> invalid_path ''repository path must not contain parent traversal''
        | Some [] \<Rightarrow> invalid_path ''repository path is empty''
        | Some parts \<Rightarrow> \<lparr>rv_valid = True, rv_normalized = join_with slash parts, rv_error = []\<rparr>)"

subsection \<open>Plain names and reduced lists of names\<close>

definition plain :: "string \<Rightarrow> bool" where
  "plain p \<longleftrightarrow> p \<noteq> [] \<and> p \<noteq> ''.'' \<and> p \<noteq> ''..'' \<and> slash \<notin> set p"

definition segment :: "string \<Rightarrow> bool" where
  "segment p \<longleftrightarrow> p \<noteq> [] \<and> slash \<notin> set p"

definition reduced :: "bool \<Rightarrow> string list \<Rightarrow> bool" where
  "reduced rooted ps \<longleftrightarrow> (\<exists>k qs. ps = replicate k ''..'' @ qs \<and> list_all plain qs \<and> (rooted \<longrightarrow> k = 0))"

lemma plain_segment: "plain p \<Longrightarrow> segment p"
  by (simp add: plain_def segment_def)

lemma reduced_Nil [simp]: "reduced r []"
  by (simp add: reduced_def)

lemma reduced_plain: "list_all plain qs \<Longrightarrow> reduced r qs"
  unfolding reduced_def by (intro exI [of _ 0] exI [of _ qs]) simp

lemma reduced_append: "reduced r ps \<Longrightarrow> list_all plain qs \<Longrightarrow> reduced r (ps @ qs)"
proof -
  assume "reduced r ps" and qs: "list_all plain qs"
  then obtain k rs where "ps = replicate k ''..'' @ rs" "list_all plain rs" "r \<longrightarrow> k = 0"
    by (auto simp: reduced_def)
  then show ?thesis unfolding reduced_def using qs by (intro exI [of _ k] exI [of _ "rs @ qs"]) simp
qed

lemma reduced_butlast:
  assumes "reduced r ps" and "ps \<noteq> []" and "last ps \<noteq> ''..''"
  shows "reduced r (butlast ps)"
proof -
  obtain k qs where ps: "ps = replicate k ''..'' @ qs" "list_all plain qs" "r \<longrightarrow> k = 0"
    using assms(1) by (auto simp: reduced_def)
  have "qs \<noteq> []" using ps(1) assms(2,3) by (cases qs) (auto simp: last_replicate)
  then have "butlast ps = replicate k ''..'' @ butlast qs" using ps(1) by (simp add: butlast_append)
  moreover have "list_all plain (butlast qs)" using ps(2) by (auto simp: list_all_iff dest: in_set_butlastD)
  ultimately show ?thesis using ps(3) by (auto simp: reduced_def)
qed

lemma reduced_dotdot:
  assumes "reduced False ps" and "ps = [] \<or> last ps = ''..''"
  shows "reduced False (ps @ [''..''])"
proof -
  obtain k qs where ps: "ps = replicate k ''..'' @ qs" "list_all plain qs"
    using assms(1) by (auto simp: reduced_def)
  have "qs = []" using assms(2) ps by (cases qs rule: rev_cases) (auto simp: plain_def)
  then have "ps @ [''..''] = replicate (Suc k) ''..'' @ []"
    using ps(1) by (simp add: replicate_append_same)
  then show ?thesis by (auto simp: reduced_def intro: exI [of _ "Suc k"] simp del: replicate.simps)
qed

lemma reduced_segments:
  assumes "reduced r ns"
  shows "list_all segment ns"
proof -
  obtain k qs where ns: "ns = replicate k ''..'' @ qs" "list_all plain qs"
    using assms by (auto simp: reduced_def)
  have "segment ''..''" by (simp add: segment_def)
  with ns show ?thesis by (cases k) (auto simp: list_all_iff plain_segment)
qed

lemma segment_cases: "segment p \<Longrightarrow> p = ''.'' \<or> p = ''..'' \<or> plain p"
  by (auto simp: segment_def plain_def)

lemma push_part_lexical: "segment p \<Longrightarrow> push_part r ps p = push_lexical r ps p"
  by (auto simp: push_part_def push_lexical_def segment_def)

lemma push_lexical_reduced:
  assumes "segment p" and "reduced r ps"
  shows "reduced r (push_lexical r ps p)"
  using segment_cases [OF assms(1)]
proof (elim disjE)
  assume "p = ''..''"
  then show ?thesis using assms(2) reduced_butlast [of r ps] reduced_dotdot [of ps]
    by (cases r; cases "ps \<noteq> [] \<and> last ps \<noteq> ''..''") (auto simp: push_lexical_def)
next
  assume "plain p"
  then have "push_lexical r ps p = ps @ [p]" by (simp add: push_lexical_def plain_def)
  then show ?thesis using reduced_append [OF assms(2), of "[p]"] \<open>plain p\<close> by simp
qed (use assms(2) in \<open>simp add: push_lexical_def\<close>)

lemma foldl_lexical_reduced:
  "list_all segment ps \<Longrightarrow> reduced r acc \<Longrightarrow> reduced r (foldl (push_lexical r) acc ps)"
  by (induction ps arbitrary: acc) (auto intro: push_lexical_reduced)

lemma foldl_lexical_plain: "list_all plain qs \<Longrightarrow> foldl (push_lexical r) acc qs = acc @ qs"
  by (induction qs arbitrary: acc) (auto simp: push_lexical_def plain_def)

lemma foldl_lexical_dots: "foldl (push_lexical False) (replicate j ''..'') (replicate k ''..'') = replicate (j + k) ''..''"
proof (induction k arbitrary: j)
  case (Suc k)
  have "push_lexical False (replicate j ''..'') ''..'' = replicate (Suc j) ''..''"
    by (cases j) (auto simp: push_lexical_def replicate_append_same last_replicate)
  then show ?case using Suc [of "Suc j"] by simp
qed simp

lemma foldl_lexical_fixed:
  assumes "reduced r ps"
  shows "foldl (push_lexical r) [] ps = ps"
proof -
  obtain k qs where ps: "ps = replicate k ''..'' @ qs" "list_all plain qs" "r \<longrightarrow> k = 0"
    using assms by (auto simp: reduced_def)
  have "foldl (push_lexical r) [] (replicate k ''..'') = replicate k ''..''"
    using ps(3) foldl_lexical_dots [of 0 k] by (cases r) auto
  then show ?thesis using ps(1,2) by (simp add: foldl_lexical_plain)
qed

lemma foldl_push_part:
  "\<forall>p \<in> set ps. slash \<notin> set p \<Longrightarrow>
    foldl (push_part r) acc ps = foldl (push_lexical r) acc (filter (\<lambda>p. p \<noteq> []) ps)"
proof (induction ps arbitrary: acc)
  case (Cons p ps)
  then show ?case by (auto simp: push_part_lexical segment_def) (simp add: push_part_def)
qed simp

lemma path_names_segments [simp]: "list_all segment (path_names s)"
  by (auto simp: path_names_def list_all_iff segment_def dest: split_on_no_delim)

lemma foldl_split: "foldl (push_part r) acc (split_on slash s) = foldl (push_lexical r) acc (path_names s)"
  by (simp add: foldl_push_part path_names_def split_on_no_delim)

lemma join_segments_names:
  "list_all segment ps \<Longrightarrow> path_names (join_with slash ps) = ps"
proof (cases "ps = []")
  case False
  assume "list_all segment ps"
  then have "split_on slash (join_with slash ps) = ps" using False by (intro split_join) (auto simp: list_all_iff segment_def)
  then show ?thesis using \<open>list_all segment ps\<close>
    by (auto simp: path_names_def list_all_iff segment_def filter_id_conv)
qed (simp add: path_names_def)

lemma path_names_slash [simp]: "path_names (slash # s) = path_names s"
  by (simp add: path_names_def)

lemma path_names_append: "path_names (a @ slash # b) = path_names a @ path_names b"
  by (simp add: path_names_def split_on_append_delim)

lemma path_names_segment: "segment p \<Longrightarrow> path_names p = [p]"
  by (simp add: path_names_def split_on_pure segment_def)

subsection \<open>Local names\<close>

lemma join_with_snoc: "ps \<noteq> [] \<Longrightarrow> join_with d (ps @ [p]) = join_with d ps @ d # p"
  by (induction ps rule: induct_list012) auto

lemma join_with_append: "ps \<noteq> [] \<Longrightarrow> qs \<noteq> [] \<Longrightarrow> join_with d (ps @ qs) = join_with d ps @ d # join_with d qs"
proof (induction ps rule: induct_list012)
  case (2 p)
  then show ?case by (cases qs) simp_all
qed auto

lemma join_with_Cons: "ps \<noteq> [] \<Longrightarrow> join_with d (p # ps) = p @ d # join_with d ps"
  by (cases ps) simp_all

lemma join_nonempty: "list_all segment ps \<Longrightarrow> ps \<noteq> [] \<Longrightarrow> join_with slash ps \<noteq> []"
  by (cases ps rule: list.exhaust; cases "tl ps") (auto simp: segment_def)

lemma hd_join: "list_all segment ps \<Longrightarrow> ps \<noteq> [] \<Longrightarrow> hd (join_with slash ps) \<noteq> slash"
proof (induction ps rule: induct_list012)
  case (2 p)
  then show ?case by (auto simp: segment_def dest: hd_in_set)
next
  case (3 p q ps)
  then show ?case by (auto simp: segment_def dest: hd_in_set)
qed simp

lemma last_join: "list_all segment ps \<Longrightarrow> ps \<noteq> [] \<Longrightarrow> last (join_with slash ps) \<noteq> slash"
proof (induction ps rule: induct_list012)
  case (2 p)
  then show ?case by (auto simp: segment_def dest: last_in_set)
next
  case (3 p q ps)
  then show ?case using join_nonempty [of "q # ps"] by simp
qed simp

lemma add_parts:
  assumes "list_all segment ps"
  shows "foldl add_part prefix ps = (if ps = [] then prefix
     else if prefix \<noteq> [] \<and> last prefix \<noteq> slash then prefix @ slash # join_with slash ps
     else prefix @ join_with slash ps)"
  using assms
proof (induction ps rule: rev_induct)
  case (snoc p ps)
  have p: "p \<noteq> []" using snoc.prems by (simp add: segment_def)
  show ?case
  proof (cases "ps = []")
    case False
    then have "join_with slash ps \<noteq> []" "last (join_with slash ps) \<noteq> slash"
      using snoc.prems join_nonempty [of ps] last_join [of ps] by auto
    then show ?thesis using snoc False by (simp add: add_part_def join_with_snoc)
  qed (use p in \<open>simp add: add_part_def\<close>)
qed simp

lemma strip_slashes_fixed [simp]: "last s \<noteq> slash \<Longrightarrow> strip_slashes drive s = s"
  by (simp add: strip_slashes.simps)

lemma path_components_normal:
  assumes "starts_with ''/'' s" and "path_names s \<noteq> []" and "plain (last (path_names s))" and "last s \<noteq> slash"
  shows "path_components (lexically_normal s) = ''/'' # foldl (push_lexical True) [] (path_names s)"
proof -
  let ?ps = "foldl (push_lexical True) [] (path_names s)"
  have seg: "list_all segment (path_names s)" by simp
  have names: "path_names s = butlast (path_names s) @ [last (path_names s)]" using assms(2) by simp
  have "?ps = foldl (push_lexical True) [] (butlast (path_names s)) @ [last (path_names s)]"
    using assms(3) by (subst names, subst foldl_append) (simp add: push_lexical_def plain_def)
  then have ne: "?ps \<noteq> []" by simp
  have red: "reduced True ?ps" by (intro foldl_lexical_reduced) simp_all
  then have "list_all segment ?ps" by (rule reduced_segments)
  moreover have "lexically_normal s = slash # join_with slash ?ps"
    using assms by (cases s) (auto simp: lexically_normal_def Let_def plain_def)
  ultimately show ?thesis
    using ne last_join [of ?ps] join_nonempty [of ?ps]
    by (simp add: path_components_def join_segments_names)
qed

text \<open>The form of a normalised local name whose last name is an ordinary one.\<close>

lemma drive_prefix:
  "isWindowsDrivePath v \<Longrightarrow> \<exists>a rest. v = a # CHR '':'' # rest \<and> is_alpha a"
  by (auto simp: isWindowsDrivePath_def split: list.splits)

lemma drive_name_plain: "is_alpha a \<Longrightarrow> plain [a, CHR '':'']"
  by (auto simp: plain_def is_alpha_def is_lower_def is_upper_def)

lemma reduced_of_drive:
  assumes "reduced False ns" and "isWindowsDrivePath (join_with slash ns)"
  shows "reduced True ns"
proof -
  obtain k qs where ns: "ns = replicate k ''..'' @ qs" "list_all plain qs" using assms(1) by (auto simp: reduced_def)
  have "k = 0"
  proof (rule ccontr)
    assume "k \<noteq> 0"
    then obtain ms where "ns = ''..'' # ms" using ns(1) by (cases k) auto
    then show False using assms(2)
      by (cases ms) (auto simp: isWindowsDrivePath_def is_alpha_def is_lower_def is_upper_def)
  qed
  then show ?thesis using ns by (auto intro: reduced_plain)
qed

lemma normalizeSlashes_parts:
  assumes "slash_prefix (normalize_backslashes r) = (prefix, start)"
  obtains ns where "reduced (prefix \<noteq> []) ns"
    and "normalizeSlashes r = strip_slashes (isWindowsDrivePath (normalize_backslashes r))
      (if foldl add_part prefix ns = [] then ''.'' else foldl add_part prefix ns)"
proof -
  let ?ns = "foldl (push_lexical (prefix \<noteq> [])) [] (path_names (drop start (normalize_backslashes r)))"
  have "reduced (prefix \<noteq> []) ?ns" by (intro foldl_lexical_reduced) simp_all
  moreover have "normalizeSlashes r = strip_slashes (isWindowsDrivePath (normalize_backslashes r))
      (if foldl add_part prefix ?ns = [] then ''.'' else foldl add_part prefix ?ns)"
    unfolding normalizeSlashes_def Let_def assms prod.case foldl_split ..
  ultimately show ?thesis by (rule that)
qed

definition ordinary_path :: "string \<Rightarrow> bool" where
  "ordinary_path n \<longleftrightarrow> path_names n \<noteq> [] \<and> plain (last (path_names n)) \<and> last n \<noteq> slash"

lemma strip_root [simp]: "strip_slashes d ''/'' = ''/''" "strip_slashes d ''//'' = ''/''"
  by (simp_all add: strip_slashes.simps [of d "''/''"] strip_slashes.simps [of d "''//''"])

lemma slash_prefix_cases:
  "slash_prefix v = (prefix, start) \<Longrightarrow> prefix \<in> {[], ''/'', ''//''}
    \<or> (\<exists>a. is_alpha a \<and> (prefix = [a, CHR '':''] \<or> prefix = [a, CHR '':'', slash]))"
  using drive_prefix [of v] by (cases "isWindowsDrivePath v") (auto simp: slash_prefix_def split: if_splits)

lemma normal_local_form:
  assumes "ordinary_path (normalizeSlashes r)"
  shows "\<exists>lead ns. normalizeSlashes r = lead @ join_with slash ns \<and> lead \<in> {[], ''/'', ''//''}
    \<and> ns \<noteq> [] \<and> reduced (lead \<noteq> [] \<or> isWindowsDrivePath (normalizeSlashes r)) ns"
proof -
  let ?n = "normalizeSlashes r"
  obtain prefix start where ps: "slash_prefix (normalize_backslashes r) = (prefix, start)" by fastforce
  obtain ns where red: "reduced (prefix \<noteq> []) ns" and n: "?n = strip_slashes (isWindowsDrivePath (normalize_backslashes r))
      (if foldl add_part prefix ns = [] then ''.'' else foldl add_part prefix ns)"
    using normalizeSlashes_parts [OF ps] .
  note seg = reduced_segments [OF red]
  from slash_prefix_cases [OF ps] consider (plain) "prefix \<in> {[], ''/'', ''//''}"
    | (drive) a where "is_alpha a" "prefix = [a, CHR '':''] \<or> prefix = [a, CHR '':'', slash]" by blast
  then show ?thesis
  proof cases
    case plain
    then have lead: "prefix \<in> {[], ''/'', ''//''}" .
    have ne: "ns \<noteq> []"
    proof
      assume "ns = []"
      then have "?n \<in> {''.'', ''/''}" using lead by (auto simp: n)
      then show False using assms by (auto simp: ordinary_path_def path_names_def plain_def)
    qed
    have eq: "?n = prefix @ join_with slash ns"
      using lead ne last_join [OF seg ne] join_nonempty [OF seg ne] by (auto simp: n add_parts [OF seg])
    have "reduced (prefix \<noteq> [] \<or> isWindowsDrivePath ?n) ns"
      using red reduced_of_drive [of ns] eq by (cases "prefix = []"; cases "isWindowsDrivePath ?n") auto
    then show ?thesis using eq lead ne by (intro exI [of _ prefix] exI [of _ ns]) blast
  next
    case (drive a)
    then have plains: "list_all plain ns" using red by (auto simp: reduced_def)
    have drive_name: "plain [a, CHR '':'']" using drive(1) by (rule drive_name_plain)
    have eq: "?n = join_with slash ([a, CHR '':''] # ns)"
    proof (cases "ns = []")
      case True
      then have "?n = [a, CHR '':''] \<or> ?n = strip_slashes (isWindowsDrivePath (normalize_backslashes r)) [a, CHR '':'', slash]"
        using drive(2) by (auto simp: n)
      moreover have "isWindowsDrivePath (normalize_backslashes r)"
        using ps drive by (auto simp: slash_prefix_def split: if_splits)
      ultimately show ?thesis using assms True by (auto simp: strip_slashes.simps ordinary_path_def)
    next
      case False
      then have "foldl add_part prefix ns = [a, CHR '':'', slash] @ join_with slash ns"
        using drive(2) by (auto simp: add_parts [OF seg])
      then show ?thesis using False last_join [OF seg] join_nonempty [OF seg]
        by (simp add: n join_with_Cons)
    qed
    have "reduced True ([a, CHR '':''] # ns)" using plains drive_name by (intro reduced_plain) simp
    then show ?thesis
      using eq drive(1) by (intro exI [of _ "[]"] exI [of _ "[a, CHR '':''] # ns"])
        (cases ns; simp add: isWindowsDrivePath_def)
  qed
qed

subsection \<open>Resolving inside a local repository\<close>

lemma scheme_tail_slash: "scheme_tail (a @ slash # b) \<Longrightarrow> scheme_tail a"
  by (induction a) (auto simp: is_alnum_def is_alpha_def is_lower_def is_upper_def is_digit_def split: if_splits)

lemma hasScheme_slash: "a \<noteq> [] \<Longrightarrow> hasScheme (a @ slash # b) \<Longrightarrow> hasScheme a"
  by (cases a) (auto simp: hasScheme_def dest: scheme_tail_slash)

lemma drive_slash: "a \<noteq> [] \<Longrightarrow> isWindowsDrivePath (a @ slash # b) = isWindowsDrivePath a"
  by (cases a rule: list.exhaust; cases "tl a") (auto simp: isWindowsDrivePath_def)

lemma lower_alpha: "is_lower (to_lower c) \<Longrightarrow> is_alpha c"
  by (auto simp: to_lower_def is_alpha_def is_lower_def is_upper_def split: if_splits)

lemma scheme_tail_letters: "list_all is_alpha s \<Longrightarrow> scheme_tail (s @ CHR '':'' # t)"
  by (induction s) (auto simp: is_alnum_def)

lemma known_scheme:
  assumes "scheme_of s \<in> {''http'', ''https'', ''file''}"
  shows "hasScheme s \<and> \<not> isWindowsDrivePath s"
proof -
  let ?a = "takeWhile (\<lambda>c. c \<noteq> CHR '':'') s"
  obtain t where t: "dropWhile (\<lambda>c. c \<noteq> CHR '':'') s = CHR '':'' # t"
    using assms by (cases "dropWhile (\<lambda>c. c \<noteq> CHR '':'') s")
      (auto simp: scheme_of_def split_at_def dropWhile_eq_Cons_conv)
  have s: "s = ?a @ CHR '':'' # t" using takeWhile_dropWhile_id [of "\<lambda>c. c \<noteq> CHR '':''" s] t by simp
  have low: "lower ?a \<in> {''http'', ''https'', ''file''}" using assms t by (simp add: scheme_of_def split_at_def)
  then have "list_all is_lower (lower ?a)" by (auto simp: is_lower_def)
  then have al: "list_all is_alpha ?a" by (auto simp: list_all_iff lower_def lower_alpha)
  have len: "length ?a \<ge> 4" using low by (auto simp: lower_def dest: arg_cong [of _ _ length])
  then obtain x y z where a: "?a = x # y # z" by (cases ?a rule: list.exhaust; cases "tl ?a") auto
  then have "is_alpha x" "list_all is_alpha (y # z)" "y \<noteq> CHR '':''"
    using al by (auto simp: is_alpha_def is_lower_def is_upper_def)
  then show ?thesis
    using scheme_tail_letters [of "y # z" t]
    by (subst (1 2) s) (simp add: a hasScheme_def isWindowsDrivePath_def)
qed

lemma local_parse:
  assumes "s \<noteq> []" and "hasScheme s \<longrightarrow> isWindowsDrivePath s"
  shows "uri_parse s = Inr \<lparr>ru_kind = LocalPath, ru_original = s, ru_normalized = normalizeSlashes s,
    ru_localPath = normalizeSlashes s\<rparr>"
proof -
  have "scheme_of s \<notin> {''http'', ''https'', ''file''}" using known_scheme [of s] assms(2) by blast
  then show ?thesis using assms by (auto simp: uri_parse_def Let_def)
qed

lemma backslash_free_fixed: "CHR 0x5C \<notin> set s \<Longrightarrow> normalize_backslashes s = s"
  by (induction s) (auto simp: normalize_backslashes_def)

lemma set_join_with: "set (join_with d ps) \<subseteq> insert d (\<Union> (set ` set ps))"
  by (induction ps rule: induct_list012) auto

lemma normalizeSlashes_by_prefix:
  assumes "normalize_backslashes t = t" and "slash_prefix t = (prefix, start)"
    and "path_names (drop start t) = ns" and "reduced (prefix \<noteq> []) ns"
    and "foldl add_part prefix ns = t" and "t \<noteq> []" and "last t \<noteq> slash"
  shows "normalizeSlashes t = t"
  using assms foldl_lexical_fixed [OF assms(4)]
  by (simp add: normalizeSlashes_def Let_def foldl_split)

lemma drive_hasScheme: "isWindowsDrivePath s \<Longrightarrow> hasScheme s"
  using drive_prefix [of s] by (auto simp: hasScheme_def)

lemma normalizeSlashes_fixed:
  assumes "t = lead @ join_with slash ns" and "lead \<in> {[], ''/''}" and "ns \<noteq> []"
    and "reduced (lead \<noteq> []) ns" and "CHR 0x5C \<notin> set t" and "\<not> isWindowsDrivePath t"
  shows "normalizeSlashes t = t"
proof (rule normalizeSlashes_by_prefix)
  note seg = reduced_segments [OF assms(4)]
  show "normalize_backslashes t = t" using assms(5) by (rule backslash_free_fixed)
  show "t \<noteq> []" "last t \<noteq> slash" using assms last_join [OF seg] join_nonempty [OF seg] by auto
  obtain c cs where c: "join_with slash ns = c # cs" "c \<noteq> slash"
    using hd_join [OF seg assms(3)] join_nonempty [OF seg assms(3)] by (cases "join_with slash ns") auto
  show "slash_prefix t = (lead, length lead)"
    using assms(1,2,6) c by (auto simp: slash_prefix_def)
  show "path_names (drop (length lead) t) = ns" using assms(1) seg by (simp add: join_segments_names)
  show "reduced (lead \<noteq> []) ns" by (rule assms(4))
  show "foldl add_part lead ns = t" using assms(1-3) by (auto simp: add_parts [OF seg])
qed

text \<open>The characters of a normalised name come from the name.\<close>

lemma set_foldl_lexical: "set (foldl (push_lexical r) acc ps) \<subseteq> set acc \<union> set ps"
proof (induction ps arbitrary: acc)
  case (Cons p ps)
  have "set (push_lexical r acc p) \<subseteq> set acc \<union> {p}"
    by (auto simp: push_lexical_def dest: in_set_butlastD)
  then show ?case using Cons [of "push_lexical r acc p"] by auto
qed simp

lemma set_split_on: "p \<in> set (split_on d s) \<Longrightarrow> set p \<subseteq> set s"
  by (induction s arbitrary: p) (fastforce split: if_splits list.splits)+

lemma set_strip_slashes: "set (strip_slashes drive s) \<subseteq> set s"
  by (induction drive s rule: strip_slashes.induct)
     (subst strip_slashes.simps, auto dest: in_set_butlastD)

lemma set_foldl_add_part: "set (foldl add_part pre ps) \<subseteq> set pre \<union> insert slash (\<Union> (set ` set ps))"
proof (induction ps arbitrary: pre)
  case (Cons p ps)
  have "set (add_part pre p) \<subseteq> set pre \<union> {slash} \<union> set p" by (auto simp: add_part_def)
  then show ?case using Cons [of "add_part pre p"] by auto
qed auto

lemma normalizeSlashes_no_backslash: "CHR 0x5C \<notin> set (normalizeSlashes r)"
proof -
  let ?v = "normalize_backslashes r"
  obtain pre start where ps: "slash_prefix ?v = (pre, start)" by fastforce
  let ?ns = "foldl (push_lexical (pre \<noteq> [])) [] (path_names (drop start ?v))"
  have v: "CHR 0x5C \<notin> set ?v" by (auto simp: normalize_backslashes_def)
  have "set pre \<subseteq> insert slash (set ?v)"
    using ps by (auto simp: slash_prefix_def dest: in_set_takeD split: if_splits)
  moreover have "\<Union> (set ` set ?ns) \<subseteq> set ?v"
  proof -
    have "set ?ns \<subseteq> set (split_on slash (drop start ?v))"
      using set_foldl_lexical [of "pre \<noteq> []" "[]"] by (fastforce simp: path_names_def)
    then show ?thesis using set_split_on [of _ slash "drop start ?v"] set_drop_subset [of start ?v] by blast
  qed
  ultimately have "set (foldl add_part pre ?ns) \<subseteq> insert slash (set ?v)"
    using set_foldl_add_part [of pre ?ns] by blast
  moreover have "normalizeSlashes r = strip_slashes (isWindowsDrivePath ?v)
      (if foldl add_part pre ?ns = [] then ''.'' else foldl add_part pre ?ns)"
    unfolding normalizeSlashes_def Let_def ps prod.case foldl_split ..
  ultimately show ?thesis
    using v set_strip_slashes [of "isWindowsDrivePath ?v" "if foldl add_part pre ?ns = [] then ''.'' else foldl add_part pre ?ns"]
    by (auto split: if_splits)
qed

lemma collect_parts_Some:
  "collect_parts ps = Some qs \<Longrightarrow> ''..'' \<notin> set ps \<and> qs = filter (\<lambda>p. p \<noteq> [] \<and> p \<noteq> ''.'') ps"
  by (induction ps arbitrary: qs) (auto split: if_splits)

lemma validated_form:
  assumes "rv_valid (validateRepositoryRelativePath f)"
  shows "\<exists>ps. ps \<noteq> [] \<and> list_all plain ps \<and> CHR 0x5C \<notin> set (join_with slash ps)
    \<and> rv_normalized (validateRepositoryRelativePath f) = join_with slash ps"
proof -
  let ?v = "normalize_backslashes f"
  obtain ps where ps: "collect_parts (split_on slash ?v) = Some ps" "ps \<noteq> []"
      "rv_normalized (validateRepositoryRelativePath f) = join_with slash ps"
    using assms by (auto simp: validateRepositoryRelativePath_def invalid_path_def Let_def
        split: if_splits option.splits list.splits)
  have member: "p \<in> set (split_on slash ?v) \<and> plain p" if "p \<in> set ps" for p
    using collect_parts_Some [OF ps(1)] that split_on_no_delim [of p slash ?v] by (auto simp: plain_def)
  have "CHR 0x5C \<notin> set ?v" by (auto simp: normalize_backslashes_def)
  then have "CHR 0x5C \<notin> set (join_with slash ps)"
    using set_join_with [of slash ps] member set_split_on [of _ slash ?v] by fastforce
  then show ?thesis using ps member by (auto simp: list_all_iff)
qed

lemma within_prefix: "within_loop xs (xs @ ys)"
  by (induction xs) auto

lemma absolute_names:
  assumes "cwd = slash # join_with slash cs" and "list_all segment cs"
    and "n \<noteq> []"
  shows "starts_with ''/'' (path_absolute cwd n)
    \<and> path_names (path_absolute cwd n) = (if starts_with ''/'' n then [] else cs) @ path_names n
    \<and> last (path_absolute cwd n) = last n"
proof (cases "starts_with ''/'' n \<or> cs = []")
  case True
  then show ?thesis using assms
    by (auto simp: path_absolute_def path_append_def path_names_def)
next
  case False
  then have "path_absolute cwd n = cwd @ slash # n"
    using assms(1) last_join [OF assms(2)] join_nonempty [OF assms(2)]
    by (simp add: path_absolute_def path_append_def)
  then show ?thesis using False assms
    by (simp add: path_names_append join_segments_names)
qed

lemma local_within:
  assumes cwd: "cwd = slash # join_with slash cs" "list_all segment cs"
    and n: "n = lead @ join_with slash ns" "lead \<in> {[], ''/'', ''//''}" "ns \<noteq> []" "list_all segment ns" "plain (last ns)"
    and t: "t = (if lead = [] then [] else ''/'') @ join_with slash (ns @ ps)" "list_all plain ps" "ps \<noteq> []"
  shows "isPathWithin cwd n t"
proof -
  have seg: "list_all segment (ns @ ps)" using n t(2) by (auto simp: list_all_iff plain_segment)
  note jn = join_nonempty [OF n(4,3)] hd_join [OF n(4,3)] last_join [OF n(4,3)]
  have jt: "join_with slash (ns @ ps) \<noteq> []" "hd (join_with slash (ns @ ps)) \<noteq> slash"
      "last (join_with slash (ns @ ps)) \<noteq> slash"
    using join_nonempty [OF seg] hd_join [OF seg] last_join [OF seg] n(3) by auto
  have names: "path_names n = ns" "path_names t = ns @ ps"
    using n(1,2) t(1) n(4) seg by (auto simp: join_segments_names)
  have rooted: "starts_with ''/'' n = (lead \<noteq> [])" "starts_with ''/'' t = (lead \<noteq> [])"
    using n(1,2) t(1) jn jt by (cases "join_with slash ns"; cases "join_with slash (ns @ ps)"; auto)+
  have nonslash: "n \<noteq> []" "t \<noteq> []" "last n \<noteq> slash" "last t \<noteq> slash" using n(1) t(1) jn jt by auto
  let ?cs = "if lead \<noteq> [] then [] else cs"
  note an = absolute_names [OF cwd nonslash(1)] and at = absolute_names [OF cwd nonslash(2)]
  have "path_components (lexically_normal (path_absolute cwd n)) = ''/'' # foldl (push_lexical True) [] (?cs @ ns)"
    using an n(3,5) nonslash names rooted by (subst path_components_normal) auto
  moreover have "plain (last ps)" using t(2,3) by (auto simp: list_all_iff)
  then have "path_components (lexically_normal (path_absolute cwd t)) = ''/'' # foldl (push_lexical True) [] (?cs @ ns @ ps)"
    using at t(3) nonslash names rooted by (subst path_components_normal) auto
  moreover have "foldl (push_lexical True) [] (?cs @ ns @ ps) = foldl (push_lexical True) [] (?cs @ ns) @ ps"
    using foldl_lexical_plain [OF t(2), of True "foldl (push_lexical True) [] (?cs @ ns)"]
    by (simp only: append_assoc [symmetric] foldl_append)
  ultimately show ?thesis unfolding isPathWithin_def using within_prefix by simp
qed

lemma lexically_normal_joined:
  assumes "lead \<in> {[], ''/'', ''//''}" and "reduced (lead \<noteq> []) (ns @ ps)" and "ps \<noteq> []" "list_all plain ps" "ns \<noteq> []"
  shows "lexically_normal (lead @ join_with slash (ns @ ps))
    = (if lead = [] then [] else ''/'') @ join_with slash (ns @ ps)"
proof -
  let ?j = "join_with slash (ns @ ps)"
  note seg = reduced_segments [OF assms(2)]
  have j: "?j \<noteq> []" "hd ?j \<noteq> slash" "last ?j \<noteq> slash"
    using join_nonempty [OF seg] hd_join [OF seg] last_join [OF seg] assms(3) by auto
  have names: "path_names (lead @ ?j) = ns @ ps" using assms(1) seg by (auto simp: join_segments_names)
  have rooted: "starts_with ''/'' (lead @ ?j) = (lead \<noteq> [])" using assms(1) j by (cases ?j) auto
  have "plain (last ps)" using assms(3,4) by (auto simp: list_all_iff)
  then show ?thesis using j assms(3) foldl_lexical_fixed [OF assms(2)]
    unfolding lexically_normal_def names rooted Let_def by (auto simp: plain_def)
qed

lemma local_root:
  assumes "uri_parse r = Inr root" and "\<not> isRemote root"
  shows "(\<exists>x. ru_localPath root = normalizeSlashes x) \<and> ru_kind root \<in> {LocalPath, FileUri}"
  using assms by (auto simp: uri_parse_def isRemote_def Let_def split: if_splits sum.splits)

lemma local_resolve:
  assumes root: "ru_localPath root = normalizeSlashes x" "\<not> isRemote root"
    and n: "ordinary_path (normalizeSlashes x)" "\<not> hasScheme (normalizeSlashes x)"
    and p: "p = join_with slash ps" "ps \<noteq> []" "list_all plain ps" "CHR 0x5C \<notin> set p" "\<not> hasScheme p"
  obtains lead ns u where "normalizeSlashes x = lead @ join_with slash ns" "lead \<in> {[], ''/'', ''//''}"
    "ns \<noteq> []" "reduced (lead \<noteq> []) ns" "uri_resolve root p = Inr u"
    "ru_localPath u = (if lead = [] then [] else ''/'') @ join_with slash (ns @ ps)"
    "ru_kind u = (if ru_kind root = FileUri then FileUri else LocalPath)"
proof -
  let ?n = "normalizeSlashes x"
  obtain lead ns where form: "?n = lead @ join_with slash ns" "lead \<in> {[], ''/'', ''//''}" "ns \<noteq> []"
      "reduced (lead \<noteq> [] \<or> isWindowsDrivePath ?n) ns"
    using normal_local_form [OF n(1)] by blast
  have nodrive: "\<not> isWindowsDrivePath ?n" "\<not> isWindowsDrivePath p" using n(2) p(5) drive_hasScheme by blast+
  with form(4) have red: "reduced (lead \<noteq> []) ns" by simp
  note nseg = reduced_segments [OF red]
  have pseg: "list_all segment ps" using p(3) by (auto simp: list_all_iff plain_segment)
  have phd: "p \<noteq> []" "hd p \<noteq> slash" using p(1) join_nonempty [OF pseg p(2)] hd_join [OF pseg p(2)] by auto
  have nlast: "?n \<noteq> []" "last ?n \<noteq> slash"
    using form(1,3) join_nonempty [OF nseg] last_join [OF nseg] by auto
  have nostart: "\<not> starts_with [CHR 0x5C, CHR 0x5C] p" "\<not> starts_with ''/'' p"
    using p(4) phd by (cases p; auto)+
  have append: "path_append ?n p = lead @ join_with slash (ns @ ps)"
    using form(1) nlast nostart(2) p(1) join_with_append [OF form(3) p(2), of slash]
    by (simp add: path_append_def)
  let ?t = "(if lead = [] then [] else ''/'') @ join_with slash (ns @ ps)"
  have redt: "reduced (lead \<noteq> []) (ns @ ps)" using red p(3) by (rule reduced_append)
  have lex: "lexically_normal (path_append ?n p) = ?t"
    unfolding append using form(2) redt p(2,3) form(3) by (rule lexically_normal_joined)
  have noscheme: "\<not> hasScheme ?t"
  proof (cases "lead = []")
    case True
    then have "?t = ?n @ slash # p" using form(1) p(1) join_with_append [OF form(3) p(2), of slash] by simp
    then show ?thesis using hasScheme_slash [of ?n p] nlast(1) n(2) by metis
  qed (simp add: hasScheme_def is_alpha_def is_lower_def is_upper_def)
  have nobs: "CHR 0x5C \<notin> set ?t"
    using normalizeSlashes_no_backslash [of x] form(1) p(1,4) join_with_append [OF form(3) p(2), of slash] by auto
  have "normalizeSlashes ?t = ?t"
    using form(3) redt nobs noscheme drive_hasScheme by (intro normalizeSlashes_fixed [OF refl]) auto
  moreover have "?t \<noteq> []" using join_nonempty [OF reduced_segments [OF redt]] form(3) by auto
  ultimately have parse: "uri_parse ?t = Inr \<lparr>ru_kind = LocalPath, ru_original = ?t, ru_normalized = ?t, ru_localPath = ?t\<rparr>"
    using local_parse [of ?t] noscheme by simp
  have clean: "normalize_backslashes p = p" using p(4) by (rule backslash_free_fixed)
  define u where "u = (if ru_kind root = FileUri then \<lparr>ru_kind = FileUri, ru_original = file_name ?t,
    ru_normalized = file_name ?t, ru_localPath = ?t\<rparr>
    else \<lparr>ru_kind = LocalPath, ru_original = ?t, ru_normalized = ?t, ru_localPath = ?t\<rparr>)"
  have "uri_resolve root p = Inr u"
    using nostart p(5) nodrive(2) root by (simp add: uri_resolve_def clean lex parse u_def Let_def)
  then show ?thesis using that form red by (simp add: u_def)
qed



text \<open>The two ways around this protection. Validation looks at the path before it drops empty and
  dot parts, so a path whose first remaining part ends in a colon becomes a drive name, which
  replaces the repository altogether, or a URI without \<open>//\<close>, which makes resolution throw. A
  relative repository path that ends in a dot part compares unequal to every path below it.\<close>

lemma validated_drive_path:
  "validateRepositoryRelativePath ''./c:/x'' = \<lparr>rv_valid = True, rv_normalized = ''c:/x'', rv_error = []\<rparr>"
  by (simp add: validateRepositoryRelativePath_def normalize_backslashes_def isWindowsDrivePath_def
      hasScheme_def is_alpha_def is_lower_def is_upper_def)

lemma validated_scheme_path:
  "validateRepositoryRelativePath ''./http://x'' = \<lparr>rv_valid = True, rv_normalized = ''http:/x'', rv_error = []\<rparr>"
  by (simp add: validateRepositoryRelativePath_def normalize_backslashes_def isWindowsDrivePath_def
      hasScheme_def is_alpha_def is_lower_def is_upper_def)

text \<open>A validated path can leave its repository: against any repository, remote ones included,
  the validated form of one path resolves to a local drive path instead of a path of the
  repository, and the validated form of another makes resolution throw. With the current directory
  as repository the containment check rejects even an ordinary file.\<close>

theorem validated_path_escapes:
  "rv_valid (validateRepositoryRelativePath ''./c:/x'')
   \<and> uri_resolve root (rv_normalized (validateRepositoryRelativePath ''./c:/x''))
       = Inr \<lparr>ru_kind = LocalPath, ru_original = ''c:/x'', ru_normalized = ''c:/x'', ru_localPath = ''c:/x''\<rparr>
   \<and> rv_valid (validateRepositoryRelativePath ''./http://x'')
   \<and> uri_resolve root (rv_normalized (validateRepositoryRelativePath ''./http://x''))
       = Inl ''HTTP repository URI requires //''
   \<and> \<not> isPathWithin ''/home'' ''.'' ''M.ili''"
proof (intro conjI)
  show "rv_valid (validateRepositoryRelativePath ''./c:/x'')"
    "rv_valid (validateRepositoryRelativePath ''./http://x'')"
    by (simp_all add: validated_drive_path validated_scheme_path)
  have drive: "isWindowsDrivePath ''c:/x''" by (simp add: isWindowsDrivePath_def is_alpha_def is_lower_def)
  have "normalizeSlashes ''c:/x'' = ''c:/x''"
    by (simp add: normalizeSlashes_def normalize_backslashes_def slash_prefix_def drive push_part_def
        add_part_def strip_slashes.simps [of _ "''c:/x''"])
  then show "uri_resolve root (rv_normalized (validateRepositoryRelativePath ''./c:/x''))
       = Inr \<lparr>ru_kind = LocalPath, ru_original = ''c:/x'', ru_normalized = ''c:/x'', ru_localPath = ''c:/x''\<rparr>"
    using local_parse [of "''c:/x''"] by (simp add: uri_resolve_def validated_drive_path drive)
  have "hasScheme ''http:/x''" "scheme_of ''http:/x'' = ''http''" "after_colon ''http:/x'' = '':/x''"
    by (simp_all add: hasScheme_def scheme_of_def after_colon_def split_at_def lower_def to_lower_def
        is_alpha_def is_lower_def is_upper_def is_alnum_def is_digit_def)
  then show "uri_resolve root (rv_normalized (validateRepositoryRelativePath ''./http://x''))
       = Inl ''HTTP repository URI requires //''"
    by (simp add: uri_resolve_def validated_scheme_path uri_parse_def Let_def)
  show "\<not> isPathWithin ''/home'' ''.'' ''M.ili''"
    by (simp add: isPathWithin_def path_absolute_def path_append_def lexically_normal_def path_names_def
        push_lexical_def path_components_def Let_def)
qed

subsection \<open>Remote names\<close>

text \<open>The parts of a normalised remote name: scheme, authority, path and suffix.\<close>

definition remote_base :: "string \<Rightarrow> string \<Rightarrow> string list \<Rightarrow> string" where
  "remote_base sch host ps = sch @ ''://'' @ host @ concat (map (\<lambda>p. slash # p) ps)"

definition remote_ok :: "string \<Rightarrow> string \<Rightarrow> string list \<Rightarrow> string \<Rightarrow> bool" where
  "remote_ok sch host ps suffix \<longleftrightarrow> lower sch \<in> {''http'', ''https''}
     \<and> slash \<notin> set host \<and> \<not> list_ex is_suffix_char host
     \<and> list_all plain ps \<and> \<not> list_ex (list_ex is_suffix_char) ps
     \<and> (suffix = [] \<or> is_suffix_char (hd suffix))"

lemma scheme_letters:
  assumes "lower sch \<in> {''http'', ''https''}"
  shows "list_all is_alpha sch"
proof -
  have "list_all is_lower (lower sch)" using assms by (auto simp: is_lower_def)
  then show ?thesis by (auto simp: list_all_iff lower_def lower_alpha)
qed

lemma alpha_not_special: "is_alpha c \<Longrightarrow> c \<noteq> CHR '':'' \<and> c \<noteq> slash \<and> \<not> is_suffix_char c"
  by (auto simp: is_alpha_def is_lower_def is_upper_def is_suffix_char_def)

lemma concat_slash_join: "ps \<noteq> [] \<Longrightarrow> concat (map (\<lambda>p. slash # p) ps) = slash # join_with slash ps"
  by (induction ps rule: induct_list012) auto

lemma split_at_exact:
  "list_all (\<lambda>c. \<not> P c) a \<Longrightarrow> (b = [] \<or> P (hd b)) \<Longrightarrow> split_at P (a @ b) = (a, b)"
  by (cases b) (auto simp: split_at_def list_all_iff takeWhile_append dropWhile_append dropWhile_eq_self_iff)

lemma find_scheme_end:
  "list_all (\<lambda>c. c \<noteq> CHR '':'') s \<Longrightarrow> find_sub ''://'' (s @ ''://'' @ t) = Some (length s)"
  by (induction s) auto

lemma remote_base_clean:
  assumes "remote_ok sch host ps suffix"
  shows "list_all (\<lambda>c. \<not> is_suffix_char c) (remote_base sch host ps)"
proof -
  have "\<not> is_suffix_char (CHR '':'')" "\<not> is_suffix_char slash" by (simp_all add: is_suffix_char_def)
  moreover have "\<forall>c \<in> set sch. \<not> is_suffix_char c"
    using assms scheme_letters [of sch] alpha_not_special by (auto simp: remote_ok_def list_all_iff)
  ultimately show ?thesis using assms
    by (auto simp: remote_base_def remote_ok_def list_all_iff list_ex_iff)
qed

lemma remote_split:
  assumes "remote_ok sch host ps suffix"
  shows "splitUriSuffix (remote_base sch host ps @ suffix) = (remote_base sch host ps, suffix)"
  unfolding splitUriSuffix_def using remote_base_clean [OF assms] assms
  by (intro split_at_exact) (auto simp: remote_ok_def)

lemma authority_split:
  assumes "list_all (\<lambda>c. c \<noteq> CHR '':'') sch" and "slash \<notin> set host" and "path = [] \<or> hd path = slash"
  shows "split_authority (sch @ ''://'' @ host @ path) = (sch @ ''://'' @ host, path)"
proof -
  have "after_scheme (sch @ ''://'' @ host @ path) = length sch + 3"
    using find_scheme_end [OF assms(1), of "host @ path"] by (simp add: after_scheme_def)
  moreover have "split_at (\<lambda>c. c = slash) (host @ path) = (host, path)"
    using assms(2,3) by (intro split_at_exact) (auto simp: list_all_iff)
  ultimately show ?thesis by (simp add: split_authority_def Let_def)
qed

lemma foldl_remote_plain: "list_all plain ps \<Longrightarrow> foldl push_remote acc ps = acc @ ps"
  by (induction ps arbitrary: acc) (auto simp: push_remote_def plain_def)

lemma normalizeRemote_parts:
  assumes "list_all (\<lambda>c. c \<noteq> CHR '':'') sch" and "slash \<notin> set host" and "path = [] \<or> hd path = slash"
    and "list_all (\<lambda>c. \<not> is_suffix_char c) (sch @ ''://'' @ host @ path)"
    and "suffix = [] \<or> is_suffix_char (hd suffix)"
  shows "normalizeRemote ((sch @ ''://'' @ host @ path) @ suffix)
    = remote_base sch host (if path = [] then [] else foldl push_remote [] (split_on slash (tl path))) @ suffix"
proof -
  have "splitUriSuffix ((sch @ ''://'' @ host @ path) @ suffix) = (sch @ ''://'' @ host @ path, suffix)"
    unfolding splitUriSuffix_def using assms(4,5) by (rule split_at_exact)
  then show ?thesis using authority_split [OF assms(1-3)]
    by (cases path) (simp_all add: normalizeRemote_def remote_base_def)
qed

lemma normalizeRemote_fixed:
  assumes "remote_ok sch host ps suffix"
  shows "normalizeRemote (remote_base sch host ps @ suffix) = remote_base sch host ps @ suffix"
proof -
  let ?path = "concat (map (\<lambda>p. slash # p) ps)"
  have colon: "list_all (\<lambda>c. c \<noteq> CHR '':'') sch"
    using assms scheme_letters [of sch] alpha_not_special by (auto simp: remote_ok_def list_all_iff)
  have "foldl push_remote [] (split_on slash (tl ?path)) = ps" if "ps \<noteq> []"
  proof -
    have "split_on slash (join_with slash ps) = ps"
      using assms that by (intro split_join) (auto simp: remote_ok_def list_all_iff plain_def)
    then show ?thesis using assms that foldl_remote_plain [of ps "[]"]
      by (simp add: concat_slash_join remote_ok_def)
  qed
  moreover have "?path = [] \<or> hd ?path = slash" by (cases ps) auto
  ultimately show ?thesis
    using normalizeRemote_parts [OF colon, of host ?path suffix] assms remote_base_clean [OF assms]
    by (auto simp: remote_base_def remote_ok_def)
qed

lemma set_foldl_remote: "set (foldl push_remote acc ps) \<subseteq> set acc \<union> {p \<in> set ps. p \<noteq> [] \<and> p \<noteq> ''.'' \<and> p \<noteq> ''..''}"
proof (induction ps arbitrary: acc)
  case (Cons p ps)
  have "set (push_remote acc p) \<subseteq> set acc \<union> (if p \<noteq> [] \<and> p \<noteq> ''.'' \<and> p \<noteq> ''..'' then {p} else {})"
    by (auto simp: push_remote_def dest: in_set_butlastD)
  then show ?case using Cons [of "push_remote acc p"] by (auto split: if_splits)
qed simp

lemma remote_parse_form:
  assumes "uri_parse input = Inr u" and "isRemote u"
  obtains sch host ps suffix where "remote_ok sch host ps suffix"
    "ru_normalized u = remote_base sch host ps @ suffix"
    "ru_kind u = (if lower sch = ''http'' then Http else Https)"
proof -
  let ?sch = "takeWhile (\<lambda>c. c \<noteq> CHR '':'') input"
  have u: "scheme_of input \<in> {''http'', ''https''}" "starts_with ''://'' (after_colon input)"
      "ru_normalized u = normalizeRemote input" "ru_kind u = (if scheme_of input = ''http'' then Http else Https)"
    using assms by (auto simp: uri_parse_def isRemote_def Let_def split: if_splits sum.splits)
  then obtain rest where rest: "dropWhile (\<lambda>c. c \<noteq> CHR '':'') input = ''://'' @ rest"
    by (auto simp: after_colon_def split_at_def starts_with_iff)
  then have low: "scheme_of input = lower ?sch" by (simp add: scheme_of_def split_at_def)
  have letters: "list_all is_alpha ?sch" using u(1) low by (intro scheme_letters) simp
  have input: "input = ?sch @ ''://'' @ rest"
    using takeWhile_dropWhile_id [of "\<lambda>c. c \<noteq> CHR '':''" input] rest by simp
  obtain body suffix where body: "split_at is_suffix_char rest = (body, suffix)" by fastforce
  obtain host path where host: "split_at (\<lambda>c. c = slash) body = (host, path)" by fastforce
  have rest': "rest = body @ suffix" "body = host @ path"
    using split_at_append [of is_suffix_char rest] split_at_append [of "\<lambda>c. c = slash" body] body host by auto
  have sfx: "suffix = [] \<or> is_suffix_char (hd suffix)" "list_all (\<lambda>c. \<not> is_suffix_char c) body"
    using body hd_dropWhile [of "\<lambda>c. \<not> is_suffix_char c" rest]
    by (auto simp: split_at_def list_all_iff dest: set_takeWhileD)
  have pth: "path = [] \<or> hd path = slash" "slash \<notin> set host"
    using host hd_dropWhile [of "\<lambda>c. c \<noteq> slash" body] by (auto simp: split_at_def dest: set_takeWhileD)
  let ?ps = "if path = [] then [] else foldl push_remote [] (split_on slash (tl path))"
  have clean: "list_all (\<lambda>c. \<not> is_suffix_char c) (?sch @ ''://'' @ host @ path)"
    using letters alpha_not_special sfx(2) rest'(2) by (auto simp: list_all_iff is_suffix_char_def)
  have colon: "list_all (\<lambda>c. c \<noteq> CHR '':'') ?sch" by (auto simp: list_all_iff dest: set_takeWhileD)
  have norm: "ru_normalized u = remote_base ?sch host ?ps @ suffix"
    using normalizeRemote_parts [OF colon pth(2,1) clean sfx(1)] u(3) input rest' by simp
  have "set p \<subseteq> set path \<and> plain p" if "p \<in> set ?ps" for p
  proof -
    have "path \<noteq> []" using that by auto
    then have p: "p \<in> set (split_on slash (tl path))" "p \<noteq> [] \<and> p \<noteq> ''.'' \<and> p \<noteq> ''..''"
      using that set_foldl_remote [of "[]" "split_on slash (tl path)"] by auto
    then show ?thesis using set_split_on [OF p(1)] split_on_no_delim [OF p(1)] list.set_sel(2) [OF \<open>path \<noteq> []\<close>]
      by (auto simp: plain_def)
  qed
  moreover have "\<forall>c \<in> set path \<union> set host. \<not> is_suffix_char c" using sfx(2) rest'(2) by (auto simp: list_all_iff)
  ultimately have "remote_ok ?sch host ?ps suffix"
    using u(1) low pth sfx(1) by (fastforce simp: remote_ok_def list_all_iff list_ex_iff)
  then show ?thesis using norm u(4) low by (intro that) auto
qed

lemma remote_parse_base:
  assumes "remote_ok sch host ps suffix"
  shows "uri_parse (remote_base sch host ps @ suffix) =
    Inr \<lparr>ru_kind = (if lower sch = ''http'' then Http else Https),
         ru_original = remote_base sch host ps @ suffix,
         ru_normalized = remote_base sch host ps @ suffix, ru_localPath = []\<rparr>"
proof -
  let ?s = "remote_base sch host ps @ suffix" and ?t = "''//'' @ host @ concat (map (\<lambda>p. slash # p) ps) @ suffix"
  have s: "?s = sch @ CHR '':'' # ?t" by (simp add: remote_base_def)
  have "list_all (\<lambda>c. c \<noteq> CHR '':'') sch"
    using assms scheme_letters [of sch] alpha_not_special by (auto simp: remote_ok_def list_all_iff)
  then have "split_at (\<lambda>c. c = CHR '':'') ?s = (sch, CHR '':'' # ?t)"
    unfolding s by (intro split_at_exact) auto
  then have "scheme_of ?s = lower sch" "after_colon ?s = CHR '':'' # ?t"
    by (simp_all add: scheme_of_def after_colon_def)
  moreover have "?s \<noteq> []" by (simp add: remote_base_def)
  ultimately show ?thesis
    using assms normalizeRemote_fixed [OF assms] by (simp add: uri_parse_def Let_def remote_ok_def)
qed

lemma remote_resolve:
  assumes "isRemote root" and "splitUriSuffix (ru_normalized root) = (base, suffix)" and "last base \<noteq> slash"
    and "p \<noteq> []" "hd p \<noteq> slash" "\<not> hasScheme p" "\<not> list_ex is_suffix_char p" "CHR 0x5C \<notin> set p"
  shows "uri_resolve root p = uri_parse (base @ ''/'' @ p @ suffix)"
proof -
  obtain c cs where c: "p = c # cs" using assms(4) by (cases p) auto
  have "\<not> isWindowsDrivePath p" using assms(6) drive_hasScheme by blast
  moreover have "pop_slashes base = base"
    using assms(3) by (cases base rule: rev_cases) (auto simp: pop_slashes_def)
  moreover have "normalize_backslashes p = p" using assms(8) by (rule backslash_free_fixed)
  moreover have "c \<noteq> CHR 0x5C" "c \<noteq> slash" "\<not> is_suffix_char c" using assms(5,7,8) c by auto
  ultimately show ?thesis using assms(1,2,6) c by (simp add: uri_resolve_def Let_def)
qed



end
