(* ===== verification/Repository_Crawler.thy ===== *)
theory Repository_Crawler
  imports Repository_Version Repository_Uri
begin

section \<open>Searching repositories and their sites\<close>

text \<open>
  source/repository/RepositoryCrawler.cpp. The RepositoryBackend that the crawler is constructed
  with is a pair of functions on a backend state \<open>'s\<close>, which return an index or a site, or
  nothing, and the diagnostics they append. The site graph is data of foreign servers and may be
  infinite, so the two queue loops are partial functions: \<open>None\<close> is a search that never ends.
\<close>

type_synonym 's index_loader = "string \<Rightarrow> 's \<Rightarrow> (RepositoryIndex option \<times> Diagnostic list) \<times> 's"
type_synonym 's site_loader = "string \<Rightarrow> 's \<Rightarrow> (RepositorySite option \<times> Diagnostic list) \<times> 's"

record ModelLookupResult =
  lr_found :: bool
  lr_metadata :: "ModelMetadata option"
  lr_diagnostics :: "Diagnostic list"

record 's crawl =
  cw_backend :: 's
  cw_visited :: "string set"
  cw_diagnostics :: "Diagnostic list"
  cw_found :: "ModelMetadata option"
  cw_models :: "ModelMetadata list"
  cw_parents :: "string list"
  cw_subsidiaries :: "string list"

definition crawler_warning :: "string \<Rightarrow> string \<Rightarrow> Diagnostic" where
  "crawler_warning code message = default_diagnostic\<lparr>dg_severity := SevWarning, dg_code := code, dg_message := message\<rparr>"

definition normalizeRepository :: "string \<Rightarrow> string option \<times> Diagnostic list" where
  "normalizeRepository v = (case uri_parse v of
     Inl e \<Rightarrow> (None, [crawler_warning ''ILIC-REPO-URI'' (''invalid repository URI '' @ v @ '': '' @ e)])
   | Inr u \<Rightarrow> (Some (ru_normalized u), []))"

fun normalize_seeds_loop :: "string list \<Rightarrow> string list \<Rightarrow> Diagnostic list \<Rightarrow> string list \<times> Diagnostic list" where
  "normalize_seeds_loop [] acc ds = (acc, ds)"
| "normalize_seeds_loop (seed # seeds) acc ds =
     (let (normalized, ds') = normalizeRepository seed in
      case normalized of
        Some n \<Rightarrow> normalize_seeds_loop seeds (if n \<in> set acc then acc else acc @ [n]) (ds @ ds')
      | None \<Rightarrow> normalize_seeds_loop seeds acc (ds @ ds'))"

definition normalizeSeeds :: "string list \<Rightarrow> string list \<times> Diagnostic list" where
  "normalizeSeeds seeds = normalize_seeds_loop seeds [] []"

fun link_loop :: "string \<Rightarrow> RepositoryUri \<Rightarrow> string list \<Rightarrow> string list \<times> Diagnostic list" where
  "link_loop source base [] = ([], [])"
| "link_loop source base (link # links) =
     (let (target, ds) = link_loop source base links in
      case uri_resolve base link of
        Inr u \<Rightarrow> (ru_normalized u # target, ds)
      | Inl e \<Rightarrow> (target, crawler_warning ''ILIC-REPO-URI''
          (''invalid site link '' @ link @ '' in '' @ source @ '': '' @ e) # ds))"

definition enqueueLinks :: "string \<Rightarrow> string list \<Rightarrow> string list \<times> Diagnostic list" where
  "enqueueLinks source links = (case uri_parse source of Inl _ \<Rightarrow> ([], []) | Inr base \<Rightarrow> link_loop source base links)"

subsection \<open>Steps of a search\<close>

definition load_index :: "'s index_loader \<Rightarrow> string \<Rightarrow> 's crawl \<Rightarrow> RepositoryIndex option \<times> 's crawl" where
  "load_index li repository c =
     (let ((index, ds), s) = li repository (cw_backend c)
      in (index, c\<lparr>cw_backend := s, cw_diagnostics := cw_diagnostics c @ ds\<rparr>))"

definition load_site :: "'s site_loader \<Rightarrow> string \<Rightarrow> 's crawl \<Rightarrow> RepositorySite option \<times> 's crawl" where
  "load_site ls repository c =
     (let ((site, ds), s) = ls repository (cw_backend c)
      in (site, c\<lparr>cw_backend := s, cw_diagnostics := cw_diagnostics c @ ds\<rparr>))"

definition enqueue_parents :: "string \<Rightarrow> RepositorySite \<Rightarrow> 's crawl \<Rightarrow> 's crawl" where
  "enqueue_parents source site c =
     (let (links, ds) = enqueueLinks source (rs_parentSites site)
      in c\<lparr>cw_parents := cw_parents c @ links, cw_diagnostics := cw_diagnostics c @ ds\<rparr>)"

definition enqueue_subsidiaries :: "string \<Rightarrow> RepositorySite \<Rightarrow> 's crawl \<Rightarrow> 's crawl" where
  "enqueue_subsidiaries source site c =
     (let (links, ds) = enqueueLinks source (rs_subsidiarySites site)
      in c\<lparr>cw_subsidiaries := cw_subsidiaries c @ links, cw_diagnostics := cw_diagnostics c @ ds\<rparr>)"

definition visit_find :: "'s index_loader \<Rightarrow> string \<Rightarrow> string \<Rightarrow> string \<Rightarrow> 's crawl \<Rightarrow> bool \<times> 's crawl" where
  "visit_find li modelName schemaLanguage repository c =
     (if repository \<in> cw_visited c then (False, c)
      else
        let (index, c) = load_index li repository (c\<lparr>cw_visited := insert repository (cw_visited c)\<rparr>) in
        case index of
          None \<Rightarrow> (False, c)
        | Some ix \<Rightarrow>
            let selected = selectLatestVersion (ix_models ix) modelName schemaLanguage;
                c = c\<lparr>cw_diagnostics := cw_diagnostics c @ vs_diagnostics selected\<rparr> in
            (case vs_model selected of
               None \<Rightarrow> (False, c)
             | Some i \<Rightarrow> (True, c\<lparr>cw_found := Some (ix_models ix ! i)\<rparr>)))"

fun find_seeds :: "'s index_loader \<Rightarrow> string \<Rightarrow> string \<Rightarrow> string list \<Rightarrow> 's crawl \<Rightarrow> bool \<times> 's crawl" where
  "find_seeds li modelName schemaLanguage [] c = (False, c)"
| "find_seeds li modelName schemaLanguage (seed # seeds) c =
     (let (hit, c) = visit_find li modelName schemaLanguage seed c in
      if hit then (True, c) else find_seeds li modelName schemaLanguage seeds c)"

fun seed_sites :: "'s site_loader \<Rightarrow> string list \<Rightarrow> 's crawl \<Rightarrow> 's crawl" where
  "seed_sites ls [] c = c"
| "seed_sites ls (seed # seeds) c =
     (let (site, c) = load_site ls seed c in
      case site of
        None \<Rightarrow> seed_sites ls seeds c
      | Some s \<Rightarrow> seed_sites ls seeds (enqueue_subsidiaries seed s (enqueue_parents seed s c)))"

definition follow_parents :: "'s site_loader \<Rightarrow> string \<Rightarrow> 's crawl \<Rightarrow> 's crawl" where
  "follow_parents ls repository c =
     (let (site, c) = load_site ls repository c in
      case site of None \<Rightarrow> c | Some s \<Rightarrow> enqueue_parents repository s c)"

partial_function (option) visitParentQueue ::
  "'s index_loader \<Rightarrow> 's site_loader \<Rightarrow> string \<Rightarrow> string \<Rightarrow> 's crawl \<Rightarrow> (bool \<times> 's crawl) option" where
  "visitParentQueue li ls modelName schemaLanguage c =
     (case cw_parents c of
        [] \<Rightarrow> Some (False, c)
      | repository # rest \<Rightarrow>
          let c = c\<lparr>cw_parents := rest\<rparr> in
          if repository \<in> cw_visited c then visitParentQueue li ls modelName schemaLanguage c
          else
            let r = visit_find li modelName schemaLanguage repository c in
            if fst r then Some r
            else visitParentQueue li ls modelName schemaLanguage (follow_parents ls repository (snd r)))"

partial_function (option) visitSubsidiaryQueue ::
  "'s index_loader \<Rightarrow> 's site_loader \<Rightarrow> string \<Rightarrow> string \<Rightarrow> 's crawl \<Rightarrow> 's crawl option" where
  "visitSubsidiaryQueue li ls modelName schemaLanguage c =
     (case cw_subsidiaries c of
        [] \<Rightarrow> Some c
      | repository # rest \<Rightarrow>
          let c = c\<lparr>cw_subsidiaries := rest\<rparr> in
          if repository \<in> cw_visited c then visitSubsidiaryQueue li ls modelName schemaLanguage c
          else
            let r = visit_find li modelName schemaLanguage repository c in
            if fst r then Some (snd r)
            else
              let p = load_site ls repository (snd r) in
              (case fst p of
                 None \<Rightarrow> visitSubsidiaryQueue li ls modelName schemaLanguage (snd p)
               | Some site \<Rightarrow>
                   Option.bind (visitParentQueue li ls modelName schemaLanguage
                       (enqueue_parents repository site (enqueue_subsidiaries repository site (snd p))))
                     (\<lambda>q. if fst q then Some (snd q)
                          else visitSubsidiaryQueue li ls modelName schemaLanguage (snd q))))"

definition initial_crawl :: "'s \<Rightarrow> Diagnostic list \<Rightarrow> 's crawl" where
  "initial_crawl s ds = \<lparr>cw_backend = s, cw_visited = {}, cw_diagnostics = ds, cw_found = None,
     cw_models = [], cw_parents = [], cw_subsidiaries = []\<rparr>"

definition lookup_result :: "'s crawl \<Rightarrow> ModelLookupResult \<times> 's" where
  "lookup_result c = (\<lparr>lr_found = (cw_found c \<noteq> None), lr_metadata = cw_found c,
     lr_diagnostics = cw_diagnostics c\<rparr>, cw_backend c)"

definition findModel ::
  "'s index_loader \<Rightarrow> 's site_loader \<Rightarrow> string list \<Rightarrow> string \<Rightarrow> string \<Rightarrow> 's \<Rightarrow> (ModelLookupResult \<times> 's) option" where
  "findModel li ls seedRepositories modelName schemaLanguage s =
     (let (seeds, ds) = normalizeSeeds seedRepositories;
          (hit, c) = find_seeds li modelName schemaLanguage seeds (initial_crawl s ds) in
      if hit \<or> seeds = [] then Some (lookup_result c)
      else Option.bind (visitParentQueue li ls modelName schemaLanguage (seed_sites ls seeds c))
        (\<lambda>(hit, c). if hit then Some (lookup_result c)
           else map_option lookup_result (visitSubsidiaryQueue li ls modelName schemaLanguage c)))"

subsection \<open>Listing all models\<close>

definition visit_list :: "'s index_loader \<Rightarrow> string \<Rightarrow> 's crawl \<Rightarrow> bool \<times> 's crawl" where
  "visit_list li repository c =
     (if repository \<in> cw_visited c then (False, c)
      else
        let (index, c) = load_index li repository (c\<lparr>cw_visited := insert repository (cw_visited c)\<rparr>)
        in (True, case index of None \<Rightarrow> c | Some ix \<Rightarrow> c\<lparr>cw_models := cw_models c @ ix_models ix\<rparr>))"

partial_function (option) drainParents ::
  "'s index_loader \<Rightarrow> 's site_loader \<Rightarrow> 's crawl \<Rightarrow> 's crawl option" where
  "drainParents li ls c =
     (case cw_parents c of
        [] \<Rightarrow> Some c
      | repository # rest \<Rightarrow>
          let r = visit_list li repository (c\<lparr>cw_parents := rest\<rparr>) in
          if \<not> fst r then drainParents li ls (snd r)
          else drainParents li ls (follow_parents ls repository (snd r)))"

partial_function (option) drainSubsidiaries ::
  "'s index_loader \<Rightarrow> 's site_loader \<Rightarrow> 's crawl \<Rightarrow> 's crawl option" where
  "drainSubsidiaries li ls c =
     (case cw_subsidiaries c of
        [] \<Rightarrow> Some c
      | repository # rest \<Rightarrow>
          let r = visit_list li repository (c\<lparr>cw_subsidiaries := rest\<rparr>) in
          if \<not> fst r then drainSubsidiaries li ls (snd r)
          else
            let p = load_site ls repository (snd r) in
            (case fst p of
               None \<Rightarrow> drainSubsidiaries li ls (snd p)
             | Some site \<Rightarrow>
                 Option.bind (drainParents li ls
                     (enqueue_parents repository site (enqueue_subsidiaries repository site (snd p))))
                   (drainSubsidiaries li ls)))"

definition crawler_listModels ::
  "'s index_loader \<Rightarrow> 's site_loader \<Rightarrow> string list \<Rightarrow> 's \<Rightarrow> 's crawl option" where
  "crawler_listModels li ls seedRepositories s =
     (let (seeds, ds) = normalizeSeeds seedRepositories;
          c = foldl (\<lambda>c seed. snd (visit_list li seed c)) (initial_crawl s ds) seeds
      in Option.bind (drainParents li ls (seed_sites ls seeds c)) (drainSubsidiaries li ls))"

subsection \<open>Searches of finite site graphs end\<close>

text \<open>A set of repository names that no site link leaves, in the backend states that the loaders can
  reach.\<close>

definition links_within :: "'s index_loader \<Rightarrow> 's site_loader \<Rightarrow> ('s \<Rightarrow> bool) \<Rightarrow> string set \<Rightarrow> bool" where
  "links_within li ls I U \<longleftrightarrow> (\<forall>repository s. I s \<longrightarrow> I (snd (li repository s)) \<and> I (snd (ls repository s))
     \<and> (\<forall>site. fst (fst (ls repository s)) = Some site \<longrightarrow>
          set (fst (enqueueLinks repository (rs_parentSites site))) \<subseteq> U
          \<and> set (fst (enqueueLinks repository (rs_subsidiarySites site))) \<subseteq> U))"

definition queues_within :: "('s \<Rightarrow> bool) \<Rightarrow> string set \<Rightarrow> 's crawl \<Rightarrow> bool" where
  "queues_within I U c \<longleftrightarrow> I (cw_backend c) \<and> set (cw_parents c) \<subseteq> U \<and> set (cw_subsidiaries c) \<subseteq> U"

definition unvisited :: "string set \<Rightarrow> 's crawl \<Rightarrow> nat" where
  "unvisited U c = card (U - cw_visited c)"

lemma load_frames [simp]:
  "cw_visited (snd (load_index li r c)) = cw_visited c"
  "cw_parents (snd (load_index li r c)) = cw_parents c"
  "cw_subsidiaries (snd (load_index li r c)) = cw_subsidiaries c"
  "cw_found (snd (load_index li r c)) = cw_found c"
  "cw_visited (snd (load_site ls r c)) = cw_visited c"
  "cw_parents (snd (load_site ls r c)) = cw_parents c"
  "cw_subsidiaries (snd (load_site ls r c)) = cw_subsidiaries c"
  "cw_found (snd (load_site ls r c)) = cw_found c"
  "cw_backend (snd (load_index li r c)) = snd (li r (cw_backend c))"
  "cw_backend (snd (load_site ls r c)) = snd (ls r (cw_backend c))"
  "fst (load_site ls r c) = fst (fst (ls r (cw_backend c)))"
  by (simp_all add: load_index_def load_site_def split_def Let_def)

lemma enqueue_frames [simp]:
  "cw_visited (enqueue_parents r s c) = cw_visited c"
  "cw_subsidiaries (enqueue_parents r s c) = cw_subsidiaries c"
  "cw_parents (enqueue_parents r s c) = cw_parents c @ fst (enqueueLinks r (rs_parentSites s))"
  "cw_found (enqueue_parents r s c) = cw_found c"
  "cw_visited (enqueue_subsidiaries r s c) = cw_visited c"
  "cw_parents (enqueue_subsidiaries r s c) = cw_parents c"
  "cw_subsidiaries (enqueue_subsidiaries r s c)
     = cw_subsidiaries c @ fst (enqueueLinks r (rs_subsidiarySites s))"
  "cw_found (enqueue_subsidiaries r s c) = cw_found c"
  "cw_backend (enqueue_parents r s c) = cw_backend c"
  "cw_backend (enqueue_subsidiaries r s c) = cw_backend c"
  by (simp_all add: enqueue_parents_def enqueue_subsidiaries_def split_def Let_def)

lemma links_withinD:
  assumes "links_within li ls I U" and "I s"
  shows "I (snd (li r s))" and "I (snd (ls r s))"
    and "fst (fst (ls r s)) = Some site \<Longrightarrow> set (fst (enqueueLinks r (rs_parentSites site))) \<subseteq> U"
    and "fst (fst (ls r s)) = Some site \<Longrightarrow> set (fst (enqueueLinks r (rs_subsidiarySites site))) \<subseteq> U"
  using assms unfolding links_within_def by blast+

lemma follow_parents_frame [simp]:
  "cw_visited (follow_parents ls r c) = cw_visited c"
  "cw_subsidiaries (follow_parents ls r c) = cw_subsidiaries c"
  "cw_found (follow_parents ls r c) = cw_found c"
  by (simp_all add: follow_parents_def split_def Let_def split: option.split)

lemma follow_parents_within:
  "links_within li ls I U \<Longrightarrow> queues_within I U c \<Longrightarrow> queues_within I U (follow_parents ls r c)"
  by (auto simp: queues_within_def follow_parents_def split_def Let_def dest: links_withinD split: option.splits)

lemma visit_frames [simp]:
  "cw_visited (snd (visit_find li n l r c)) = insert r (cw_visited c)"
  "cw_parents (snd (visit_find li n l r c)) = cw_parents c"
  "cw_subsidiaries (snd (visit_find li n l r c)) = cw_subsidiaries c"
  "cw_visited (snd (visit_list li r c)) = insert r (cw_visited c)"
  "cw_parents (snd (visit_list li r c)) = cw_parents c"
  "cw_subsidiaries (snd (visit_list li r c)) = cw_subsidiaries c"
  "fst (visit_list li r c) \<longleftrightarrow> r \<notin> cw_visited c"
  by (auto simp: visit_find_def visit_list_def split_def Let_def split: option.split)

lemma visit_backend:
  "cw_backend (snd (visit_find li n l r c)) = (if r \<in> cw_visited c then cw_backend c else snd (li r (cw_backend c)))"
  "cw_backend (snd (visit_list li r c)) = (if r \<in> cw_visited c then cw_backend c else snd (li r (cw_backend c)))"
  by (simp_all add: visit_find_def visit_list_def load_index_def split_def Let_def split: option.split)

lemma queues_within_visit:
  assumes "links_within li ls I U" and "queues_within I U c"
  shows "queues_within I U (snd (visit_find li n l r c))" "queues_within I U (snd (visit_list li r c))"
    "queues_within I U (snd (load_site ls r c))"
  using assms by (auto simp: queues_within_def visit_backend intro: links_withinD)

lemma enqueue_within:
  assumes "links_within li ls I U" and "queues_within I U c" and "fst (load_site ls r c) = Some site"
  shows "queues_within I U (enqueue_subsidiaries r site (enqueue_parents r site (snd (load_site ls r c))))"
    and "queues_within I U (enqueue_parents r site (enqueue_subsidiaries r site (snd (load_site ls r c))))"
  using assms(2,3) links_withinD(2-4) [OF assms(1), of "cw_backend c" r] by (simp_all add: queues_within_def)

lemma unvisited_less:
  "finite U \<Longrightarrow> r \<in> U \<Longrightarrow> r \<notin> cw_visited c \<Longrightarrow> insert r (cw_visited c) \<subseteq> cw_visited c'
    \<Longrightarrow> unvisited U c' < unvisited U c"
  unfolding unvisited_def by (intro psubset_card_mono) auto

lemma visitParentQueue_total:
  assumes "finite U" and "links_within li ls I U"
  shows "queues_within I U c \<Longrightarrow> \<exists>hit c'. visitParentQueue li ls n l c = Some (hit, c')
    \<and> cw_visited c \<subseteq> cw_visited c' \<and> queues_within I U c' \<and> cw_subsidiaries c' = cw_subsidiaries c"
proof (induction c rule: wf_induct_rule [OF wf_measures [of "[unvisited U, length \<circ> cw_parents]"]])
  case (1 c)
  show ?case
  proof (cases "cw_parents c")
    case Nil
    then have "visitParentQueue li ls n l c = Some (False, c)" by (simp add: visitParentQueue.simps)
    then show ?thesis using 1(2) by blast
  next
    case (Cons r rest)
    let ?c = "c\<lparr>cw_parents := rest\<rparr>"
    have q: "queues_within I U ?c" "r \<in> U" using 1(2) Cons by (auto simp: queues_within_def)
    show ?thesis
    proof (cases "r \<in> cw_visited c")
      case True
      then have "(?c, c) \<in> measures [unvisited U, length \<circ> cw_parents]" using Cons by (simp add: unvisited_def)
      from 1(1) [OF this q(1)] True Cons show ?thesis by (simp add: visitParentQueue.simps [of _ _ _ _ c])
    next
      case False
      let ?v = "visit_find li n l r ?c"
      let ?f = "follow_parents ls r (snd ?v)"
      have "unvisited U ?f < unvisited U c" using assms(1) q(2) False by (intro unvisited_less [of U r]) auto
      then have less: "(?f, c) \<in> measures [unvisited U, length \<circ> cw_parents]" by simp
      have "queues_within I U ?f" using assms(2) q(1) by (simp add: follow_parents_within queues_within_visit)
      from 1(1) [OF less this] queues_within_visit(1) [OF assms(2) q(1), of n l r] False Cons show ?thesis
        by (cases "fst ?v") (auto simp: visitParentQueue.simps [of _ _ _ _ c] Let_def prod_eq_iff intro: exI [of _ "snd ?v"])
    qed
  qed
qed

lemma visitSubsidiaryQueue_total:
  assumes "finite U" and "links_within li ls I U"
  shows "queues_within I U c \<Longrightarrow> \<exists>c'. visitSubsidiaryQueue li ls n l c = Some c'"
proof (induction c rule: wf_induct_rule [OF wf_measures [of "[unvisited U, length \<circ> cw_subsidiaries]"]])
  case (1 c)
  show ?case
  proof (cases "cw_subsidiaries c")
    case Nil
    then show ?thesis by (simp add: visitSubsidiaryQueue.simps)
  next
    case (Cons r rest)
    let ?c = "c\<lparr>cw_subsidiaries := rest\<rparr>"
    have q: "queues_within I U ?c" "r \<in> U" using 1(2) Cons by (auto simp: queues_within_def)
    have IH: "\<exists>c''. visitSubsidiaryQueue li ls n l c' = Some c''"
      if "r \<notin> cw_visited c" "insert r (cw_visited c) \<subseteq> cw_visited c'" "queues_within I U c'" for c'
      using 1(1) [of c'] that unvisited_less [OF assms(1) q(2), of c c'] by simp
    show ?thesis
    proof (cases "r \<in> cw_visited c")
      case True
      then have "(?c, c) \<in> measures [unvisited U, length \<circ> cw_subsidiaries]" using Cons by (simp add: unvisited_def)
      from 1(1) [OF this q(1)] True Cons show ?thesis by (simp add: visitSubsidiaryQueue.simps [of _ _ _ _ c])
    next
      case False
      let ?p = "load_site ls r (snd (visit_find li n l r ?c))"
      have next_site: "\<exists>c''. visitSubsidiaryQueue li ls n l (snd ?p) = Some c''" using q False by (intro IH) (auto intro: queues_within_visit [OF assms(2)])
      have linked: "\<exists>c''. Option.bind (visitParentQueue li ls n l
            (enqueue_parents r site (enqueue_subsidiaries r site (snd ?p))))
          (\<lambda>q. if fst q then Some (snd q) else visitSubsidiaryQueue li ls n l (snd q)) = Some c''"
        if site: "fst ?p = Some site" for site
      proof -
        let ?e = "enqueue_parents r site (enqueue_subsidiaries r site (snd ?p))"
        have "queues_within I U (snd (visit_find li n l r ?c))" by (rule queues_within_visit [OF assms(2) q(1)])
        then have "queues_within I U ?e" using assms(2) site by (intro enqueue_within)
        from visitParentQueue_total [OF assms this, of n l] obtain hit c' where
          "visitParentQueue li ls n l ?e = Some (hit, c')" "cw_visited ?e \<subseteq> cw_visited c'" "queues_within I U c'" by blast
        then show ?thesis using IH [OF False, of c'] by auto
      qed
      show ?thesis using next_site linked False Cons
        by (cases "fst (visit_find li n l r ?c)"; cases "fst ?p")
           (auto simp: visitSubsidiaryQueue.simps [of _ _ _ _ c] Let_def)
    qed
  qed
qed

lemma seed_sites_within:
  "links_within li ls I U \<Longrightarrow> queues_within I U c \<Longrightarrow> queues_within I U (seed_sites ls seeds c)"
proof (induction seeds arbitrary: c)
  case (Cons seed seeds)
  have "queues_within I U (enqueue_subsidiaries seed s (enqueue_parents seed s (snd (load_site ls seed c))))"
    if "fst (load_site ls seed c) = Some s" for s
    using Cons.prems that by (intro enqueue_within)
  with Cons queues_within_visit(3) [OF Cons.prems] show ?case by (simp add: split_def Let_def split: option.split)
qed simp

lemma find_seeds_within:
  "links_within li ls I U \<Longrightarrow> queues_within I U c \<Longrightarrow> queues_within I U (snd (find_seeds li n l seeds c))"
  by (induction seeds arbitrary: c) (simp_all add: split_def Let_def queues_within_visit)

lemma findModel_total:
  assumes "finite U" and "links_within li ls I U" and "I s"
  shows "\<exists>res s'. findModel li ls seeds n l s = Some (res, s')"
proof -
  obtain ns ds where n: "normalizeSeeds seeds = (ns, ds)" by fastforce
  obtain hit c where f: "find_seeds li n l ns (initial_crawl s ds) = (hit, c)" by fastforce
  have "queues_within I U (initial_crawl s ds)" using assms(3) by (simp add: queues_within_def initial_crawl_def)
  then have "queues_within I U c" using find_seeds_within [OF assms(2), of "initial_crawl s ds" n l ns] f by simp
  then have "queues_within I U (seed_sites ls ns c)" using assms(2) by (simp add: seed_sites_within)
  from visitParentQueue_total [OF assms(1,2) this, of n l] obtain h c' where
    "visitParentQueue li ls n l (seed_sites ls ns c) = Some (h, c')" "queues_within I U c'" by blast
  with visitSubsidiaryQueue_total [OF assms(1,2), of c' n l] show ?thesis
    by (auto simp: findModel_def n f lookup_result_def)
qed

subsection \<open>Invariants of a search\<close>

text \<open>What every visit and every loaded site keeps, the whole search keeps. The queues and the
  diagnostics are not part of such an invariant.\<close>

locale crawl_invariant =
  fixes li :: "'s index_loader" and ls :: "'s site_loader" and n l :: string and P :: "'s crawl \<Rightarrow> bool"
  assumes visit: "P c \<Longrightarrow> P (snd (visit_find li n l r c))"
    and site: "P c \<Longrightarrow> P (snd (load_site ls r c))"
    and queues: "P c \<Longrightarrow> P (c\<lparr>cw_parents := ps, cw_subsidiaries := ss, cw_diagnostics := ds\<rparr>)"
begin

lemma parents: "P c \<Longrightarrow> P (c\<lparr>cw_parents := ps\<rparr>)"
  using queues [where c = c and ps = ps and ss = "cw_subsidiaries c" and ds = "cw_diagnostics c"] by simp

lemma subsidiaries: "P c \<Longrightarrow> P (c\<lparr>cw_subsidiaries := ss\<rparr>)"
  using queues [where c = c and ps = "cw_parents c" and ss = ss and ds = "cw_diagnostics c"] by simp

lemma enqueue_parents: "P c \<Longrightarrow> P (enqueue_parents r s c)"
  using queues [where c = c and ss = "cw_subsidiaries c"] by (simp add: enqueue_parents_def split_def Let_def)

lemma enqueue_subsidiaries: "P c \<Longrightarrow> P (enqueue_subsidiaries r s c)"
  using queues [where c = c and ps = "cw_parents c"] by (simp add: enqueue_subsidiaries_def split_def Let_def)

lemma follow: "P c \<Longrightarrow> P (follow_parents ls r c)"
  by (auto simp: follow_parents_def split_def Let_def intro: site enqueue_parents split: option.split)

lemma seeds: "P c \<Longrightarrow> P (snd (find_seeds li n l xs c))"
  by (induction xs arbitrary: c) (simp_all add: split_def Let_def visit)

lemma seed_sites: "P c \<Longrightarrow> P (seed_sites ls xs c)"
  by (induction xs arbitrary: c)
     (auto simp: split_def Let_def intro: site enqueue_parents enqueue_subsidiaries split: option.split)

lemma parent_queue_aux:
  assumes "visitParentQueue li' ls' n' l' c = Some r"
  shows "li' = li \<Longrightarrow> ls' = ls \<Longrightarrow> n' = n \<Longrightarrow> l' = l \<Longrightarrow> P c \<Longrightarrow> P (snd r)"
  using assms
proof (induction rule: visitParentQueue.raw_induct [rotated, consumes 1, case_names step])
  case (step rec li' ls' n' l' c r)
  show ?case
  proof (cases "cw_parents c")
    case Nil
    then show ?thesis using step by auto
  next
    case (Cons repository rest)
    have "P (c\<lparr>cw_parents := rest\<rparr>)" using "step.prems" by (simp add: parents)
    moreover from this have "P (snd (visit_find li n l repository (c\<lparr>cw_parents := rest\<rparr>)))" by (rule visit)
    ultimately show ?thesis using "step.prems" "step.hyps" Cons
      by (auto simp: Let_def split: if_splits dest!: "step.IH" [OF _ refl refl refl refl] intro: follow)
  qed
qed

lemma parent_queue: "visitParentQueue li ls n l c = Some r \<Longrightarrow> P c \<Longrightarrow> P (snd r)"
  by (rule parent_queue_aux [OF _ refl refl refl refl])

lemma subsidiary_queue_aux:
  assumes "visitSubsidiaryQueue li' ls' n' l' c = Some r"
  shows "li' = li \<Longrightarrow> ls' = ls \<Longrightarrow> n' = n \<Longrightarrow> l' = l \<Longrightarrow> P c \<Longrightarrow> P r"
  using assms
proof (induction rule: visitSubsidiaryQueue.raw_induct [rotated, consumes 1, case_names step])
  case (step rec li' ls' n' l' c r)
  show ?case
  proof (cases "cw_subsidiaries c")
    case Nil
    then show ?thesis using step by auto
  next
    case (Cons repository rest)
    let ?v = "visit_find li n l repository (c\<lparr>cw_subsidiaries := rest\<rparr>)"
    have P1: "P (c\<lparr>cw_subsidiaries := rest\<rparr>)" using "step.prems" by (simp add: subsidiaries)
    then have P2: "P (snd ?v)" by (rule visit)
    then have P3: "P (snd (load_site ls repository (snd ?v)))" by (rule site)
    have P4: "P (snd q)" if "visitParentQueue li ls n l (enqueue_parents repository s
        (enqueue_subsidiaries repository s (snd (load_site ls repository (snd ?v))))) = Some q" for s q
      using P3 that by (blast intro: enqueue_parents enqueue_subsidiaries parent_queue)
    show ?thesis using "step.prems" "step.hyps" Cons P1 P2 P3
      by (auto simp: Let_def bind_eq_Some_conv split: if_splits option.splits
          dest!: "step.IH" [OF _ refl refl refl refl] dest: P4)
  qed
qed

lemma subsidiary_queue: "visitSubsidiaryQueue li ls n l c = Some r \<Longrightarrow> P c \<Longrightarrow> P r"
  by (rule subsidiary_queue_aux [OF _ refl refl refl refl])

lemma search:
  assumes "findModel li ls xs n l s = Some (res, s')"
    and "normalizeSeeds xs = (ns, ds)" and "P (snd (find_seeds li n l ns (initial_crawl s ds)))"
  obtains c where "P c" and "(res, s') = lookup_result c"
proof -
  let ?c = "snd (find_seeds li n l ns (initial_crawl s ds))"
  have "P (seed_sites ls ns ?c)" using assms(3) by (rule seed_sites)
  moreover have "lookup_result ?c = (res, s') \<or> (\<exists>hit c'. visitParentQueue li ls n l (seed_sites ls ns ?c) = Some (hit, c')
      \<and> (lookup_result c' = (res, s')
         \<or> (\<exists>c''. visitSubsidiaryQueue li ls n l c' = Some c'' \<and> lookup_result c'' = (res, s'))))"
    using assms(1) by (auto simp: findModel_def assms(2) split_def bind_eq_Some_conv Let_def split: if_splits)
  ultimately obtain c where "P c" "lookup_result c = (res, s')"
    using assms(3) by (metis parent_queue subsidiary_queue snd_conv)
  then show thesis using that by simp
qed

end

subsection \<open>What a search returns\<close>

text \<open>The model an index loader offers for a repository in a backend state.\<close>

definition index_offer :: "RepositoryIndex \<Rightarrow> string \<Rightarrow> string \<Rightarrow> ModelMetadata option" where
  "index_offer ix modelName schemaLanguage =
     map_option ((!) (ix_models ix)) (vs_model (selectLatestVersion (ix_models ix) modelName schemaLanguage))"

definition offer :: "'s index_loader \<Rightarrow> string \<Rightarrow> string \<Rightarrow> string \<Rightarrow> 's \<Rightarrow> ModelMetadata option" where
  "offer li modelName schemaLanguage repository s = (case fst (fst (li repository s)) of
     None \<Rightarrow> None
   | Some ix \<Rightarrow> index_offer ix modelName schemaLanguage)"

text \<open>The backend states that calls of the loaders lead to.\<close>

inductive backend_reach :: "'s index_loader \<Rightarrow> 's site_loader \<Rightarrow> 's \<Rightarrow> 's \<Rightarrow> bool" for li ls s where
  start: "backend_reach li ls s s"
| index: "backend_reach li ls s t \<Longrightarrow> backend_reach li ls s (snd (li r t))"
| site: "backend_reach li ls s t \<Longrightarrow> backend_reach li ls s (snd (ls r t))"

lemma backend_reach_trans: "backend_reach li ls t u \<Longrightarrow> backend_reach li ls s t \<Longrightarrow> backend_reach li ls s u"
  by (induction rule: backend_reach.induct) (auto intro: backend_reach.intros)

text \<open>What a repository offered when it was asked between two states of a search.\<close>

definition offered ::
  "'s index_loader \<Rightarrow> 's site_loader \<Rightarrow> string \<Rightarrow> string \<Rightarrow> 's \<Rightarrow> 's \<Rightarrow> string \<Rightarrow> ModelMetadata option \<Rightarrow> bool" where
  "offered li ls n l s s' r res \<longleftrightarrow> (\<exists>t. backend_reach li ls s t \<and> offer li n l r t = res
     \<and> backend_reach li ls (snd (li r t)) s')"

lemma offered_later:
  "offered li ls n l s t r res \<Longrightarrow> backend_reach li ls t u \<Longrightarrow> offered li ls n l s u r res"
  unfolding offered_def by (blast intro: backend_reach_trans)

text \<open>A state of a search: a found model was offered, and without one no visited repository
  offered any and the given repositories are among the visited ones.\<close>

definition searched ::
  "'s index_loader \<Rightarrow> 's site_loader \<Rightarrow> string \<Rightarrow> string \<Rightarrow> 's \<Rightarrow> string set \<Rightarrow> 's crawl \<Rightarrow> bool" where
  "searched li ls n l s X c \<longleftrightarrow> backend_reach li ls s (cw_backend c) \<and> (case cw_found c of
     Some m \<Rightarrow> \<exists>r. offered li ls n l s (cw_backend c) r (Some m)
   | None \<Rightarrow> X \<subseteq> cw_visited c \<and> (\<forall>r \<in> cw_visited c. offered li ls n l s (cw_backend c) r None))"

lemma searched_later:
  "searched li ls n l s X c \<Longrightarrow> backend_reach li ls (cw_backend c) (cw_backend c') \<Longrightarrow> cw_found c' = cw_found c
    \<Longrightarrow> cw_visited c' = cw_visited c \<Longrightarrow> searched li ls n l s X c'"
  by (auto simp: searched_def intro: backend_reach_trans offered_later split: option.splits)

lemma visit_find_found:
  assumes "r \<notin> cw_visited c"
  shows "cw_found (snd (visit_find li n l r c))
      = (case offer li n l r (cw_backend c) of None \<Rightarrow> cw_found c | Some m \<Rightarrow> Some m)"
    and "fst (visit_find li n l r c) \<longleftrightarrow> offer li n l r (cw_backend c) \<noteq> None"
    and "cw_backend (snd (visit_find li n l r c)) = snd (li r (cw_backend c))"
  using assms by (auto simp: visit_find_def load_index_def offer_def index_offer_def split_def Let_def split: option.split)

lemma visit_find_visited [simp]: "r \<in> cw_visited c \<Longrightarrow> visit_find li n l r c = (False, c)"
  by (simp add: visit_find_def)

lemma searched_visit:
  assumes "searched li ls n l s X c"
  shows "searched li ls n l s X (snd (visit_find li n l r c))"
proof (cases "r \<in> cw_visited c")
  case False
  let ?t = "snd (li r (cw_backend c))"
  have step: "backend_reach li ls (cw_backend c) ?t" by (intro backend_reach.intros)
  have reach: "backend_reach li ls s (cw_backend c)" using assms by (simp add: searched_def)
  have now: "offered li ls n l s ?t r (offer li n l r (cw_backend c))"
    using reach by (auto simp: offered_def intro: backend_reach.start)
  note later = offered_later [OF _ step] backend_reach_trans [OF step reach]
  show ?thesis using False assms now
    by (auto simp: searched_def visit_find_found intro: later split: option.splits)
qed (use assms in simp)

interpretation found: crawl_invariant li ls n l "searched li ls n l s X" for li ls n l s X
proof
  show "searched li ls n l s X (snd (visit_find li n l r c))" if "searched li ls n l s X c" for c r
    using that by (rule searched_visit)
  show "searched li ls n l s X (snd (load_site ls r c))" if "searched li ls n l s X c" for c r
    using that by (rule searched_later) (auto intro: backend_reach.intros)
  show "searched li ls n l s X (c\<lparr>cw_parents := ps, cw_subsidiaries := ss, cw_diagnostics := ds\<rparr>)"
    if "searched li ls n l s X c" for c ps ss ds
    using that by (rule searched_later) (auto intro: backend_reach.intros)
qed

lemma find_seeds_visited:
  "cw_found c = None \<Longrightarrow> cw_found (snd (find_seeds li n l xs c)) = None
    \<Longrightarrow> cw_visited (snd (find_seeds li n l xs c)) = cw_visited c \<union> set xs"
proof (induction xs arbitrary: c)
  case (Cons x xs)
  show ?case
  proof (cases "fst (visit_find li n l x c)")
    case True
    then show ?thesis using Cons.prems
      by (cases "x \<in> cw_visited c") (auto simp: split_def Let_def visit_find_found split: option.splits)
  next
    case False
    then have "cw_found (snd (visit_find li n l x c)) = None" using Cons.prems(1)
      by (cases "x \<in> cw_visited c") (auto simp: visit_find_found)
    from Cons.IH [OF this] False Cons.prems(2) show ?thesis by (simp add: split_def Let_def)
  qed
qed simp

lemma find_seeds_searched:
  "searched li ls n l s (set ns) (snd (find_seeds li n l ns (initial_crawl s ds)))"
proof -
  have "searched li ls n l s {} (initial_crawl s ds)"
    by (simp add: searched_def initial_crawl_def backend_reach.start)
  then have "searched li ls n l s {} (snd (find_seeds li n l ns (initial_crawl s ds)))" by (rule found.seeds)
  then show ?thesis using find_seeds_visited [of "initial_crawl s ds" li n l ns]
    by (auto simp: searched_def initial_crawl_def split: option.splits)
qed

lemma selected_model:
  assumes "vs_model (selectLatestVersion models n l) = Some i"
  shows "i < length models \<and> mm_name (models ! i) = n \<and> \<not> mm_browseOnly (models ! i)"
proof -
  obtain k where "find (has_root models n) (languages_tried l) = Some k"
    "vs_model (selectForLanguage models n k) = Some i"
    using assms by (auto simp: selectLatestVersion_model split: option.splits)
  with selectForLanguage_Some [of models n k i] show ?thesis by (auto simp: version_candidates_def)
qed

lemma offer_name: "offer li n l r t = Some m \<Longrightarrow> mm_name m = n \<and> \<not> mm_browseOnly m"
  by (auto simp: offer_def index_offer_def dest: selected_model split: option.splits)

lemma findModel_result:
  assumes "findModel li ls seeds n l s = Some (res, s')"
  shows "backend_reach li ls s s'"
    and "lr_found res \<longleftrightarrow> lr_metadata res \<noteq> None"
    and "lr_metadata res = Some m \<Longrightarrow> mm_name m = n \<and> \<not> mm_browseOnly m \<and> (\<exists>r. offered li ls n l s s' r (Some m))"
    and "\<not> lr_found res \<Longrightarrow> seed \<in> set (fst (normalizeSeeds seeds)) \<Longrightarrow> offered li ls n l s s' seed None"
proof -
  obtain ns ds where ns: "normalizeSeeds seeds = (ns, ds)" by fastforce
  obtain c where c: "searched li ls n l s (set ns) c" "(res, s') = lookup_result c"
    using found.search [OF assms ns find_seeds_searched] by blast
  have result: "lr_found res \<longleftrightarrow> lr_metadata res \<noteq> None" "lr_metadata res = cw_found c" "s' = cw_backend c"
    using c(2) by (auto simp: lookup_result_def)
  show "backend_reach li ls s s'" using c(1) result by (simp add: searched_def)
  show "lr_found res \<longleftrightarrow> lr_metadata res \<noteq> None" by (rule result(1))
  show "mm_name m = n \<and> \<not> mm_browseOnly m \<and> (\<exists>r. offered li ls n l s s' r (Some m))" if "lr_metadata res = Some m"
    using that c(1) result by (auto simp: searched_def offered_def dest: offer_name)
  show "offered li ls n l s s' seed None" if "\<not> lr_found res" "seed \<in> set (fst (normalizeSeeds seeds))"
    using that c(1) result ns by (auto simp: searched_def subset_iff)
qed

subsection \<open>Backends with a memory\<close>

text \<open>A backend that answers for each repository once and keeps the answer: later calls of
  either loader neither change it nor report anything.\<close>

locale memo_backend =
  fixes li :: "'s index_loader" and ls :: "'s site_loader"
    and known :: "string \<Rightarrow> 's \<Rightarrow> RepositoryIndex option option"
  assumes hit: "known r s = Some v \<Longrightarrow> li r s = ((v, []), s)"
    and learn: "known r (snd (li r s)) = Some (fst (fst (li r s)))"
    and keep_index: "known r s = Some v \<Longrightarrow> known r (snd (li r' s)) = Some v"
    and keep_site: "known r s = Some v \<Longrightarrow> known r (snd (ls r' s)) = Some v"
begin

lemma repeated: "li r (snd (li r s)) = ((fst (fst (li r s)), []), snd (li r s))"
  by (rule hit [OF learn])

lemma reach_keeps: "backend_reach li ls s t \<Longrightarrow> known r s = Some v \<Longrightarrow> known r t = Some v"
  by (induction rule: backend_reach.induct) (auto intro: keep_index keep_site)

lemma offered_known:
  assumes "offered li ls n l s s' r res"
  obtains v where "known r s' = Some v" and "res = Option.bind v (\<lambda>ix. index_offer ix n l)"
proof -
  from assms obtain t where t: "offer li n l r t = res" "backend_reach li ls (snd (li r t)) s'"
    by (auto simp: offered_def)
  from reach_keeps [OF t(2) learn] have "known r s' = Some (fst (fst (li r t)))" .
  then show thesis using that t(1) by (auto simp: offer_def split: option.splits)
qed

lemma offered_stays: "offered li ls n l s s' r res \<Longrightarrow> offer li n l r s' = res"
  by (auto elim!: offered_known dest!: hit simp: offer_def split: option.split)

end


definition example_site :: RepositorySite where
  "example_site = \<lparr>rs_parentSites = [''http://h''], rs_subsidiarySites = [''http://h'']\<rparr>"

definition example_index :: RepositoryIndex where
  "example_index = \<lparr>ix_repository = ''http://h'', ix_models = [example_metadata ''1'' []]\<rparr>"

definition example_site_loader :: "unit site_loader" where
  "example_site_loader r s = ((if r = ''http://h'' then Some example_site else None, []), s)"

definition example_index_loader :: "unit index_loader" where
  "example_index_loader r s = ((Some example_index, []), s)"


end
