(* ===== verification/Repository_Loader.thy ===== *)
theory Repository_Loader
  imports Repository_Types Repository_Uri
begin

section \<open>Loading repository resources\<close>

text \<open>
  source/repository/RepositoryCache.cpp, RepositoryResourceLoader.cpp, the transport adapter of
  Repository.cpp, core/RepositoryPolicy.cpp and core/RepositoryResourceCoordinator.cpp, in the
  configuration in which every port of RepositoryPorts is injected. The ports are the arguments
  collected in \<open>RepositoryPorts\<close>: functions on a world \<open>'w\<close> that holds whatever state they keep.
  Reading a local file is a port as well, which returns the bytes read and an error, empty on
  success. The curl transport, the file cache and the temporary
  store behind \<open>materializeFallback\<close> are input and output and stay outside; \<open>loadModel\<close> is modelled
  as the manager calls it, without materialisation.
\<close>

record 'w RepositoryPorts =
  port_transport :: "RepositoryTransportRequest \<Rightarrow> 'w \<Rightarrow> RepositoryTransportResponse \<times> 'w"
  port_get :: "string \<Rightarrow> 'w \<Rightarrow> RepositoryCacheLookup \<times> 'w"
  port_put :: "string \<Rightarrow> string \<Rightarrow> int \<Rightarrow> 'w \<Rightarrow> RepositoryCacheStoreResult \<times> 'w"
  port_remove :: "string \<Rightarrow> 'w \<Rightarrow> 'w"
  port_now :: "'w \<Rightarrow> int"
  port_md5 :: "string \<Rightarrow> string"
  port_readFile :: "string \<Rightarrow> 'w \<Rightarrow> string \<times> string"
  port_decodeModelIndex :: "string \<Rightarrow> string \<Rightarrow> ModelMetadata list \<times> Diagnostic list"
  port_decodeSite :: "string \<Rightarrow> string \<Rightarrow> RepositorySite \<times> Diagnostic list"

subsection \<open>Policy and freshness\<close>

record RepositoryPolicy =
  rp_metadataTtl :: int
  rp_modelTtl :: int
  rp_offline :: bool
  rp_allowStaleOnError :: bool
  rp_followSiteLinks :: bool
  rp_validateChecksums :: bool
  rp_maxMetadataBytes :: nat
  rp_maxModelBytes :: nat
  rp_maxRepositoriesVisited :: nat
  rp_maxDependencyDepth :: nat
  rp_maxModelsResolved :: nat
  rp_maxRedirects :: nat

definition default_policy :: RepositoryPolicy where
  "default_policy = \<lparr>rp_metadataTtl = 24 * 60 * 60 * 1000, rp_modelTtl = 7 * 24 * 60 * 60 * 1000,
     rp_offline = False, rp_allowStaleOnError = True, rp_followSiteLinks = True,
     rp_validateChecksums = True, rp_maxMetadataBytes = 32 * 1024 * 1024,
     rp_maxModelBytes = 64 * 1024 * 1024, rp_maxRepositoriesVisited = 4096,
     rp_maxDependencyDepth = 1024, rp_maxModelsResolved = 10000, rp_maxRedirects = 10\<rparr>"

definition max_long_long :: int where
  "max_long_long = 2 ^ 63 - 1"

definition checkedSeconds :: "int \<Rightarrow> int \<Rightarrow> Diagnostic list \<Rightarrow> string \<Rightarrow> int \<times> Diagnostic list" where
  "checkedSeconds seconds fallback ds name =
     (if seconds < 0 then (fallback, ds @ [repositoryDiagnostic SevError ''ILIC-REPO-POLICY''
         (name @ '' must not be negative'')])
      else if max_long_long div 1000 < seconds
      then (fallback, ds @ [repositoryDiagnostic SevError ''ILIC-REPO-POLICY'' (name @ '' is too large'')])
      else (seconds * 1000, ds))"

definition normalizeRepositoryPolicy ::
  "RepositoryOptions \<Rightarrow> Diagnostic list \<Rightarrow> RepositoryPolicy \<times> Diagnostic list" where
  "normalizeRepositoryPolicy options ds =
     (let policy = default_policy;
          (metadata, ds) = checkedSeconds (ro_metadataTtl options) (rp_metadataTtl policy) ds ''metadataTtl'';
          (model, ds) = checkedSeconds (ro_modelTtl options) (rp_modelTtl policy) ds ''modelTtl''
      in (policy\<lparr>rp_metadataTtl := metadata, rp_modelTtl := model, rp_offline := ro_offline options,
            rp_allowStaleOnError := ro_allowStaleOnError options,
            rp_followSiteLinks := ro_followSiteLinks options,
            rp_validateChecksums := ro_validateChecksums options\<rparr>, ds))"

datatype CacheFreshness = Missing | Fresh | Stale

definition classifyCacheEntry :: "RepositoryCacheEntry option \<Rightarrow> int \<Rightarrow> int \<Rightarrow> CacheFreshness" where
  "classifyCacheEntry entry now ttl = (case entry of
     None \<Rightarrow> Missing
   | Some e \<Rightarrow>
       if ttl \<le> 0 \<or> now < ce_storedAt e then Stale
       else if now - ce_storedAt e < ttl then Fresh else Stale)"

definition isTransientTransportFailure :: "RepositoryTransportResponse \<Rightarrow> bool" where
  "isTransientTransportFailure r \<longleftrightarrow>
     tr_retryable r \<or> tr_statusCode r = 408 \<or> tr_statusCode r = 429 \<or> 500 \<le> tr_statusCode r"

subsection \<open>Cache\<close>

record CacheLookupResult =
  ck_exists :: bool
  ck_fresh :: bool
  ck_content :: string
  ck_path :: string
  ck_error :: string

record CacheStoreResult =
  cs_success :: bool
  cs_path :: string
  cs_error :: string

definition default_lookup :: CacheLookupResult where
  "default_lookup = \<lparr>ck_exists = False, ck_fresh = False, ck_content = [], ck_path = [], ck_error = []\<rparr>"

definition cache_lookup :: "'w RepositoryPorts \<Rightarrow> string \<Rightarrow> int \<Rightarrow> 'w \<Rightarrow> CacheLookupResult \<times> 'w" where
  "cache_lookup ports uri ttl w =
     (let (cached, w) = port_get ports uri w in
      if \<not> cl_hit cached then (default_lookup\<lparr>ck_error := cl_error cached\<rparr>, w)
      else (default_lookup\<lparr>ck_exists := True, ck_content := ce_value (cl_entry cached),
              ck_fresh := port_now ports w < ce_storedAt (cl_entry cached) + ttl\<rparr>, w))"

definition cache_store :: "'w RepositoryPorts \<Rightarrow> string \<Rightarrow> string \<Rightarrow> 'w \<Rightarrow> CacheStoreResult \<times> 'w" where
  "cache_store ports uri content w =
     (let (stored, w) = port_put ports uri content (port_now ports w) w
      in (\<lparr>cs_success = cr_success stored, cs_path = cr_localPath stored, cs_error = cr_error stored\<rparr>, w))"

definition cache_invalidate :: "'w RepositoryPorts \<Rightarrow> string \<Rightarrow> 'w \<Rightarrow> 'w" where
  "cache_invalidate ports uri w = port_remove ports uri w"

subsection \<open>Loader\<close>

record RepositoryResource =
  rs_success :: bool
  rs_fromCache :: bool
  rs_stale :: bool
  rs_uri :: string
  rs_content :: string
  rs_localPath :: string
  rs_error :: string
  rs_warnings :: "string list"

record FetchOptions =
  fo_ttl :: int
  fo_optional :: bool

definition empty_resource :: "string \<Rightarrow> RepositoryResource" where
  "empty_resource uri = \<lparr>rs_success = False, rs_fromCache = False, rs_stale = False, rs_uri = uri,
     rs_content = [], rs_localPath = [], rs_error = [], rs_warnings = []\<rparr>"

definition transport_get ::
  "'w RepositoryPorts \<Rightarrow> string \<Rightarrow> RepositoryResourceKind \<Rightarrow> 'w \<Rightarrow> RepositoryTransportResponse \<times> 'w" where
  "transport_get ports uri kind w =
     port_transport ports \<lparr>tq_uri = uri, tq_kind = kind, tq_maxBytes = 64 * 1024 * 1024,
       tq_maxRedirects = 8\<rparr> w"

definition download ::
  "'w RepositoryPorts \<Rightarrow> RepositoryUri \<Rightarrow> bool \<Rightarrow> RepositoryResourceKind \<Rightarrow> 'w \<Rightarrow> RepositoryResource \<times> 'w" where
  "download ports uri optional kind w =
     (let resource = empty_resource (ru_normalized uri);
          (response, w) = transport_get ports (ru_normalized uri) kind w in
      if \<not> tr_success response then
        (resource\<lparr>rs_error := (if optional then [] else if tr_error response = [] then ''request failed''
           else tr_error response)\<rparr>, w)
      else
        let resource = resource\<lparr>rs_success := True, rs_content := tr_body response\<rparr>;
            (stored, w) = cache_store ports (ru_normalized uri) (tr_body response) w in
        if cs_success stored then (resource\<lparr>rs_localPath := cs_path stored\<rparr>, w)
        else (resource\<lparr>rs_warnings := [cs_error stored]\<rparr>, w))"

definition from_cache :: "CacheLookupResult \<Rightarrow> bool \<Rightarrow> RepositoryResource \<Rightarrow> RepositoryResource" where
  "from_cache cached stale resource =
     resource\<lparr>rs_success := True, rs_fromCache := True, rs_stale := stale,
       rs_content := ck_content cached, rs_localPath := ck_path cached\<rparr>"

definition load_local :: "'w RepositoryPorts \<Rightarrow> RepositoryUri \<Rightarrow> bool \<Rightarrow> 'w \<Rightarrow> RepositoryResource" where
  "load_local ports uri optional w =
     (let (content, error) = port_readFile ports (ru_localPath uri) w in
      (empty_resource (ru_normalized uri))\<lparr>rs_localPath := ru_localPath uri, rs_content := content,
        rs_success := (error = []), rs_error := (if optional then [] else error)\<rparr>)"

definition loader_load ::
  "RepositoryOptions \<Rightarrow> 'w RepositoryPorts \<Rightarrow> RepositoryUri \<Rightarrow> FetchOptions \<Rightarrow> RepositoryResourceKind
     \<Rightarrow> 'w \<Rightarrow> RepositoryResource \<times> 'w" where
  "loader_load options ports uri fetch kind w =
     (if \<not> isRemote uri then (load_local ports uri (fo_optional fetch) w, w)
      else
        let (cached, w) = cache_lookup ports (ru_normalized uri) (fo_ttl fetch) w;
            resource = empty_resource (ru_normalized uri) in
        if ck_exists cached \<and> (ck_fresh cached \<or> ro_offline options)
        then (from_cache cached (\<not> ck_fresh cached) resource, w)
        else if ro_offline options
        then (resource\<lparr>rs_error := (if fo_optional fetch then []
                else ''offline and no cached copy of '' @ ru_normalized uri)\<rparr>, w)
        else
          let (resource, w) = download ports uri (fo_optional fetch) kind w in
          if \<not> rs_success resource \<and> ck_exists cached \<and> ro_allowStaleOnError options
          then ((from_cache cached True resource)\<lparr>rs_error := [],
                 rs_warnings := rs_warnings resource @ [''using stale cache entry for ''
                   @ ru_normalized uri @ '' after download error: '' @ rs_error resource]\<rparr>, w)
          else (resource, w))"

definition md5_mismatch :: "string \<Rightarrow> string \<Rightarrow> string \<Rightarrow> string" where
  "md5_mismatch uri expected actual =
     ''MD5 mismatch for '' @ uri @ '': expected '' @ expected @ '', actual '' @ actual"

definition retry_download ::
  "'w RepositoryPorts \<Rightarrow> RepositoryUri \<Rightarrow> RepositoryResource \<Rightarrow> string \<Rightarrow> 'w
     \<Rightarrow> (RepositoryResource \<times> string) \<times> 'w" where
  "retry_download ports uri resource actual w =
     (let w = cache_invalidate ports (ru_normalized uri) w;
          (retry, w) = download ports uri False KindModel w;
          retry = retry\<lparr>rs_warnings := rs_warnings resource @ rs_warnings retry\<rparr> in
      if rs_success retry then ((retry, port_md5 ports (rs_content retry)), w)
      else ((resource, actual), w))"

definition loadModel ::
  "RepositoryOptions \<Rightarrow> 'w RepositoryPorts \<Rightarrow> RepositoryUri \<Rightarrow> string \<Rightarrow> 'w \<Rightarrow> RepositoryResource \<times> 'w" where
  "loadModel options ports uri expectedMd5 w =
     (let (resource, w) = loader_load options ports uri
            \<lparr>fo_ttl = ro_modelTtl options, fo_optional = False\<rparr> KindModel w in
      if \<not> rs_success resource then (resource, w)
      else if ro_validateChecksums options \<and> expectedMd5 \<noteq> [] then
        let actual = port_md5 ports (rs_content resource) in
        if lower actual \<noteq> lower expectedMd5 then
          let ((resource, actual), w) =
                (if rs_fromCache resource \<and> \<not> ro_offline options \<and> isRemote uri
                 then retry_download ports uri resource actual w else ((resource, actual), w)) in
          if \<not> rs_success resource \<or> lower actual \<noteq> lower expectedMd5
          then (resource\<lparr>rs_success := False,
                  rs_error := md5_mismatch (ru_normalized uri) expectedMd5 actual\<rparr>, w)
          else (resource, w)
        else (resource, w)
      else (resource, w))"

subsection \<open>What the loader guarantees\<close>

lemma download_failure:
  "download ports uri False kind w = (r, w') \<Longrightarrow> \<not> rs_success r \<Longrightarrow> rs_error r \<noteq> []"
  by (auto simp: download_def empty_resource_def split_def Let_def split: if_splits)

lemma download_not_stale: "download ports uri opt kind w = (r, w') \<Longrightarrow> \<not> rs_stale r \<and> \<not> rs_fromCache r"
  by (auto simp: download_def empty_resource_def split_def Let_def split: if_splits)

lemma load_failure:
  assumes "loader_load options ports uri fetch kind w = (r, w')" and "\<not> fo_optional fetch" and "\<not> rs_success r"
  shows "rs_error r \<noteq> []"
  using assms download_failure [of ports uri kind]
  by (auto simp: loader_load_def load_local_def empty_resource_def from_cache_def split_def Let_def
      split: if_splits)

lemma load_stale:
  assumes "loader_load options ports uri fetch kind w = (r, w')" and "rs_stale r"
  shows "isRemote uri \<and> rs_fromCache r \<and> (ro_offline options \<or> ro_allowStaleOnError options)"
  using assms
  by (auto simp: loader_load_def load_local_def empty_resource_def from_cache_def split_def Let_def
      split: if_splits dest: download_not_stale)

text \<open>The three ways a model load ends: the first load failed or is accepted, the checksum is
  wrong, or a fresh download replaced a cached copy with a wrong checksum.\<close>

definition checksum_ok :: "RepositoryOptions \<Rightarrow> 'w RepositoryPorts \<Rightarrow> string \<Rightarrow> string \<Rightarrow> bool" where
  "checksum_ok options ports expected content \<longleftrightarrow>
     ro_validateChecksums options \<and> expected \<noteq> [] \<longrightarrow> lower (port_md5 ports content) = lower expected"

abbreviation model_fetch :: "RepositoryOptions \<Rightarrow> FetchOptions" where
  "model_fetch options \<equiv> \<lparr>fo_ttl = ro_modelTtl options, fo_optional = False\<rparr>"

lemma loadModel_cases:
  assumes "loadModel options ports uri expected w = (r, w')"
  obtains (failed) "loader_load options ports uri (model_fetch options) KindModel w = (r, w')" "\<not> rs_success r"
  | (accepted) "loader_load options ports uri (model_fetch options) KindModel w = (r, w')"
      "checksum_ok options ports expected (rs_content r)"
  | (retried) r1 w1 r2 where
      "loader_load options ports uri (model_fetch options) KindModel w = (r1, w1)" "rs_fromCache r1"
      "\<not> ro_offline options" "isRemote uri"
      "download ports uri False KindModel (cache_invalidate ports (ru_normalized uri) w1) = (r2, w')"
      "r = r2\<lparr>rs_warnings := rs_warnings r1 @ rs_warnings r2\<rparr>"
      "checksum_ok options ports expected (rs_content r)"
  | (mismatch) "\<not> rs_success r" "\<exists>actual. rs_error r = md5_mismatch (ru_normalized uri) expected actual"
      "\<exists>r1 w1. loader_load options ports uri (model_fetch options) KindModel w = (r1, w1)"
proof -
  obtain r1 w1 where 1: "loader_load options ports uri (model_fetch options) KindModel w = (r1, w1)" by fastforce
  show ?thesis
  proof (cases "rs_success r1 \<and> \<not> checksum_ok options ports expected (rs_content r1)")
    case False
    then have "r = r1" "w' = w1" using assms 1 by (auto simp: loadModel_def checksum_ok_def Let_def split: if_splits)
    then show ?thesis using False 1 failed accepted by blast
  next
    case bad: True
    obtain r2 w2 where 2: "download ports uri False KindModel (cache_invalidate ports (ru_normalized uri) w1) = (r2, w2)"
      by fastforce
    show ?thesis
    proof (cases "rs_fromCache r1 \<and> \<not> ro_offline options \<and> isRemote uri \<and> rs_success r2
        \<and> checksum_ok options ports expected (rs_content r2)")
      case True
      then have "r = r2\<lparr>rs_warnings := rs_warnings r1 @ rs_warnings r2\<rparr>" "w' = w2"
        using assms bad by (auto simp: loadModel_def 1 2 retry_download_def checksum_ok_def Let_def)
      then show ?thesis using retried [of r1 w1 r2] True 1 2 by simp
    next
      case False
      then have "\<not> rs_success r \<and> (\<exists>actual. rs_error r = md5_mismatch (ru_normalized uri) expected actual)"
        using assms bad by (auto simp: loadModel_def 1 2 retry_download_def checksum_ok_def Let_def split: if_splits)
      then show ?thesis using mismatch 1 by blast
    qed
  qed
qed

lemma cache_lookup_transport:
  "cache_lookup (ports\<lparr>port_transport := t\<rparr>) uri ttl w = cache_lookup ports uri ttl w"
  by (simp add: cache_lookup_def split_def Let_def)

lemma offline_load:
  "ro_offline options \<Longrightarrow>
    loader_load options (ports\<lparr>port_transport := t\<rparr>) uri fetch kind w = loader_load options ports uri fetch kind w"
  by (cases "cache_lookup ports (ru_normalized uri) (fo_ttl fetch) w")
     (simp add: loader_load_def load_local_def cache_lookup_transport Let_def)

text \<open>C19. Loading a model file: when checksums are validated and one is expected, a successful load has
  content with that checksum, whether it came from a file, the cache or a download; a failed load
  has an error; stale content is only returned when offline or when the options allow it, and is
  marked as coming from the cache; offline, the transport is never consulted.\<close>

theorem model_load_verified:
  assumes "loadModel options ports uri expected w = (r, w')"
  shows "(rs_success r \<longrightarrow> checksum_ok options ports expected (rs_content r))
    \<and> (\<not> rs_success r \<longrightarrow> rs_error r \<noteq> [])
    \<and> (rs_success r \<and> rs_stale r \<longrightarrow>
         rs_fromCache r \<and> (ro_offline options \<or> ro_allowStaleOnError options))
    \<and> (ro_offline options \<longrightarrow> loadModel options (ports\<lparr>port_transport := t\<rparr>) uri expected w = (r, w'))"
proof (intro conjI)
  show "rs_success r \<longrightarrow> checksum_ok options ports expected (rs_content r)"
    using assms by (cases rule: loadModel_cases) auto
  show "\<not> rs_success r \<longrightarrow> rs_error r \<noteq> []"
    using assms
  proof (cases rule: loadModel_cases)
    case (retried r1 w1 r2)
    then show ?thesis using download_failure [OF retried(5)] by simp
  qed (auto simp: md5_mismatch_def dest: load_failure)
  show "rs_success r \<and> rs_stale r \<longrightarrow> rs_fromCache r \<and> (ro_offline options \<or> ro_allowStaleOnError options)"
    using assms
  proof (cases rule: loadModel_cases)
    case (retried r1 w1 r2)
    then show ?thesis using download_not_stale [OF retried(5)] by simp
  qed (auto dest: load_stale)
  show "ro_offline options \<longrightarrow> loadModel options (ports\<lparr>port_transport := t\<rparr>) uri expected w = (r, w')"
    using assms by (auto simp: loadModel_def offline_load Let_def split_def)
qed

definition example_response :: "string \<Rightarrow> RepositoryTransportResponse" where
  "example_response body = \<lparr>tr_success = True, tr_statusCode = 200, tr_body = body, tr_finalUri = [],
     tr_error = [], tr_notFound = False, tr_retryable = False\<rparr>"

definition example_ports :: "unit RepositoryPorts" where
  "example_ports = \<lparr>port_transport = \<lambda>_ w. (example_response ''MODEL'', w),
     port_get = \<lambda>_ w. (\<lparr>cl_hit = True, cl_entry = \<lparr>ce_value = ''BROKEN'', ce_storedAt = 0\<rparr>, cl_error = []\<rparr>, w),
     port_put = \<lambda>_ _ _ w. (\<lparr>cr_success = True, cr_error = [], cr_localPath = ''p''\<rparr>, w),
     port_remove = \<lambda>_ w. w, port_now = \<lambda>_. 1, port_md5 = \<lambda>s. s,
     port_readFile = \<lambda>_ _. ([], ''unable to open''),
     port_decodeModelIndex = \<lambda>_ _. ([], []),
     port_decodeSite = \<lambda>_ _. (\<lparr>rs_parentSites = [], rs_subsidiarySites = []\<rparr>, [])\<rparr>"

definition example_options :: RepositoryOptions where
  "example_options = \<lparr>ro_repositories = [''https://h''], ro_cacheDirectory = [], ro_metadataTtl = 60,
     ro_modelTtl = 60, ro_offline = False, ro_allowStaleOnError = True, ro_followSiteLinks = True,
     ro_validateChecksums = True\<rparr>"

theorem model_load_verified_witness:
  "\<exists>r. loadModel example_options example_ports
        \<lparr>ru_kind = Https, ru_original = ''https://h/m'', ru_normalized = ''https://h/m'', ru_localPath = []\<rparr>
        ''MODEL'' () = (r, ()) \<and> rs_success r \<and> rs_content r = ''MODEL''
      \<and> checksum_ok example_options example_ports ''MODEL'' (rs_content r)"
proof -
  let ?u = "\<lparr>ru_kind = Https, ru_original = ''https://h/m'', ru_normalized = ''https://h/m'', ru_localPath = []\<rparr>"
  obtain r where r: "loadModel example_options example_ports ?u ''MODEL'' () = (r, ())"
    by (cases "loadModel example_options example_ports ?u ''MODEL'' ()") auto
  have "rs_success r \<and> rs_content r = ''MODEL''"
    using r by (auto simp: loadModel_def loader_load_def cache_lookup_def cache_store_def cache_invalidate_def
        retry_download_def download_def transport_get_def from_cache_def example_options_def
        example_ports_def example_response_def empty_resource_def default_lookup_def isRemote_def
        lower_def)
  with r model_load_verified [OF r] show ?thesis by blast
qed

lemma checkedSeconds_value:
  assumes "checkedSeconds s f ds n = (v, ds')" and "0 \<le> f \<and> f \<le> max_long_long"
  shows "0 \<le> v \<and> v \<le> max_long_long \<and> (\<exists>x. ds' = ds @ x \<and> (x = [] \<longleftrightarrow> 0 \<le> s \<and> s \<le> max_long_long div 1000)
    \<and> (x = [] \<longrightarrow> v = 1000 * s))"
  using assms by (auto simp: checkedSeconds_def max_long_long_def split: if_splits)

text \<open>Times to live: the policy never holds a negative duration nor one that overflows when
  seconds become milliseconds, it keeps the requested duration exactly when no diagnostic was
  added for it, and for entries that were not stored in the future the cache's own freshness test
  agrees with the classification of the repository core.\<close>

theorem repository_ttl_bounds:
  assumes "normalizeRepositoryPolicy options [] = (policy, ds)"
  shows "0 \<le> rp_metadataTtl policy \<and> rp_metadataTtl policy \<le> max_long_long
    \<and> 0 \<le> rp_modelTtl policy \<and> rp_modelTtl policy \<le> max_long_long
    \<and> (ds = [] \<longleftrightarrow> 0 \<le> ro_metadataTtl options \<and> ro_metadataTtl options \<le> max_long_long div 1000
         \<and> 0 \<le> ro_modelTtl options \<and> ro_modelTtl options \<le> max_long_long div 1000)
    \<and> (ds = [] \<longrightarrow> rp_metadataTtl policy = 1000 * ro_metadataTtl options
         \<and> rp_modelTtl policy = 1000 * ro_modelTtl options)
    \<and> (ce_storedAt e \<le> port_now ports w' \<and> port_get ports key w = (\<lparr>cl_hit = True, cl_entry = e, cl_error = er\<rparr>, w')
         \<longrightarrow> (ck_fresh (fst (cache_lookup ports key ttl w))
               \<longleftrightarrow> classifyCacheEntry (Some e) (port_now ports w') ttl = Fresh))"
proof -
  obtain m ds1 where 1: "checkedSeconds (ro_metadataTtl options) (rp_metadataTtl default_policy) [] ''metadataTtl'' = (m, ds1)"
    by fastforce
  obtain n ds2 where 2: "checkedSeconds (ro_modelTtl options) (rp_modelTtl default_policy) ds1 ''modelTtl'' = (n, ds2)"
    by fastforce
  have p: "rp_metadataTtl policy = m" "rp_modelTtl policy = n" "ds = ds2"
    using assms by (auto simp: normalizeRepositoryPolicy_def 1 2 Let_def)
  have default: "0 \<le> rp_metadataTtl default_policy \<and> rp_metadataTtl default_policy \<le> max_long_long"
      "0 \<le> rp_modelTtl default_policy \<and> rp_modelTtl default_policy \<le> max_long_long"
    by (simp_all add: default_policy_def max_long_long_def)
  have fresh: "ck_fresh (fst (cache_lookup ports key ttl w)) \<longleftrightarrow> classifyCacheEntry (Some e) (port_now ports w') ttl = Fresh"
    if "ce_storedAt e \<le> port_now ports w'" "port_get ports key w = (\<lparr>cl_hit = True, cl_entry = e, cl_error = er\<rparr>, w')"
    using that by (auto simp: cache_lookup_def default_lookup_def classifyCacheEntry_def)
  show ?thesis
    using checkedSeconds_value [OF 1 default(1)] checkedSeconds_value [OF 2 default(2)] fresh p by auto
qed

theorem repository_ttl_bounds_witness:
  "rp_modelTtl (fst (normalizeRepositoryPolicy (example_options\<lparr>ro_metadataTtl := - 1\<rparr>) [])) = 60000
   \<and> snd (normalizeRepositoryPolicy (example_options\<lparr>ro_metadataTtl := - 1\<rparr>) []) \<noteq> []"
proof -
  obtain p ds where r: "normalizeRepositoryPolicy (example_options\<lparr>ro_metadataTtl := - 1\<rparr>) [] = (p, ds)" by fastforce
  then have "rp_modelTtl p = 60000"
    by (auto simp: normalizeRepositoryPolicy_def checkedSeconds_def example_options_def max_long_long_def default_policy_def)
  then show ?thesis using repository_ttl_bounds [OF r, of undefined example_ports "()" "[]" "()" "[]" 0] r
    by (auto simp: example_options_def)
qed

end
