(* ===== verification/Repository_Manager.thy ===== *)
theory Repository_Manager
  imports Repository_Crawler Repository_Loader
begin

section \<open>Resolving models and their dependencies\<close>

text \<open>
  source/repository/Repository.cpp: the memory of loaded indexes and sites, which is the backend of
  the crawler, and the resolution of requested models with everything they depend on. The world
  of the ports and the two maps of load states are one state. \<open>RepositoryUri::resolve\<close> may
  throw in the middle of a lookup and nothing catches it before \<open>resolve\<close> returns: the first
  message is kept in \<open>mg_thrown\<close>, and \<open>resolve\<close> then returns nothing but that message. The working
  directory that the containment check reads is the argument \<open>cwd\<close>. The recursion over dependencies follows
  data of foreign servers and takes its depth as fuel; \<open>None\<close> means that the fuel was too small or a search of
  the crawler does not end.
\<close>

datatype 'a LoadState = NotLoaded | Available 'a | Unavailable

record 'w manager =
  mg_world :: 'w
  mg_repositoryIndexes :: "string \<Rightarrow> RepositoryIndex LoadState"
  mg_repositorySites :: "string \<Rightarrow> RepositorySite LoadState"
  mg_thrown :: "string option"

definition initial_manager :: "'w \<Rightarrow> 'w manager" where
  "initial_manager w = \<lparr>mg_world = w, mg_repositoryIndexes = (\<lambda>_. NotLoaded),
     mg_repositorySites = (\<lambda>_. NotLoaded), mg_thrown = None\<rparr>"

definition mg_throw :: "string \<Rightarrow> 'w manager \<Rightarrow> 'w manager" where
  "mg_throw e mg = mg\<lparr>mg_thrown := (case mg_thrown mg of None \<Rightarrow> Some e | Some first \<Rightarrow> Some first)\<rparr>"

definition appendResourceWarnings :: "RepositoryResource \<Rightarrow> string \<Rightarrow> Diagnostic list" where
  "appendResourceWarnings resource code = map (repositoryDiagnostic SevWarning code) (rs_warnings resource)"

subsection \<open>The backend of the crawler\<close>

definition read_index ::
  "RepositoryOptions \<Rightarrow> 'w RepositoryPorts \<Rightarrow> string \<Rightarrow> 'w manager
     \<Rightarrow> (RepositoryIndex option \<times> Diagnostic list) \<times> 'w manager" where
  "read_index options ports repositoryUri mg =
     (case uri_parse repositoryUri of
        Inl e \<Rightarrow> ((None, [repositoryDiagnostic SevWarning ''ILIC-REPO-INDEX''
          (''invalid repository URI '' @ repositoryUri @ '': '' @ e)]), mg)
      | Inr repositoryRoot \<Rightarrow>
          (case uri_resolve repositoryRoot ''ilimodels.xml'' of
             Inl e \<Rightarrow> ((None, []), mg_throw e mg)
           | Inr indexUri \<Rightarrow>
               let (resource, w) = loader_load options ports indexUri
                     \<lparr>fo_ttl = ro_metadataTtl options, fo_optional = False\<rparr> KindModelIndex (mg_world mg);
                   mg = mg\<lparr>mg_world := w\<rparr>;
                   warnings = appendResourceWarnings resource ''ILIC-REPO-CACHE'' in
               if \<not> rs_success resource then
                 ((None, warnings @ [repositoryDiagnostic SevWarning ''ILIC-REPO-INDEX''
                    (''unable to read ilimodels.xml from '' @ repositoryUri @ '': '' @ rs_error resource)]), mg)
               else
                 let (models, parseDiagnostics) = port_decodeModelIndex ports (rs_content resource) repositoryUri;
                     ds = warnings @ map (\<lambda>d. d\<lparr>dg_severity := SevWarning\<rparr>) parseDiagnostics in
                 ((if models = [] then None else Some \<lparr>ix_repository = repositoryUri, ix_models = models\<rparr>, ds), mg)))"

definition loadIndex :: "RepositoryOptions \<Rightarrow> 'w RepositoryPorts \<Rightarrow> 'w manager index_loader" where
  "loadIndex options ports repositoryUri mg =
     (case mg_repositoryIndexes mg repositoryUri of
        Available index \<Rightarrow> ((Some index, []), mg)
      | Unavailable \<Rightarrow> ((None, []), mg)
      | NotLoaded \<Rightarrow>
          let ((index, ds), mg) = read_index options ports repositoryUri mg in
          ((index, ds), mg\<lparr>mg_repositoryIndexes := (mg_repositoryIndexes mg)
             (repositoryUri := (case index of None \<Rightarrow> Unavailable | Some ix \<Rightarrow> Available ix))\<rparr>))"

definition read_site ::
  "RepositoryOptions \<Rightarrow> 'w RepositoryPorts \<Rightarrow> string \<Rightarrow> 'w manager
     \<Rightarrow> (RepositorySite option \<times> Diagnostic list) \<times> 'w manager" where
  "read_site options ports repositoryUri mg =
     (case uri_parse repositoryUri of
        Inl e \<Rightarrow> ((None, []), mg)
      | Inr repositoryRoot \<Rightarrow>
          (case uri_resolve repositoryRoot ''ilisite.xml'' of
             Inl e \<Rightarrow> ((None, []), mg_throw e mg)
           | Inr siteUri \<Rightarrow>
               let (resource, w) = loader_load options ports siteUri
                     \<lparr>fo_ttl = ro_metadataTtl options, fo_optional = True\<rparr> KindSiteIndex (mg_world mg);
                   mg = mg\<lparr>mg_world := w\<rparr>;
                   warnings = appendResourceWarnings resource ''ILIC-REPO-CACHE'' in
               if \<not> rs_success resource then ((None, warnings), mg)
               else
                 let (site, ds) = port_decodeSite ports (rs_content resource) repositoryUri
                 in ((Some site, warnings @ ds), mg)))"

definition loadSite :: "RepositoryOptions \<Rightarrow> 'w RepositoryPorts \<Rightarrow> 'w manager site_loader" where
  "loadSite options ports repositoryUri mg =
     (if \<not> ro_followSiteLinks options then ((None, []), mg)
      else case mg_repositorySites mg repositoryUri of
        Available site \<Rightarrow> ((Some site, []), mg)
      | Unavailable \<Rightarrow> ((None, []), mg)
      | NotLoaded \<Rightarrow>
          let ((site, ds), mg) = read_site options ports repositoryUri mg in
          ((site, ds), mg\<lparr>mg_repositorySites := (mg_repositorySites mg)
             (repositoryUri := (case site of None \<Rightarrow> Unavailable | Some s \<Rightarrow> Available s))\<rparr>))"

definition manager_listModels ::
  "RepositoryOptions \<Rightarrow> 'w RepositoryPorts \<Rightarrow> 'w manager \<Rightarrow> (ModelMetadata list \<times> 'w manager) option" where
  "manager_listModels options ports mg = map_option (\<lambda>c. (cw_models c, cw_backend c))
     (crawler_listModels (loadIndex options ports) (loadSite options ports) (ro_repositories options) mg)"

subsection \<open>Resolution\<close>

record 'w resolution =
  rz_resolvedModels :: "string set"
  rz_stack :: "string list"
  rz_emittedFileChecksums :: "string \<rightharpoonup> string"
  rz_models :: "ResolvedModel list"
  rz_diagnostics :: "Diagnostic list"
  rz_manager :: "'w manager"

definition initial_resolution :: "'w manager \<Rightarrow> 'w resolution" where
  "initial_resolution mg = \<lparr>rz_resolvedModels = {}, rz_stack = [], rz_emittedFileChecksums = Map.empty,
     rz_models = [], rz_diagnostics = [], rz_manager = mg\<rparr>"

definition rz_report :: "Diagnostic list \<Rightarrow> 'w resolution \<Rightarrow> 'w resolution" where
  "rz_report ds st = st\<lparr>rz_diagnostics := rz_diagnostics st @ ds\<rparr>"

definition rz_error :: "string \<Rightarrow> string \<Rightarrow> 'w resolution \<Rightarrow> bool \<times> 'w resolution" where
  "rz_error code message st = (False, rz_report [repositoryDiagnostic SevError code message] st)"

definition cycle_path :: "string list \<Rightarrow> string \<Rightarrow> string" where
  "cycle_path stack name =
     foldl (\<lambda>path current. (if path \<noteq> [] then path @ '' -> '' else path) @ current) []
       (dropWhile (\<lambda>s. s \<noteq> name) stack) @ '' -> '' @ name"

definition emit_model ::
  "RepositoryOptions \<Rightarrow> 'w RepositoryPorts \<Rightarrow> ModelMetadata \<Rightarrow> RepositoryUri \<Rightarrow> 'w resolution \<Rightarrow> bool \<times> 'w resolution" where
  "emit_model options ports metadata uri st =
     (case rz_emittedFileChecksums st (ru_normalized uri) of
        None \<Rightarrow>
          let (resource, w) = loadModel options ports uri (mm_md5 metadata) (mg_world (rz_manager st));
              st = rz_report (appendResourceWarnings resource ''ILIC-REPO-CACHE'')
                (st\<lparr>rz_manager := (rz_manager st)\<lparr>mg_world := w\<rparr>\<rparr>) in
          if \<not> rs_success resource then
            rz_error (if starts_with ''MD5 mismatch'' (rs_error resource)
                      then ''ILIC-REPO-CHECKSUM'' else ''ILIC-REPO-DOWNLOAD'')
              (''unable to fetch '' @ ru_normalized uri @ '': '' @ rs_error resource) st
          else (True, st\<lparr>rz_emittedFileChecksums := (rz_emittedFileChecksums st)
                   (ru_normalized uri \<mapsto> port_md5 ports (rs_content resource)),
                 rz_models := rz_models st @ [\<lparr>rm_metadata = metadata, rm_uri = ru_normalized uri,
                   rm_localPath = rs_localPath resource, rm_content = rs_content resource,
                   rm_fromCache = rs_fromCache resource, rm_stale = rs_stale resource\<rparr>]\<rparr>)
      | Some emitted \<Rightarrow>
          if ro_validateChecksums options \<and> mm_md5 metadata \<noteq> [] \<and> lower emitted \<noteq> lower (mm_md5 metadata)
          then rz_error ''ILIC-REPO-CHECKSUM'' (''unable to fetch '' @ ru_normalized uri @ '': ''
                 @ md5_mismatch (ru_normalized uri) (mm_md5 metadata) emitted) st
          else (True, st))"

definition fetch_model ::
  "RepositoryOptions \<Rightarrow> 'w RepositoryPorts \<Rightarrow> string \<Rightarrow> ModelMetadata \<Rightarrow> 'w resolution \<Rightarrow> bool \<times> 'w resolution" where
  "fetch_model options ports cwd metadata st =
     (let path = validateRepositoryRelativePath (mm_file metadata) in
      if \<not> rv_valid path
      then rz_error ''ILIC-REPO-PATH'' (''unsafe repository path '' @ mm_file metadata @ '': '' @ rv_error path) st
      else case uri_parse (mm_repository metadata) of
        Inl _ \<Rightarrow> rz_error ''ILIC-REPO-PATH'' (''invalid repository root '' @ mm_repository metadata) st
      | Inr root \<Rightarrow>
          (case uri_resolve root (rv_normalized path) of
             Inl e \<Rightarrow> (False, st\<lparr>rz_manager := mg_throw e (rz_manager st)\<rparr>)
           | Inr uri \<Rightarrow>
               if \<not> isRemote root \<and> (isRemote uri \<or> \<not> isPathWithin cwd (ru_localPath root) (ru_localPath uri))
               then rz_error ''ILIC-REPO-PATH'' (''repository path escapes its root: '' @ mm_file metadata) st
               else emit_model options ports metadata uri st))"

text \<open>\<open>StackGuard\<close> pops the name on every way out of the part that \<open>look_up\<close> begins.\<close>

definition pop_stack :: "'w resolution \<Rightarrow> 'w resolution" where
  "pop_stack st = st\<lparr>rz_stack := butlast (rz_stack st)\<rparr>"

definition look_up ::
  "RepositoryOptions \<Rightarrow> 'w RepositoryPorts \<Rightarrow> string \<Rightarrow> string \<Rightarrow> 'w resolution
     \<Rightarrow> (ModelMetadata option \<times> 'w resolution) option" where
  "look_up options ports name schemaLanguage st =
     (case findModel (loadIndex options ports) (loadSite options ports) (ro_repositories options)
             name schemaLanguage (rz_manager st) of
        None \<Rightarrow> None
      | Some (lookup, mg) \<Rightarrow>
          let st = rz_report (lr_diagnostics lookup) (st\<lparr>rz_manager := mg\<rparr>) in
          Some (case lr_metadata lookup of
              None \<Rightarrow> (None, snd (rz_error ''ILIC-REPO-NOT-FOUND''
                (''model '' @ name @ '' not found in configured repositories'') st))
            | Some metadata \<Rightarrow> (Some metadata, st)))"

fun resolveOne ::
  "nat \<Rightarrow> RepositoryOptions \<Rightarrow> 'w RepositoryPorts \<Rightarrow> string \<Rightarrow> string \<Rightarrow> string \<Rightarrow> 'w resolution
     \<Rightarrow> (bool \<times> 'w resolution) option"
and resolve_dependencies ::
  "nat \<Rightarrow> RepositoryOptions \<Rightarrow> 'w RepositoryPorts \<Rightarrow> string \<Rightarrow> string \<Rightarrow> string list \<Rightarrow> bool \<Rightarrow> 'w resolution
     \<Rightarrow> (bool \<times> 'w resolution) option" where
  "resolveOne fuel options ports cwd schemaLanguage name st =
     (if name = ''INTERLIS'' \<or> name \<in> rz_resolvedModels st then Some (True, st)
      else if name \<in> set (rz_stack st)
      then Some (rz_error ''ILIC-REPO-CYCLE'' (''dependency cycle: '' @ cycle_path (rz_stack st) name) st)
      else case fuel of
        0 \<Rightarrow> None
      | Suc n \<Rightarrow>
          (case look_up options ports name schemaLanguage (st\<lparr>rz_stack := rz_stack st @ [name]\<rparr>) of
             None \<Rightarrow> None
           | Some (None, st) \<Rightarrow> Some (False, pop_stack st)
           | Some (Some metadata, st) \<Rightarrow>
               (case resolve_dependencies n options ports cwd schemaLanguage (mm_dependencies metadata) True st of
                  None \<Rightarrow> None
                | Some (dependenciesOk, st) \<Rightarrow>
                    if \<not> dependenciesOk then Some (False, pop_stack st)
                    else
                      let (ok, st) = fetch_model options ports cwd metadata st in
                      if \<not> ok then Some (False, pop_stack st)
                      else Some (True, pop_stack (st\<lparr>rz_resolvedModels := insert name (rz_resolvedModels st)\<rparr>)))))"
| "resolve_dependencies fuel options ports cwd schemaLanguage [] ok st = Some (ok, st)"
| "resolve_dependencies fuel options ports cwd schemaLanguage (name # names) ok st =
     (case resolveOne fuel options ports cwd schemaLanguage name st of
        None \<Rightarrow> None
      | Some (resolved, st) \<Rightarrow>
          resolve_dependencies fuel options ports cwd schemaLanguage names (resolved \<and> ok) st)"

definition manager_resolve ::
  "nat \<Rightarrow> RepositoryOptions \<Rightarrow> 'w RepositoryPorts \<Rightarrow> string \<Rightarrow> string list \<Rightarrow> string \<Rightarrow> 'w manager
     \<Rightarrow> (string + RepositoryResult \<times> 'w manager) option" where
  "manager_resolve fuel options ports cwd requested schemaLanguage mg =
     (case resolve_dependencies fuel options ports cwd schemaLanguage requested True (initial_resolution mg) of
        None \<Rightarrow> None
      | Some (ok, st) \<Rightarrow>
          Some (case mg_thrown (rz_manager st) of
              Some e \<Rightarrow> Inl e
            | None \<Rightarrow> Inr (\<lparr>rr_success = (ok \<and> \<not> hasErrors (rz_diagnostics st)), rr_models = rz_models st,
                          rr_diagnostics = rz_diagnostics st\<rparr>, rz_manager st)))"

declare resolveOne.simps [simp del]

subsection \<open>The memory of the manager\<close>

definition known_index :: "string \<Rightarrow> 'w manager \<Rightarrow> RepositoryIndex option option" where
  "known_index r mg = (case mg_repositoryIndexes mg r of
     NotLoaded \<Rightarrow> None | Available ix \<Rightarrow> Some (Some ix) | Unavailable \<Rightarrow> Some None)"

lemma mg_throw_frame [simp]:
  "mg_repositoryIndexes (mg_throw e mg) = mg_repositoryIndexes mg"
  "mg_repositorySites (mg_throw e mg) = mg_repositorySites mg"
  "mg_thrown (mg_throw e mg) \<noteq> None"
  "mg_thrown mg = Some f \<Longrightarrow> mg_thrown (mg_throw e mg) = Some f"
  by (simp_all add: mg_throw_def split: option.split)

lemma read_index_frame [simp]:
  "mg_repositoryIndexes (snd (read_index options ports r mg)) = mg_repositoryIndexes mg"
  "mg_repositorySites (snd (read_index options ports r mg)) = mg_repositorySites mg"
  "mg_thrown mg = Some e \<Longrightarrow> mg_thrown (snd (read_index options ports r mg)) = Some e"
  by (auto simp: read_index_def mg_throw_def Let_def split_def split: sum.split option.split)

lemma read_site_frame [simp]:
  "mg_repositoryIndexes (snd (read_site options ports r mg)) = mg_repositoryIndexes mg"
  "mg_repositorySites (snd (read_site options ports r mg)) = mg_repositorySites mg"
  "mg_thrown mg = Some e \<Longrightarrow> mg_thrown (snd (read_site options ports r mg)) = Some e"
  by (auto simp: read_site_def mg_throw_def Let_def split_def split: sum.split option.split)

lemma loadIndex_indexes:
  "mg_repositoryIndexes (snd (loadIndex options ports r mg)) = (mg_repositoryIndexes mg)
     (r := (case fst (fst (loadIndex options ports r mg)) of None \<Rightarrow> Unavailable | Some ix \<Rightarrow> Available ix))"
  by (auto simp: loadIndex_def Let_def split_def split: LoadState.split option.split)

lemma loadSite_indexes [simp]:
  "mg_repositoryIndexes (snd (loadSite options ports r mg)) = mg_repositoryIndexes mg"
  by (simp add: loadSite_def Let_def split_def split: LoadState.split)

lemma load_thrown:
  "mg_thrown mg = Some e \<Longrightarrow> mg_thrown (snd (loadIndex options ports r mg)) = Some e"
  "mg_thrown mg = Some e \<Longrightarrow> mg_thrown (snd (loadSite options ports r mg)) = Some e"
  by (simp_all add: loadIndex_def loadSite_def Let_def split_def split: LoadState.split)

lemma known_index_hit: "known_index r mg = Some v \<Longrightarrow> loadIndex options ports r mg = ((v, []), mg)"
  by (auto simp: known_index_def loadIndex_def split: LoadState.splits)

interpretation memory: memo_backend "loadIndex options ports" "loadSite options ports" known_index for options ports
proof
  show "loadIndex options ports r s = ((v, []), s)" if "known_index r s = Some v" for r v and s :: "'a manager"
    using that by (rule known_index_hit)
  show "known_index r (snd (loadIndex options ports r s)) = Some (fst (fst (loadIndex options ports r s)))" for r s
    by (simp add: known_index_def loadIndex_indexes split: option.split)
  show "known_index r (snd (loadIndex options ports r' s)) = Some v" if "known_index r s = Some v" for r r' v s
    using that known_index_hit [OF that]
    by (auto simp: known_index_def loadIndex_indexes fun_upd_def split: option.splits LoadState.splits)
  show "known_index r (snd (loadSite options ports r' s)) = Some v" if "known_index r s = Some v" for r r' v s
    using that by (simp add: known_index_def)
qed

subsection \<open>What a resolution state guarantees\<close>

text \<open>A loaded index announces the metadata as the latest version of a model.\<close>

definition announced :: "string \<Rightarrow> 'w manager \<Rightarrow> string \<Rightarrow> ModelMetadata \<Rightarrow> bool" where
  "announced schemaLanguage mg name m \<longleftrightarrow>
     (\<exists>r ix. mg_repositoryIndexes mg r = Available ix \<and> index_offer ix name schemaLanguage = Some m)"

definition model_uri :: "ModelMetadata \<Rightarrow> RepositoryUri option" where
  "model_uri m =
     (let path = validateRepositoryRelativePath (mm_file m) in
      if \<not> rv_valid path then None
      else case uri_parse (mm_repository m) of
        Inl _ \<Rightarrow> None
      | Inr root \<Rightarrow> (case uri_resolve root (rv_normalized path) of Inl _ \<Rightarrow> None | Inr uri \<Rightarrow> Some uri))"

text \<open>An emitted file is the one the metadata names, with the checksum the metadata has.\<close>

definition file_of :: "RepositoryOptions \<Rightarrow> 'w RepositoryPorts \<Rightarrow> ModelMetadata \<Rightarrow> ResolvedModel \<Rightarrow> bool" where
  "file_of options ports m x \<longleftrightarrow>
     map_option ru_normalized (model_uri m) = Some (rm_uri x) \<and> checksum_ok options ports (mm_md5 m) (rm_content x)"

definition provided ::
  "RepositoryOptions \<Rightarrow> 'w RepositoryPorts \<Rightarrow> string \<Rightarrow> 'w manager \<Rightarrow> ResolvedModel list \<Rightarrow> string \<Rightarrow> bool" where
  "provided options ports schemaLanguage mg xs name \<longleftrightarrow> name = ''INTERLIS''
     \<or> (\<exists>m. announced schemaLanguage mg name m \<and> (\<exists>x \<in> set xs. file_of options ports m x))"

definition models_ok ::
  "RepositoryOptions \<Rightarrow> 'w RepositoryPorts \<Rightarrow> string \<Rightarrow> 'w manager \<Rightarrow> ResolvedModel list \<Rightarrow> bool" where
  "models_ok options ports schemaLanguage mg xs \<longleftrightarrow> distinct (map rm_uri xs)
     \<and> (\<forall>i < length xs. file_of options ports (rm_metadata (xs ! i)) (xs ! i)
          \<and> announced schemaLanguage mg (mm_name (rm_metadata (xs ! i))) (rm_metadata (xs ! i))
          \<and> (\<forall>d \<in> set (mm_dependencies (rm_metadata (xs ! i))). provided options ports schemaLanguage mg (take i xs) d))"

definition resolution_ok :: "RepositoryOptions \<Rightarrow> 'w RepositoryPorts \<Rightarrow> string \<Rightarrow> 'w resolution \<Rightarrow> bool" where
  "resolution_ok options ports schemaLanguage st \<longleftrightarrow>
     models_ok options ports schemaLanguage (rz_manager st) (rz_models st)
     \<and> rz_emittedFileChecksums st = map_of (map (\<lambda>x. (rm_uri x, port_md5 ports (rm_content x))) (rz_models st))
     \<and> (\<forall>name \<in> rz_resolvedModels st. provided options ports schemaLanguage (rz_manager st) (rz_models st) name)"

text \<open>Links and dependencies that stay within given repositories and models, in what the decoder can
  return and in what the manager holds.\<close>

definition site_within :: "string set \<Rightarrow> string \<Rightarrow> RepositorySite \<Rightarrow> bool" where
  "site_within U r site \<longleftrightarrow> set (fst (enqueueLinks r (rs_parentSites site))) \<subseteq> U
     \<and> set (fst (enqueueLinks r (rs_subsidiarySites site))) \<subseteq> U"

definition models_within :: "string set \<Rightarrow> ModelMetadata list \<Rightarrow> bool" where
  "models_within N ms \<longleftrightarrow> (\<forall>m \<in> set ms. mm_name m \<in> N \<longrightarrow> set (mm_dependencies m) \<subseteq> N)"

definition ports_within :: "'w RepositoryPorts \<Rightarrow> string set \<Rightarrow> string set \<Rightarrow> bool" where
  "ports_within ports U N \<longleftrightarrow> (\<forall>content r. site_within U r (fst (port_decodeSite ports content r))
     \<and> models_within N (fst (port_decodeModelIndex ports content r)))"

definition manager_within :: "string set \<Rightarrow> string set \<Rightarrow> 'w manager \<Rightarrow> bool" where
  "manager_within U N mg \<longleftrightarrow> (\<forall>r ix. mg_repositoryIndexes mg r = Available ix \<longrightarrow> models_within N (ix_models ix))
     \<and> (\<forall>r site. mg_repositorySites mg r = Available site \<longrightarrow> site_within U r site)"

text \<open>Later managers hold at least the same indexes and keep an exception; later resolution states
  moreover keep the emitted models, the resolved names and the diagnostics.\<close>

definition manager_le :: "'w RepositoryPorts \<Rightarrow> 'w manager \<Rightarrow> 'w manager \<Rightarrow> bool" where
  "manager_le ports mg mg' \<longleftrightarrow> (\<forall>r ix. mg_repositoryIndexes mg r = Available ix \<longrightarrow> mg_repositoryIndexes mg' r = Available ix)
     \<and> (\<forall>e. mg_thrown mg = Some e \<longrightarrow> mg_thrown mg' = Some e)
     \<and> (\<forall>U N. ports_within ports U N \<longrightarrow> manager_within U N mg \<longrightarrow> manager_within U N mg')"

definition resolution_le :: "'w RepositoryPorts \<Rightarrow> 'w resolution \<Rightarrow> 'w resolution \<Rightarrow> bool" where
  "resolution_le ports st st' \<longleftrightarrow> manager_le ports (rz_manager st) (rz_manager st')
     \<and> (\<exists>xs. rz_models st' = rz_models st @ xs) \<and> (\<exists>ds. rz_diagnostics st' = rz_diagnostics st @ ds)
     \<and> rz_resolvedModels st \<subseteq> rz_resolvedModels st'"

definition failed :: "'w resolution \<Rightarrow> bool" where
  "failed st \<longleftrightarrow> hasErrors (rz_diagnostics st) \<or> mg_thrown (rz_manager st) \<noteq> None"

lemma manager_le_refl [simp]: "manager_le ports mg mg"
  by (simp add: manager_le_def)

lemma manager_le_trans: "manager_le ports a b \<Longrightarrow> manager_le ports b c \<Longrightarrow> manager_le ports a c"
  by (simp add: manager_le_def)

lemma manager_le_world [simp]: "manager_le ports mg (mg\<lparr>mg_world := w\<rparr>)" "manager_le ports mg (mg_throw e mg)"
  by (simp_all add: manager_le_def manager_within_def)

lemma resolution_le_refl [simp]: "resolution_le ports st st"
  by (simp add: resolution_le_def)

lemma resolution_le_trans: "resolution_le ports a b \<Longrightarrow> resolution_le ports b c \<Longrightarrow> resolution_le ports a c"
  by (auto simp: resolution_le_def intro: manager_le_trans)

lemma failed_later: "failed st \<Longrightarrow> resolution_le ports st st' \<Longrightarrow> failed st'"
  by (auto simp: failed_def resolution_le_def manager_le_def hasErrors_def)

lemma read_index_decoded:
  "fst (fst (read_index options ports r mg)) = Some ix
    \<Longrightarrow> \<exists>content. ix_models ix = fst (port_decodeModelIndex ports content r)"
  by (auto simp: read_index_def Let_def split_def split: sum.splits if_splits)

lemma read_site_decoded:
  "fst (fst (read_site options ports r mg)) = Some site \<Longrightarrow> \<exists>content. site = fst (port_decodeSite ports content r)"
  by (auto simp: read_site_def Let_def split_def split: sum.splits if_splits)

lemma loadIndex_within:
  assumes "ports_within ports U N" and "manager_within U N mg"
  shows "manager_within U N (snd (loadIndex options ports r mg))"
proof (cases "mg_repositoryIndexes mg r")
  case NotLoaded
  have "models_within N (ix_models ix)" if "fst (fst (read_index options ports r mg)) = Some ix" for ix
    using read_index_decoded [OF that] assms(1) by (auto simp: ports_within_def)
  then show ?thesis using assms(2) NotLoaded
    by (auto simp: loadIndex_def manager_within_def Let_def split_def split: option.splits)
qed (use assms in \<open>simp_all add: loadIndex_def\<close>)

lemma loadSite_within:
  assumes "ports_within ports U N" and "manager_within U N mg"
  shows "manager_within U N (snd (loadSite options ports r mg))"
    and "fst (fst (loadSite options ports r mg)) = Some site \<Longrightarrow> site_within U r site"
proof -
  have read: "site_within U r s" if "fst (fst (read_site options ports r mg)) = Some s" for s
    using read_site_decoded [OF that] assms(1) by (auto simp: ports_within_def)
  show "manager_within U N (snd (loadSite options ports r mg))"
    using assms(2) read by (cases "mg_repositorySites mg r")
      (auto simp: loadSite_def manager_within_def Let_def split_def split: option.splits)
  show "site_within U r site" if "fst (fst (loadSite options ports r mg)) = Some site"
    using that assms(2) read by (cases "mg_repositorySites mg r")
      (auto simp: loadSite_def manager_within_def Let_def split_def split: if_splits)
qed

lemma reach_manager_le:
  "backend_reach (loadIndex options ports) (loadSite options ports) mg mg' \<Longrightarrow> manager_le ports mg mg'"
proof -
  assume reach: "backend_reach (loadIndex options ports) (loadSite options ports) mg mg'"
  have "mg_thrown mg' = Some e" if "mg_thrown mg = Some e" for e
    using reach that by (induction rule: backend_reach.induct) (simp_all add: load_thrown)
  moreover have "mg_repositoryIndexes mg' r = Available ix" if "mg_repositoryIndexes mg r = Available ix" for r ix
    using memory.reach_keeps [OF reach, of r "Some ix"] that by (auto simp: known_index_def split: LoadState.splits)
  moreover have "manager_within U N mg'" if "ports_within ports U N" "manager_within U N mg" for U N
    using reach that by (induction rule: backend_reach.induct) (simp_all add: loadIndex_within loadSite_within)
  ultimately show ?thesis by (simp add: manager_le_def)
qed

lemma announced_later: "announced l mg n m \<Longrightarrow> manager_le ports mg mg' \<Longrightarrow> announced l mg' n m"
  by (auto simp: announced_def manager_le_def)

lemma provided_later:
  "provided options ports l mg xs n \<Longrightarrow> manager_le ports mg mg' \<Longrightarrow> provided options ports l mg' (xs @ ys) n"
  by (auto simp: provided_def intro: announced_later)

lemma models_ok_later: "models_ok options ports l mg xs \<Longrightarrow> manager_le ports mg mg' \<Longrightarrow> models_ok options ports l mg' xs"
  using provided_later [of options ports l mg _ _ mg' "[]"] announced_later [of l mg _ _ ports mg']
  by (simp add: models_ok_def)

lemma models_ok_snoc:
  assumes "models_ok options ports l mg xs" and "rm_uri x \<notin> rm_uri ` set xs"
    and "file_of options ports (rm_metadata x) x" and "announced l mg (mm_name (rm_metadata x)) (rm_metadata x)"
    and "\<forall>d \<in> set (mm_dependencies (rm_metadata x)). provided options ports l mg xs d"
  shows "models_ok options ports l mg (xs @ [x])"
  using assms by (auto simp: models_ok_def nth_append less_Suc_eq)

lemma resolution_ok_report [simp]:
  "resolution_ok options ports l (rz_report ds st) = resolution_ok options ports l st"
  by (simp add: resolution_ok_def rz_report_def)

lemma resolution_ok_manager:
  assumes "resolution_ok options ports l st" and "manager_le ports (rz_manager st) mg"
  shows "resolution_ok options ports l (st\<lparr>rz_manager := mg\<rparr>)"
  using assms provided_later [of options ports l "rz_manager st" "rz_models st" _ mg "[]"]
  by (auto simp: resolution_ok_def intro: models_ok_later)

lemma resolution_le_report: "resolution_le ports st (rz_report ds st)"
  by (simp add: resolution_le_def rz_report_def)

lemma rz_report_frame [simp]:
  "rz_stack (rz_report ds st) = rz_stack st"
  "rz_resolvedModels (rz_report ds st) = rz_resolvedModels st"
  "rz_models (rz_report ds st) = rz_models st"
  "rz_manager (rz_report ds st) = rz_manager st"
  "rz_emittedFileChecksums (rz_report ds st) = rz_emittedFileChecksums st"
  by (simp_all add: rz_report_def)

lemma resolution_le_manager:
  "manager_le ports (rz_manager st) mg \<Longrightarrow> resolution_le ports st (rz_report ds (st\<lparr>rz_manager := mg\<rparr>))"
  by (simp add: resolution_le_def rz_report_def)

lemma rz_error_steps [simp]:
  "fst (rz_error code message st) = False"
  "resolution_ok options ports l (snd (rz_error code message st)) = resolution_ok options ports l st"
  "rz_stack (snd (rz_error code message st)) = rz_stack st"
  "rz_resolvedModels (snd (rz_error code message st)) = rz_resolvedModels st"
  "failed (snd (rz_error code message st))"
  "resolution_le ports st (snd (rz_error code message st))"
  by (simp_all add: rz_error_def resolution_le_report failed_def)
     (simp_all add: rz_report_def hasErrors_def repositoryDiagnostic_def)

lemma findModel_announced:
  assumes "findModel (loadIndex options ports) (loadSite options ports) seeds n l mg = Some (res, mg')"
    and "lr_metadata res = Some m"
  shows "announced l mg' n m"
proof -
  obtain r where "offered (loadIndex options ports) (loadSite options ports) n l mg mg' r (Some m)"
    using findModel_result(3) [OF assms] by blast
  then obtain v where "known_index r mg' = Some v" "Some m = Option.bind v (\<lambda>ix. index_offer ix n l)"
    by (rule memory.offered_known)
  then show ?thesis unfolding announced_def known_index_def
    by (cases v; cases "mg_repositoryIndexes mg' r") (auto intro!: exI [of _ r])
qed

lemma look_up_steps:
  assumes "look_up options ports name l st = Some (found, st')" and "resolution_ok options ports l st"
  shows "resolution_ok options ports l st' \<and> resolution_le ports st st' \<and> rz_stack st' = rz_stack st
    \<and> rz_resolvedModels st' = rz_resolvedModels st
    \<and> (case found of None \<Rightarrow> failed st' | Some m \<Rightarrow> mm_name m = name \<and> announced l (rz_manager st') name m)"
proof -
  obtain res mg where f: "findModel (loadIndex options ports) (loadSite options ports) (ro_repositories options)
      name l (rz_manager st) = Some (res, mg)"
    using assms(1) by (auto simp: look_up_def split: option.splits)
  have le: "manager_le ports (rz_manager st) mg" using findModel_result(1) [OF f] by (rule reach_manager_le)
  let ?st = "rz_report (lr_diagnostics res) (st\<lparr>rz_manager := mg\<rparr>)"
  have steps: "resolution_ok options ports l ?st" "resolution_le ports st ?st" "rz_stack ?st = rz_stack st"
    "rz_resolvedModels ?st = rz_resolvedModels st" "rz_manager ?st = mg"
    using assms(2) le by (auto intro: resolution_ok_manager resolution_le_manager)
  show ?thesis
  proof (cases "lr_metadata res")
    case None
    then have "found = None \<and> (\<exists>c m. st' = snd (rz_error c m ?st))"
      using assms(1) f by (auto simp: look_up_def Let_def)
    then show ?thesis using steps resolution_le_trans by fastforce
  next
    case (Some m)
    then have found: "found = Some m" "st' = ?st" using assms(1) f by (auto simp: look_up_def Let_def)
    have "mm_name m = name" "announced l mg name m"
      using findModel_result(3) [OF f Some] findModel_announced [OF f Some] by simp_all
    then show ?thesis using found steps by simp
  qed
qed

lemma emitted_model:
  assumes "resolution_ok options ports l st" and "rz_emittedFileChecksums st u = Some c"
  obtains x where "x \<in> set (rz_models st)" and "rm_uri x = u" and "c = port_md5 ports (rm_content x)"
  using assms map_of_SomeD [of "map (\<lambda>x. (rm_uri x, port_md5 ports (rm_content x))) (rz_models st)" u c]
  by (auto simp: resolution_ok_def)

lemma not_emitted:
  "resolution_ok options ports l st \<Longrightarrow> rz_emittedFileChecksums st u = None \<Longrightarrow> u \<notin> rm_uri ` set (rz_models st)"
  by (auto simp: resolution_ok_def map_of_eq_None_iff image_image)

lemma loadModel_checksum:
  "loadModel options ports uri expected w = (r, w') \<Longrightarrow> rs_success r \<Longrightarrow> checksum_ok options ports expected (rs_content r)"
  by (erule loadModel_cases) auto

text \<open>The premises under which a model is fetched.\<close>

definition fetchable :: "RepositoryOptions \<Rightarrow> 'w RepositoryPorts \<Rightarrow> string \<Rightarrow> ModelMetadata \<Rightarrow> 'w resolution \<Rightarrow> bool" where
  "fetchable options ports l m st \<longleftrightarrow> resolution_ok options ports l st
     \<and> announced l (rz_manager st) (mm_name m) m
     \<and> (\<forall>d \<in> set (mm_dependencies m). provided options ports l (rz_manager st) (rz_models st) d)"

text \<open>What a fetch establishes.\<close>

definition fetched ::
  "RepositoryOptions \<Rightarrow> 'w RepositoryPorts \<Rightarrow> string \<Rightarrow> ModelMetadata \<Rightarrow> 'w resolution \<Rightarrow> bool \<times> 'w resolution \<Rightarrow> bool" where
  "fetched options ports l m st r \<longleftrightarrow> resolution_ok options ports l (snd r) \<and> resolution_le ports st (snd r)
     \<and> rz_stack (snd r) = rz_stack st \<and> rz_resolvedModels (snd r) = rz_resolvedModels st
     \<and> (if fst r then \<exists>x \<in> set (rz_models (snd r)). file_of options ports m x else failed (snd r))"

lemma fetched_error:
  "resolution_ok options ports l st' \<Longrightarrow> resolution_le ports st st' \<Longrightarrow> rz_stack st' = rz_stack st
    \<Longrightarrow> rz_resolvedModels st' = rz_resolvedModels st \<Longrightarrow> fetched options ports l m st (rz_error code message st')"
  unfolding fetched_def
  by (auto intro: resolution_le_trans)

lemma emit_model_steps:
  assumes "fetchable options ports l m st" and "model_uri m = Some uri"
  shows "fetched options ports l m st (emit_model options ports m uri st)"
proof (cases "rz_emittedFileChecksums st (ru_normalized uri)")
  case (Some c)
  then obtain x where x: "x \<in> set (rz_models st)" "rm_uri x = ru_normalized uri" "c = port_md5 ports (rm_content x)"
    using assms(1) emitted_model by (metis fetchable_def)
  show ?thesis
  proof (cases "checksum_ok options ports (mm_md5 m) (rm_content x)")
    case True
    then have "file_of options ports m x" using x assms(2) by (simp add: file_of_def)
    moreover have "emit_model options ports m uri st = (True, st)"
      using True Some x by (auto simp: emit_model_def checksum_ok_def)
    ultimately show ?thesis using assms(1) x by (auto simp: fetched_def fetchable_def)
  next
    case False
    then have "\<exists>code message. emit_model options ports m uri st = rz_error code message st"
      using Some x by (auto simp: emit_model_def checksum_ok_def)
    then show ?thesis using assms(1) fetched_error by (force simp: fetchable_def)
  qed
next
  case None
  obtain r w where r: "loadModel options ports uri (mm_md5 m) (mg_world (rz_manager st)) = (r, w)" by fastforce
  let ?mg = "(rz_manager st)\<lparr>mg_world := w\<rparr>"
  let ?st = "rz_report (appendResourceWarnings r ''ILIC-REPO-CACHE'') (st\<lparr>rz_manager := ?mg\<rparr>)"
  have le: "resolution_le ports st ?st" by (simp add: resolution_le_manager)
  have ok: "resolution_ok options ports l ?st"
    using assms(1) by (auto simp: fetchable_def intro: resolution_ok_manager)
  have frame: "rz_stack ?st = rz_stack st" "rz_resolvedModels ?st = rz_resolvedModels st" "rz_models ?st = rz_models st"
    "rz_manager ?st = ?mg" "rz_emittedFileChecksums ?st = rz_emittedFileChecksums st"
    by simp_all
  show ?thesis
  proof (cases "rs_success r")
    case False
    then have "\<exists>code message. emit_model options ports m uri st = rz_error code message ?st"
      using None r by (auto simp: emit_model_def Let_def)
    then show ?thesis using fetched_error [OF ok le frame(1,2)] by auto
  next
    case True
    let ?x = "\<lparr>rm_metadata = m, rm_uri = ru_normalized uri, rm_localPath = rs_localPath r, rm_content = rs_content r,
      rm_fromCache = rs_fromCache r, rm_stale = rs_stale r\<rparr>"
    have its: "file_of options ports m ?x"
      using loadModel_checksum [OF r True] assms(2) by (simp add: file_of_def)
    let ?new = "?st\<lparr>rz_emittedFileChecksums := (rz_emittedFileChecksums ?st)(ru_normalized uri \<mapsto> port_md5 ports (rs_content r)),
      rz_models := rz_models ?st @ [?x]\<rparr>"
    have emit: "emit_model options ports m uri st = (True, ?new)" using None r True by (simp add: emit_model_def Let_def)
    have fresh: "ru_normalized uri \<notin> rm_uri ` set (rz_models st)"
      using not_emitted [OF _ None] assms(1) unfolding fetchable_def by blast
    have "models_ok options ports l ?mg (rz_models st @ [?x])"
      using ok frame its fresh assms(1) provided_later [of options ports l "rz_manager st" "rz_models st" _ ?mg "[]"]
      by (intro models_ok_snoc) (auto simp: resolution_ok_def fetchable_def intro: announced_later)
    moreover have "provided options ports l ?mg (rz_models st @ [?x]) n" if "n \<in> rz_resolvedModels st" for n
      using that ok frame by (auto simp: resolution_ok_def intro: provided_later)
    ultimately have "resolution_ok options ports l ?new"
      using ok frame None fresh by (auto simp: resolution_ok_def map_add_def fun_eq_iff split: option.split)
    moreover have "resolution_le ports st ?new"
      using le frame by (auto simp: resolution_le_def)
    ultimately show ?thesis using emit frame its by (auto simp: fetched_def)
  qed
qed

lemma fetch_model_steps:
  assumes "fetchable options ports l m st"
  shows "fetched options ports l m st (fetch_model options ports cwd m st)"
proof (cases "model_uri m")
  case None
  then have "(\<exists>code message. fetch_model options ports cwd m st = rz_error code message st)
      \<or> (\<exists>e. fetch_model options ports cwd m st = (False, st\<lparr>rz_manager := mg_throw e (rz_manager st)\<rparr>))"
    by (auto simp: fetch_model_def model_uri_def Let_def split: sum.splits if_splits)
  moreover have "fetched options ports l m st (False, st\<lparr>rz_manager := mg_throw e (rz_manager st)\<rparr>)" for e
    using assms by (auto simp: fetched_def fetchable_def failed_def resolution_le_def intro: resolution_ok_manager)
  ultimately show ?thesis using assms fetched_error [of options ports l st st] by (auto simp: fetchable_def)
next
  case (Some uri)
  then have "(\<exists>code message. fetch_model options ports cwd m st = rz_error code message st)
      \<or> fetch_model options ports cwd m st = emit_model options ports m uri st"
    by (auto simp: fetch_model_def model_uri_def Let_def split: sum.splits if_splits)
  then show ?thesis
    using assms fetched_error [of options ports l st st] emit_model_steps [OF assms Some] by (auto simp: fetchable_def)
qed

lemma push_pop_steps:
  "resolution_ok options ports l (st\<lparr>rz_stack := s\<rparr>) = resolution_ok options ports l st"
  "resolution_ok options ports l (pop_stack st) = resolution_ok options ports l st"
  "resolution_le ports (st\<lparr>rz_stack := s\<rparr>) st' = resolution_le ports st st'"
  "resolution_le ports st (pop_stack st') = resolution_le ports st st'"
  "failed (pop_stack st) = failed st"
  "rz_resolvedModels (pop_stack st) = rz_resolvedModels st"
  by (simp_all add: resolution_ok_def resolution_le_def pop_stack_def failed_def)

text \<open>What one step of a resolution establishes for a list of names.\<close>

definition resolved_names ::
  "RepositoryOptions \<Rightarrow> 'w RepositoryPorts \<Rightarrow> string \<Rightarrow> string set \<Rightarrow> 'w resolution \<Rightarrow> bool \<times> 'w resolution \<Rightarrow> bool" where
  "resolved_names options ports l names st r \<longleftrightarrow> resolution_ok options ports l (snd r) \<and> resolution_le ports st (snd r)
     \<and> rz_stack (snd r) = rz_stack st
     \<and> (if fst r then names \<subseteq> insert ''INTERLIS'' (rz_resolvedModels (snd r)) else failed (snd r))"

lemma resolve_name_steps:
  assumes look: "look_up options ports name l (st\<lparr>rz_stack := rz_stack st @ [name]\<rparr>) = Some (Some m, st1)"
    and deps: "resolved_names options ports l (set (mm_dependencies m)) st1 (True, st2)"
    and ok: "resolution_ok options ports l st"
    and fetch: "fetch_model options ports cwd m st2 = (b, st3)"
  shows "resolved_names options ports l {name} st
    (if b then (True, pop_stack (st3\<lparr>rz_resolvedModels := insert name (rz_resolvedModels st3)\<rparr>)) else (False, pop_stack st3))"
proof -
  have 1: "resolution_le ports st st1" "rz_stack st1 = rz_stack st @ [name]" "mm_name m = name"
      "announced l (rz_manager st1) name m"
    using look_up_steps [OF look] ok by (simp_all add: push_pop_steps)
  have 2: "resolution_ok options ports l st2" "resolution_le ports st1 st2" "rz_stack st2 = rz_stack st1"
      "set (mm_dependencies m) \<subseteq> insert ''INTERLIS'' (rz_resolvedModels st2)"
    using deps by (simp_all add: resolved_names_def)
  have announced: "announced l (rz_manager st2) name m"
    using 1(4) 2(2) by (auto simp: resolution_le_def intro: announced_later)
  have "fetchable options ports l m st2"
    using 1(3) 2(1,4) announced by (auto simp: fetchable_def resolution_ok_def provided_def)
  from fetch_model_steps [OF this, of cwd] have f: "fetched options ports l m st2 (b, st3)" by (simp add: fetch)
  have le: "resolution_le ports st st3" using f 1(1) 2(2) by (auto simp: fetched_def intro: resolution_le_trans)
  have "provided options ports l (rz_manager st3) (rz_models st3) name" if b
    using f announced that by (auto simp: fetched_def provided_def resolution_le_def intro: announced_later)
  with f le 1(2) 2(3) show ?thesis
    by (auto simp: resolved_names_def fetched_def push_pop_steps)
       (auto simp: resolution_ok_def resolution_le_def pop_stack_def)
qed

lemma resolve_steps:
  "resolveOne fuel options ports cwd l name st = Some r \<Longrightarrow> resolution_ok options ports l st
    \<Longrightarrow> resolved_names options ports l {name} st r"
  "resolve_dependencies fuel options ports cwd l names ok st = Some r' \<Longrightarrow> resolution_ok options ports l st
    \<Longrightarrow> (\<not> ok \<Longrightarrow> failed st)
    \<Longrightarrow> resolved_names options ports l (set names) st r' \<and> (fst r' \<longrightarrow> ok)"
proof (induction fuel options ports cwd l name st and fuel options ports cwd l names ok st arbitrary: r and r'
    rule: resolveOne_resolve_dependencies.induct)
  case (1 fuel options ports cwd l name st)
  show ?case
  proof (cases "name = ''INTERLIS'' \<or> name \<in> rz_resolvedModels st \<or> name \<in> set (rz_stack st)")
    case True
    then show ?thesis using 1(2,3) by (auto simp: resolveOne.simps resolved_names_def split: if_splits)
  next
    case False
    let ?st = "st\<lparr>rz_stack := rz_stack st @ [name]\<rparr>"
    obtain n found st1 where n: "fuel = Suc n" and look: "look_up options ports name l ?st = Some (found, st1)"
      using 1(2) False by (auto simp: resolveOne.simps split: nat.splits option.splits)
    note steps = look_up_steps [OF look] 
    show ?thesis
    proof (cases found)
      case None
      then have "r = (False, pop_stack st1)" using 1(2) False n look by (simp add: resolveOne.simps)
      then show ?thesis using steps None 1(3)
        by (simp add: resolved_names_def push_pop_steps) (simp add: pop_stack_def)
    next
      case (Some m)
      obtain b st2 where deps: "resolve_dependencies n options ports cwd l (mm_dependencies m) True st1 = Some (b, st2)"
        using 1(2) False n look Some by (auto simp: resolveOne.simps split: option.splits)
      have "resolution_ok options ports l st1" using steps 1(3) by (simp add: push_pop_steps)
      with 1(1) False n look Some deps
      have names: "resolved_names options ports l (set (mm_dependencies m)) st1 (b, st2)" by auto
      show ?thesis
      proof (cases b)
        case False
        then have "r = (False, pop_stack st2)"
          using 1(2) \<open>\<not> (name = ''INTERLIS'' \<or> _)\<close> n look Some deps by (simp add: resolveOne.simps)
        then show ?thesis using names steps Some False 1(3)
          by (auto simp: resolved_names_def push_pop_steps intro: resolution_le_trans) (simp add: pop_stack_def)
      next
        case True
        obtain c st3 where fetch: "fetch_model options ports cwd m st2 = (c, st3)" by fastforce
        have "r = (if c then (True, pop_stack (st3\<lparr>rz_resolvedModels := insert name (rz_resolvedModels st3)\<rparr>))
            else (False, pop_stack st3))"
          using 1(2) \<open>\<not> (name = ''INTERLIS'' \<or> _)\<close> n look Some deps True fetch by (auto simp: resolveOne.simps)
        then show ?thesis using resolve_name_steps [OF look [unfolded Some] _ 1(3) fetch] names True by simp
      qed
    qed
  qed
next
  case (3 fuel options ports cwd l name names ok st)
  obtain b st1 where one: "resolveOne fuel options ports cwd l name st = Some (b, st1)"
    using 3(3) by (auto split: option.splits)
  have first: "resolved_names options ports l {name} st (b, st1)" using 3(1) [OF one 3(4)] .
  have "failed st1" if "\<not> (b \<and> ok)"
    using that first 3(5) failed_later by (auto simp: resolved_names_def split: if_splits)
  moreover have rest: "resolve_dependencies fuel options ports cwd l names (b \<and> ok) st1 = Some r'" using 3(3) one by simp
  moreover have "resolution_ok options ports l st1" using first by (simp add: resolved_names_def)
  ultimately have "resolved_names options ports l (set names) st1 r' \<and> (fst r' \<longrightarrow> b \<and> ok)"
    using 3(2) [OF one refl rest] by blast
  then show ?case using first
    by (auto simp: resolved_names_def resolution_le_def split: if_splits intro: manager_le_trans)
qed (auto simp: resolved_names_def)

lemma initial_resolution_ok [simp]: "resolution_ok options ports l (initial_resolution mg)"
  by (simp add: resolution_ok_def initial_resolution_def models_ok_def)

lemma initial_resolution_simps [simp]:
  "rz_stack (initial_resolution mg) = []" "rz_resolvedModels (initial_resolution mg) = {}"
  "rz_emittedFileChecksums (initial_resolution mg) = Map.empty" "rz_diagnostics (initial_resolution mg) = []"
  "rz_manager (initial_resolution mg) = mg"
  by (simp_all add: initial_resolution_def)

text \<open>C4. Resolving models: the returned files have different URIs, each is the file its metadata
  names in its repository and has the checksum the metadata asks for, the metadata is the latest
  version announced by an index the manager holds, and every dependency of a file is provided by a
  file before it. The result is a success exactly when no error is reported, and then every
  requested model is provided.\<close>

theorem resolution_sound:
  assumes "manager_resolve fuel options ports cwd requested l mg = Some (Inr (res, mg'))"
  shows "models_ok options ports l mg' (rr_models res)
    \<and> (rr_success res \<longleftrightarrow> \<not> hasErrors (rr_diagnostics res))
    \<and> (rr_success res \<longrightarrow> (\<forall>name \<in> set requested. provided options ports l mg' (rr_models res) name))"
proof -
  obtain ok st where d: "resolve_dependencies fuel options ports cwd l requested True (initial_resolution mg) = Some (ok, st)"
    and st: "mg_thrown (rz_manager st) = None" "mg' = rz_manager st"
      "res = \<lparr>rr_success = (ok \<and> \<not> hasErrors (rz_diagnostics st)), rr_models = rz_models st,
        rr_diagnostics = rz_diagnostics st\<rparr>"
    using assms by (auto simp: manager_resolve_def split: option.splits)
  from resolve_steps(2) [OF d] have r: "resolved_names options ports l (set requested) (initial_resolution mg) (ok, st)"
    by simp
  have "provided options ports l mg' (rz_models st) name" if ok "name \<in> set requested" for name
    using r that st(2) by (auto simp: resolved_names_def resolution_ok_def provided_def)
  with r st show ?thesis by (auto simp: resolved_names_def failed_def resolution_ok_def split: if_splits)
qed

subsection \<open>Resolutions end\<close>

lemma manager_links_within:
  "ports_within ports U N \<Longrightarrow> links_within (loadIndex options ports) (loadSite options ports) (manager_within U N) U"
  unfolding links_within_def site_within_def [symmetric] by (blast intro: loadIndex_within loadSite_within)

lemma announced_within:
  assumes "announced l mg name m" and "manager_within U N mg" and "name \<in> N"
  shows "set (mm_dependencies m) \<subseteq> N"
proof -
  obtain r ix i where "mg_repositoryIndexes mg r = Available ix" "m = ix_models ix ! i"
    "vs_model (selectLatestVersion (ix_models ix) name l) = Some i"
    using assms(1) by (auto simp: announced_def index_offer_def)
  with selected_model [of "ix_models ix" name l i] assms(2,3) nth_mem [of i "ix_models ix"] show ?thesis
    by (fastforce simp: manager_within_def models_within_def)
qed

lemma resolve_dependencies_total:
  assumes "ports_within ports U N"
    and single: "\<And>name st. resolution_ok options ports l st \<Longrightarrow> manager_within U N (rz_manager st) \<Longrightarrow> name \<in> N
      \<Longrightarrow> card (N - set (rz_stack st)) \<le> fuel \<Longrightarrow> \<exists>r. resolveOne fuel options ports cwd l name st = Some r"
  shows "resolution_ok options ports l st \<Longrightarrow> manager_within U N (rz_manager st) \<Longrightarrow> set names \<subseteq> N
      \<Longrightarrow> card (N - set (rz_stack st)) \<le> fuel
      \<Longrightarrow> \<exists>r. resolve_dependencies fuel options ports cwd l names ok st = Some r"
proof (induction names arbitrary: ok st)
  case (Cons name names)
  obtain b st1 where one: "resolveOne fuel options ports cwd l name st = Some (b, st1)"
    using single [OF Cons.prems(1,2) _ Cons.prems(4), of name] Cons.prems(3) by auto
  from resolve_steps(1) [OF one Cons.prems(1)] assms(1) Cons.prems(2)
  have "resolution_ok options ports l st1" "rz_stack st1 = rz_stack st" "manager_within U N (rz_manager st1)"
    by (simp_all add: resolved_names_def resolution_le_def manager_le_def)
  with Cons.IH [of st1 "b \<and> ok"] Cons.prems one show ?case by simp
qed simp

lemma resolveOne_total:
  assumes "finite U" and "finite N" and ports: "ports_within ports U N"
  shows "resolution_ok options ports l st \<Longrightarrow> manager_within U N (rz_manager st) \<Longrightarrow> name \<in> N
      \<Longrightarrow> card (N - set (rz_stack st)) \<le> fuel \<Longrightarrow> \<exists>r. resolveOne fuel options ports cwd l name st = Some r"
proof (induction fuel arbitrary: name st)
  case 0
  then have "name \<in> set (rz_stack st)" using assms(2) by auto
  then show ?case by (cases "rz_error code message st") (auto simp: resolveOne.simps)
next
  case (Suc n)
  show ?case
  proof (cases "name = ''INTERLIS'' \<or> name \<in> rz_resolvedModels st \<or> name \<in> set (rz_stack st)")
    case True
    then show ?thesis by (auto simp: resolveOne.simps)
  next
    case new: False
    let ?st = "st\<lparr>rz_stack := rz_stack st @ [name]\<rparr>"
    have "look_up options ports name l ?st \<noteq> None"
      using findModel_total [OF assms(1) manager_links_within [OF ports] Suc.prems(2),
        of options "ro_repositories options" name l] by (auto simp: look_up_def Let_def)
    then obtain found st1 where look: "look_up options ports name l ?st = Some (found, st1)"
      by (metis not_None_eq surj_pair)
    have steps: "resolution_ok options ports l st1" "rz_stack st1 = rz_stack st @ [name]" "resolution_le ports st st1"
      using look_up_steps [OF look] Suc.prems(1) by (simp_all add: push_pop_steps)
    have within: "manager_within U N (rz_manager st1)"
      using steps(3) ports Suc.prems(2) by (simp add: resolution_le_def manager_le_def)
    show ?thesis
    proof (cases found)
      case None
      then have "resolveOne (Suc n) options ports cwd l name st = Some (False, pop_stack st1)"
        using new look by (simp add: resolveOne.simps)
      then show ?thesis by blast
    next
      case (Some m)
      have "card (N - set (rz_stack st1)) < card (N - set (rz_stack st))"
        using assms(2) new Suc.prems(3) steps(2) by (intro psubset_card_mono) auto
      then have "card (N - set (rz_stack st1)) \<le> n" using Suc.prems(4) by simp
      moreover have "set (mm_dependencies m) \<subseteq> N"
        using look_up_steps [OF look] Suc.prems(1,3) Some within by (auto simp: push_pop_steps dest: announced_within)
      ultimately obtain b st2 where "resolve_dependencies n options ports cwd l (mm_dependencies m) True st1 = Some (b, st2)"
        using resolve_dependencies_total [OF ports Suc.IH steps(1) within, of "mm_dependencies m" True] by auto
      then show ?thesis using new look Some by (auto simp: resolveOne.simps split_def Let_def)
    qed
  qed
qed

text \<open>Fuel only decides whether there is a result.\<close>

lemma resolve_more_fuel:
  "resolveOne fuel options ports cwd l name st = Some r \<Longrightarrow> resolveOne (Suc fuel) options ports cwd l name st = Some r"
  "resolve_dependencies fuel options ports cwd l names ok st = Some r
    \<Longrightarrow> resolve_dependencies (Suc fuel) options ports cwd l names ok st = Some r"
proof (induction fuel options ports cwd l name st and fuel options ports cwd l names ok st arbitrary: r and r
    rule: resolveOne_resolve_dependencies.induct)
  case (1 fuel options ports cwd l name st)
  show ?case
  proof (cases "name = ''INTERLIS'' \<or> name \<in> rz_resolvedModels st \<or> name \<in> set (rz_stack st)")
    case True
    then show ?thesis using 1(2) by (auto simp: resolveOne.simps)
  next
    case False
    then obtain n found st1 where "fuel = Suc n"
      "look_up options ports name l (st\<lparr>rz_stack := rz_stack st @ [name]\<rparr>) = Some (found, st1)"
      using 1(2) by (auto simp: resolveOne.simps split: nat.splits option.splits)
    with False 1 show ?thesis
      by (cases found) (auto simp: resolveOne.simps split: option.splits)
  qed
qed (auto split: option.splits)


definition example_decoded :: ModelMetadata where
  "example_decoded = (example_metadata ''1'' [])\<lparr>mm_file := ''M.ili'', mm_repository := ''http://h'',
     mm_md5 := ''MODEL'', mm_dependencies := [''INTERLIS'']\<rparr>"

definition resolution_ports :: "unit RepositoryPorts" where
  "resolution_ports = example_ports\<lparr>port_get := (\<lambda>_ w. (\<lparr>cl_hit = False,
       cl_entry = \<lparr>ce_value = [], ce_storedAt = 0\<rparr>, cl_error = []\<rparr>, w)),
     port_decodeModelIndex := (\<lambda>_ _. ([example_decoded], []))\<rparr>"

definition resolution_options :: RepositoryOptions where
  "resolution_options = example_options\<lparr>ro_repositories := [''http://h'']\<rparr>"

lemma example_names:
  "normalizeSeeds [''http://h''] = ([''http://h''], [])"
  "uri_parse ''http://h'' = Inr \<lparr>ru_kind = Http, ru_original = ''http://h'', ru_normalized = ''http://h'', ru_localPath = []\<rparr>"
  "uri_resolve \<lparr>ru_kind = Http, ru_original = ''http://h'', ru_normalized = ''http://h'', ru_localPath = []\<rparr> ''ilimodels.xml''
     = Inr \<lparr>ru_kind = Http, ru_original = ''http://h/ilimodels.xml'', ru_normalized = ''http://h/ilimodels.xml'', ru_localPath = []\<rparr>"
  "uri_resolve \<lparr>ru_kind = Http, ru_original = ''http://h'', ru_normalized = ''http://h'', ru_localPath = []\<rparr> ''M.ili''
     = Inr \<lparr>ru_kind = Http, ru_original = ''http://h/M.ili'', ru_normalized = ''http://h/M.ili'', ru_localPath = []\<rparr>"
  "validateRepositoryRelativePath ''M.ili'' = \<lparr>rv_valid = True, rv_normalized = ''M.ili'', rv_error = []\<rparr>"
  "selectLatestVersion [example_decoded] ''M'' ''ili2_3'' = \<lparr>vs_model = Some 0, vs_diagnostics = []\<rparr>"
  by code_simp+

lemma example_decoded_simps:
  "mm_file example_decoded = ''M.ili''" "mm_repository example_decoded = ''http://h''"
  "mm_md5 example_decoded = ''MODEL''" "mm_dependencies example_decoded = [''INTERLIS'']"
  "mm_name example_decoded = ''M''"
  by (simp_all add: example_decoded_def example_metadata_def)

lemma example_lookup:
  "look_up resolution_options resolution_ports ''M'' ''ili2_3'' ((initial_resolution (initial_manager ()))\<lparr>rz_stack := [''M'']\<rparr>)
   = Some (Some example_decoded, (initial_resolution ((initial_manager ())\<lparr>mg_repositoryIndexes :=
       (\<lambda>_. NotLoaded)(''http://h'' := Available \<lparr>ix_repository = ''http://h'', ix_models = [example_decoded]\<rparr>)\<rparr>))
       \<lparr>rz_stack := [''M'']\<rparr>)"
  by (simp add: look_up_def findModel_def resolution_options_def example_options_def example_names initial_crawl_def
      visit_find_def load_index_def loadIndex_def read_index_def loader_load_def cache_lookup_def download_def
      transport_get_def cache_store_def resolution_ports_def example_ports_def example_response_def isRemote_def
      default_lookup_def empty_resource_def appendResourceWarnings_def initial_manager_def initial_resolution_def
      lookup_result_def rz_report_def)

lemma example_fetch:
  assumes "rz_emittedFileChecksums st = Map.empty"
  shows "\<exists>st'. fetch_model resolution_options resolution_ports ''/'' example_decoded st = (True, st')
    \<and> rz_diagnostics st' = rz_diagnostics st \<and> rz_manager st' = rz_manager st"
  using assms
  by (simp add: fetch_model_def emit_model_def example_decoded_simps example_names isRemote_def loadModel_def
      loader_load_def cache_lookup_def download_def transport_get_def cache_store_def resolution_ports_def
      example_ports_def example_response_def resolution_options_def example_options_def default_lookup_def
      empty_resource_def appendResourceWarnings_def rz_report_def lower_def)

theorem resolution_sound_witness:
  "\<exists>res mg'. manager_resolve 1 resolution_options resolution_ports ''/'' [''M''] ''ili2_3'' (initial_manager ()) = Some (Inr (res, mg'))
     \<and> rr_success res \<and> models_ok resolution_options resolution_ports ''ili2_3'' mg' (rr_models res)
     \<and> provided resolution_options resolution_ports ''ili2_3'' mg' (rr_models res) ''M''"
proof -
  let ?st = "(initial_resolution ((initial_manager ())\<lparr>mg_repositoryIndexes := (\<lambda>_. NotLoaded)
       (''http://h'' := Available \<lparr>ix_repository = ''http://h'', ix_models = [example_decoded]\<rparr>)\<rparr>))\<lparr>rz_stack := [''M'']\<rparr>"
  obtain st' where f: "fetch_model resolution_options resolution_ports ''/'' example_decoded ?st = (True, st')"
    "rz_diagnostics st' = []" "mg_thrown (rz_manager st') = None"
    using example_fetch [of ?st] by (auto simp: initial_manager_def)
  then obtain res mg' where r: "manager_resolve 1 resolution_options resolution_ports ''/'' [''M''] ''ili2_3'' (initial_manager ())
      = Some (Inr (res, mg'))" "rr_success res"
    by (simp add: manager_resolve_def resolveOne.simps [of "Suc 0" _ _ _ _ "''M''"] resolveOne.simps [of 0 _ _ _ _ "''INTERLIS''"]
        example_lookup example_decoded_simps pop_stack_def hasErrors_def)
  with resolution_sound [OF r(1)] show ?thesis by auto
qed


text \<open>One view of every repository: whatever a search of the manager answers stays true of its
  memory. An index that was asked for is not read again, and later calls return it without a
  diagnostic and without touching the ports; a found model is announced by an index in the memory;
  when no model was found, every seed repository has an answer in the memory, and it offers none.\<close>

lemma repository_view_stable:
  assumes "findModel (loadIndex options ports) (loadSite options ports) seeds n l mg = Some (res, mg')"
  shows "(\<forall>m. lr_metadata res = Some m \<longrightarrow> announced l mg' n m)
    \<and> (\<not> lr_found res \<longrightarrow> (\<forall>seed \<in> set (fst (normalizeSeeds seeds)). known_index seed mg' \<noteq> None
         \<and> offer (loadIndex options ports) n l seed mg' = None))
    \<and> (\<forall>r v. known_index r mg' = Some v \<longrightarrow> loadIndex options ports r mg' = ((v, []), mg'))
    \<and> (\<forall>r v. known_index r mg = Some v \<longrightarrow> known_index r mg' = Some v)"
proof (intro conjI allI impI ballI)
  show "announced l mg' n m" if "lr_metadata res = Some m" for m
    using assms that by (rule findModel_announced)
  show "known_index seed mg' \<noteq> None" "offer (loadIndex options ports) n l seed mg' = None"
    if "\<not> lr_found res" "seed \<in> set (fst (normalizeSeeds seeds))" for seed
    using findModel_result(4) [OF assms that] by (auto elim: memory.offered_known memory.offered_stays)
  show "loadIndex options ports r mg' = ((v, []), mg')" if "known_index r mg' = Some v" for r v
    using that by (rule memory.hit)
  show "known_index r mg' = Some v" if "known_index r mg = Some v" for r v
    using findModel_result(1) [OF assms] that by (rule memory.reach_keeps)
qed

lemma repository_view_stable_witness:
  "\<exists>res mg'. findModel (loadIndex resolution_options resolution_ports) (loadSite resolution_options resolution_ports)
       [''http://h''] ''M'' ''ili2_3'' (initial_manager ()) = Some (res, mg')
     \<and> announced ''ili2_3'' mg' ''M'' example_decoded"
proof -
  obtain res mg' where r: "findModel (loadIndex resolution_options resolution_ports) (loadSite resolution_options resolution_ports)
       [''http://h''] ''M'' ''ili2_3'' (initial_manager ()) = Some (res, mg')" "lr_metadata res = Some example_decoded"
    using example_lookup
    by (auto simp: look_up_def resolution_options_def example_options_def Let_def split: option.splits)
  with repository_view_stable [OF r(1)] show ?thesis by blast
qed

end
