(* ===== verification/Json.thy ===== *)
theory Json
  imports Ilic_Text
begin

section \<open>JSON text of the C interface\<close>

text \<open>
  source/abi/Json.cpp and Json.h: the value type, the parser and the printer. The parser's
  position in the text is the part of the text that is left; with the length of the text it gives
  the byte that an error names. An exception is a message on the left. The type of
  numbers and its conversions are an argument: \<open>std::stod\<close>, the test for an integer within
  long long with the cast to it, output with fifteen digits, and the casts from the integer
  types and to int. A std::map is an ordered
  association list.

  Every call of the parser consumes fuel; the fuel that \<open>json_parse\<close> starts with is shown to be
  enough for every text. Printing and parsing a value gives the value back when its numbers print as integers
  that the number conversion reads back.
\<close>

datatype 'd Value =
    JNull
  | JBool bool
  | JNumber 'd
  | JString string
  | JArray "'d Value list"
  | JObject "(string, 'd Value) omap"

record 'd number_format =
  nf_stod :: "string \<Rightarrow> string + 'd"
  nf_integer :: "'d \<Rightarrow> int option"
  nf_print :: "'d \<Rightarrow> string"
  nf_of_int :: "int \<Rightarrow> 'd"
  nf_to_int :: "'d \<Rightarrow> int"

abbreviation quote_char :: char where
  "quote_char \<equiv> CHR 0x22"

abbreviation backslash :: char where
  "backslash \<equiv> CHR 0x5C"

subsection \<open>Access to values\<close>

definition isNull :: "'d Value \<Rightarrow> bool" where
  "isNull v \<longleftrightarrow> (case v of JNull \<Rightarrow> True | _ \<Rightarrow> False)"

definition isBool :: "'d Value \<Rightarrow> bool" where
  "isBool v \<longleftrightarrow> (case v of JBool _ \<Rightarrow> True | _ \<Rightarrow> False)"

definition isNumber :: "'d Value \<Rightarrow> bool" where
  "isNumber v \<longleftrightarrow> (case v of JNumber _ \<Rightarrow> True | _ \<Rightarrow> False)"

definition isString :: "'d Value \<Rightarrow> bool" where
  "isString v \<longleftrightarrow> (case v of JString _ \<Rightarrow> True | _ \<Rightarrow> False)"

definition isArray :: "'d Value \<Rightarrow> bool" where
  "isArray v \<longleftrightarrow> (case v of JArray _ \<Rightarrow> True | _ \<Rightarrow> False)"

definition isObject :: "'d Value \<Rightarrow> bool" where
  "isObject v \<longleftrightarrow> (case v of JObject _ \<Rightarrow> True | _ \<Rightarrow> False)"

definition value_boolean :: "'d Value \<Rightarrow> bool \<Rightarrow> bool" where
  "value_boolean v fallback = (case v of JBool b \<Rightarrow> b | _ \<Rightarrow> fallback)"

definition value_number :: "'d Value \<Rightarrow> 'd \<Rightarrow> 'd" where
  "value_number v fallback = (case v of JNumber d \<Rightarrow> d | _ \<Rightarrow> fallback)"

definition value_string :: "'d Value \<Rightarrow> string" where
  "value_string v = (case v of JString s \<Rightarrow> s | _ \<Rightarrow> [])"

definition value_array :: "'d Value \<Rightarrow> 'd Value list" where
  "value_array v = (case v of JArray vs \<Rightarrow> vs | _ \<Rightarrow> [])"

definition value_object :: "'d Value \<Rightarrow> (string, 'd Value) omap" where
  "value_object v = (case v of JObject m \<Rightarrow> m | _ \<Rightarrow> [])"

definition value_get :: "'d Value \<Rightarrow> string \<Rightarrow> 'd Value" where
  "value_get v name = (case v of
     JObject m \<Rightarrow> (case map_of m name of None \<Rightarrow> JNull | Some x \<Rightarrow> x)
   | _ \<Rightarrow> JNull)"

subsection \<open>Parser\<close>

definition json_fail :: "nat \<Rightarrow> string \<Rightarrow> string \<Rightarrow> string + 'a" where
  "json_fail n rest message = Inl (message @ '' at byte '' @ dec (n - length rest))"

definition whitespace :: "string \<Rightarrow> string" where
  "whitespace s = dropWhile is_space s"

definition consume :: "char \<Rightarrow> string \<Rightarrow> bool \<times> string" where
  "consume v s =
     (case whitespace s of
        [] \<Rightarrow> (False, [])
      | c # r \<Rightarrow> if c = v then (True, r) else (False, c # r))"

definition simple_escape :: "char \<Rightarrow> char option" where
  "simple_escape e =
     (if e = quote_char then Some quote_char
      else if e = backslash then Some backslash
      else if e = CHR ''/'' then Some (CHR ''/'')
      else if e = CHR ''b'' then Some (CHR 0x08)
      else if e = CHR ''f'' then Some (CHR 0x0C)
      else if e = CHR ''n'' then Some (CHR 0x0A)
      else if e = CHR ''r'' then Some (CHR 0x0D)
      else if e = CHR ''t'' then Some (CHR 0x09)
      else None)"

definition hex_digit_value :: "char \<Rightarrow> nat option" where
  "hex_digit_value c =
     (if 48 \<le> byte_of c \<and> byte_of c \<le> 57 then Some (byte_of c - 48)
      else if 97 \<le> byte_of c \<and> byte_of c \<le> 102 then Some (byte_of c - 97 + 10)
      else if 65 \<le> byte_of c \<and> byte_of c \<le> 70 then Some (byte_of c - 65 + 10)
      else None)"

fun unicode_digits :: "nat \<Rightarrow> nat \<Rightarrow> string \<Rightarrow> string \<Rightarrow> string + nat" where
  "unicode_digits n codepoint [] rest = Inr codepoint"
| "unicode_digits n codepoint (d # ds) rest =
     (case hex_digit_value d of
        None \<Rightarrow> json_fail n (ds @ rest) ''invalid unicode escape''
      | Some v \<Rightarrow> unicode_digits n (16 * codepoint + v) ds rest)"

definition codepoint_bytes :: "nat \<Rightarrow> string" where
  "codepoint_bytes cp =
     (if cp \<le> 0x7f then [char_of cp]
      else if cp \<le> 0x7ff then [char_of (0xc0 + cp div 64), char_of (0x80 + cp mod 64)]
      else [char_of (0xe0 + cp div 4096), char_of (0x80 + cp div 64 mod 64), char_of (0x80 + cp mod 64)])"

fun json_string :: "nat \<Rightarrow> string \<Rightarrow> string \<Rightarrow> string + string \<times> string" where
  "json_string n acc [] = json_fail n [] ''unterminated string''"
| "json_string n acc (c # cs) =
     (if c = quote_char then Inr (acc, cs)
      else if c \<noteq> backslash then json_string n (acc @ [c]) cs
      else case cs of
        [] \<Rightarrow> json_fail n [] ''incomplete escape''
      | e # r \<Rightarrow>
          (case simple_escape e of
             Some x \<Rightarrow> json_string n (acc @ [x]) r
           | None \<Rightarrow>
               if e \<noteq> CHR ''u'' then json_fail n r ''invalid escape''
               else (case r of
                 d1 # d2 # d3 # d4 # r' \<Rightarrow>
                   (case unicode_digits n 0 [d1, d2, d3, d4] r' of
                      Inl error \<Rightarrow> Inl error
                    | Inr codepoint \<Rightarrow> json_string n (acc @ codepoint_bytes codepoint) r')
               | _ \<Rightarrow> json_fail n r ''incomplete unicode escape'')))"

definition digits_span :: "string \<Rightarrow> string \<times> string" where
  "digits_span s = (takeWhile is_digit s, dropWhile is_digit s)"

definition optional_char :: "(char \<Rightarrow> bool) \<Rightarrow> string \<Rightarrow> string \<times> string" where
  "optional_char P s = (case s of c # r \<Rightarrow> if P c then ([c], r) else ([], s) | [] \<Rightarrow> ([], []))"

definition fraction_part :: "string \<Rightarrow> string \<times> string" where
  "fraction_part s =
     (let (point, r) = optional_char (\<lambda>c. c = CHR ''.'') s in
      if point = [] then ([], r) else let (ds, r) = digits_span r in (point @ ds, r))"

definition exponent_part :: "string \<Rightarrow> string \<times> string" where
  "exponent_part s =
     (let (e, r) = optional_char (\<lambda>c. c = CHR ''e'' \<or> c = CHR ''E'') s in
      if e = [] then ([], r)
      else
        let (sign, r) = optional_char (\<lambda>c. c = CHR ''+'' \<or> c = CHR ''-'') r; (ds, r) = digits_span r
        in (e @ sign @ ds, r))"

definition number_token :: "string \<Rightarrow> string \<times> string" where
  "number_token s =
     (let (sign, r) = optional_char (\<lambda>c. c = CHR ''-'') s; (whole, r) = digits_span r;
          (fraction, r) = fraction_part r; (exponent, r) = exponent_part r
      in (sign @ whole @ fraction @ exponent, r))"

definition json_number :: "'d number_format \<Rightarrow> string \<Rightarrow> string + 'd Value \<times> string" where
  "json_number nf s =
     (let (token, r) = number_token s in
      case nf_stod nf token of Inl e \<Rightarrow> Inl e | Inr d \<Rightarrow> Inr (JNumber d, r))"

definition json_literal :: "nat \<Rightarrow> string \<Rightarrow> 'd Value \<Rightarrow> string \<Rightarrow> string + 'd Value \<times> string" where
  "json_literal n expected v s =
     (if take (length expected) s \<noteq> expected then json_fail n s ''invalid literal''
      else Inr (v, drop (length expected) s))"

definition parse_scalar :: "'d number_format \<Rightarrow> nat \<Rightarrow> char \<Rightarrow> string \<Rightarrow> string + 'd Value \<times> string" where
  "parse_scalar nf n c r =
     (if c = quote_char then (case json_string n [] r of Inl e \<Rightarrow> Inl e | Inr (x, r) \<Rightarrow> Inr (JString x, r))
      else if c = CHR ''t'' then json_literal n ''true'' (JBool True) (c # r)
      else if c = CHR ''f'' then json_literal n ''false'' (JBool False) (c # r)
      else if c = CHR ''n'' then json_literal n ''null'' JNull (c # r)
      else if c = CHR ''-'' \<or> is_digit c then json_number nf (c # r)
      else json_fail n (c # r) ''unexpected character'')"

fun parse_value :: "'d number_format \<Rightarrow> nat \<Rightarrow> nat \<Rightarrow> string \<Rightarrow> (string + 'd Value \<times> string) option"
and parse_members ::
  "'d number_format \<Rightarrow> nat \<Rightarrow> nat \<Rightarrow> (string, 'd Value) omap \<Rightarrow> string \<Rightarrow> (string + 'd Value \<times> string) option"
and parse_elements ::
  "'d number_format \<Rightarrow> nat \<Rightarrow> nat \<Rightarrow> 'd Value list \<Rightarrow> string \<Rightarrow> (string + 'd Value \<times> string) option" where
  "parse_value nf n 0 s = None"
| "parse_value nf n (Suc fuel) s =
     (case whitespace s of
        [] \<Rightarrow> Some (json_fail n [] ''unexpected end of JSON'')
      | c # r \<Rightarrow>
          if c = CHR 0x7B then
            (let (close, r) = consume (CHR 0x7D) r in
             if close then Some (Inr (JObject [], r)) else parse_members nf n fuel [] r)
          else if c = CHR 0x5B then
            (let (close, r) = consume (CHR 0x5D) r in
             if close then Some (Inr (JArray [], r)) else parse_elements nf n fuel [] r)
          else Some (parse_scalar nf n c r))"
| "parse_members nf n 0 acc s = None"
| "parse_members nf n (Suc fuel) acc s =
     (case whitespace s of
        [] \<Rightarrow> Some (json_fail n [] ''expected object key'')
      | c # r \<Rightarrow>
          if c \<noteq> quote_char then Some (json_fail n (c # r) ''expected object key'')
          else case json_string n [] r of
            Inl e \<Rightarrow> Some (Inl e)
          | Inr (key, r) \<Rightarrow>
              let (colon, r) = consume (CHR '':'') r in
              if \<not> colon then Some (json_fail n r (''expected '' @ [CHR 0x27, CHR '':'', CHR 0x27]))
              else case parse_value nf n fuel r of
                None \<Rightarrow> None
              | Some (Inl e) \<Rightarrow> Some (Inl e)
              | Some (Inr (v, r)) \<Rightarrow>
                  let acc = assign key v acc; (close, r) = consume (CHR 0x7D) r in
                  if close then Some (Inr (JObject acc, r))
                  else
                    let (comma, r) = consume (CHR '','') r in
                    if \<not> comma then Some (json_fail n r (''expected '' @ [CHR 0x27, CHR '','', CHR 0x27]))
                    else parse_members nf n fuel acc r)"
| "parse_elements nf n 0 acc s = None"
| "parse_elements nf n (Suc fuel) acc s =
     (case parse_value nf n fuel s of
        None \<Rightarrow> None
      | Some (Inl e) \<Rightarrow> Some (Inl e)
      | Some (Inr (v, r)) \<Rightarrow>
          let (close, r) = consume (CHR 0x5D) r in
          if close then Some (Inr (JArray (acc @ [v]), r))
          else
            let (comma, r) = consume (CHR '','') r in
            if \<not> comma then Some (json_fail n r (''expected '' @ [CHR 0x27, CHR '','', CHR 0x27]))
            else parse_elements nf n fuel (acc @ [v]) r)"

definition json_parse :: "'d number_format \<Rightarrow> string \<Rightarrow> (string + 'd Value) option" where
  "json_parse nf s =
     map_option (\<lambda>res. case res of
         Inl e \<Rightarrow> Inl e
       | Inr (v, r) \<Rightarrow>
           (let r = whitespace r in if r \<noteq> [] then json_fail (length s) r ''trailing JSON content'' else Inr v))
       (parse_value nf (length s) (Suc (2 * length s)) s)"

subsection \<open>Printer\<close>

definition escape_char :: "char \<Rightarrow> string" where
  "escape_char c =
     (if c = quote_char then [backslash, quote_char]
      else if c = backslash then [backslash, backslash]
      else if c = CHR 0x08 then [backslash, CHR ''b'']
      else if c = CHR 0x0C then [backslash, CHR ''f'']
      else if c = CHR 0x0A then [backslash, CHR ''n'']
      else if c = CHR 0x0D then [backslash, CHR ''r'']
      else if c = CHR 0x09 then [backslash, CHR ''t'']
      else if byte_of c < 0x20 then [backslash] @ ''u00'' @ [hex_digit (byte_of c div 16), hex_digit (byte_of c mod 16)]
      else [c])"

definition json_quote :: "string \<Rightarrow> string" where
  "json_quote s = [quote_char] @ concat (map escape_char s) @ [quote_char]"

definition print_number :: "'d number_format \<Rightarrow> 'd \<Rightarrow> string" where
  "print_number nf d = (case nf_integer nf d of Some i \<Rightarrow> int_text i | None \<Rightarrow> nf_print nf d)"

fun stringify :: "'d number_format \<Rightarrow> 'd Value \<Rightarrow> string" where
  "stringify nf JNull = ''null''"
| "stringify nf (JBool b) = (if b then ''true'' else ''false'')"
| "stringify nf (JNumber d) = print_number nf d"
| "stringify nf (JString s) = json_quote s"
| "stringify nf (JArray vs) = [CHR 0x5B] @ join_with (CHR '','') (map (stringify nf) vs) @ [CHR 0x5D]"
| "stringify nf (JObject m) =
     [CHR 0x7B] @ join_with (CHR '','') (map (\<lambda>(k, v). json_quote k @ '':'' @ stringify nf v) m) @ [CHR 0x7D]"

subsection \<open>The parser ends\<close>

lemma whitespace_length: "length (whitespace s) \<le> length s"
  by (simp add: whitespace_def length_dropWhile_le)

lemma whitespace_Cons: "whitespace s = c # r \<Longrightarrow> length r < length s"
  using whitespace_length [of s] by simp

lemma consume_length: "consume c s = (b, r) \<Longrightarrow> length r \<le> length s \<and> (b \<longrightarrow> length r < length s)"
  using whitespace_length [of s] by (cases "whitespace s") (auto simp: consume_def whitespace_length split: if_splits)

lemma json_string_length: "json_string n acc s = Inr (x, r) \<Longrightarrow> length r < length s"
proof (induction "length s" arbitrary: acc s rule: less_induct)
  case less
  then obtain c cs where s: "s = c # cs" by (cases s) (auto simp: json_fail_def)
  have IH: "length r < length s" if "json_string n acc' s' = Inr (x, r)" "length s' < length s" for acc' s'
    using less.hyps [OF that(2,1)] that(2) by simp
  show ?case
  proof (cases "c = quote_char \<or> c \<noteq> backslash")
    case True
    then show ?thesis using less.prems s IH [of "acc @ [c]" cs] by (auto split: if_splits)
  next
    case False
    then obtain e r1 where cs: "cs = e # r1" using less.prems s by (cases cs) (auto simp: json_fail_def)
    show ?thesis
    proof (cases "simple_escape e")
      case (Some y)
      then show ?thesis using less.prems s cs False by (intro IH [of "acc @ [y]" r1]) auto
    next
      case None
      then obtain d1 d2 d3 d4 r2 codepoint where r1: "r1 = d1 # d2 # d3 # d4 # r2"
        and rest: "json_string n (acc @ codepoint_bytes codepoint) r2 = Inr (x, r)"
        using less.prems s cs False
        by (auto simp: json_fail_def simp del: unicode_digits.simps split: list.splits sum.splits if_splits)
      show ?thesis using rest by (rule IH) (simp add: s cs r1)
    qed
  qed
qed

lemma span_parts [simp]:
  "fst (optional_char P s) @ snd (optional_char P s) = s"
  "fst (digits_span s) @ snd (digits_span s) = s"
  by (auto simp: optional_char_def digits_span_def split: list.split)

lemma span_empty: "fst (optional_char P s) = [] \<Longrightarrow> snd (optional_char P s) = s"
  by (metis append_Nil span_parts(1))

lemma number_parts [simp]:
  "fst (fraction_part s) @ snd (fraction_part s) = s"
  "fst (exponent_part s) @ snd (exponent_part s) = s"
  "fst (number_token s) @ snd (number_token s) = s"
  by (simp_all add: fraction_part_def exponent_part_def number_token_def split_def Let_def span_empty)

lemma number_token_progress:
  assumes "c = CHR ''-'' \<or> is_digit c"
  shows "length (snd (number_token (c # r))) < length (c # r)"
proof -
  have "fst (number_token (c # r)) \<noteq> []"
    using assms by (auto simp: number_token_def optional_char_def digits_span_def split_def Let_def)
  then have "0 < length (fst (number_token (c # r)))" by simp
  moreover have "length (fst (number_token (c # r))) + length (snd (number_token (c # r))) = length (c # r)"
    by (metis number_parts(3) length_append)
  ultimately show ?thesis by linarith
qed

lemma json_number_length:
  "json_number nf (c # t) = Inr (v, r) \<Longrightarrow> c = CHR ''-'' \<or> is_digit c \<Longrightarrow> length r \<le> length t"
  using number_token_progress [of c t] by (auto simp: json_number_def split_def Let_def split: sum.splits)

lemma json_literal_length:
  "json_literal n e x (c # t) = Inr (v, r) \<Longrightarrow> e \<noteq> [] \<Longrightarrow> length r \<le> length t"
  by (auto simp: json_literal_def json_fail_def split: if_splits) (cases e, auto)

lemma parse_scalar_length: "parse_scalar nf n c t = Inr (v, r) \<Longrightarrow> length r \<le> length t"
  unfolding parse_scalar_def
  by (auto simp: json_fail_def split: if_splits sum.splits
      dest!: json_string_length json_literal_length dest: json_number_length)

text \<open>Every successful call leaves a shorter text.\<close>

lemma parse_value_length:
  assumes members: "\<And>m s v r. parse_members nf n fuel m s = Some (Inr (v, r)) \<Longrightarrow> length r < length s"
    and elements: "\<And>vs s v r. parse_elements nf n fuel vs s = Some (Inr (v, r)) \<Longrightarrow> length r < length s"
    and result: "parse_value nf n (Suc fuel) s = Some (Inr (v, r))"
  shows "length r < length s"
proof -
  obtain c t where s: "whitespace s = c # t" using result by (cases "whitespace s") (auto simp: json_fail_def)
  obtain b1 r1 where c1: "consume (CHR 0x7D) t = (b1, r1)" by fastforce
  obtain b2 r2 where c2: "consume (CHR 0x5D) t = (b2, r2)" by fastforce
  consider "c = CHR 0x7B" | "c = CHR 0x5B" | "c \<noteq> CHR 0x7B" "c \<noteq> CHR 0x5B" by blast
  then have "length r \<le> length t"
  proof cases
    case 1
    then show ?thesis using result consume_length [OF c1] by (auto simp: s c1 split: if_splits dest!: members)
  next
    case 2
    then show ?thesis using result consume_length [OF c2] by (auto simp: s c2 split: if_splits dest!: elements)
  next
    case 3
    then show ?thesis using result by (intro parse_scalar_length [of nf n c]) (simp add: s)
  qed
  then show ?thesis using whitespace_length [of s] s by simp
qed

lemma parse_members_length:
  assumes members: "\<And>m s v r. parse_members nf n fuel m s = Some (Inr (v, r)) \<Longrightarrow> length r < length s"
    and inner: "\<And>s v r. parse_value nf n fuel s = Some (Inr (v, r)) \<Longrightarrow> length r < length s"
    and result: "parse_members nf n (Suc fuel) m s = Some (Inr (v, r))"
  shows "length r < length s"
proof -
  obtain t key r1 where s: "whitespace s = quote_char # t" and key: "json_string n [] t = Inr (key, r1)"
    using result by (auto simp: json_fail_def split: list.splits if_splits sum.splits)
  obtain r2 v1 r3 where c1: "consume (CHR '':'') r1 = (True, r2)" and v: "parse_value nf n fuel r2 = Some (Inr (v1, r3))"
    using result by (auto simp: s key json_fail_def split: prod.splits if_splits option.splits sum.splits)
  obtain b3 r4 where c3: "consume (CHR 0x7D) r3 = (b3, r4)" by fastforce
  obtain b4 r5 where c4: "consume (CHR '','') r4 = (b4, r5)" by fastforce
  have "length r \<le> length r4"
    using result consume_length [OF c4]
    by (auto simp: s key c1 v c3 c4 json_fail_def Let_def split: if_splits dest!: members)
  then show ?thesis
    using whitespace_Cons [OF s] json_string_length [OF key] consume_length [OF c1] inner [OF v] consume_length [OF c3]
    by simp
qed

lemma parse_elements_length:
  assumes elements: "\<And>vs s v r. parse_elements nf n fuel vs s = Some (Inr (v, r)) \<Longrightarrow> length r < length s"
    and inner: "\<And>s v r. parse_value nf n fuel s = Some (Inr (v, r)) \<Longrightarrow> length r < length s"
    and result: "parse_elements nf n (Suc fuel) vs s = Some (Inr (v, r))"
  shows "length r < length s"
proof -
  obtain v1 r1 where v: "parse_value nf n fuel s = Some (Inr (v1, r1))"
    using result by (auto split: option.splits sum.splits)
  obtain b3 r4 where c3: "consume (CHR 0x5D) r1 = (b3, r4)" by fastforce
  obtain b4 r5 where c4: "consume (CHR '','') r4 = (b4, r5)" by fastforce
  have "length r \<le> length r4"
    using result consume_length [OF c4]
    by (auto simp: v c3 c4 json_fail_def Let_def split: if_splits dest!: elements)
  then show ?thesis using inner [OF v] consume_length [OF c3] by simp
qed

lemma parse_length:
  "(parse_value nf n fuel s = Some (Inr (v, r)) \<longrightarrow> length r < length s)
   \<and> (parse_members nf n fuel m s = Some (Inr (v, r)) \<longrightarrow> length r < length s)
   \<and> (parse_elements nf n fuel vs s = Some (Inr (v, r)) \<longrightarrow> length r < length s)"
proof (induction fuel arbitrary: s v r m vs)
  case (Suc fuel)
  have V: "parse_value nf n fuel s = Some (Inr (v, r)) \<Longrightarrow> length r < length s"
    and M: "parse_members nf n fuel m s = Some (Inr (v, r)) \<Longrightarrow> length r < length s"
    and E: "parse_elements nf n fuel vs s = Some (Inr (v, r)) \<Longrightarrow> length r < length s" for s v r m vs
    using Suc by blast+
  show ?case
    by (intro conjI impI; erule parse_value_length [rotated 2] parse_members_length [rotated 2] parse_elements_length [rotated 2])
       (erule V M E)+
qed simp

lemmas parse_shorter =
  parse_length [THEN conjunct1, rule_format]
  parse_length [THEN conjunct2, THEN conjunct1, rule_format]
  parse_length [THEN conjunct2, THEN conjunct2, rule_format]

lemma parse_enough_fuel:
  "(2 * length s < fuel \<longrightarrow> parse_value nf n fuel s \<noteq> None)
   \<and> (2 * length s < fuel \<longrightarrow> parse_members nf n fuel m s \<noteq> None)
   \<and> (2 * length s + 1 < fuel \<longrightarrow> parse_elements nf n fuel vs s \<noteq> None)"
proof (induction fuel arbitrary: s m vs)
  case (Suc fuel)
  have V: "2 * length s < fuel \<Longrightarrow> parse_value nf n fuel s \<noteq> None"
    and M: "2 * length s < fuel \<Longrightarrow> parse_members nf n fuel m s \<noteq> None"
    and E: "2 * length s + 1 < fuel \<Longrightarrow> parse_elements nf n fuel vs s \<noteq> None" for s m vs
    using Suc by blast+
  have "parse_value nf n (Suc fuel) s \<noteq> None" if "2 * length s < Suc fuel"
  proof (cases "whitespace s")
    case (Cons c t)
    obtain b1 r1 where c1: "consume (CHR 0x7D) t = (b1, r1)" by fastforce
    obtain b2 r2 where c2: "consume (CHR 0x5D) t = (b2, r2)" by fastforce
    have "parse_members nf n fuel [] r1 \<noteq> None"
      using that whitespace_Cons [OF Cons] consume_length [OF c1] by (intro M) linarith
    moreover have "parse_elements nf n fuel [] r2 \<noteq> None"
      using that whitespace_Cons [OF Cons] consume_length [OF c2] by (intro E) linarith
    ultimately show ?thesis by (auto simp: Cons c1 c2)
  qed simp
  moreover have "parse_members nf n (Suc fuel) m s \<noteq> None" if "2 * length s < Suc fuel"
  proof (rule notI)
    assume none: "parse_members nf n (Suc fuel) m s = None"
    then obtain t key r1 where s: "whitespace s = quote_char # t" and key: "json_string n [] t = Inr (key, r1)"
      by (auto split: list.splits if_splits sum.splits)
    obtain b1 r2 where c1: "consume (CHR '':'') r1 = (b1, r2)" by fastforce
    have less: "length r2 < length s"
      using whitespace_Cons [OF s] json_string_length [OF key] consume_length [OF c1] by simp
    then have "2 * length r2 < fuel" using that by linarith
    from V [OF this] obtain v r3 where v: "parse_value nf n fuel r2 = Some (Inr (v, r3))"
      using none by (auto simp: s key c1 Let_def split: if_splits option.splits sum.splits)
    obtain b3 r4 where c3: "consume (CHR 0x7D) r3 = (b3, r4)" by fastforce
    obtain b4 r5 where c4: "consume (CHR '','') r4 = (b4, r5)" by fastforce
    have "parse_members nf n fuel (assign key v m) r5 \<noteq> None"
      using that less parse_shorter(1) [OF v] consume_length [OF c3] consume_length [OF c4] by (intro M) linarith
    then show False using none by (auto simp: s key c1 v c3 c4 Let_def split: if_splits)
  qed
  moreover have "parse_elements nf n (Suc fuel) vs s \<noteq> None" if "2 * length s + 1 < Suc fuel"
  proof (rule notI)
    assume none: "parse_elements nf n (Suc fuel) vs s = None"
    have "2 * length s < fuel" using that by linarith
    from V [OF this] none obtain v r3 where v: "parse_value nf n fuel s = Some (Inr (v, r3))"
      by (auto split: option.splits sum.splits)
    obtain b3 r4 where c3: "consume (CHR 0x5D) r3 = (b3, r4)" by fastforce
    obtain b4 r5 where c4: "consume (CHR '','') r4 = (b4, r5)" by fastforce
    have "parse_elements nf n fuel (vs @ [v]) r5 \<noteq> None"
      using that parse_shorter(1) [OF v] consume_length [OF c3] consume_length [OF c4] by (intro E) linarith
    then show False using none by (auto simp: v c3 c4 Let_def split: if_splits)
  qed
  ultimately show ?case by blast
qed simp

subsection \<open>Printing and parsing\<close>

lemma hex_digit_value_hex_digit [simp]: "d < 16 \<Longrightarrow> hex_digit_value (hex_digit d) = Some d"
  by (auto simp: hex_digit_value_def hex_digit_def)

definition control_escape :: "char \<Rightarrow> bool" where
  "control_escape c \<longleftrightarrow> c = CHR 0x08 \<or> c = CHR 0x0C \<or> c = CHR 0x0A \<or> c = CHR 0x0D \<or> c = CHR 0x09"

lemma escape_char_parsed:
  "json_string n acc (escape_char c @ rest) = json_string n (acc @ [c]) rest"
proof (cases "control_escape c \<or> 32 \<le> byte_of c")
  case True
  then show ?thesis by (auto simp: control_escape_def escape_char_def simple_escape_def)
next
  case False
  then have byte: "byte_of c < 32" and "\<not> control_escape c" by simp_all
  moreover from byte have "c \<noteq> quote_char" "c \<noteq> backslash" by auto
  ultimately have escaped: "escape_char c = [backslash] @ ''u00'' @ [hex_digit (byte_of c div 16), hex_digit (byte_of c mod 16)]"
    by (simp add: escape_char_def control_escape_def)
  have digits: "unicode_digits n 0 [CHR ''0'', CHR ''0'', hex_digit (byte_of c div 16), hex_digit (byte_of c mod 16)] r
      = Inr (byte_of c)" for r
    using byte by (simp add: hex_digit_value_def [of "CHR ''0''"])
  have "codepoint_bytes (byte_of c) = [c]" using byte by (simp add: codepoint_bytes_def)
  with digits show ?thesis by (simp add: escaped simple_escape_def del: unicode_digits.simps)
qed

lemma json_string_escaped:
  "json_string n acc (concat (map escape_char s) @ quote_char # rest) = Inr (acc @ s, rest)"
proof (induction s arbitrary: acc)
  case (Cons c s)
  then show ?case by (simp add: escape_char_parsed del: json_string.simps)
qed simp

text \<open>What may follow a value, so that a number ends there.\<close>

definition value_end :: "string \<Rightarrow> bool" where
  "value_end rest \<longleftrightarrow> (case rest of [] \<Rightarrow> True
     | c # _ \<Rightarrow> \<not> is_digit c \<and> c \<noteq> CHR ''.'' \<and> c \<noteq> CHR ''e'' \<and> c \<noteq> CHR ''E'')"

text \<open>Objects are ordered maps, and every number prints as an integer that reads back as that number.\<close>

fun json_ok :: "'d number_format \<Rightarrow> 'd Value \<Rightarrow> bool" where
  "json_ok nf (JNumber d) = (case nf_integer nf d of None \<Rightarrow> False | Some i \<Rightarrow> nf_stod nf (int_text i) = Inr d)"
| "json_ok nf (JArray vs) = list_all (json_ok nf) vs"
| "json_ok nf (JObject m) = (omap_wf m \<and> list_all (\<lambda>(k, v). json_ok nf v) m)"
| "json_ok nf v = True"

lemma dec_Cons: obtains d ds where "dec n = d # ds" "is_digit d" "list_all is_digit ds"
  using dec_digits [of n] by (cases "dec n") (auto simp: list_all_iff)

lemma int_text_token: "value_end rest \<Longrightarrow> number_token (int_text i @ rest) = (int_text i, rest)"
proof -
  assume rest: "value_end rest"
  have span: "digits_span (dec k @ rest) = (dec k, rest)" for k
    using rest dec_digits [of k]
    by (auto simp: digits_span_def value_end_def takeWhile_append2 dropWhile_append2 split: list.splits)
  have minus: "\<not> is_digit (CHR ''-'')" by (simp add: is_digit_def)
  have "optional_char (\<lambda>c. c = CHR ''-'') (dec k @ rest) = ([], dec k @ rest)" for k
    using minus by (cases rule: dec_Cons [of k]) (auto simp: optional_char_def)
  with rest span show ?thesis
    by (auto simp: number_token_def int_text_def fraction_part_def exponent_part_def optional_char_def value_end_def
        split: list.splits)
qed

lemma int_text_head: obtains c t where "int_text i = c # t" "c = CHR ''-'' \<or> is_digit c"
  by (cases rule: dec_Cons [of "nat i"]; cases "i < 0") (auto simp: int_text_def)

lemma digit_not_special:
  "c = CHR ''-'' \<or> is_digit c \<Longrightarrow> \<not> is_space c \<and> c \<notin> {CHR 0x7B, CHR 0x5B, CHR 0x5D, quote_char, CHR ''t'', CHR ''f'', CHR ''n''}"
  by (auto simp: is_digit_def is_space_def)

lemma stringify_head:
  assumes "json_ok nf v"
  obtains c t where "stringify nf v = c # t" "\<not> is_space c" "c \<noteq> CHR 0x5D"
proof (cases v)
  case (JNumber d)
  then obtain i where "stringify nf v = int_text i" using assms by (auto simp: print_number_def split: option.splits)
  then show thesis using that digit_not_special by (cases rule: int_text_head [of i]) auto
next
  case (JBool b)
  then show thesis using that by (cases b) (auto simp: is_space_def)
qed (use that in \<open>auto simp: json_quote_def is_space_def\<close>)

lemma consume_head:
  "\<not> is_space c \<Longrightarrow> consume c (c # r) = (True, r)"
  "\<not> is_space d \<Longrightarrow> d \<noteq> c \<Longrightarrow> consume c (d # r) = (False, d # r)"
  by (simp_all add: consume_def whitespace_def)

lemma whitespace_head: "\<not> is_space c \<Longrightarrow> whitespace (c # r) = c # r"
  by (simp add: whitespace_def)

lemma assign_snoc: "omap_wf (m @ [(k, v)]) \<Longrightarrow> assign k v m = m @ [(k, v)]"
  by (induction m) (auto simp: omap_wf_def)

text \<open>The parser reads the printed form of a value in front of any text that ends it.\<close>

definition reads_back :: "'d number_format \<Rightarrow> 'd Value \<Rightarrow> bool" where
  "reads_back nf v \<longleftrightarrow> (\<forall>n fuel rest. value_end rest \<longrightarrow> 2 * length (stringify nf v @ rest) < fuel
     \<longrightarrow> parse_value nf n fuel (stringify nf v @ rest) = Some (Inr (v, rest)))"

lemma value_end_delimiter [simp]:
  "value_end (CHR '','' # r)" "value_end (CHR 0x5D # r)" "value_end (CHR 0x7D # r)" "value_end []"
  by (simp_all add: value_end_def is_digit_def)

lemma delimiters [simp]:
  "\<not> is_space (CHR '','')" "\<not> is_space (CHR 0x5D)" "\<not> is_space (CHR 0x7D)" "\<not> is_space (CHR '':'')"
  "\<not> is_space quote_char" "\<not> is_space (CHR 0x7B)" "\<not> is_space (CHR 0x5B)"
  by (simp_all add: is_space_def)

lemma parse_elements_printed:
  assumes "vs \<noteq> []" and "\<forall>v \<in> set vs. reads_back nf v"
  shows "2 * length (join_with (CHR '','') (map (stringify nf) vs) @ CHR 0x5D # rest) + 1 < fuel
    \<Longrightarrow> parse_elements nf n fuel acc (join_with (CHR '','') (map (stringify nf) vs) @ CHR 0x5D # rest)
      = Some (Inr (JArray (acc @ vs), rest))"
  using assms
proof (induction vs arbitrary: acc fuel)
  case (Cons v vs)
  then obtain k where fuel: "fuel = Suc k" by (cases fuel) auto
  have v: "value_end r \<Longrightarrow> 2 * length (stringify nf v @ r) < k \<Longrightarrow> parse_value nf n k (stringify nf v @ r) = Some (Inr (v, r))" for r
    using Cons.prems(3) by (simp add: reads_back_def)
  show ?case
  proof (cases "vs = []")
    case True
    then show ?thesis using v [of "CHR 0x5D # rest"] Cons.prems(1) by (simp add: fuel consume_head)
  next
    case False
    let ?more = "join_with (CHR '','') (map (stringify nf) vs) @ CHR 0x5D # rest"
    have printed: "join_with (CHR '','') (map (stringify nf) (v # vs)) @ CHR 0x5D # rest = stringify nf v @ CHR '','' # ?more"
      using False by (cases vs) simp_all
    have "2 * length ?more + 1 < k" using Cons.prems(1) unfolding printed fuel by simp
    with Cons.IH [of k "acc @ [v]"] Cons.prems(3) False
    have "parse_elements nf n k (acc @ [v]) ?more = Some (Inr (JArray ((acc @ [v]) @ vs), rest))" by simp
    moreover have "parse_value nf n k (stringify nf v @ CHR '','' # ?more) = Some (Inr (v, CHR '','' # ?more))"
      using Cons.prems(1) unfolding printed fuel by (intro v) simp_all
    ultimately show ?thesis unfolding printed fuel by (simp add: consume_head)
  qed
qed simp

lemma parse_members_printed:
  assumes "m \<noteq> []" and "\<forall>(k, v) \<in> set m. reads_back nf v"
  shows "2 * length (join_with (CHR '','') (map (\<lambda>(k, v). json_quote k @ '':'' @ stringify nf v) m) @ CHR 0x7D # rest) < fuel
    \<Longrightarrow> omap_wf (acc @ m)
    \<Longrightarrow> parse_members nf n fuel acc (join_with (CHR '','') (map (\<lambda>(k, v). json_quote k @ '':'' @ stringify nf v) m) @ CHR 0x7D # rest)
      = Some (Inr (JObject (acc @ m), rest))"
  using assms
proof (induction m arbitrary: acc fuel)
  case (Cons e m)
  obtain key v where e: "e = (key, v)" by fastforce
  obtain k where fuel: "fuel = Suc k" using Cons.prems(1) by (cases fuel) auto
  let ?print = "\<lambda>(k, v). json_quote k @ '':'' @ stringify nf v"
  have v: "value_end r \<Longrightarrow> 2 * length (stringify nf v @ r) < k \<Longrightarrow> parse_value nf n k (stringify nf v @ r) = Some (Inr (v, r))" for r
    using Cons.prems(4) e by (simp add: reads_back_def)
  have key: "json_string n [] (concat (map escape_char key) @ quote_char # r) = Inr (key, r)" for r
    using json_string_escaped [of n "[]"] by simp
  have "omap_wf (acc @ [(key, v)])" using Cons.prems(2) e by (auto simp: omap_wf_def sorted_wrt_append)
  then have assign: "assign key v acc = acc @ [(key, v)]" by (rule assign_snoc)
  show ?case
  proof (cases "m = []")
    case True
    then have "parse_value nf n k (stringify nf v @ CHR 0x7D # rest) = Some (Inr (v, CHR 0x7D # rest))"
      using Cons.prems(1) unfolding fuel e by (intro v) (simp_all add: json_quote_def)
    then show ?thesis using True by (simp add: fuel e json_quote_def whitespace_head key consume_head assign)
  next
    case False
    let ?more = "join_with (CHR '','') (map ?print m) @ CHR 0x7D # rest"
    have printed: "join_with (CHR '','') (map ?print (e # m)) @ CHR 0x7D # rest
        = quote_char # concat (map escape_char key) @ quote_char # CHR '':'' # stringify nf v @ CHR '','' # ?more"
      using False by (cases m) (simp_all add: e json_quote_def)
    have "2 * length ?more < k" using Cons.prems(1) unfolding printed fuel by simp
    with Cons.IH [of k "acc @ [(key, v)]"] Cons.prems(2,4) False
    have "parse_members nf n k (acc @ [(key, v)]) ?more = Some (Inr (JObject ((acc @ [(key, v)]) @ m), rest))"
      by (simp add: e)
    moreover have "parse_value nf n k (stringify nf v @ CHR '','' # ?more) = Some (Inr (v, CHR '','' # ?more))"
      using Cons.prems(1) unfolding printed fuel by (intro v) simp_all
    ultimately show ?thesis unfolding printed fuel
      by (simp add: whitespace_head key consume_head assign e)
  qed
qed simp

lemma reads_backD:
  "reads_back nf v \<Longrightarrow> value_end rest \<Longrightarrow> 2 * length (stringify nf v @ rest) < fuel
    \<Longrightarrow> parse_value nf n fuel (stringify nf v @ rest) = Some (Inr (v, rest))"
  unfolding reads_back_def by blast

lemma scalar_printed:
  assumes "\<And>n rest. value_end rest \<Longrightarrow> \<exists>c r. stringify nf v @ rest = c # r \<and> \<not> is_space c \<and> c \<noteq> CHR 0x7B
      \<and> c \<noteq> CHR 0x5B \<and> parse_scalar nf n c r = Inr (v, rest)"
  shows "reads_back nf v"
  unfolding reads_back_def
proof (intro allI impI)
  fix n fuel rest
  assume "value_end rest" and fuel: "2 * length (stringify nf v @ rest) < fuel"
  then obtain c r where "stringify nf v @ rest = c # r" "\<not> is_space c" "c \<noteq> CHR 0x7B" "c \<noteq> CHR 0x5B"
    "parse_scalar nf n c r = Inr (v, rest)" using assms by meson
  moreover obtain k where "fuel = Suc k" using fuel by (cases fuel) auto
  ultimately show "parse_value nf n fuel (stringify nf v @ rest) = Some (Inr (v, rest))" by (simp add: whitespace_head)
qed

lemma number_printed:
  assumes "json_ok nf (JNumber d)"
  shows "reads_back nf (JNumber d)"
proof (rule scalar_printed)
  fix n rest
  assume rest: "value_end rest"
  obtain i where i: "nf_integer nf d = Some i" "nf_stod nf (int_text i) = Inr d" using assms by (auto split: option.splits)
  obtain c t where c: "int_text i = c # t" "c = CHR ''-'' \<or> is_digit c" by (rule int_text_head)
  have "json_number nf (int_text i @ rest) = Inr (JNumber d, rest)"
    using int_text_token [OF rest] i(2) by (simp add: json_number_def)
  then show "\<exists>c r. stringify nf (JNumber d) @ rest = c # r \<and> \<not> is_space c \<and> c \<noteq> CHR 0x7B
      \<and> c \<noteq> CHR 0x5B \<and> parse_scalar nf n c r = Inr (JNumber d, rest)"
    using i(1) c digit_not_special [OF c(2)] by (simp add: print_number_def parse_scalar_def)
qed

lemma array_printed:
  assumes "\<forall>v \<in> set vs. reads_back nf v \<and> json_ok nf v"
  shows "reads_back nf (JArray vs)"
  unfolding reads_back_def
proof (intro allI impI)
  fix n fuel rest
  assume fuel: "2 * length (stringify nf (JArray vs) @ rest) < fuel"
  then obtain k where k: "fuel = Suc k" by (cases fuel) auto
  show "parse_value nf n fuel (stringify nf (JArray vs) @ rest) = Some (Inr (JArray vs, rest))"
  proof (cases vs)
    case Nil
    then show ?thesis by (simp add: k whitespace_head consume_head)
  next
    case (Cons v ws)
    let ?text = "join_with (CHR '','') (map (stringify nf) vs) @ CHR 0x5D # rest"
    obtain c t where "stringify nf v = c # t" "\<not> is_space c" "c \<noteq> CHR 0x5D"
      using stringify_head [of nf v] assms Cons by auto
    then have "consume (CHR 0x5D) ?text = (False, ?text)"
      using Cons by (cases ws) (simp_all add: consume_head)
    moreover have "parse_elements nf n k [] ?text = Some (Inr (JArray ([] @ vs), rest))"
      using assms Cons fuel k by (intro parse_elements_printed) auto
    ultimately show ?thesis by (simp add: k whitespace_head)
  qed
qed

lemma object_printed:
  assumes "\<forall>(k, v) \<in> set m. reads_back nf v" and "omap_wf m"
  shows "reads_back nf (JObject m)"
  unfolding reads_back_def
proof (intro allI impI)
  fix n fuel rest
  assume fuel: "2 * length (stringify nf (JObject m) @ rest) < fuel"
  then obtain k where k: "fuel = Suc k" by (cases fuel) auto
  show "parse_value nf n fuel (stringify nf (JObject m) @ rest) = Some (Inr (JObject m, rest))"
  proof (cases m)
    case Nil
    then show ?thesis by (simp add: k whitespace_head consume_head)
  next
    case (Cons e ms)
    let ?text = "join_with (CHR '','') (map (\<lambda>(k, v). json_quote k @ '':'' @ stringify nf v) m) @ CHR 0x7D # rest"
    have "\<exists>t. ?text = quote_char # t" using Cons by (cases ms; cases e) (simp_all add: json_quote_def)
    then have "consume (CHR 0x7D) ?text = (False, ?text)" by (auto simp: consume_head)
    moreover have "parse_members nf n k [] ?text = Some (Inr (JObject ([] @ m), rest))"
      using assms Cons fuel k by (intro parse_members_printed) auto
    ultimately show ?thesis by (simp add: k whitespace_head)
  qed
qed

lemma printed_reads_back: "json_ok nf v \<Longrightarrow> reads_back nf v"
proof (induction v)
  case JNull
  show ?case by (rule scalar_printed) (simp add: parse_scalar_def json_literal_def is_space_def)
next
  case (JBool b)
  show ?case by (rule scalar_printed) (simp add: parse_scalar_def json_literal_def is_space_def)
next
  case (JNumber d)
  then show ?case by (rule number_printed)
next
  case (JString s)
  show ?case
    by (rule scalar_printed) (simp add: parse_scalar_def json_quote_def json_string_escaped)
next
  case (JArray vs)
  then show ?case by (intro array_printed) (auto simp: list_all_iff)
next
  case (JObject m)
  then show ?case by (intro object_printed) (fastforce simp: list_all_iff)+
qed

lemma printed_parses:
  assumes "json_ok nf v"
  shows "json_parse nf (stringify nf v) = Some (Inr v)"
proof -
  let ?s = "stringify nf v"
  have "parse_value nf (length ?s) (Suc (2 * length ?s)) (?s @ []) = Some (Inr (v, []))"
    by (rule reads_backD [OF printed_reads_back [OF assms]]) simp_all
  then show ?thesis by (simp add: json_parse_def whitespace_def del: parse_value.simps)
qed


definition example_format :: "int number_format" where
  "example_format = \<lparr>nf_stod = (\<lambda>s. case s of c # ds \<Rightarrow> if c = CHR ''-'' then Inr (- int (undec 0 ds))
       else Inr (int (undec 0 (c # ds))) | [] \<Rightarrow> Inl ''stod''),
     nf_integer = Some, nf_print = (\<lambda>_. []), nf_of_int = (\<lambda>i. i), nf_to_int = (\<lambda>i. i)\<rparr>"


subsection \<open>What the parser returns\<close>

fun json_wf :: "'d Value \<Rightarrow> bool" where
  "json_wf (JArray vs) = list_all json_wf vs"
| "json_wf (JObject m) = (omap_wf m \<and> list_all (\<lambda>(k, v). json_wf v) m)"
| "json_wf v = True"

lemma parse_scalar_wf: "parse_scalar nf n c r = Inr (v, r') \<Longrightarrow> json_wf v"
  by (auto simp: parse_scalar_def json_fail_def json_literal_def json_number_def split_def Let_def
      split: if_splits sum.splits)

lemma members_wf: "json_wf (JObject m) \<Longrightarrow> json_wf v \<Longrightarrow> json_wf (JObject (assign k v m))"
  using set_assign_subset [of k v m] by (auto simp: list_all_iff)

lemma parse_wf:
  "(parse_value nf n fuel s = Some (Inr (v, r)) \<longrightarrow> json_wf v)
   \<and> (parse_members nf n fuel m s = Some (Inr (v, r)) \<longrightarrow> json_wf (JObject m) \<longrightarrow> json_wf v)
   \<and> (parse_elements nf n fuel vs s = Some (Inr (v, r)) \<longrightarrow> list_all json_wf vs \<longrightarrow> json_wf v)"
proof (induction fuel arbitrary: s v r m vs)
  case (Suc fuel)
  have V: "parse_value nf n fuel s = Some (Inr (v, r)) \<Longrightarrow> json_wf v"
    and M: "parse_members nf n fuel m s = Some (Inr (v, r)) \<Longrightarrow> json_wf (JObject m) \<Longrightarrow> json_wf v"
    and E: "parse_elements nf n fuel vs s = Some (Inr (v, r)) \<Longrightarrow> list_all json_wf vs \<Longrightarrow> json_wf v" for s v r m vs
    using Suc by blast+
  have "json_wf v" if "parse_value nf n (Suc fuel) s = Some (Inr (v, r))"
    using that by (auto simp: json_fail_def Let_def split_def split: list.splits if_splits
        dest: parse_scalar_wf elim!: M E)
  moreover have "json_wf v" if "parse_members nf n (Suc fuel) m s = Some (Inr (v, r))" "json_wf (JObject m)"
    using that members_wf [OF that(2) V]
    by (fastforce simp: json_fail_def Let_def split_def simp del: json_wf.simps
        split: list.splits if_splits sum.splits option.splits elim!: M)
  moreover have "json_wf v" if "parse_elements nf n (Suc fuel) vs s = Some (Inr (v, r))" "list_all json_wf vs"
    using that V by (fastforce simp: json_fail_def Let_def split_def split: if_splits sum.splits option.splits elim!: E)
  ultimately show ?case by blast
qed simp

text \<open>C28. The parser is total and well-typed: for every text it ends with a value or an error, and in a
  value every object, at any depth, is an ordered map without duplicate keys.\<close>

theorem json_parse_total:
  "case json_parse nf s of None \<Rightarrow> False | Some (Inl message) \<Rightarrow> True | Some (Inr v) \<Rightarrow> json_wf v"
proof -
  obtain p where p: "parse_value nf (length s) (Suc (2 * length s)) s = Some p"
    using parse_enough_fuel [of s "Suc (2 * length s)" nf "length s"] by auto
  show ?thesis
    using parse_wf [THEN conjunct1, rule_format, of nf "length s" "Suc (2 * length s)" s] p
    by (cases p) (auto simp: json_parse_def json_fail_def Let_def simp del: parse_value.simps split: if_splits)
qed

text \<open>A pair of surrogates is not combined: it becomes two sequences of three bytes, which UTF-8 does not
  allow.\<close>

lemma surrogates_not_combined:
  "json_string n [] ([backslash] @ ''ud83d'' @ [backslash] @ ''ude00'' @ [quote_char])
     = Inr (map char_of [0xED, 0xA0, 0xBD, 0xED, 0xB8, 0x80 :: nat], [])"
  by (simp add: simple_escape_def hex_digit_value_def codepoint_bytes_def)

end
