(* ===== verification/Capi_Registries.thy ===== *)
theory Capi_Registries
  imports Compiler_Session Json
begin

section \<open>Handles of the C interface\<close>

text \<open>
  source/abi/CapiRegistries.cpp and CapiRegistries.h: the tables behind the handles that the C interface gives
  out for sessions and for results. Both count handles in a 32-bit word that wraps around; every operation
  holds the table's mutex and is one step. A C string is the list of its bytes, a null result \<open>None\<close>.

  The laws that both tables promise to their clients are a locale, interpreted on either table: an entry is
  found under the handle that was given out for it, and neither a new nor a destroyed handle disturbs the
  others, as long as fewer than \<open>2 ^ 32\<close> entries were made.
\<close>

record 'a registry =
  rg_values :: "(u32, 'a) omap"
  rg_next :: u32

definition empty_registry :: "'a registry" where
  "empty_registry = \<lparr>rg_values = [], rg_next = 1\<rparr>"

subsection \<open>The two tables\<close>

definition registry_create ::
  "CompilerSessionState \<Rightarrow> CompilerSessionState registry \<Rightarrow> u32 \<times> CompilerSessionState registry" where
  "registry_create session r =
     (let handle = rg_next r
      in (handle, \<lparr>rg_values = assign handle session (rg_values r), rg_next = rg_next r + 1\<rparr>))"

definition registry_destroy :: "u32 \<Rightarrow> CompilerSessionState registry \<Rightarrow> CompilerSessionState registry" where
  "registry_destroy handle r = r\<lparr>rg_values := erase handle (rg_values r)\<rparr>"

definition registry_get :: "u32 \<Rightarrow> CompilerSessionState registry \<Rightarrow> CompilerSessionState option" where
  "registry_get handle r = map_of (rg_values r) handle"

definition storeJson :: "string \<Rightarrow> string registry \<Rightarrow> u32 \<times> string registry" where
  "storeJson text r =
     (let handle = rg_next r
      in (handle, \<lparr>rg_values = assign handle text (rg_values r), rg_next = rg_next r + 1\<rparr>))"

definition store :: "'d number_format \<Rightarrow> 'd Value \<Rightarrow> string registry \<Rightarrow> u32 \<times> string registry" where
  "store nf v r = storeJson (stringify nf v) r"

definition result_json :: "u32 \<Rightarrow> string registry \<Rightarrow> string option \<times> nat" where
  "result_json handle r =
     (case map_of (rg_values r) handle of None \<Rightarrow> (None, 0) | Some text \<Rightarrow> (Some text, length text))"

definition result_destroy :: "u32 \<Rightarrow> string registry \<Rightarrow> string registry" where
  "result_destroy handle r = r\<lparr>rg_values := erase handle (rg_values r)\<rparr>"

subsection \<open>The contract of a table\<close>

definition registry_inv :: "nat \<Rightarrow> 'a registry \<Rightarrow> bool" where
  "registry_inv made r \<longleftrightarrow>
     omap_wf (rg_values r) \<and> (made < 2 ^ 32 - 1 \<longrightarrow>
       unat (rg_next r) = made + 1 \<and> (\<forall>h \<in> fst ` set (rg_values r). h \<noteq> 0 \<and> h < rg_next r))"

locale handle_table =
  fixes insert_entry :: "'a \<Rightarrow> 'a registry \<Rightarrow> u32 \<times> 'a registry"
    and delete_entry :: "u32 \<Rightarrow> 'a registry \<Rightarrow> 'a registry"
    and find_entry :: "u32 \<Rightarrow> 'a registry \<Rightarrow> 'a option"
  assumes insert_law: "insert_entry x r =
      (rg_next r, \<lparr>rg_values = assign (rg_next r) x (rg_values r), rg_next = rg_next r + 1\<rparr>)"
    and delete_law: "delete_entry h r = r\<lparr>rg_values := erase h (rg_values r)\<rparr>"
    and find_law: "find_entry h r = map_of (rg_values r) h"
begin

lemma find_inserted: "insert_entry x r = (h, r') \<Longrightarrow> find_entry h r' = Some x"
  by (auto simp: insert_law find_law)

lemma find_other: "insert_entry x r = (h, r') \<Longrightarrow> g \<noteq> h \<Longrightarrow> find_entry g r' = find_entry g r"
  by (auto simp: insert_law find_law)

lemma find_deleted: "find_entry g (delete_entry h r) = (if g = h then None else find_entry g r)"
  by (simp add: delete_law find_law)

lemma inserted_fresh:
  assumes "registry_inv made r" and "made < 2 ^ 32 - 1" and "insert_entry x r = (h, r')"
  shows "h \<noteq> 0 \<and> find_entry h r = None"
proof -
  have h: "h = rg_next r" using assms(3) by (simp add: insert_law)
  have "unat h = made + 1" using assms(1,2) by (simp add: registry_inv_def h)
  moreover have "rg_next r \<notin> fst ` set (rg_values r)" using assms(1,2) by (auto simp: registry_inv_def)
  ultimately show ?thesis by (auto simp: find_law h lookup_None_iff)
qed

lemma insert_inv: "registry_inv made r \<Longrightarrow> insert_entry x r = (h, r') \<Longrightarrow> registry_inv (Suc made) r'"
proof -
  assume inv: "registry_inv made r" and "insert_entry x r = (h, r')"
  then have r': "r' = \<lparr>rg_values = assign (rg_next r) x (rg_values r), rg_next = rg_next r + 1\<rparr>"
    by (auto simp: insert_law)
  show "registry_inv (Suc made) r'"
  proof (cases "Suc made < 2 ^ 32 - 1")
    case True
    then have old: "unat (rg_next r) = made + 1" "\<forall>h \<in> fst ` set (rg_values r). h \<noteq> 0 \<and> h < rg_next r"
      using inv by (auto simp: registry_inv_def)
    have succ: "unat (rg_next r + 1) = Suc (unat (rg_next r))"
      using old(1) True by (simp add: unat_word_ariths(1))
    then have "rg_next r < rg_next r + 1" by (simp add: word_less_nat_alt)
    then show ?thesis
      using inv old succ by (auto simp: registry_inv_def r' intro: less_trans)
  next
    case False
    then show ?thesis using inv by (simp add: registry_inv_def r')
  qed
qed

lemma delete_inv: "registry_inv made r \<Longrightarrow> registry_inv made (delete_entry h r)"
  by (auto simp: registry_inv_def delete_law)

end

interpretation session_table: handle_table registry_create registry_destroy registry_get
  by unfold_locales (simp_all add: registry_create_def registry_destroy_def registry_get_def Let_def)

interpretation result_table: handle_table storeJson result_destroy "\<lambda>h r. fst (result_json h r)"
  by unfold_locales (simp_all add: storeJson_def result_destroy_def result_json_def Let_def split: option.splits)

lemma registry_inv_empty [simp]: "registry_inv 0 empty_registry"
  by (simp add: registry_inv_def empty_registry_def)

text \<open>The counter wraps around: after the last handle comes the handle 0, and then handles that may still be in
  use, whose entries are replaced.\<close>

lemma handles_wrap:
  "registry_create s \<lparr>rg_values = [(1, t)], rg_next = 0xFFFFFFFF\<rparr>
     = (0xFFFFFFFF, \<lparr>rg_values = [(1, t), (0xFFFFFFFF, s)], rg_next = 0\<rparr>)"
  "registry_create s \<lparr>rg_values = [(1, t)], rg_next = 1\<rparr> = (1, \<lparr>rg_values = [(1, s)], rg_next = 2\<rparr>)"
  by (simp_all add: registry_create_def Let_def)

end
