(* ===== verification/Formatter.thy ===== *)
theory Formatter
  imports Parser_Messages
begin

section \<open>The formatter\<close>

text \<open>
  source/core/Formatter.cpp: decoding of the input, validation by the parser on a copy without
  comments, and the line-by-line layout in the style of ili2c. The generated lexer and parser are the
  argument \<open>recognise\<close>: for a text they throw (the message of the exception) or report a list of
  syntax errors, each with the position, the message of the runtime and the text of the offending
  token. \<open>SyntaxErrorCollector\<close>, which turns those errors into diagnostics, is modelled. A byte
  masked with \<open>0xe0\<close>, \<open>0xf0\<close>, \<open>0xf8\<close> or \<open>0xc0\<close> is compared through its leading bits, as a
  quotient by a power of two.

  The results: formatting changes white space only; its output is valid UTF-8 whatever the input;
  when it applies is characterised exactly; formatted text is a fixed point unless a meta attribute
  ends in an equals sign; and the copy handed to the parser keeps every position.
\<close>

record FormatOptions =
  fo_indentSize :: nat
  fo_requireValidSyntax :: bool

record FormatResult =
  fr_success :: bool
  fr_applicable :: bool
  fr_changed :: bool
  fr_text :: string
  fr_diagnostics :: "Diagnostic list"

record syntax_error =
  se_offending :: "string option"
  se_line :: nat
  se_column :: nat
  se_message :: string

abbreviation newline_char :: char where
  "newline_char \<equiv> CHR 0x0A"

abbreviation return_char :: char where
  "return_char \<equiv> CHR 0x0D"

subsection \<open>Lines and words\<close>

definition syntaxError :: "string \<Rightarrow> syntax_error \<Rightarrow> Diagnostic" where
  "syntaxError uri e =
     (let translation = translateParserDiagnostic (se_message e)
            (case se_offending e of None \<Rightarrow> [] | Some t \<Rightarrow> t);
          start = \<lparr>po_line = (if se_line e = 0 then 0 else se_line e - 1), po_character = se_column e,
                   po_byteOffset = 0\<rparr>;
          width = (case se_offending e of None \<Rightarrow> 1 | Some t \<Rightarrow> max 1 (length t))
      in default_diagnostic\<lparr>
           dg_code := pt_code translation,
           dg_message := pt_message translation,
           dg_range := \<lparr>sr_uri = uri, sr_start = start,
                        sr_end = start\<lparr>po_character := se_column e + width\<rparr>, sr_valid = True\<rparr>,
           dg_source := ''compiler'',
           dg_phase := PhSyntax\<rparr>)"

definition trim :: "string \<Rightarrow> string" where
  "trim s = rev (dropWhile is_space (rev (dropWhile is_space s)))"

definition startsWord :: "string \<Rightarrow> string \<Rightarrow> bool" where
  "startsWord line word \<longleftrightarrow>
     starts_with word line
     \<and> (case drop (length word) line of [] \<Rightarrow> True | c # _ \<Rightarrow> \<not> is_alnum c)"

definition block_words :: "string list" where
  "block_words =
     [''MODEL'', ''TYPE MODEL'', ''REFSYSTEM MODEL'', ''SYMBOLOGY MODEL'', ''TOPIC'', ''VIEW TOPIC'',
      ''CLASS'', ''STRUCTURE'', ''ASSOCIATION'', ''VIEW'', ''GRAPHIC'', ''CONSTRAINTS OF'']"

definition opensNamedBlock :: "string \<Rightarrow> bool" where
  "opensNamedBlock line \<longleftrightarrow>
     list_ex (\<lambda>word. startsWord line word \<or> contains_sub ('' '' @ word @ '' '') line) block_words
     \<and> (startsWord line ''VIEW'' \<and> last line \<noteq> CHR '';'' \<and> CHR ''='' \<notin> set line
        \<or> line \<noteq> [] \<and> last line = CHR ''='')"

definition canonicalMetaAttribute :: "string \<Rightarrow> string" where
  "canonicalMetaAttribute line =
     (if \<not> starts_with ''!!@'' line then line
      else
        let v = trim (drop 3 line) in
        if CHR ''='' \<notin> set v then ''!!@ '' @ v
        else
          let k = takeWhile (\<lambda>c. c \<noteq> CHR ''='') v
          in ''!!@ '' @ trim k @ ''='' @ trim (drop (length k + 1) v))"

definition drop_return :: "string \<Rightarrow> string" where
  "drop_return line = (if line \<noteq> [] \<and> last line = return_char then butlast line else line)"

definition getlines :: "string \<Rightarrow> string list" where
  "getlines s =
     (let parts = split_on newline_char s in if last parts = [] then butlast parts else parts)"

definition splitLines :: "string \<Rightarrow> string list" where
  "splitLines s = map drop_return (getlines s)"

fun count_endings :: "bool \<Rightarrow> nat \<Rightarrow> nat \<Rightarrow> string \<Rightarrow> nat \<times> nat" where
  "count_endings afterReturn crlf lf [] = (crlf, lf)"
| "count_endings afterReturn crlf lf (c # s) =
     (if c \<noteq> newline_char then count_endings (c = return_char) crlf lf s
      else if afterReturn then count_endings False (crlf + 1) lf s
      else count_endings False crlf (lf + 1) s)"

definition dominantLineEnding :: "string \<Rightarrow> string" where
  "dominantLineEnding s =
     (let (crlf, lf) = count_endings False 0 0 s in
      if crlf > lf then [return_char, newline_char] else [newline_char])"

subsection \<open>Encodings\<close>

definition trailing_bytes :: "nat \<Rightarrow> nat option" where
  "trailing_bytes lead =
     (if lead div 32 = 6 then Some 1
      else if lead div 16 = 14 then Some 2
      else if lead div 8 = 30 then Some 3
      else None)"

definition is_continuation :: "char \<Rightarrow> bool" where
  "is_continuation c \<longleftrightarrow> byte_of c div 64 = 2"

function isValidUtf8 :: "string \<Rightarrow> bool" where
  "isValidUtf8 [] = True"
| "isValidUtf8 (c # s) =
     (if byte_of c < 0x80 then isValidUtf8 s
      else case trailing_bytes (byte_of c) of
        None \<Rightarrow> False
      | Some n \<Rightarrow>
          n \<le> length s \<and> list_all is_continuation (take n s) \<and> isValidUtf8 (drop n s))"
  by pat_completeness auto
termination by (relation "measure length") auto

definition latin1ToUtf8 :: "string \<Rightarrow> string" where
  "latin1ToUtf8 s =
     concat (map (\<lambda>c. if byte_of c < 0x80 then [c]
                      else [char_of (0xc0 + byte_of c div 64), char_of (0x80 + byte_of c mod 64)]) s)"

subsection \<open>The copy without comments\<close>

definition blank_unless_break :: "char \<Rightarrow> char" where
  "blank_unless_break c = (if c \<noteq> return_char \<and> c \<noteq> newline_char then CHR '' '' else c)"

definition line_break :: "char \<Rightarrow> bool" where
  "line_break c \<longleftrightarrow> c = return_char \<or> c = newline_char"

function comment_loop :: "bool \<Rightarrow> nat \<Rightarrow> string \<Rightarrow> string" where
  "comment_loop quoted blockDepth [] = []"
| "comment_loop quoted blockDepth (c # s) =
     (if blockDepth > 0 then
        (if starts_with ''/*'' (c # s) then ''  '' @ comment_loop quoted (blockDepth + 1) (tl s)
         else if starts_with ''*/'' (c # s) then ''  '' @ comment_loop quoted (blockDepth - 1) (tl s)
         else blank_unless_break c # comment_loop quoted blockDepth s)
      else if c = CHR 0x22 then c # comment_loop (\<not> quoted) blockDepth s
      else if \<not> quoted \<and> starts_with ''/*'' (c # s) then ''  '' @ comment_loop quoted 1 (tl s)
      else if \<not> quoted \<and> starts_with ''!!'' (c # s) then
        replicate (length (takeWhile (\<lambda>c. \<not> line_break c) (c # s))) (CHR '' '')
          @ comment_loop quoted blockDepth (dropWhile (\<lambda>c. \<not> line_break c) s)
      else c # comment_loop quoted blockDepth s)"
  by pat_completeness auto
termination
  by (relation "measure (\<lambda>(_, _, s). length s)") (auto simp: le_imp_less_Suc length_dropWhile_le)

definition withoutComments :: "string \<Rightarrow> string" where
  "withoutComments s = comment_loop False 0 s"

definition validate ::
  "(string \<Rightarrow> string + syntax_error list) \<Rightarrow> string \<Rightarrow> string \<Rightarrow> string + Diagnostic list" where
  "validate recognise uri s =
     (case recognise (withoutComments s) of
        Inl message \<Rightarrow> Inl message
      | Inr errors \<Rightarrow> Inr (map (syntaxError uri) errors))"

subsection \<open>Layout\<close>

record layout_state =
  ls_output :: string
  ls_indent :: nat
  ls_inBlockComment :: bool
  ls_previousBlank :: bool

definition closesBlock :: "string \<Rightarrow> bool" where
  "closesBlock line \<longleftrightarrow> startsWord line ''END'' \<or> hd line = CHR 0x29"

definition comment_after :: "bool \<Rightarrow> string \<Rightarrow> bool" where
  "comment_after inBlockComment line =
     (let inside = inBlockComment \<or> starts_with ''/*'' line \<and> \<not> contains_sub ''*/'' (drop 2 line)
      in inside \<and> \<not> contains_sub ''*/'' line)"

definition indent_after :: "nat \<Rightarrow> string \<Rightarrow> nat" where
  "indent_after indent line =
     (if opensNamedBlock line then indent + 1
      else if last line = CHR 0x28 then indent + 1
      else indent)"

definition format_line :: "FormatOptions \<Rightarrow> string \<Rightarrow> layout_state \<Rightarrow> string \<Rightarrow> layout_state" where
  "format_line options newline st original =
     (let line = trim original in
      if line = [] then
        st\<lparr>ls_output := ls_output st @ (if ls_previousBlank st then [] else newline),
           ls_previousBlank := True\<rparr>
      else
        let commentContinuation = ls_inBlockComment st \<and> hd line = CHR ''*'';
            indent = (if closesBlock line \<and> ls_indent st > 0 then ls_indent st - 1 else ls_indent st);
            written = concat (replicate indent (replicate (fo_indentSize options) (CHR '' '')))
                      @ (if commentContinuation then '' '' else []) @ canonicalMetaAttribute line @ newline
        in \<lparr>ls_output = ls_output st @ written,
            ls_indent = indent_after indent line,
            ls_inBlockComment = comment_after (ls_inBlockComment st) line,
            ls_previousBlank = False\<rparr>)"

definition initial_layout :: layout_state where
  "initial_layout = \<lparr>ls_output = [], ls_indent = 0, ls_inBlockComment = False, ls_previousBlank = False\<rparr>"

definition layout :: "FormatOptions \<Rightarrow> string \<Rightarrow> string" where
  "layout options source =
     ls_output (foldl (format_line options (dominantLineEnding source)) initial_layout (splitLines source))"

definition encoding_warning :: Diagnostic where
  "encoding_warning = default_diagnostic\<lparr>dg_severity := SevWarning, dg_code := ''ILIC-FORMAT-ENCODING'',
     dg_message := ''input was converted from ISO-8859-1 to UTF-8''\<rparr>"

definition version_error :: Diagnostic where
  "version_error = default_diagnostic\<lparr>dg_code := ''ILIC-FORMAT-VERSION'',
     dg_message := ''Ili2cStyle formatting currently supports INTERLIS 2.3 and 2.4''\<rparr>"

definition decode_error :: "string \<Rightarrow> Diagnostic" where
  "decode_error message = default_diagnostic\<lparr>dg_code := ''ILIC-PARSE-ENCODING'',
     dg_message := ''unable to decode source as UTF-8: '' @ message\<rparr>"

definition decoded_source :: "string \<Rightarrow> string" where
  "decoded_source utf8 = (if isValidUtf8 utf8 then utf8 else latin1ToUtf8 utf8)"

definition supported_version :: "string \<Rightarrow> bool" where
  "supported_version source \<longleftrightarrow>
     contains_sub ''INTERLIS 2.3'' source \<or> contains_sub ''INTERLIS 2.4'' source"

definition format ::
  "(string \<Rightarrow> string + syntax_error list) \<Rightarrow> string \<Rightarrow> string \<Rightarrow> FormatOptions \<Rightarrow> FormatResult" where
  "format recognise uri utf8 options =
     (let source = decoded_source utf8;
          warnings = (if isValidUtf8 utf8 then [] else [encoding_warning]);
          unformatted = (\<lambda>ds. \<lparr>fr_success = False, fr_applicable = False, fr_changed = False,
                               fr_text = source, fr_diagnostics = ds\<rparr>)
      in
      if \<not> supported_version source then unformatted (warnings @ [version_error])
      else
        let ds = (if \<not> fo_requireValidSyntax options then warnings
                  else case validate recognise uri source of
                    Inl message \<Rightarrow> warnings @ [decode_error message]
                  | Inr syntax \<Rightarrow> warnings @ syntax)
        in
        if fo_requireValidSyntax options \<and> list_ex (\<lambda>d. dg_severity d = SevError) ds then unformatted ds
        else
          let result = layout options source
          in \<lparr>fr_success = True, fr_applicable = True, fr_changed = result \<noteq> utf8, fr_text = result,
              fr_diagnostics = ds\<rparr>)"

subsection \<open>White space\<close>

definition ink :: "string \<Rightarrow> string" where
  "ink s = filter (\<lambda>c. \<not> is_space c) s"

lemma ink_simps [simp]:
  "ink [] = []" "ink (s @ t) = ink s @ ink t" "ink (c # s) = (if is_space c then ink s else c # ink s)"
  by (simp_all add: ink_def)

lemma ink_spaces [simp]: "list_all is_space s \<Longrightarrow> ink s = []"
  by (auto simp: ink_def list_all_iff)

lemma spaces [simp]:
  "is_space (CHR '' '')" "is_space newline_char" "is_space return_char"
  "\<not> is_space (CHR ''='')" "\<not> is_space (CHR ''!'')" "\<not> is_space (CHR 0x40)"
  by (simp_all add: is_space_def)

lemma list_all_takeWhile [simp]: "list_all P (takeWhile P s)"
  by (auto simp: list_all_iff dest: set_takeWhileD)

lemma trim_split:
  obtains a b where "s = a @ trim s @ b" "list_all is_space a" "list_all is_space b"
proof -
  let ?t = "dropWhile is_space s" and ?u = "dropWhile is_space (rev (dropWhile is_space s))"
  have "?t = rev (takeWhile is_space (rev ?t) @ ?u)" by (metis rev_rev_ident takeWhile_dropWhile_id)
  then have "s = takeWhile is_space s @ trim s @ rev (takeWhile is_space (rev ?t))"
    by (metis rev_append takeWhile_dropWhile_id trim_def)
  moreover have "list_all is_space (rev (takeWhile is_space (rev ?t)))"
    by (auto simp: list_all_iff dest: set_takeWhileD)
  ultimately show ?thesis using that by simp
qed

lemma ink_trim [simp]: "ink (trim s) = ink s"
proof (rule trim_split [of s])
  fix a b
  assume "s = a @ trim s @ b" "list_all is_space a" "list_all is_space b"
  then have "ink s = ink (a @ trim s @ b)" by simp
  then show ?thesis using \<open>list_all is_space a\<close> \<open>list_all is_space b\<close> by simp
qed

lemma equals_split:
  "CHR ''='' \<in> set v \<Longrightarrow>
    takeWhile (\<lambda>c. c \<noteq> CHR ''='') v @ ''='' @ drop (length (takeWhile (\<lambda>c. c \<noteq> CHR ''='') v) + 1) v = v"
  by (induction v) auto

lemma ink_canonical [simp]: "ink (canonicalMetaAttribute line) = ink line"
proof (cases "starts_with ''!!@'' line")
  case True
  then obtain w where w: "line = ''!!@'' @ w" by (auto simp: starts_with_iff)
  let ?v = "trim w" and ?k = "takeWhile (\<lambda>c. c \<noteq> CHR ''='') (trim w)"
  have "ink ?k @ ''='' @ ink (drop (length ?k + 1) ?v) = ink w" if "CHR ''='' \<in> set ?v"
    using arg_cong [OF equals_split [OF that], of ink] by simp
  then show ?thesis by (simp add: canonicalMetaAttribute_def w Let_def)
qed (simp add: canonicalMetaAttribute_def)

lemma ink_drop_return [simp]: "ink (drop_return line) = ink line"
  by (cases line rule: rev_cases) (simp_all add: drop_return_def)

lemma ink_join: "is_space d \<Longrightarrow> ink (join_with d ps) = concat (map ink ps)"
  by (induction d ps rule: join_with.induct) simp_all

lemma ink_splitLines: "concat (map ink (splitLines s)) = ink s"
proof -
  let ?ps = "split_on newline_char s"
  have "concat (map ink ?ps) = ink s" using ink_join [of newline_char ?ps] by simp
  moreover have "concat (map ink (butlast ?ps)) = concat (map ink ?ps)" if "last ?ps = []"
    using that arg_cong [OF append_butlast_last_id [OF split_on_nonempty], of "\<lambda>x. concat (map ink x)" newline_char s]
    by simp
  moreover have "concat (map ink (splitLines s)) = concat (map ink (getlines s))"
    by (simp add: splitLines_def comp_def)
  ultimately show ?thesis by (simp add: getlines_def Let_def)
qed

lemma ink_dominant [simp]: "ink (dominantLineEnding s) = []"
  by (simp add: dominantLineEnding_def split_def Let_def)

lemma ink_replicate [simp]: "ink (concat (replicate n (replicate m (CHR '' '')))) = []"
  by (intro ink_spaces) (auto simp: list_all_iff)

lemma trim_empty: "trim s = [] \<Longrightarrow> ink s = []"
  using ink_trim [of s] by simp

lemma ink_format_line:
  "ink newline = [] \<Longrightarrow> ink (ls_output (format_line options newline st original)) = ink (ls_output st) @ ink original"
  by (simp add: format_line_def Let_def trim_empty)

lemma ink_layout: "ink (layout options source) = ink source"
proof -
  have "ink newline = [] \<Longrightarrow>
    ink (ls_output (foldl (format_line options newline) st lines)) = ink (ls_output st) @ concat (map ink lines)"
    for newline st lines
    by (induction lines arbitrary: st) (simp_all add: ink_format_line)
  then show ?thesis by (simp add: layout_def initial_layout_def ink_splitLines)
qed

text \<open>C10. Formatting changes white space only: whatever the parser reports and whichever branch is taken,
  the text of the result has the same characters other than white space, in the same order, as the
  (decoded) input.\<close>

theorem format_preserves_text:
  "filter (\<lambda>c. \<not> is_space c) (fr_text (format recognise uri utf8 options))
     = filter (\<lambda>c. \<not> is_space c) (decoded_source utf8)"
proof -
  have "ink (fr_text (format recognise uri utf8 options)) = ink (decoded_source utf8)"
    by (simp add: format_def Let_def ink_layout)
  then show ?thesis by (simp add: ink_def)
qed

subsection \<open>Valid UTF-8\<close>

lemma valid_append_ascii:
  assumes "byte_of c < 128"
  shows "isValidUtf8 (a @ c # b) \<longleftrightarrow> isValidUtf8 a \<and> isValidUtf8 b"
proof (induction a rule: isValidUtf8.induct)
  case 1
  then show ?case using assms by simp
next
  case (2 x s)
  show ?case
  proof (cases "byte_of x < 128 \<or> trailing_bytes (byte_of x) = None")
    case True
    then show ?thesis using 2 by (auto split: option.splits)
  next
    case False
    then obtain n where n: "trailing_bytes (byte_of x) = Some n" by auto
    show ?thesis
    proof (cases "n \<le> length s")
      case True
      then show ?thesis using 2 False n by simp
    next
      case long: False
      have "\<not> is_continuation c" using assms by (simp add: is_continuation_def)
      moreover have "take n (s @ c # b) = s @ c # take (n - length s - 1) b"
        using long by (simp add: take_Cons')
      ultimately show ?thesis using long False n by simp
    qed
  qed
qed

lemma valid_ascii [simp]: "list_all (\<lambda>c. byte_of c < 128) s \<Longrightarrow> isValidUtf8 s"
  by (induction s) auto

lemma space_ascii: "is_space c \<Longrightarrow> byte_of c < 128"
  by (auto simp: is_space_def)

lemma valid_ascii_prefix: "list_all (\<lambda>c. byte_of c < 128) a \<Longrightarrow> isValidUtf8 (a @ s) \<longleftrightarrow> isValidUtf8 s"
  by (induction a) auto

lemma valid_ascii_suffix: "list_all (\<lambda>c. byte_of c < 128) b \<Longrightarrow> isValidUtf8 (s @ b) \<longleftrightarrow> isValidUtf8 s"
  by (cases b) (auto simp: valid_append_ascii)

lemma spaces_ascii: "list_all is_space s \<Longrightarrow> list_all (\<lambda>c. byte_of c < 128) s"
  using space_ascii by (auto simp: list_all_iff)

lemma valid_trim [simp]: "isValidUtf8 (trim s) \<longleftrightarrow> isValidUtf8 s"
proof (rule trim_split [of s])
  fix a b
  assume s: "s = a @ trim s @ b" "list_all is_space a" "list_all is_space b"
  then show ?thesis
    by (metis spaces_ascii valid_ascii_prefix valid_ascii_suffix)
qed

lemma valid_join: "byte_of d < 128 \<Longrightarrow> isValidUtf8 (join_with d ps) \<longleftrightarrow> list_all isValidUtf8 ps"
  by (induction d ps rule: join_with.induct) (simp_all add: valid_append_ascii)

lemma valid_drop_return: "isValidUtf8 line \<Longrightarrow> isValidUtf8 (drop_return line)"
  using valid_ascii_suffix [of "[return_char]"]
  by (cases line rule: rev_cases) (auto simp: drop_return_def)

lemma valid_splitLines:
  assumes "isValidUtf8 s"
  shows "list_all isValidUtf8 (splitLines s)"
proof -
  have "list_all isValidUtf8 (split_on newline_char s)"
    using assms valid_join [of newline_char "split_on newline_char s"] by simp
  then show ?thesis
    by (auto simp: splitLines_def getlines_def Let_def list_all_iff intro!: valid_drop_return dest: in_set_butlastD)
qed

lemma valid_canonical [simp]: "isValidUtf8 line \<Longrightarrow> isValidUtf8 (canonicalMetaAttribute line)"
proof (cases "starts_with ''!!@'' line")
  case True
  assume valid: "isValidUtf8 line"
  from True obtain w where w: "line = ''!!@'' @ w" by (auto simp: starts_with_iff)
  let ?v = "trim w" and ?k = "takeWhile (\<lambda>c. c \<noteq> CHR ''='') (trim w)"
  have v: "isValidUtf8 ?v" using valid w by simp
  have "isValidUtf8 ?k \<and> isValidUtf8 (drop (length ?k + 1) ?v)" if "CHR ''='' \<in> set ?v"
    using v equals_split [OF that] valid_append_ascii [of "CHR ''=''" ?k "drop (length ?k + 1) ?v"] by simp
  then show ?thesis
    using v by (simp add: canonicalMetaAttribute_def w Let_def valid_append_ascii)
qed (simp add: canonicalMetaAttribute_def)

lemma dominant_cases: "dominantLineEnding s = [newline_char] \<or> dominantLineEnding s = [return_char, newline_char]"
  by (simp add: dominantLineEnding_def split_def Let_def)

lemma ascii_indent: "list_all (\<lambda>c. byte_of c < 128) (concat (replicate n (replicate m (CHR '' ''))))"
  by (auto simp: list_all_iff)

subsection \<open>The output as a list of lines\<close>

definition outdent :: "nat \<Rightarrow> string \<Rightarrow> nat" where
  "outdent indent line = (if closesBlock line \<and> indent > 0 then indent - 1 else indent)"

definition indented :: "FormatOptions \<Rightarrow> nat \<Rightarrow> bool \<Rightarrow> string \<Rightarrow> string" where
  "indented options indent inside line =
     concat (replicate indent (replicate (fo_indentSize options) (CHR '' '')))
     @ (if inside \<and> hd line = CHR ''*'' then '' '' else []) @ canonicalMetaAttribute line"

fun laid_out :: "FormatOptions \<Rightarrow> nat \<Rightarrow> bool \<Rightarrow> bool \<Rightarrow> string list \<Rightarrow> string list" where
  "laid_out options indent inside blank [] = []"
| "laid_out options indent inside blank (original # lines) =
     (let line = trim original; below = outdent indent line in
      if line = [] then (if blank then [] else [[]]) @ laid_out options indent inside True lines
      else indented options below inside line
             # laid_out options (indent_after below line) (comment_after inside line) False lines)"

lemma output_lines:
  "ls_output (foldl (format_line options newline) st lines)
     = ls_output st @ concat (map (\<lambda>l. l @ newline)
         (laid_out options (ls_indent st) (ls_inBlockComment st) (ls_previousBlank st) lines))"
  by (induction lines arbitrary: st) (simp_all add: format_line_def Let_def outdent_def indented_def)

lemma layout_lines:
  "layout options source
     = concat (map (\<lambda>l. l @ dominantLineEnding source) (laid_out options 0 False False (splitLines source)))"
  by (simp add: layout_def initial_layout_def output_lines)

lemma laid_out_all:
  assumes "P []" and "\<And>l n b. l \<in> set lines \<Longrightarrow> trim l \<noteq> [] \<Longrightarrow> P (indented options n b (trim l))"
  shows "list_all P (laid_out options indent inside blank lines)"
  using assms by (induction lines arbitrary: indent inside blank) (auto simp: Let_def)

lemma valid_indented: "isValidUtf8 line \<Longrightarrow> isValidUtf8 (indented options n b line)"
  by (simp add: indented_def valid_ascii_prefix [OF ascii_indent])

lemma valid_lines:
  "newline = [newline_char] \<or> newline = [return_char, newline_char] \<Longrightarrow> list_all isValidUtf8 ls \<Longrightarrow>
    isValidUtf8 (concat (map (\<lambda>l. l @ newline) ls))"
  by (induction ls) (auto simp: valid_append_ascii)

lemma valid_layout:
  assumes "isValidUtf8 source"
  shows "isValidUtf8 (layout options source)"
proof -
  have "list_all isValidUtf8 (laid_out options 0 False False (splitLines source))"
    using valid_splitLines [OF assms] by (intro laid_out_all) (auto simp: valid_indented list_all_iff)
  then show ?thesis unfolding layout_lines by (rule valid_lines [OF dominant_cases])
qed

lemma byte_bound: "byte_of c < 256"
  using of_char_mod_256 [of c, where 'a = nat] by (metis mod_less_divisor zero_less_numeral)

lemma valid_two_bytes:
  fixes q r :: nat
  assumes "q = 2 \<or> q = 3" and "r < 64" and "isValidUtf8 s"
  shows "isValidUtf8 (char_of (0xc0 + q) # char_of (0x80 + r) # s)"
proof -
  have lead: "byte_of (char_of (0xc0 + q)) = 0xc0 + q" using assms(1) by auto
  have tail: "byte_of (char_of (0x80 + r)) = 0x80 + r" using assms(2) by simp
  have "trailing_bytes (0xc0 + q) = Some 1" using assms(1) by (auto simp: trailing_bytes_def)
  moreover have "(0x80 + r) div 64 = 2" using assms(2) by linarith
  ultimately show ?thesis using assms(3) lead tail by (simp add: is_continuation_def)
qed

lemma valid_latin1: "isValidUtf8 (latin1ToUtf8 s)"
proof (induction s)
  case (Cons c s)
  show ?case
  proof (cases "byte_of c < 128")
    case True
    then show ?thesis using Cons by (simp add: latin1ToUtf8_def)
  next
    case False
    have "byte_of c div 64 = 2 \<or> byte_of c div 64 = 3"
      using False byte_bound [of c] by linarith
    from valid_two_bytes [OF this, of "byte_of c mod 64" "latin1ToUtf8 s"] show ?thesis
      using Cons False by (simp add: latin1ToUtf8_def del: isValidUtf8.simps)
  qed
qed (simp add: latin1ToUtf8_def)

lemma valid_decoded: "isValidUtf8 (decoded_source utf8)"
  by (simp add: decoded_source_def valid_latin1)

subsection \<open>When formatting applies\<close>

definition format_accepts :: "(string \<Rightarrow> string + syntax_error list) \<Rightarrow> string \<Rightarrow> FormatOptions \<Rightarrow> bool" where
  "format_accepts recognise source options \<longleftrightarrow>
     supported_version source \<and> (fo_requireValidSyntax options \<longrightarrow> recognise (withoutComments source) = Inr [])"

lemma syntaxError_severity [simp]: "dg_severity (syntaxError uri e) = SevError"
  by (simp add: syntaxError_def Let_def default_diagnostic_def)

lemma diagnostic_severities [simp]:
  "dg_severity encoding_warning = SevWarning" "dg_severity version_error = SevError"
  "dg_severity (decode_error message) = SevError"
  by (simp_all add: encoding_warning_def version_error_def decode_error_def default_diagnostic_def)

lemma format_accepted:
  assumes "format_accepts recognise (decoded_source utf8) options"
  shows "format recognise uri utf8 options =
    \<lparr>fr_success = True, fr_applicable = True, fr_changed = layout options (decoded_source utf8) \<noteq> utf8,
     fr_text = layout options (decoded_source utf8),
     fr_diagnostics = (if isValidUtf8 utf8 then [] else [encoding_warning])\<rparr>"
  using assms by (auto simp: format_def format_accepts_def validate_def Let_def)

lemma format_refused:
  assumes "\<not> format_accepts recognise (decoded_source utf8) options"
  shows "\<exists>ds. format recognise uri utf8 options =
    \<lparr>fr_success = False, fr_applicable = False, fr_changed = False, fr_text = decoded_source utf8,
     fr_diagnostics = ds\<rparr> \<and> list_ex (\<lambda>d. dg_severity d = SevError) ds"
proof (cases "supported_version (decoded_source utf8)")
  case True
  then have req: "fo_requireValidSyntax options" "recognise (withoutComments (decoded_source utf8)) \<noteq> Inr []"
    using assms by (auto simp: format_accepts_def)
  show ?thesis
  proof (cases "recognise (withoutComments (decoded_source utf8))")
    case (Inl message)
    then show ?thesis using True req by (simp add: format_def Let_def validate_def)
  next
    case (Inr errors)
    then obtain e es where "errors = e # es" using req by (cases errors) auto
    then show ?thesis using True req Inr by (simp add: format_def Let_def validate_def)
  qed
qed (simp add: format_def Let_def)



subsection \<open>Positions in the copy without comments\<close>

definition kept_or_blank :: "char \<Rightarrow> char \<Rightarrow> bool" where
  "kept_or_blank c d \<longleftrightarrow> d = c \<or> d = CHR '' '' \<and> \<not> line_break c"

lemma list_all2_takeWhile_blank:
  "list_all2 kept_or_blank (takeWhile (\<lambda>c. \<not> line_break c) s)
     (replicate (length (takeWhile (\<lambda>c. \<not> line_break c) s)) (CHR '' ''))"
  by (induction s) (auto simp: kept_or_blank_def)

lemma kept_two_blanks:
  assumes "starts_with [x, y] (c # s)" and "\<not> line_break x" and "\<not> line_break y"
    and "list_all2 kept_or_blank (tl s) t"
  shows "list_all2 kept_or_blank (c # s) (''  '' @ t)"
  using assms by (cases s) (auto simp: kept_or_blank_def)

lemma kept_line_comment:
  assumes "\<not> line_break c"
    and "list_all2 kept_or_blank (dropWhile (\<lambda>c. \<not> line_break c) s) t"
  shows "list_all2 kept_or_blank (c # s)
    (replicate (length (takeWhile (\<lambda>c. \<not> line_break c) (c # s))) (CHR '' '') @ t)"
  using assms list_all2_appendI [OF list_all2_takeWhile_blank [of s] assms(2)]
  by (simp add: kept_or_blank_def)

lemma comment_marks: "\<not> line_break (CHR ''/'')" "\<not> line_break (CHR ''*'')" "\<not> line_break (CHR ''!'')"
  by (simp_all add: line_break_def)

lemma kept_one: "kept_or_blank c c" "kept_or_blank c (blank_unless_break c)"
  by (auto simp: kept_or_blank_def blank_unless_break_def line_break_def)

lemma comment_loop_positions: "list_all2 kept_or_blank s (comment_loop quoted blockDepth s)"
proof (induction quoted blockDepth s rule: comment_loop.induct)
  case (2 quoted blockDepth c s)
  note two = kept_two_blanks [of "CHR ''/''" "CHR ''*''" c s] kept_two_blanks [of "CHR ''*''" "CHR ''/''" c s]
  note rec = comment_loop.simps(2) [of quoted blockDepth c s]
  show ?case
  proof (cases "blockDepth > 0")
    case True
    then show ?thesis unfolding rec using 2(1-3) two comment_marks kept_one by (auto simp del: starts_with.simps)
  next
    case False
    have "\<not> line_break c" if "starts_with ''!!'' (c # s)" using that comment_marks by auto
    then show ?thesis
      unfolding rec using False 2(4-7) two comment_marks kept_one kept_line_comment [of c s]
      by (auto simp del: starts_with.simps takeWhile.simps)
  qed
qed simp

text \<open>The copy that is parsed keeps every position: it has the length of the text, every line break is
  where it was and no other is made, and every other byte is kept or replaced by a blank; so the lines and
  columns that the parser reports are positions of the text itself.\<close>

lemma withoutComments_positions:
  "length (withoutComments s) = length s
   \<and> list_all2 (\<lambda>c d. d = c \<or> d = CHR '' '' \<and> c \<noteq> return_char \<and> c \<noteq> newline_char) s (withoutComments s)
   \<and> map line_break (withoutComments s) = map line_break s"
proof -
  have kept: "list_all2 kept_or_blank s (withoutComments s)"
    unfolding withoutComments_def by (rule comment_loop_positions)
  have eq: "kept_or_blank = (\<lambda>c d. d = c \<or> d = CHR '' '' \<and> c \<noteq> return_char \<and> c \<noteq> newline_char)"
    by (auto simp: kept_or_blank_def line_break_def fun_eq_iff)
  have "line_break d = line_break c" if "kept_or_blank c d" for c d
    using that by (auto simp: kept_or_blank_def line_break_def)
  then have "list_all2 (\<lambda>d c. line_break d = line_break c) (withoutComments s) s"
    using kept by (simp add: list_all2_conv_all_nth)
  then have "map line_break (withoutComments s) = map line_break s"
    by (simp add: list_eq_iff_nth_eq list_all2_conv_all_nth)
  then show ?thesis using kept unfolding eq by (simp add: list_all2_lengthD)
qed

subsection \<open>Searching in formatted lines\<close>

text \<open>A needle that starts and ends with ink and has no line break, equals sign or at-sign is found in a
  formatted line exactly when it is found in the original.\<close>

definition needle :: "string \<Rightarrow> bool" where
  "needle p \<longleftrightarrow> p \<noteq> [] \<and> \<not> is_space (hd p) \<and> \<not> is_space (last p)
     \<and> newline_char \<notin> set p \<and> CHR ''='' \<notin> set p \<and> CHR 0x40 \<notin> set p"

lemma contains_iff: "contains_sub p s \<longleftrightarrow> (\<exists>a b. s = a @ p @ b)"
proof (induction s)
  case Nil
  then show ?case by (simp add: contains_sub_def)
next
  case (Cons c s)
  have "contains_sub p (c # s) \<longleftrightarrow> starts_with p (c # s) \<or> contains_sub p s"
    by (simp add: contains_sub_def)
  then show ?case
    unfolding Cons.IH starts_with_iff by (metis append_Cons append_Nil list.exhaust list.inject)
qed

lemma contains_separator:
  assumes "c \<notin> set p" and "p \<noteq> []"
  shows "contains_sub p (s @ c # t) \<longleftrightarrow> contains_sub p s \<or> contains_sub p t"
proof
  assume "contains_sub p (s @ c # t)"
  then obtain a b where ab: "s @ c # t = a @ p @ b" by (auto simp: contains_iff)
  then consider (left) u where "s = a @ u" "u @ c # t = p @ b" | (right) u where "s @ u = a" "c # t = u @ p @ b"
    by (auto simp: append_eq_append_conv2)
  then show "contains_sub p s \<or> contains_sub p t"
  proof cases
    case left
    then obtain v where "u = p @ v"
      using assms(1) by (auto simp: append_eq_append_conv2 Cons_eq_append_conv)
    with left show ?thesis by (auto simp: contains_iff)
  next
    case right
    then obtain v where "u = c # v" using assms by (cases u) (auto simp: Cons_eq_append_conv)
    with right have "t = v @ p @ b" by simp
    then show ?thesis by (auto simp: contains_iff)
  qed
next
  assume "contains_sub p s \<or> contains_sub p t"
  then show "contains_sub p (s @ c # t)"
    unfolding contains_iff by (metis append.assoc append_Cons)
qed

lemma contains_Cons: "p \<noteq> [] \<Longrightarrow> hd p \<noteq> c \<Longrightarrow> contains_sub p (c # s) \<longleftrightarrow> contains_sub p s"
  by (cases p) (auto simp: contains_sub_def)

lemma contains_snoc: "p \<noteq> [] \<Longrightarrow> last p \<noteq> c \<Longrightarrow> contains_sub p (s @ [c]) \<longleftrightarrow> contains_sub p s"
proof -
  assume p: "p \<noteq> []" "last p \<noteq> c"
  have "\<exists>b'. s = a @ p @ b'" if "s @ [c] = a @ p @ b" for a b
    using that p by (cases b rule: rev_cases) (auto simp: append_eq_append_conv2 append_eq_Cons_conv dest: arg_cong [of _ _ last])
  then show ?thesis unfolding contains_iff by (metis append.assoc)
qed

lemma contains_spaces:
  assumes "needle p"
  shows "list_all is_space a \<Longrightarrow> contains_sub p (a @ s) \<longleftrightarrow> contains_sub p s"
    and "list_all is_space b \<Longrightarrow> contains_sub p (s @ b) \<longleftrightarrow> contains_sub p s"
proof -
  have p: "p \<noteq> []" "\<not> is_space (hd p)" "\<not> is_space (last p)" using assms by (auto simp: needle_def)
  show "list_all is_space a \<Longrightarrow> contains_sub p (a @ s) \<longleftrightarrow> contains_sub p s"
  proof (induction a)
    case (Cons x a)
    then show ?case using p contains_Cons [of p x "a @ s"] by auto
  qed simp
  show "list_all is_space b \<Longrightarrow> contains_sub p (s @ b) \<longleftrightarrow> contains_sub p s"
  proof (induction b rule: rev_induct)
    case (snoc x b)
    then show ?case using p contains_snoc [of p x "s @ b"] by auto
  qed simp
qed

lemma contains_trim [simp]: "needle p \<Longrightarrow> contains_sub p (trim s) \<longleftrightarrow> contains_sub p s"
proof (rule trim_split [of s])
  fix a b
  assume "needle p" "s = a @ trim s @ b" "list_all is_space a" "list_all is_space b"
  then show ?thesis using contains_spaces by metis
qed

definition meta_body :: "string \<Rightarrow> string" where
  "meta_body v =
     (if CHR ''='' \<notin> set v then v
      else trim (takeWhile (\<lambda>c. c \<noteq> CHR ''='') v) @ ''=''
           @ trim (drop (length (takeWhile (\<lambda>c. c \<noteq> CHR ''='') v) + 1) v))"

lemma canonical_meta: "canonicalMetaAttribute (''!!@'' @ w) = ''!!@ '' @ meta_body (trim w)"
  by (simp add: canonicalMetaAttribute_def meta_body_def Let_def)

lemma canonical_other: "\<not> starts_with ''!!@'' line \<Longrightarrow> canonicalMetaAttribute line = line"
  by (simp add: canonicalMetaAttribute_def)

lemma contains_meta_body: "needle p \<Longrightarrow> contains_sub p (meta_body v) \<longleftrightarrow> contains_sub p v"
proof (cases "CHR ''='' \<in> set v")
  case True
  assume p: "needle p"
  let ?k = "takeWhile (\<lambda>c. c \<noteq> CHR ''='') v" and ?x = "drop (length (takeWhile (\<lambda>c. c \<noteq> CHR ''='') v) + 1) v"
  have sep: "contains_sub p (a @ CHR ''='' # b) \<longleftrightarrow> contains_sub p a \<or> contains_sub p b" for a b
    using p by (simp add: contains_separator needle_def)
  have "contains_sub p v \<longleftrightarrow> contains_sub p (?k @ CHR ''='' # ?x)"
    using equals_split [OF True] by simp
  then show ?thesis using p True sep by (simp add: meta_body_def)
qed (simp add: meta_body_def)

lemma contains_canonical: "needle p \<Longrightarrow> contains_sub p (canonicalMetaAttribute line) \<longleftrightarrow> contains_sub p line"
proof (cases "starts_with ''!!@'' line")
  case True
  assume p: "needle p"
  from True obtain w where w: "line = ''!!@'' @ w" by (auto simp: starts_with_iff)
  have at: "contains_sub p (''!!'' @ CHR 0x40 # t) \<longleftrightarrow> contains_sub p ''!!'' \<or> contains_sub p t" for t
    using p by (intro contains_separator) (auto simp: needle_def)
  have "contains_sub p ('' '' @ meta_body (trim w)) \<longleftrightarrow> contains_sub p w"
    using p contains_spaces(1) [OF p, of "'' ''"] by (simp add: contains_meta_body)
  then show ?thesis
    using at [of w] at [of "'' '' @ meta_body (trim w)"] unfolding w canonical_meta by simp
qed (simp add: canonical_other)

subsection \<open>Formatted lines are stable\<close>

definition trimmed :: "string \<Rightarrow> bool" where
  "trimmed s \<longleftrightarrow> s = [] \<or> \<not> is_space (hd s) \<and> \<not> is_space (last s)"

lemma trimmed_trim [simp]: "trimmed (trim s)"
proof -
  let ?t = "dropWhile is_space s"
  have "trim s = [] \<or> \<not> is_space (last (trim s))"
    by (metis hd_dropWhile dropWhile_eq_Nil_conv last_rev rev_is_Nil_conv rev_rev_ident trim_def)
  moreover have "hd (trim s) = hd ?t" if "trim s \<noteq> []"
  proof -
    have "?t = trim s @ rev (takeWhile is_space (rev ?t))"
      by (metis rev_append rev_rev_ident takeWhile_dropWhile_id trim_def)
    then show ?thesis using that by (metis hd_append2)
  qed
  moreover have "?t \<noteq> []" if "trim s \<noteq> []" using that unfolding trim_def by (metis dropWhile.simps(1) rev.simps(1))
  ultimately show ?thesis unfolding trimmed_def by (metis hd_dropWhile)
qed

lemma trim_trimmed: "trimmed s \<Longrightarrow> trim s = s"
  by (auto simp: trimmed_def trim_def dropWhile_eq_self_iff [THEN iffD2] hd_rev)

lemma trim_leading: "list_all is_space a \<Longrightarrow> trim (a @ s) = trim s"
  by (simp add: trim_def list_all_iff dropWhile_append2)

lemma trim_trailing: "list_all is_space b \<Longrightarrow> trim (s @ b) = trim s"
proof (induction b rule: rev_induct)
  case (snoc c b)
  have "trim ((s @ b) @ [c]) = trim (s @ b)"
    using snoc.prems by (cases "dropWhile is_space (s @ b) = []") (auto simp: trim_def dropWhile_append split: if_splits)
  then show ?case using snoc by simp
qed simp

lemma trimmed_parts:
  "trimmed s \<Longrightarrow> s \<noteq> [] \<Longrightarrow> ink s \<noteq> [] \<and> hd s = hd (ink s) \<and> last s = last (ink s)"
proof -
  assume s: "trimmed s" "s \<noteq> []"
  then have "hd s = hd (ink s)" "ink s \<noteq> []" by (cases s; simp add: trimmed_def)+
  moreover have "last s = last (ink s)" using s by (cases s rule: rev_cases) (simp_all add: trimmed_def)
  ultimately show ?thesis by simp
qed

lemma same_ends:
  assumes "trimmed s" and "trimmed t" and "ink s = ink t" and "s \<noteq> []"
  shows "t \<noteq> [] \<and> hd t = hd s \<and> last t = last s"
proof -
  have "ink t \<noteq> []" using trimmed_parts [OF assms(1,4)] assms(3) by simp
  then have "t \<noteq> []" by auto
  then show ?thesis using trimmed_parts [OF assms(1,4)] trimmed_parts [OF assms(2)] assms(3) by simp
qed

lemma no_equals_trim: "CHR ''='' \<notin> set s \<Longrightarrow> CHR ''='' \<notin> set (trim s)"
  by (rule trim_split [of s]) (metis Un_iff set_append)

lemma trimmed_equals: "trimmed k \<Longrightarrow> trimmed x \<Longrightarrow> trimmed (k @ ''='' @ x)"
  by (cases k) (auto simp: trimmed_def)

lemma takeWhile_equals: "CHR ''='' \<notin> set k \<Longrightarrow> takeWhile (\<lambda>c. c \<noteq> CHR ''='') (k @ CHR ''='' # x) = k"
  by (induction k) auto

lemma meta_body_trimmed: "trimmed v \<Longrightarrow> trimmed (meta_body v)"
  using trimmed_equals by (auto simp: meta_body_def)

lemma meta_body_idem: "meta_body (meta_body v) = meta_body v"
proof (cases "CHR ''='' \<in> set v")
  case True
  let ?k = "takeWhile (\<lambda>c. c \<noteq> CHR ''='') v"
  have "CHR ''='' \<notin> set ?k" using set_takeWhileD by fastforce
  then have "takeWhile (\<lambda>c. c \<noteq> CHR ''='') (trim ?k @ CHR ''='' # x) = trim ?k" for x
    by (intro takeWhile_equals no_equals_trim)
  then show ?thesis
    using True by (simp add: meta_body_def trim_trimmed)
qed (simp add: meta_body_def)

lemma canonical_trimmed_meta:
  assumes "line = ''!!@'' @ w"
  obtains y where "trim (canonicalMetaAttribute line) = ''!!@'' @ y" "trim y = meta_body (trim w)"
proof -
  let ?b = "meta_body (trim w)"
  have b: "trimmed ?b" by (simp add: meta_body_trimmed)
  show ?thesis
  proof (cases "?b = []")
    case True
    then show ?thesis
      using that [of "[]"] trim_trailing [of "'' ''" "''!!@''"]
      by (simp add: assms canonical_meta [simplified] trim_trimmed trimmed_def)
  next
    case False
    then have "trimmed (''!!@'' @ '' '' @ ?b)" using b by (auto simp: trimmed_def)
    then have "trim (canonicalMetaAttribute line) = ''!!@'' @ '' '' @ ?b"
      by (simp add: assms canonical_meta [simplified] trim_trimmed)
    then show ?thesis using that [of "'' '' @ ?b"] b trim_leading [of "'' ''" ?b] by (simp add: trim_trimmed)
  qed
qed

lemma canonical_stable: "canonicalMetaAttribute (trim (canonicalMetaAttribute line)) = canonicalMetaAttribute line"
  if "trimmed line" for line
proof (cases "starts_with ''!!@'' line")
  case True
  then obtain w where w: "line = ''!!@'' @ w" by (auto simp: starts_with_iff)
  then show ?thesis
    by (rule canonical_trimmed_meta) (simp only: w canonical_meta meta_body_idem)
qed (use that in \<open>simp add: canonical_other trim_trimmed\<close>)

definition steady :: "string \<Rightarrow> bool" where
  "steady line \<longleftrightarrow> (starts_with ''!!@'' line \<longrightarrow> last line \<noteq> CHR ''='')"

lemma startsWord_hd: "startsWord line word \<Longrightarrow> word \<noteq> [] \<Longrightarrow> hd line = hd word"
  by (cases word; cases line) (auto simp: startsWord_def)

lemma meta_closed:
  assumes "hd line = CHR ''!''" and "line \<noteq> []" and "last line \<noteq> CHR ''=''"
  shows "\<not> opensNamedBlock line" "\<not> closesBlock line" "\<not> starts_with ''/*'' line"
  using assms startsWord_hd [of line "''VIEW''"] startsWord_hd [of line "''END''"]
  by (auto simp: opensNamedBlock_def closesBlock_def starts_with_iff)

lemma needle_marks: "needle ''*/''" "needle ''INTERLIS 2.3''" "needle ''INTERLIS 2.4''"
  by (simp_all add: needle_def is_space_def)

lemma line_stable:
  fixes l :: string
  defines "line \<equiv> trim l"
  defines "t \<equiv> trim (canonicalMetaAttribute line)"
  assumes "line \<noteq> []" and "steady line"
  shows "t \<noteq> [] \<and> hd t = hd line \<and> canonicalMetaAttribute t = canonicalMetaAttribute line
    \<and> closesBlock t = closesBlock line \<and> indent_after n t = indent_after n line
    \<and> comment_after b t = comment_after b line"
proof (cases "starts_with ''!!@'' line")
  case True
  have ends: "t \<noteq> [] \<and> hd t = hd line \<and> last t = last line"
    using assms(3) by (intro same_ends) (simp_all add: t_def line_def)
  have "hd line = CHR ''!''" using True by (auto simp: starts_with_iff)
  moreover have "last line \<noteq> CHR ''=''" using True assms(4) by (simp add: steady_def)
  moreover have "contains_sub ''*/'' t = contains_sub ''*/'' line"
    by (simp add: t_def contains_canonical needle_marks)
  moreover have "canonicalMetaAttribute t = canonicalMetaAttribute line"
    by (simp add: t_def canonical_stable line_def)
  ultimately show ?thesis
    using ends assms(3) meta_closed [of line] meta_closed [of t]
    by (simp add: indent_after_def comment_after_def Let_def)
next
  case False
  then have "t = line" by (simp add: t_def canonical_other trim_trimmed line_def)
  then show ?thesis using assms(3) by simp
qed

lemma trim_indented: "trim (indented options n b line) = trim (canonicalMetaAttribute line)"
proof -
  have "list_all is_space (concat (replicate n (replicate (fo_indentSize options) (CHR '' '')))
    @ (if b \<and> hd line = CHR ''*'' then '' '' else []))"
    by (auto simp: list_all_iff)
  from trim_leading [OF this, of "canonicalMetaAttribute line"] show ?thesis by (simp add: indented_def)
qed

lemma trim_Nil [simp]: "trim [] = []"
  by (simp add: trim_def)

lemma laid_out_stable:
  "\<forall>l \<in> set lines. steady (trim l) \<Longrightarrow>
    laid_out options indent inside blank (laid_out options indent inside blank lines)
      = laid_out options indent inside blank lines"
proof (induction lines arbitrary: indent inside blank)
  case (Cons l lines)
  show ?case
  proof (cases "trim l = []")
    case True
    then show ?thesis using Cons by (cases blank) (simp_all add: Let_def)
  next
    case False
    let ?line = "trim l"
    let ?t = "trim (canonicalMetaAttribute ?line)" and ?n = "outdent indent ?line"
    have stable: "?t \<noteq> []" "outdent indent ?t = ?n" "indent_after ?n ?t = indent_after ?n ?line"
      "comment_after inside ?t = comment_after inside ?line"
      "indented options ?n inside ?t = indented options ?n inside ?line"
      using line_stable [OF False] Cons.prems by (simp_all add: outdent_def indented_def)
    from Cons.IH Cons.prems have IH: "laid_out options i c p (laid_out options i c p lines) = laid_out options i c p lines" for i c p
      by simp
    show ?thesis using False by (simp add: Let_def trim_indented stable IH)
  qed
qed simp

subsection \<open>Reading the formatted text again\<close>

definition clean_line :: "string \<Rightarrow> bool" where
  "clean_line l \<longleftrightarrow> newline_char \<notin> set l \<and> (l = [] \<or> last l \<noteq> return_char)"

abbreviation line_ending :: "string \<Rightarrow> bool" where
  "line_ending newline \<equiv> newline = [newline_char] \<or> newline = [return_char, newline_char]"

lemma split_lines_concat:
  "\<forall>l \<in> set ls. newline_char \<notin> set l \<Longrightarrow>
    split_on newline_char (concat (map (\<lambda>l. l @ [newline_char]) ls)) = ls @ [[]]"
  by (induction ls) (simp_all add: split_on_append_delim split_on_pure)

lemma splitLines_concat:
  assumes "line_ending newline" and "list_all clean_line ls"
  shows "splitLines (concat (map (\<lambda>l. l @ newline) ls)) = ls"
  using assms(1)
proof
  assume newline: "newline = [newline_char]"
  have "splitLines (concat (map (\<lambda>l. l @ newline) ls)) = map drop_return ls"
    using assms(2) split_lines_concat [of ls]
    by (simp add: newline splitLines_def getlines_def list_all_iff clean_line_def)
  also have "\<dots> = ls" using assms(2) by (intro map_idI) (auto simp: drop_return_def list_all_iff clean_line_def)
  finally show ?thesis .
next
  assume newline: "newline = [return_char, newline_char]"
  let ?ls = "map (\<lambda>l. l @ [return_char]) ls"
  have eq: "concat (map (\<lambda>l. l @ newline) ls) = concat (map (\<lambda>l. l @ [newline_char]) ?ls)"
    by (simp add: newline comp_def)
  have "splitLines (concat (map (\<lambda>l. l @ newline) ls)) = map drop_return ?ls"
    unfolding eq using assms(2) split_lines_concat [of ?ls]
    by (simp add: splitLines_def getlines_def list_all_iff clean_line_def)
  also have "\<dots> = ls" by (simp add: comp_def drop_return_def)
  finally show ?thesis .
qed

lemma count_line:
  "newline_char \<notin> set l \<Longrightarrow>
    count_endings b crlf lf (l @ s) = count_endings (if l = [] then b else last l = return_char) crlf lf s"
  by (induction l arbitrary: b) auto

lemma count_lf:
  "list_all clean_line ls \<Longrightarrow>
    count_endings False crlf lf (concat (map (\<lambda>l. l @ [newline_char]) ls)) = (crlf, lf + length ls)"
  by (induction ls arbitrary: lf) (auto simp: count_line clean_line_def)

lemma count_crlf:
  "list_all clean_line ls \<Longrightarrow>
    count_endings False crlf lf (concat (map (\<lambda>l. l @ [return_char, newline_char]) ls)) = (crlf + length ls, lf)"
  by (induction ls arbitrary: crlf) (auto simp: count_line clean_line_def)

lemma dominant_concat:
  assumes "line_ending newline" and "list_all clean_line ls" and "newline = [newline_char] \<or> ls \<noteq> []"
  shows "dominantLineEnding (concat (map (\<lambda>l. l @ newline) ls)) = newline"
  using assms by (auto simp: dominantLineEnding_def count_lf count_crlf)

lemma in_split_no_newline: "l \<in> set (splitLines s) \<Longrightarrow> newline_char \<notin> set l"
  by (auto simp: splitLines_def getlines_def Let_def drop_return_def
      dest!: in_set_butlastD [where xs = "split_on newline_char s"] dest: split_on_no_delim in_set_butlastD split: if_splits)

lemma set_trim: "set (trim s) \<subseteq> set s"
  by (rule trim_split [of s]) (metis Un_iff set_append subsetI)

lemma set_meta_body: "set (meta_body v) \<subseteq> set v"
proof (cases "CHR ''='' \<in> set v")
  case True
  let ?k = "takeWhile (\<lambda>c. c \<noteq> CHR ''='') v"
  have "set (trim ?k) \<subseteq> set v" using set_trim [of ?k] set_takeWhileD by fast
  moreover have "set (trim (drop (length ?k + 1) v)) \<subseteq> set v"
    by (rule order_trans [OF set_trim set_drop_subset])
  ultimately show ?thesis using True by (simp add: meta_body_def)
qed (simp add: meta_body_def)

lemma set_canonical: "set (canonicalMetaAttribute line) \<subseteq> insert (CHR '' '') (set line)"
proof (cases "starts_with ''!!@'' line")
  case True
  then obtain w where w: "line = ''!!@'' @ w" by (auto simp: starts_with_iff)
  then show ?thesis using set_meta_body [of "trim w"] set_trim [of w] unfolding w canonical_meta by auto
qed (auto simp: canonical_other)

lemma canonical_last:
  assumes "trimmed line" and "line \<noteq> []"
  shows "canonicalMetaAttribute line \<noteq> [] \<and> last (canonicalMetaAttribute line) \<noteq> return_char"
proof (cases "starts_with ''!!@'' line")
  case True
  then obtain w where w: "line = ''!!@'' @ w" by (auto simp: starts_with_iff)
  have "trimmed (meta_body (trim w))" by (simp add: meta_body_trimmed)
  then show ?thesis unfolding w canonical_meta by (auto simp: trimmed_def)
qed (use assms in \<open>auto simp: canonical_other trimmed_def\<close>)

lemma laid_out_clean:
  assumes "\<forall>l \<in> set lines. newline_char \<notin> set l"
  shows "list_all clean_line (laid_out options indent inside blank lines)"
proof (rule laid_out_all)
  fix l n b
  assume l: "l \<in> set lines" "trim l \<noteq> []"
  have "newline_char \<notin> set (canonicalMetaAttribute (trim l))"
    using assms l(1) set_canonical [of "trim l"] set_trim [of l] by auto
  moreover have "newline_char \<notin> set (concat (replicate n (replicate (fo_indentSize options) (CHR '' ''))))" by auto
  ultimately show "clean_line (indented options n b (trim l))"
    using canonical_last [OF trimmed_trim l(2)] by (auto simp: clean_line_def indented_def)
qed (simp add: clean_line_def)

lemma laid_out_nonempty: "lines \<noteq> [] \<Longrightarrow> laid_out options indent inside False lines \<noteq> []"
  by (cases lines) (simp_all add: Let_def)

lemma crlf_has_lines: "dominantLineEnding s = [return_char, newline_char] \<Longrightarrow> splitLines s \<noteq> []"
  by (cases s) (auto simp: dominantLineEnding_def splitLines_def getlines_def Let_def split: list.splits if_splits)

lemma layout_stable:
  assumes "\<forall>l \<in> set (splitLines source). steady (trim l)"
  shows "layout options (layout options source) = layout options source"
proof -
  define ls where "ls = laid_out options 0 False False (splitLines source)"
  define newline where "newline = dominantLineEnding source"
  have clean: "list_all clean_line ls" unfolding ls_def by (intro laid_out_clean ballI in_split_no_newline)
  have ending: "line_ending newline" unfolding newline_def by (rule dominant_cases)
  have "newline = [newline_char] \<or> ls \<noteq> []"
    using ending crlf_has_lines [of source] laid_out_nonempty [of "splitLines source"]
    by (auto simp: newline_def ls_def)
  then have "dominantLineEnding (layout options source) = newline" "splitLines (layout options source) = ls"
    using dominant_concat [OF ending clean] splitLines_concat [OF ending clean]
    by (simp_all add: layout_lines ls_def newline_def)
  then show ?thesis
    using laid_out_stable [OF assms, of options 0 False False]
    by (simp add: layout_lines [of options "layout options source"] flip: ls_def)
       (simp add: layout_lines ls_def newline_def)
qed

lemma contains_Nil: "needle p \<Longrightarrow> \<not> contains_sub p []"
  by (simp add: contains_iff needle_def)

lemma contains_newline: "needle p \<Longrightarrow> contains_sub p (s @ newline_char # t) \<longleftrightarrow> contains_sub p s \<or> contains_sub p t"
  by (simp add: contains_separator needle_def)

lemma contains_lines:
  assumes "line_ending newline" and "needle p"
  shows "contains_sub p (concat (map (\<lambda>l. l @ newline) ls)) \<longleftrightarrow> list_ex (contains_sub p) ls"
proof (induction ls)
  case (Cons l ls)
  have "contains_sub p (l @ newline @ s) \<longleftrightarrow> contains_sub p l \<or> contains_sub p s" for s
    using assms(1) contains_newline [OF assms(2), of "l @ [return_char]" s] contains_newline [OF assms(2), of l s]
      contains_spaces(2) [OF assms(2), of "[return_char]" l] by auto
  then show ?case using Cons by simp
qed (simp add: contains_Nil assms(2))

lemma contains_join: "needle p \<Longrightarrow> contains_sub p (join_with newline_char ps) \<longleftrightarrow> list_ex (contains_sub p) ps"
  by (induction newline_char ps rule: join_with.induct) (simp_all add: contains_Nil contains_newline)

lemma contains_drop_return: "needle p \<Longrightarrow> contains_sub p (drop_return l) \<longleftrightarrow> contains_sub p l"
  using contains_spaces(2) [of p "[return_char]"] by (cases l rule: rev_cases) (auto simp: drop_return_def)

lemma contains_splitLines:
  assumes "needle p"
  shows "list_ex (contains_sub p) (splitLines s) \<longleftrightarrow> contains_sub p s"
proof -
  let ?ps = "split_on newline_char s"
  have "list_ex (contains_sub p) (splitLines s) \<longleftrightarrow> list_ex (contains_sub p) (getlines s)"
    by (simp add: splitLines_def list_ex_iff contains_drop_return assms)
  also have "\<dots> \<longleftrightarrow> list_ex (contains_sub p) ?ps"
  proof (cases "last ?ps = []")
    case True
    then have "?ps = butlast ?ps @ [[]]" by (metis append_butlast_last_id split_on_nonempty)
    then have "list_ex (contains_sub p) ?ps \<longleftrightarrow> list_ex (contains_sub p) (butlast ?ps @ [[]])" by simp
    then have "list_ex (contains_sub p) ?ps \<longleftrightarrow> list_ex (contains_sub p) (butlast ?ps)"
      by (simp add: contains_Nil assms)
    then show ?thesis using True by (simp add: getlines_def Let_def)
  qed (simp add: getlines_def Let_def)
  also have "\<dots> \<longleftrightarrow> contains_sub p s" using contains_join [OF assms, of ?ps] by simp
  finally show ?thesis .
qed

lemma contains_laid_out:
  assumes "needle p"
  shows "list_ex (contains_sub p) (laid_out options indent inside blank lines) \<longleftrightarrow> list_ex (contains_sub p) lines"
proof (induction lines arbitrary: indent inside blank)
  case (Cons l lines)
  have "contains_sub p (indented options n b line) \<longleftrightarrow> contains_sub p line" for n b line
    using contains_trim [OF assms, of "indented options n b line"] contains_trim [OF assms, of line]
    by (metis assms contains_canonical contains_trim trim_indented)
  moreover have "\<not> contains_sub p l" if "trim l = []"
    using that contains_trim [OF assms, of l] by (simp add: contains_Nil assms)
  ultimately show ?case using Cons assms by (auto simp: Let_def contains_Nil)
qed simp

lemma supported_layout: "supported_version (layout options source) \<longleftrightarrow> supported_version source"
proof -
  have "contains_sub p (layout options source) \<longleftrightarrow> contains_sub p source" if "needle p" for p
    by (simp add: layout_lines contains_lines [OF dominant_cases that] contains_laid_out that contains_splitLines)
  then show ?thesis by (simp add: supported_version_def needle_marks)
qed

text \<open>C22. Formatting is idempotent: formatting a formatted text again, with the same options, applies
  whenever the recogniser accepts the formatted text, reports nothing and changes nothing, provided that no
  line that is a meta attribute ends in an equals sign.\<close>

theorem format_idempotent:
  assumes "fr_applicable (format recognise uri utf8 options)"
    and "formatted = fr_text (format recognise uri utf8 options)"
    and "\<forall>l \<in> set (splitLines (decoded_source utf8)). starts_with ''!!@'' (trim l) \<longrightarrow> last (trim l) \<noteq> CHR ''=''"
    and "fo_requireValidSyntax options \<longrightarrow> recognise (withoutComments formatted) = Inr []"
  shows "format recognise uri formatted options =
    \<lparr>fr_success = True, fr_applicable = True, fr_changed = False, fr_text = formatted, fr_diagnostics = []\<rparr>"
proof -
  let ?source = "decoded_source utf8"
  have accepted: "format_accepts recognise ?source options"
    using assms(1) format_refused [of recognise utf8 options uri] by force
  have formatted: "formatted = layout options ?source"
    using format_accepted [OF accepted, of uri] assms(2) by simp
  have valid: "isValidUtf8 formatted" unfolding formatted by (intro valid_layout valid_decoded)
  then have decoded: "decoded_source formatted = formatted" by (simp add: decoded_source_def)
  have "format_accepts recognise formatted options"
    using accepted assms(4) supported_layout [of options ?source] by (simp add: format_accepts_def flip: formatted)
  moreover have "layout options formatted = formatted"
    unfolding formatted using assms(3) by (intro layout_stable) (simp add: steady_def)
  ultimately show ?thesis
    using format_accepted [of recognise formatted options uri] decoded valid by simp
qed

definition example_source :: string where
  "example_source = ''INTERLIS 2.3;'' @ [newline_char] @ '' MODEL A ='' @ [newline_char] @ ''!!@ k = v'' @ [newline_char]
     @ ''END A.''"

theorem format_idempotent_witness:
  "\<exists>o1. format (\<lambda>_. Inr []) ''a.ili'' (fr_text (format (\<lambda>_. Inr []) ''a.ili'' example_source o1)) o1 =
    \<lparr>fr_success = True, fr_applicable = True, fr_changed = False,
     fr_text = fr_text (format (\<lambda>_. Inr []) ''a.ili'' example_source o1), fr_diagnostics = []\<rparr>"
proof -
  let ?o = "\<lparr>fo_indentSize = 2, fo_requireValidSyntax = True\<rparr>"
  have valid: "isValidUtf8 example_source" by (simp add: example_source_def)
  then have decoded: "decoded_source example_source = example_source" by (simp add: decoded_source_def)
  have "supported_version example_source" by code_simp
  then have "fr_applicable (format (\<lambda>_. Inr []) ''a.ili'' example_source ?o)"
    using format_accepted [of "\<lambda>_. Inr []" example_source ?o] decoded by (simp add: format_accepts_def)
  moreover have "list_all (\<lambda>l. \<not> starts_with ''!!@'' (trim l) \<or> last (trim l) \<noteq> CHR ''='') (splitLines example_source)"
    by code_simp
  ultimately show ?thesis
    using decoded by (intro exI [of _ ?o] format_idempotent) (auto simp: list_all_iff)
qed

text \<open>Without the condition the second pass may move lines: the first pass puts a blank after the mark of a
  meta attribute, and then a block word of the attribute's name is surrounded by blanks.\<close>

definition reopening_source :: string where
  "reopening_source = ''INTERLIS 2.3;'' @ [newline_char] @ ''!!@MODEL x ='' @ [newline_char] @ ''END A.'' @ [newline_char] @ ''B'' @ [newline_char]
     @ ''!!@MODEL x ='' @ [newline_char] @ ''C''"

lemma second_pass_differs:
  defines "options \<equiv> \<lparr>fo_indentSize = 2, fo_requireValidSyntax = False\<rparr>"
  shows "layout options (layout options reopening_source) \<noteq> layout options reopening_source"
  unfolding options_def by code_simp

end
