(* ===== verification/Capi_Projectors.thy ===== *)
theory Capi_Projectors
  imports Capi_Registries Formatter
begin

section \<open>JSON projections and requests of the C interface\<close>

text \<open>
  source/abi/CapiJsonProjectors.cpp turns the results of the compiler into JSON values and
  CapiRequestDecoder.cpp turns JSON values into requests. The initialiser list of an object inserts its entries
  from left to right and keeps the first of two entries with the same key (\<open>json_object\<close>); the index operator
  replaces an entry (\<open>assign\<close>). Integers of every type become numbers through \<open>nf_of_int\<close>, a field of the
  number format that stands for the conversion to double. The version of the compiler is an argument.

  Every projection is shown to be a well-formed value: objects are ordered maps at every depth. Decoding a
  request either fails with a message or gives a request that satisfies all documented constraints.
\<close>

definition put_absent :: "string \<times> 'd Value \<Rightarrow> (string, 'd Value) omap \<Rightarrow> (string, 'd Value) omap" where
  "put_absent e m = (if map_of m (fst e) = None then assign (fst e) (snd e) m else m)"

definition json_members :: "(string \<times> 'd Value) list \<Rightarrow> (string, 'd Value) omap" where
  "json_members es = fold put_absent es []"

definition json_object :: "(string \<times> 'd Value) list \<Rightarrow> 'd Value" where
  "json_object es = JObject (json_members es)"

definition json_nat :: "'d number_format \<Rightarrow> nat \<Rightarrow> 'd Value" where
  "json_nat nf n = JNumber (nf_of_int nf (int n))"

definition json_int :: "'d number_format \<Rightarrow> int \<Rightarrow> 'd Value" where
  "json_int nf i = JNumber (nf_of_int nf i)"

definition json_u64 :: "'d number_format \<Rightarrow> u64 \<Rightarrow> 'd Value" where
  "json_u64 nf w = JNumber (nf_of_int nf (uint w))"

subsection \<open>Names of enumerators\<close>

fun severity :: "DiagnosticSeverity \<Rightarrow> string" where
  "severity SevError = ''error''"
| "severity SevWarning = ''warning''"
| "severity SevInformation = ''information''"
| "severity SevHint = ''hint''"

fun phase :: "DiagnosticPhase \<Rightarrow> string" where
  "phase PhUnknown = ''unknown''"
| "phase PhLexical = ''lexical''"
| "phase PhSyntax = ''syntax''"
| "phase PhEditorRecovery = ''editor-recovery''"
| "phase PhModelDiscovery = ''model-discovery''"
| "phase PhResolution = ''resolution''"
| "phase PhSemantic = ''semantic''"
| "phase PhTranslation = ''translation''"
| "phase PhRepository = ''repository''"
| "phase PhFormatting = ''formatting''"
| "phase PhRequest = ''request''"
| "phase PhInternal = ''internal''"

fun tag :: "DiagnosticTag \<Rightarrow> string" where
  "tag TagPrimary = ''primary''"
| "tag TagCascaded = ''cascaded''"
| "tag TagRecovery = ''recovery''"
| "tag TagDeprecated = ''deprecated''"
| "tag TagUnnecessary = ''unnecessary''"

fun level :: "LogLevel \<Rightarrow> string" where
  "level LogTrace = ''trace''"
| "level LogDebug = ''debug''"
| "level LogInformation = ''information''"
| "level LogWarning = ''warning''"
| "level LogError = ''error''"

fun editorSymbolKind :: "EditorSymbolKind \<Rightarrow> string" where
  "editorSymbolKind EsModel = ''model''"
| "editorSymbolKind EsTopic = ''topic''"
| "editorSymbolKind EsClass = ''class''"
| "editorSymbolKind EsStructure = ''structure''"
| "editorSymbolKind EsAssociation = ''association''"
| "editorSymbolKind EsView = ''view''"
| "editorSymbolKind EsGraphic = ''graphic''"
| "editorSymbolKind EsDomain = ''domain''"
| "editorSymbolKind EsUnit = ''unit''"
| "editorSymbolKind EsAttribute = ''attribute''"

fun editorReferenceKind :: "EditorReferenceKind \<Rightarrow> string" where
  "editorReferenceKind ErExtends = ''extends''"
| "editorReferenceKind ErType = ''type''"
| "editorReferenceKind ErCollection = ''collection''"
| "editorReferenceKind ErReference = ''reference''"
| "editorReferenceKind ErUnit = ''unit''"

subsection \<open>Parts of a result\<close>

definition json_point :: "'d number_format \<Rightarrow> Position \<Rightarrow> 'd Value" where
  "json_point nf p = json_object [(''line'', json_nat nf (po_line p)), (''character'', json_nat nf (po_character p)),
     (''byteOffset'', json_nat nf (po_byteOffset p))]"

definition json_range :: "'d number_format \<Rightarrow> SourceRange \<Rightarrow> 'd Value" where
  "json_range nf r =
     (if \<not> sr_valid r then JNull
      else json_object [(''uri'', JString (sr_uri r)), (''start'', json_point nf (sr_start r)),
             (''end'', json_point nf (sr_end r))])"

definition json_strings :: "string list \<Rightarrow> 'd Value" where
  "json_strings ss = JArray (map JString ss)"

definition json_context :: "(string, string) omap \<Rightarrow> 'd Value" where
  "json_context m = JObject (fold (\<lambda>(k, v). assign k (JString v)) m [])"

definition json_logs :: "LogEvent list \<Rightarrow> 'd Value" where
  "json_logs events = JArray (map (\<lambda>e. json_object [(''level'', JString (level (le_level e))),
     (''category'', JString (le_category e)), (''message'', JString (le_message e)),
     (''context'', json_context (le_context e))]) events)"

definition json_metadata :: "MetaAttributeValue list \<Rightarrow> 'd Value" where
  "json_metadata vs = JArray (map (\<lambda>v. json_object [(''name'', JString (mv_name v)), (''value'', JString (mv_value v))]) vs)"

definition json_row :: "DocumentationRow \<Rightarrow> 'd Value" where
  "json_row r = json_object [(''name'', JString (drow_name r)), (''cardinality'', JString (drow_cardinality r)),
     (''type'', JString (drow_type r)), (''range'', JString (drow_range r)),
     (''description'', JString (drow_description r))]"

definition json_role :: "DocumentationRole \<Rightarrow> 'd Value" where
  "json_role r = json_object [(''name'', JString (drole_name r)), (''cardinality'', JString (drole_cardinality r)),
     (''type'', JString (drole_type r)), (''description'', JString (drole_description r))]"

definition json_unique :: "DocumentationUnique \<Rightarrow> 'd Value" where
  "json_unique u = json_object [(''scope'', JString (du_scope u)), (''perBasket'', JBool (du_perBasket u)),
     (''prefix'', JString (du_prefix u)), (''elements'', json_strings (du_elements u)),
     (''where'', JString (du_where u)), (''origin'', JString (du_origin u)),
     (''inheritedFrom'', JString (du_inheritedFrom u))]"

definition documentationViewable :: "DocumentationViewable \<Rightarrow> 'd Value" where
  "documentationViewable v = json_object [(''name'', JString (dv_name v)), (''kind'', JString (dv_kind v)),
     (''isAbstract'', JBool (dv_isAbstract v)), (''documentation'', JString (dv_documentation v)),
     (''rows'', JArray (map json_row (dv_rows v))), (''roles'', JArray (map json_role (dv_roles v))),
     (''uniqueness'', JArray (map json_unique (dv_uniqueness v)))]"

definition json_entry :: "DocumentationEnumerationEntry \<Rightarrow> 'd Value" where
  "json_entry e = json_object [(''value'', JString (dee_value e)), (''displayName'', JString (dee_displayName e)),
     (''documentation'', JString (dee_documentation e))]"

definition documentationEnumeration :: "DocumentationEnumeration \<Rightarrow> 'd Value" where
  "documentationEnumeration e = json_object [(''name'', JString (den_name e)),
     (''documentation'', JString (den_documentation e)), (''entries'', JArray (map json_entry (den_entries e)))]"

definition documentation_topic :: "DocumentationTopic \<Rightarrow> 'd Value" where
  "documentation_topic t = json_object [(''name'', JString (dt_name t)),
     (''documentation'', JString (dt_documentation t)),
     (''viewables'', JArray (map documentationViewable (dt_viewables t))),
     (''enumerations'', JArray (map documentationEnumeration (dt_enumerations t)))]"

definition documentationModel :: "DocumentationModel \<Rightarrow> 'd Value" where
  "documentationModel m = json_object [(''name'', JString (dmo_name m)), (''uri'', JString (dmo_uri m)),
     (''title'', JString (dmo_title m)), (''shortDescription'', JString (dmo_shortDescription m)),
     (''topics'', JArray (map documentation_topic (dmo_topics m))),
     (''viewables'', JArray (map documentationViewable (dmo_viewables m))),
     (''enumerations'', JArray (map documentationEnumeration (dmo_enumerations m)))]"

definition json_related :: "'d number_format \<Rightarrow> RelatedInformation \<Rightarrow> 'd Value" where
  "json_related nf i = json_object [(''range'', json_range nf (ri_range i)), (''message'', JString (ri_message i))]"

definition put_when :: "bool \<Rightarrow> string \<Rightarrow> 'd Value \<Rightarrow> (string, 'd Value) omap \<Rightarrow> (string, 'd Value) omap" where
  "put_when c k v m = (if c then assign k v m else m)"

definition json_diagnostic :: "'d number_format \<Rightarrow> Diagnostic \<Rightarrow> 'd Value" where
  "json_diagnostic nf d =
     JObject (put_when (dg_fingerprint d \<noteq> []) ''fingerprint'' (JString (dg_fingerprint d))
       (put_when (dg_helpId d \<noteq> []) ''helpId'' (JString (dg_helpId d))
       (put_when (dg_tags d \<noteq> []) ''tags'' (JArray (map (\<lambda>t. JString (tag t)) (dg_tags d)))
       (put_when (dg_phase d \<noteq> PhUnknown) ''phase'' (JString (phase (dg_phase d)))
       (put_when (dg_source d \<noteq> []) ''source'' (JString (dg_source d))
       (json_members [(''severity'', JString (severity (dg_severity d))), (''code'', JString (dg_code d)),
          (''message'', JString (dg_message d)), (''range'', json_range nf (dg_range d)),
          (''relatedInformation'', JArray (map (json_related nf) (dg_related d))),
          (''notes'', json_strings (dg_notes d)), (''treatedAsError'', JBool (dg_treatedAsError d))]))))))"

definition json_diagnostics :: "'d number_format \<Rightarrow> Diagnostic list \<Rightarrow> 'd Value" where
  "json_diagnostics nf ds = JArray (map (json_diagnostic nf) ds)"

subsection \<open>Results\<close>

definition result_head :: "'d number_format \<Rightarrow> string \<Rightarrow> string \<Rightarrow> (string \<times> 'd Value) list" where
  "result_head nf version kind =
     [(''schemaVersion'', json_int nf 1), (''abiVersion'', json_int nf 1), (''compilerVersion'', JString version),
      (''kind'', JString kind)]"

definition request_error :: "string \<Rightarrow> 'd Value" where
  "request_error message = json_object [(''severity'', JString ''error''), (''code'', JString ''ILIC-ABI-REQUEST''),
     (''message'', JString message), (''range'', JNull), (''relatedInformation'', JArray []), (''notes'', JArray []),
     (''treatedAsError'', JBool False)]"

definition error_members :: "'d number_format \<Rightarrow> string \<Rightarrow> string \<Rightarrow> u64 \<Rightarrow> (string \<times> 'd Value) list" where
  "error_members nf kind uri docVersion =
     (if kind = ''syntax'' then
        [(''uri'', JString uri), (''documentVersion'', json_u64 nf docVersion), (''iliVersion'', JString []),
         (''tokens'', JArray []), (''nodes'', JArray []), (''contexts'', JArray []), (''imports'', JArray []),
         (''importReferences'', JArray [])]
      else if kind = ''editor'' then
        [(''recovered'', JBool False), (''complete'', JBool False), (''uri'', JString uri),
         (''documentVersion'', json_u64 nf docVersion), (''iliVersion'', JString ''unknown''),
         (''declarations'', JArray []), (''references'', JArray []), (''imports'', JArray []), (''contexts'', JArray [])]
      else if kind = ''semantic'' then
        [(''cancelled'', JBool False), (''roots'', JArray []), (''documentVersions'', JObject []),
         (''missingModels'', JArray []), (''symbols'', JArray []), (''references'', JArray []), (''dependencies'', JArray []),
         (''diagram'', json_object [(''nodes'', JArray []), (''edges'', JArray [])]),
         (''documentation'', json_object [(''title'', JString []), (''sections'', JArray [])]), (''logs'', JArray [])]
      else if kind = ''compilation'' then
        [(''cancelled'', JBool False), (''errorCount'', json_int nf 1), (''warningCount'', json_int nf 0),
         (''missingModels'', JArray []), (''models'', JArray []), (''logs'', JArray []), (''transcript'', JArray [])]
      else if kind = ''formatting'' then
        [(''applicable'', JBool False), (''changed'', JBool False), (''text'', JString [])]
      else [])"

definition errorResult :: "'d number_format \<Rightarrow> string \<Rightarrow> string \<Rightarrow> string \<Rightarrow> string \<Rightarrow> u64 \<Rightarrow> 'd Value" where
  "errorResult nf version kind message uri docVersion =
     JObject (fold (\<lambda>(k, v). assign k v) (error_members nf kind uri docVersion)
       (json_members (result_head nf version kind @
          [(''success'', JBool False), (''diagnostics'', JArray [request_error message])])))"

definition json_model :: "CompiledModel \<Rightarrow> 'd Value" where
  "json_model m = json_object [(''name'', JString (cm_name m)), (''iliVersion'', JString (cm_iliVersion m)),
     (''uri'', JString (cm_uri m)), (''metaAttributes'', json_metadata (cm_metaAttributes m))]"

definition compileResult :: "'d number_format \<Rightarrow> string \<Rightarrow> CompilationResult \<Rightarrow> 'd Value" where
  "compileResult nf version r = json_object (result_head nf version ''compilation'' @
     [(''success'', JBool (cr_success r)), (''cancelled'', JBool (cr_cancelled r)),
      (''errorCount'', json_int nf (cr_errorCount r)), (''warningCount'', json_int nf (cr_warningCount r)),
      (''missingModels'', json_strings (cr_missingModels r)), (''models'', JArray (map json_model (cr_models r))),
      (''diagnostics'', json_diagnostics nf (cr_diagnostics r)), (''logs'', json_logs (cr_logs r)),
      (''transcript'', json_strings (cr_transcript r))])"

definition json_token :: "'d number_format \<Rightarrow> SyntaxToken \<Rightarrow> 'd Value" where
  "json_token nf t = json_object [(''kind'', JString (tok_kind t)), (''text'', JString (tok_text t)),
     (''channel'', json_nat nf (tok_channel t)), (''range'', json_range nf (tok_range t))]"

definition json_node :: "'d number_format \<Rightarrow> SyntaxNode \<Rightarrow> 'd Value" where
  "json_node nf n = json_object [(''id'', json_nat nf (nd_id n)),
     (''parent'', if nd_hasParent n then json_nat nf (nd_parent n) else JNull),
     (''kind'', JString (nd_kind n)), (''range'', json_range nf (nd_range n))]"

definition json_syntax_context :: "'d number_format \<Rightarrow> SyntaxContext \<Rightarrow> 'd Value" where
  "json_syntax_context nf c = json_object [(''kind'', JString (cx_kind c)), (''range'', json_range nf (cx_range c))]"

definition json_import :: "'d number_format \<Rightarrow> SyntaxImportReference \<Rightarrow> 'd Value" where
  "json_import nf r = json_object [(''model'', JString (im_model r)), (''unqualified'', JBool (im_unqualified r)),
     (''range'', json_range nf (im_range r))]"

definition syntaxResult :: "'d number_format \<Rightarrow> string \<Rightarrow> SyntaxSnapshot \<Rightarrow> 'd Value" where
  "syntaxResult nf version s = json_object (result_head nf version ''syntax'' @
     [(''success'', JBool (sy_success s)), (''uri'', JString (sy_uri s)),
      (''documentVersion'', json_u64 nf (sy_documentVersion s)), (''iliVersion'', JString (sy_iliVersion s)),
      (''tokens'', JArray (map (json_token nf) (sy_tokens s))), (''nodes'', JArray (map (json_node nf) (sy_nodes s))),
      (''contexts'', JArray (map (json_syntax_context nf) (sy_contexts s))), (''imports'', json_strings (sy_imports s)),
      (''importReferences'', JArray (map (json_import nf) (sy_importReferences s))),
      (''diagnostics'', json_diagnostics nf (sy_diagnostics s))])"

definition json_declaration :: "'d number_format \<Rightarrow> EditorDeclaration \<Rightarrow> 'd Value" where
  "json_declaration nf d = json_object [(''id'', JString (ed_id d)), (''name'', JString (ed_name d)),
     (''qualifiedName'', JString (ed_qualifiedName d)), (''kind'', JString (editorSymbolKind (ed_kind d))),
     (''containerId'', if ed_hasContainer d then JString (ed_containerId d) else JNull),
     (''range'', json_range nf (ed_range d)), (''selectionRange'', json_range nf (ed_selectionRange d)),
     (''endRange'', json_range nf (ed_endRange d))]"

definition json_editor_reference :: "'d number_format \<Rightarrow> EditorReference \<Rightarrow> 'd Value" where
  "json_editor_reference nf r = json_object [(''text'', JString (er_text r)),
     (''kind'', JString (editorReferenceKind (er_kind r))),
     (''sourceId'', if er_hasSource r then JString (er_sourceId r) else JNull), (''range'', json_range nf (er_range r))]"

definition editorResult :: "'d number_format \<Rightarrow> string \<Rightarrow> EditorSnapshot \<Rightarrow> 'd Value" where
  "editorResult nf version s = json_object (result_head nf version ''editor'' @
     [(''success'', JBool (es_success s)), (''recovered'', JBool (es_recovered s)), (''complete'', JBool (es_complete s)),
      (''uri'', JString (es_uri s)), (''documentVersion'', json_u64 nf (es_documentVersion s)),
      (''iliVersion'', JString (es_iliVersion s)), (''declarations'', JArray (map (json_declaration nf) (es_declarations s))),
      (''references'', JArray (map (json_editor_reference nf) (es_references s))),
      (''imports'', JArray (map (json_import nf) (es_imports s))),
      (''contexts'', JArray (map (json_syntax_context nf) (es_contexts s))),
      (''diagnostics'', json_diagnostics nf (es_diagnostics s))])"

definition json_symbol :: "'d number_format \<Rightarrow> SemanticSymbol \<Rightarrow> 'd Value" where
  "json_symbol nf s = json_object [(''id'', JString (ss_id s)), (''name'', JString (ss_name s)),
     (''qualifiedName'', JString (ss_qualifiedName s)), (''kind'', JString (ss_kind s)),
     (''containerId'', JString (ss_containerId s)), (''range'', json_range nf (ss_range s)),
     (''selectionRange'', json_range nf (ss_selectionRange s)), (''endRange'', json_range nf (ss_endRange s)),
     (''abstract'', JBool (ss_abstract s))]"

definition json_semantic_reference :: "'d number_format \<Rightarrow> SemanticReference \<Rightarrow> 'd Value" where
  "json_semantic_reference nf r = json_object [(''sourceId'', JString (rf_sourceId r)),
     (''targetId'', JString (rf_targetId r)), (''kind'', JString (rf_kind r)), (''range'', json_range nf (rf_range r))]"

definition json_dependency :: "'d number_format \<Rightarrow> SemanticDependency \<Rightarrow> 'd Value" where
  "json_dependency nf d = json_object [(''sourceUri'', JString (de_sourceUri d)), (''targetUri'', JString (de_targetUri d)),
     (''model'', JString (de_model d)), (''range'', json_range nf (de_range d))]"

definition json_member :: "DiagramMember \<Rightarrow> 'd Value" where
  "json_member m = json_object [(''name'', JString (dm_name m)), (''type'', JString (dm_type m)),
     (''cardinality'', JString (dm_cardinality m)), (''declaringType'', JString (dm_declaringType m)),
     (''inherited'', JBool (dm_inherited m)), (''inlineEnumValues'', json_strings (dm_inlineEnumValues m))]"

definition json_diagram_node :: "'d number_format \<Rightarrow> DiagramNode \<Rightarrow> 'd Value" where
  "json_diagram_node nf n = json_object [(''id'', JString (dn_id n)), (''containerId'', JString (dn_containerId n)),
     (''label'', JString (dn_label n)), (''kind'', JString (dn_kind n)), (''abstract'', JBool (dn_abstract n)),
     (''range'', json_range nf (dn_range n)), (''stereotypes'', json_strings (dn_stereotypes n)),
     (''enumValues'', json_strings (dn_enumValues n)), (''operations'', json_strings (dn_operations n)),
     (''members'', JArray (map json_member (dn_members n)))]"

definition json_edge :: "DiagramEdge \<Rightarrow> 'd Value" where
  "json_edge e = json_object [(''id'', JString (dge_id e)), (''sourceId'', JString (dge_sourceId e)),
     (''targetId'', JString (dge_targetId e)), (''kind'', JString (dge_kind e)), (''label'', JString (dge_label e)),
     (''cardinality'', JString (dge_cardinality e)), (''sourceCardinality'', JString (dge_sourceCardinality e)),
     (''targetCardinality'', JString (dge_targetCardinality e))]"

definition json_section :: "'d number_format \<Rightarrow> DocumentationSection \<Rightarrow> 'd Value" where
  "json_section nf s = json_object [(''id'', JString (dsec_id s)), (''title'', JString (dsec_title s)),
     (''kind'', JString (dsec_kind s)), (''text'', JString (dsec_text s)), (''level'', json_int nf (dsec_level s))]"

definition json_versions :: "'d number_format \<Rightarrow> (string, u64) omap \<Rightarrow> 'd Value" where
  "json_versions nf m = JObject (fold (\<lambda>(k, v). assign k (json_u64 nf v)) m [])"

definition semanticResult :: "'d number_format \<Rightarrow> string \<Rightarrow> SemanticSnapshot \<Rightarrow> 'd Value" where
  "semanticResult nf version s = json_object (result_head nf version ''semantic'' @
     [(''success'', JBool (se_success s)), (''cancelled'', JBool (se_cancelled s)), (''roots'', json_strings (se_roots s)),
      (''documentVersions'', json_versions nf (se_documentVersions s)),
      (''missingModels'', json_strings (se_missingModels s)), (''symbols'', JArray (map (json_symbol nf) (se_symbols s))),
      (''references'', JArray (map (json_semantic_reference nf) (se_references s))),
      (''dependencies'', JArray (map (json_dependency nf) (se_dependencies s))),
      (''diagram'', json_object [(''nodes'', JArray (map (json_diagram_node nf) (dp_nodes (se_diagram s)))),
         (''edges'', JArray (map json_edge (dp_edges (se_diagram s))))]),
      (''documentation'', json_object [(''title'', JString (dpr_title (se_documentation s))),
         (''sections'', JArray (map (json_section nf) (dpr_sections (se_documentation s)))),
         (''models'', JArray (map documentationModel (dpr_models (se_documentation s))))]),
      (''diagnostics'', json_diagnostics nf (se_diagnostics s)), (''logs'', json_logs (se_logs s))])"

definition compilationAnalysisResult :: "'d number_format \<Rightarrow> string \<Rightarrow> CompilationAnalysisResult \<Rightarrow> 'd Value" where
  "compilationAnalysisResult nf version r = json_object (result_head nf version ''compilation-analysis'' @
     [(''compilation'', compileResult nf version (an_compilation r)), (''semantic'', semanticResult nf version (an_semantic r)),
      (''syntax'', JArray (map (syntaxResult nf version) (an_syntax r)))])"

definition json_counts :: "'d number_format \<Rightarrow> (string \<times> u64) list \<Rightarrow> (string \<times> 'd Value) list" where
  "json_counts nf es = map (\<lambda>(k, w). (k, json_u64 nf w)) es"

definition incrementalStatsResult :: "'d number_format \<Rightarrow> string \<Rightarrow> IncrementalStats \<Rightarrow> 'd Value" where
  "incrementalStatsResult nf version s = json_object (result_head nf version ''incremental-stats'' @ json_counts nf
     [(''sourceAdds'', stat_sourceAdds s), (''sourceRemoves'', stat_sourceRemoves s), (''sourceNoOps'', stat_sourceNoOps s),
      (''versionOnlyUpdates'', stat_versionOnlyUpdates s), (''contentChanges'', stat_contentChanges s),
      (''sourceReintroductions'', stat_sourceReintroductions s), (''rejectedUpdates'', stat_rejectedUpdates s),
      (''parseRequests'', stat_parseRequests s), (''editorSnapshotRequests'', stat_editorSnapshotRequests s),
      (''strictParserBuilds'', stat_strictParserBuilds s), (''tolerantParserBuilds'', stat_tolerantParserBuilds s),
      (''strictParserHits'', stat_strictParserHits s), (''tolerantParserHits'', stat_tolerantParserHits s),
      (''parserEntries'', stat_parserEntries s), (''parserRetainedBytes'', stat_parserRetainedBytes s),
      (''parserBuilds'', stat_parserBuilds s), (''parserHits'', stat_parserHits s),
      (''parserEvictions'', stat_parserEvictions s), (''parserBytes'', stat_parserBytes s),
      (''syntaxMaterializations'', stat_syntaxMaterializations s), (''editorMaterializations'', stat_editorMaterializations s),
      (''rootAnalysisHits'', stat_rootAnalysisHits s), (''rootAnalysisMisses'', stat_rootAnalysisMisses s),
      (''rootAnalysisBuilds'', stat_rootAnalysisBuilds s), (''rootAnalysisEvictions'', stat_rootAnalysisEvictions s),
      (''rootEntries'', stat_rootEntries s), (''rootRetainedBytes'', stat_rootRetainedBytes s),
      (''invalidatedRootEntries'', stat_invalidatedRootEntries s), (''reusedClosureSources'', stat_reusedClosureSources s),
      (''reparsedClosureSources'', stat_reparsedClosureSources s),
      (''compilationInvocations'', stat_compilationInvocations s), (''compileRequests'', stat_compileRequests s),
      (''compileExecutions'', stat_compileExecutions s), (''cancelledPlans'', stat_cancelledPlans s)])"

definition incrementalTraceResult :: "'d number_format \<Rightarrow> string \<Rightarrow> IncrementalTrace \<Rightarrow> 'd Value" where
  "incrementalTraceResult nf version t = json_object (result_head nf version ''incremental-trace'' @
     [(''operation'', JString (tr_operation t)), (''planKind'', JString (tr_planKind t)), (''roots'', json_strings (tr_roots t)),
      (''closure'', json_strings (tr_closure t)), (''parserHits'', json_strings (tr_parserHits t)),
      (''parserMisses'', json_strings (tr_parserMisses t)), (''strictParserHits'', json_strings (tr_strictParserHits t)),
      (''strictParserBuilds'', json_strings (tr_strictParserBuilds t)),
      (''tolerantParserHits'', json_strings (tr_tolerantParserHits t)),
      (''tolerantParserBuilds'', json_strings (tr_tolerantParserBuilds t)),
      (''invalidatedRoots'', json_strings (tr_invalidatedRoots t)), (''reasons'', json_strings (tr_reasons t)),
      (''bytesRetained'', json_nat nf (tr_bytesRetained t)), (''bytesReleased'', json_nat nf (tr_bytesReleased t))])"

definition incrementalCacheSnapshotResult :: "'d number_format \<Rightarrow> string \<Rightarrow> IncrementalCacheSnapshot \<Rightarrow> 'd Value" where
  "incrementalCacheSnapshotResult nf version s = json_object (result_head nf version ''incremental-cache-snapshot'' @
     json_counts nf [(''parserEntries'', snap_parserEntries s), (''parserRetainedBytes'', snap_parserRetainedBytes s),
       (''parserEvictions'', snap_parserEvictions s), (''rootEntries'', snap_rootEntries s),
       (''rootRetainedBytes'', snap_rootRetainedBytes s), (''rootEvictions'', snap_rootEvictions s)] @
     [(''parserInvariants'', JBool (snap_parserInvariants s)), (''rootInvariants'', JBool (snap_rootInvariants s))])"

definition formattingResult :: "'d number_format \<Rightarrow> string \<Rightarrow> FormatResult \<Rightarrow> 'd Value" where
  "formattingResult nf version r = json_object (result_head nf version ''formatting'' @
     [(''success'', JBool (fr_success r)), (''applicable'', JBool (fr_applicable r)), (''changed'', JBool (fr_changed r)),
      (''text'', JString (fr_text r)), (''diagnostics'', json_diagnostics nf (fr_diagnostics r))])"

subsection \<open>Requests\<close>

definition schema_supported :: "'d number_format \<Rightarrow> 'd Value \<Rightarrow> bool" where
  "schema_supported nf json \<longleftrightarrow> isNumber (value_get json ''schemaVersion'')
     \<and> nf_to_int nf (value_number (value_get json ''schemaVersion'') (nf_of_int nf 0)) = 1"

text \<open>The two loops over arrays of strings stop at the first element that is no string or is empty.\<close>

fun nonempty_strings :: "string \<Rightarrow> 'd Value list \<Rightarrow> string + string list" where
  "nonempty_strings message [] = Inr []"
| "nonempty_strings message (v # vs) =
     (if \<not> isString v \<or> value_string v = [] then Inl message
      else map_sum id ((#) (value_string v)) (nonempty_strings message vs))"

definition meta_attribute_invalid :: "'d Value \<Rightarrow> bool" where
  "meta_attribute_invalid a \<longleftrightarrow> \<not> isObject a \<or> \<not> isString (value_get a ''element'')
     \<or> value_string (value_get a ''element'') = [] \<or> \<not> isString (value_get a ''name'')
     \<or> value_string (value_get a ''name'') = [] \<or> \<not> isString (value_get a ''value'')"

fun meta_attributes :: "'d Value list \<Rightarrow> string + ExternalMetaAttribute list" where
  "meta_attributes [] = Inr []"
| "meta_attributes (a # as) =
     (if meta_attribute_invalid a then Inl ''invalid external meta attribute''
      else map_sum id ((#) \<lparr>ea_element = value_string (value_get a ''element''),
             ea_name = value_string (value_get a ''name''), ea_value = value_string (value_get a ''value'')\<rparr>)
           (meta_attributes as))"

definition decodeCompilationRequest :: "'d number_format \<Rightarrow> 'd Value \<Rightarrow> string + CompilationRequest" where
  "decodeCompilationRequest nf json =
     (let roots = value_get json ''roots''; options = value_get json ''options'';
          autoSearch = value_get options ''autoSearch''; warnings = value_get options ''warningsAsErrors'';
          directories = value_get options ''modelDirectories'';
          attributes = value_get json ''externalMetaAttributes''
      in
      if \<not> isObject json then Inl ''compile request must be an object''
      else if \<not> schema_supported nf json then Inl ''unsupported schemaVersion''
      else if \<not> isArray roots \<or> value_array roots = [] then Inl ''roots must be a non-empty array''
      else case nonempty_strings ''roots must contain non-empty strings'' (value_array roots) of
        Inl e \<Rightarrow> Inl e
      | Inr rs \<Rightarrow>
          if \<not> isNull options \<and> \<not> isObject options then Inl ''options must be an object''
          else if \<not> isNull autoSearch \<and> \<not> isBool autoSearch then Inl ''autoSearch must be a boolean''
          else if \<not> isNull warnings \<and> \<not> isBool warnings then Inl ''warningsAsErrors must be a boolean''
          else if \<not> isNull directories \<and> \<not> isArray directories then Inl ''modelDirectories must be an array''
          else case nonempty_strings ''modelDirectories must contain non-empty strings'' (value_array directories) of
            Inl e \<Rightarrow> Inl e
          | Inr ds \<Rightarrow>
              if \<not> isNull attributes \<and> \<not> isArray attributes then Inl ''externalMetaAttributes must be an array''
              else case meta_attributes (value_array attributes) of
                Inl e \<Rightarrow> Inl e
              | Inr as \<Rightarrow> Inr \<lparr>rq_roots = rs,
                  rq_options = \<lparr>co_autoSearch = value_boolean autoSearch True,
                    co_warningsAsErrors = value_boolean warnings False, co_modelDirectories = ds\<rparr>,
                  rq_externalMetaAttributes = as\<rparr>)"

subsection \<open>Projections are well-formed\<close>

lemma put_absent_wf: "json_wf (JObject m) \<Longrightarrow> json_wf (snd e) \<Longrightarrow> json_wf (JObject (put_absent e m))"
  unfolding put_absent_def using members_wf by auto

lemma put_when_wf: "json_wf (JObject m) \<Longrightarrow> json_wf v \<Longrightarrow> json_wf (JObject (put_when c k v m))"
  unfolding put_when_def using members_wf by auto

lemma fold_wf:
  assumes "\<And>e m. e \<in> set es \<Longrightarrow> json_wf (JObject m) \<Longrightarrow> json_wf (JObject (f e m))" and "json_wf (JObject m)"
  shows "json_wf (JObject (fold f es m))"
  using assms
proof (induction es arbitrary: m)
  case (Cons e es)
  have "json_wf (JObject (f e m))" by (rule Cons.prems) (simp_all add: Cons.prems(2) del: json_wf.simps)
  then show ?case using Cons.IH Cons.prems(1) by (simp del: json_wf.simps)
qed (simp del: json_wf.simps)

lemma json_leaf_wf [simp]: "json_wf JNull" "json_wf (JBool b)" "json_wf (JNumber d)" "json_wf (JString s)"
    "json_wf (JArray [])" "json_wf (JObject [])"
  by simp_all

lemma json_members_wf: "list_all (\<lambda>e. json_wf (snd e)) es \<Longrightarrow> json_wf (JObject (json_members es))"
  unfolding json_members_def
  by (rule fold_wf) (auto simp: list_all_iff put_absent_wf simp del: json_wf.simps)

lemma json_object_wf [simp]: "list_all (\<lambda>e. json_wf (snd e)) es \<Longrightarrow> json_wf (json_object es)"
  unfolding json_object_def by (rule json_members_wf)

lemma fold_assign_wf:
  "json_wf (JObject m) \<Longrightarrow> list_all (\<lambda>(k, v). json_wf v) es \<Longrightarrow> json_wf (JObject (fold (\<lambda>(k, v). assign k v) es m))"
  by (rule fold_wf) (auto simp: list_all_iff members_wf simp del: json_wf.simps)

lemma json_array_wf [simp]: "(\<And>x. json_wf (f x)) \<Longrightarrow> list_all json_wf (map f xs)"
  by (simp add: list_all_iff)

lemma json_scalar_wf [simp]:
  "json_wf (json_nat nf n)" "json_wf (json_int nf i)" "json_wf (json_u64 nf w)" "json_wf (json_strings ss)"
  by (simp_all add: json_nat_def json_int_def json_u64_def json_strings_def list_all_iff)

lemma json_part_wf [simp]:
  "json_wf (json_point nf p)" "json_wf (json_range nf r)" "json_wf (json_metadata vs)" "json_wf (json_row w)"
  "json_wf (json_role l)" "json_wf (json_unique u)" "json_wf (json_entry e)" "json_wf (json_related nf i)"
  by (simp_all add: json_point_def json_range_def json_metadata_def json_row_def json_role_def json_unique_def
      json_entry_def json_related_def list_all_iff)

lemma json_context_wf [simp]: "json_wf (json_context m)"
  unfolding json_context_def by (rule fold_wf) (auto intro: members_wf simp del: json_wf.simps)

lemma json_versions_wf [simp]: "json_wf (json_versions nf m)"
  unfolding json_versions_def by (rule fold_wf) (auto intro: members_wf simp del: json_wf.simps)

lemma json_logs_wf [simp]: "json_wf (json_logs es)"
  by (simp add: json_logs_def list_all_iff)

lemma documentation_wf [simp]:
  "json_wf (documentationViewable v)" "json_wf (documentationEnumeration e)"
  by (simp_all add: documentationViewable_def documentationEnumeration_def list_all_iff)

lemma documentation_topic_wf [simp]: "json_wf (documentation_topic t)"
  by (simp add: documentation_topic_def list_all_iff)

lemma documentationModel_wf [simp]: "json_wf (documentationModel m)"
  by (simp add: documentationModel_def list_all_iff)

lemma json_diagnostic_wf [simp]: "json_wf (json_diagnostic nf d)"
  unfolding json_diagnostic_def
  by (intro put_when_wf json_members_wf) (simp_all add: list_all_iff)

lemma json_diagnostics_wf [simp]: "json_wf (json_diagnostics nf ds)"
  by (simp add: json_diagnostics_def list_all_iff)

lemma json_snapshot_part_wf [simp]:
  "json_wf (json_model cm)" "json_wf (json_token nf t)" "json_wf (json_node nf n)" "json_wf (json_syntax_context nf c)"
  "json_wf (json_import nf i)" "json_wf (json_declaration nf d)" "json_wf (json_editor_reference nf er)"
  "json_wf (json_symbol nf s)" "json_wf (json_semantic_reference nf sr)" "json_wf (json_dependency nf sd)"
  "json_wf (json_member m)" "json_wf (json_edge e)" "json_wf (json_section nf sec)"
  by (simp_all add: json_model_def json_token_def json_node_def json_syntax_context_def json_import_def
      json_declaration_def json_editor_reference_def json_symbol_def json_semantic_reference_def json_dependency_def
      json_member_def json_edge_def json_section_def)

lemma json_diagram_node_wf [simp]: "json_wf (json_diagram_node nf n)"
  by (simp add: json_diagram_node_def list_all_iff)

lemma result_head_wf [simp]: "list_all (\<lambda>e. json_wf (snd e)) (result_head nf version kind)"
  by (simp add: result_head_def)

lemma json_counts_wf [simp]: "list_all (\<lambda>e. json_wf (snd e)) (json_counts nf es)"
  by (auto simp: json_counts_def list_all_iff)

lemma error_members_wf: "list_all (\<lambda>(k, v). json_wf v) (error_members nf kind uri v)"
  by (simp add: error_members_def)

lemma errorResult_wf: "json_wf (errorResult nf version kind message uri v)"
  unfolding errorResult_def
  by (intro fold_assign_wf json_members_wf error_members_wf) (simp add: request_error_def)

lemma compileResult_wf: "json_wf (compileResult nf version r)"
  unfolding compileResult_def by (rule json_object_wf) simp

lemma syntaxResult_wf: "json_wf (syntaxResult nf version r)"
  unfolding syntaxResult_def by (rule json_object_wf) simp

lemma editorResult_wf: "json_wf (editorResult nf version r)"
  unfolding editorResult_def by (rule json_object_wf) simp

lemma semanticResult_wf: "json_wf (semanticResult nf version r)"
  unfolding semanticResult_def by (rule json_object_wf) simp

lemma analysisResult_wf: "json_wf (compilationAnalysisResult nf version r)"
  unfolding compilationAnalysisResult_def
  by (rule json_object_wf) (simp add: compileResult_wf semanticResult_wf syntaxResult_wf)

lemma incremental_results_wf:
  "json_wf (incrementalStatsResult nf version st)" "json_wf (incrementalTraceResult nf version t)"
  "json_wf (incrementalCacheSnapshotResult nf version sn)" "json_wf (formattingResult nf version f)"
  unfolding incrementalStatsResult_def incrementalTraceResult_def incrementalCacheSnapshotResult_def formattingResult_def
  by (simp_all only: json_object_wf list_all_append result_head_wf json_counts_wf) simp_all

lemmas results_wf = errorResult_wf compileResult_wf syntaxResult_wf editorResult_wf semanticResult_wf analysisResult_wf
  incremental_results_wf

subsection \<open>What a request denotes\<close>

definition strings_are :: "'d Value \<Rightarrow> string list \<Rightarrow> bool" where
  "strings_are v ss \<longleftrightarrow> v = JArray (map JString ss) \<and> [] \<notin> set ss"

definition bool_is :: "bool \<Rightarrow> 'd Value \<Rightarrow> bool \<Rightarrow> bool" where
  "bool_is fallback v b \<longleftrightarrow> v = JNull \<and> b = fallback \<or> v = JBool b"

definition attribute_is :: "'d Value \<Rightarrow> ExternalMetaAttribute \<Rightarrow> bool" where
  "attribute_is v a \<longleftrightarrow> isObject v \<and> value_get v ''element'' = JString (ea_element a) \<and> ea_element a \<noteq> []
     \<and> value_get v ''name'' = JString (ea_name a) \<and> ea_name a \<noteq> [] \<and> value_get v ''value'' = JString (ea_value a)"

definition options_are :: "'d Value \<Rightarrow> CompilerOptions \<Rightarrow> bool" where
  "options_are v opts \<longleftrightarrow> (v = JNull \<or> isObject v)
     \<and> bool_is True (value_get v ''autoSearch'') (co_autoSearch opts)
     \<and> bool_is False (value_get v ''warningsAsErrors'') (co_warningsAsErrors opts)
     \<and> (value_get v ''modelDirectories'' = JNull \<and> co_modelDirectories opts = []
        \<or> strings_are (value_get v ''modelDirectories'') (co_modelDirectories opts))"

definition request_is :: "'d number_format \<Rightarrow> 'd Value \<Rightarrow> CompilationRequest \<Rightarrow> bool" where
  "request_is nf json r \<longleftrightarrow> isObject json \<and> schema_supported nf json
     \<and> strings_are (value_get json ''roots'') (rq_roots r) \<and> rq_roots r \<noteq> []
     \<and> options_are (value_get json ''options'') (rq_options r)
     \<and> (value_get json ''externalMetaAttributes'' = JNull \<and> rq_externalMetaAttributes r = []
        \<or> (\<exists>vs. value_get json ''externalMetaAttributes'' = JArray vs
               \<and> list_all2 attribute_is vs (rq_externalMetaAttributes r)))"

lemma nonempty_strings_iff: "nonempty_strings message vs = Inr ss \<longleftrightarrow> vs = map JString ss \<and> [] \<notin> set ss"
proof (induction vs arbitrary: ss)
  case (Cons v vs)
  show ?case
  proof (cases "isString v \<and> value_string v \<noteq> []")
    case True
    then obtain s where v: "v = JString s" "s \<noteq> []" by (cases v) (auto simp: isString_def value_string_def)
    show ?thesis
    proof (cases "nonempty_strings message vs")
      case (Inl e)
      then show ?thesis using v Cons.IH by (cases ss) (auto simp: isString_def value_string_def)
    next
      case (Inr ts)
      then have "vs = map JString ts \<and> [] \<notin> set ts" using Cons.IH by blast
      then show ?thesis using v Inr by (cases ss) (auto simp: isString_def value_string_def inj_map_eq_map inj_def)
    qed
  next
    case False
    then show ?thesis by (cases ss) (auto simp: isString_def value_string_def)
  qed
qed auto

lemma string_iff: "v = JString s \<longleftrightarrow> isString v \<and> s = value_string v"
  by (cases v) (auto simp: isString_def value_string_def)

definition attribute_of :: "'d Value \<Rightarrow> ExternalMetaAttribute" where
  "attribute_of v = \<lparr>ea_element = value_string (value_get v ''element''),
     ea_name = value_string (value_get v ''name''), ea_value = value_string (value_get v ''value'')\<rparr>"

lemma attribute_is_iff: "attribute_is v a \<longleftrightarrow> \<not> meta_attribute_invalid v \<and> a = attribute_of v"
proof (cases a)
  case (fields e n x)
  then show ?thesis
    unfolding attribute_is_def meta_attribute_invalid_def attribute_of_def string_iff by auto
qed

lemma meta_attributes_iff: "meta_attributes vs = Inr as \<longleftrightarrow> list_all2 attribute_is vs as"
proof (induction vs arbitrary: as)
  case (Cons v vs)
  show ?case
  proof (cases "meta_attribute_invalid v")
    case True
    then show ?thesis by (simp add: list_all2_Cons1 attribute_is_iff)
  next
    case False
    then have "meta_attributes (v # vs) = map_sum id ((#) (attribute_of v)) (meta_attributes vs)"
      by (simp add: attribute_of_def)
    moreover have "list_all2 attribute_is (v # vs) as \<longleftrightarrow> (\<exists>bs. as = attribute_of v # bs \<and> meta_attributes vs = Inr bs)"
      using False Cons.IH by (simp add: list_all2_Cons1 attribute_is_iff [of v])
    ultimately show ?thesis by (cases "meta_attributes vs") auto
  qed
qed auto

lemma bool_is_iff: "bool_is d v b \<longleftrightarrow> (isNull v \<or> isBool v) \<and> b = value_boolean v d"
  by (cases v) (auto simp: bool_is_def isNull_def isBool_def value_boolean_def)

lemma isNull_iff: "isNull v \<longleftrightarrow> v = JNull"
  by (cases v) (simp_all add: isNull_def)

lemma optional_array:
  "isNull v \<or> isArray v \<Longrightarrow> P (value_array v) \<longleftrightarrow> v = JNull \<and> P [] \<or> (\<exists>vs. v = JArray vs \<and> P vs)"
  by (cases v) (simp_all add: isNull_def isArray_def value_array_def)

lemma array_or_null: "v = JNull \<or> v = JArray vs \<Longrightarrow> isNull v \<or> isArray v"
  by (auto simp: isNull_def isArray_def)

lemma decode_iff: "decodeCompilationRequest nf json = Inr r \<longleftrightarrow> request_is nf json r"
proof -
  let ?roots = "value_get json ''roots''" and ?o = "value_get json ''options''"
  let ?d = "value_get ?o ''modelDirectories''" and ?a = "value_get json ''externalMetaAttributes''"
  let ?rm = "''roots must contain non-empty strings''" and ?dm = "''modelDirectories must contain non-empty strings''"
  have "decodeCompilationRequest nf json = Inr r \<longleftrightarrow> isObject json \<and> schema_supported nf json
      \<and> (isArray ?roots \<and> value_array ?roots \<noteq> [] \<and> nonempty_strings ?rm (value_array ?roots) = Inr (rq_roots r))
      \<and> (isNull ?o \<or> isObject ?o)
      \<and> bool_is True (value_get ?o ''autoSearch'') (co_autoSearch (rq_options r))
      \<and> bool_is False (value_get ?o ''warningsAsErrors'') (co_warningsAsErrors (rq_options r))
      \<and> ((isNull ?d \<or> isArray ?d) \<and> nonempty_strings ?dm (value_array ?d) = Inr (co_modelDirectories (rq_options r)))
      \<and> ((isNull ?a \<or> isArray ?a) \<and> meta_attributes (value_array ?a) = Inr (rq_externalMetaAttributes r))"
    unfolding decodeCompilationRequest_def Let_def bool_is_iff
    by (cases r; cases "rq_options r"; auto split: sum.splits)
  moreover have "(isArray ?roots \<and> value_array ?roots \<noteq> [] \<and> nonempty_strings ?rm (value_array ?roots) = Inr (rq_roots r))
      \<longleftrightarrow> strings_are ?roots (rq_roots r) \<and> rq_roots r \<noteq> []"
    by (cases ?roots) (auto simp: isArray_def value_array_def nonempty_strings_iff strings_are_def)
  moreover have "((isNull ?d \<or> isArray ?d) \<and> nonempty_strings ?dm (value_array ?d) = Inr (co_modelDirectories (rq_options r)))
      \<longleftrightarrow> (?d = JNull \<and> co_modelDirectories (rq_options r) = [] \<or> strings_are ?d (co_modelDirectories (rq_options r)))"
    by (cases ?d) (auto simp: isNull_def isArray_def value_array_def nonempty_strings_iff strings_are_def)
  moreover have "((isNull ?a \<or> isArray ?a) \<and> meta_attributes (value_array ?a) = Inr (rq_externalMetaAttributes r))
      \<longleftrightarrow> (?a = JNull \<and> rq_externalMetaAttributes r = []
         \<or> (\<exists>vs. ?a = JArray vs \<and> list_all2 attribute_is vs (rq_externalMetaAttributes r)))"
    by (cases ?a) (auto simp: isNull_def isArray_def value_array_def meta_attributes_iff)
  ultimately show ?thesis by (simp only: request_is_def options_are_def isNull_iff) blast
qed


text \<open>The version test truncates: 1.5 counts as 1.\<close>

lemma schema_truncated:
  "nf_to_int nf d = 1 \<Longrightarrow> schema_supported nf (JObject [(''schemaVersion'', JNumber d)])"
  by (simp add: schema_supported_def value_get_def isNumber_def value_number_def)

subsection \<open>Results that read back\<close>

text \<open>Integers up to \<open>2 ^ 53\<close> are exact as double: they print as themselves and read back.\<close>

definition exact_integers :: "'d number_format \<Rightarrow> bool" where
  "exact_integers nf \<longleftrightarrow> (\<forall>i. \<bar>i\<bar> \<le> 2 ^ 53 \<longrightarrow>
     nf_integer nf (nf_of_int nf i) = Some i \<and> nf_stod nf (int_text i) = Inr (nf_of_int nf i))"

fun json_numbers :: "'d Value \<Rightarrow> 'd set" where
  "json_numbers (JNumber d) = {d}"
| "json_numbers (JArray vs) = (\<Union>v \<in> set vs. json_numbers v)"
| "json_numbers (JObject m) = (\<Union>(k, v) \<in> set m. json_numbers v)"
| "json_numbers v = {}"

lemma json_ok_iff: "json_ok nf v \<longleftrightarrow> json_wf v \<and> (\<forall>d \<in> json_numbers v. json_ok nf (JNumber d))"
proof (induction v)
  case (JArray vs)
  then show ?case by (auto simp: list_all_iff)
next
  case (JObject m)
  have "json_ok nf v \<longleftrightarrow> json_wf v \<and> (\<forall>d \<in> json_numbers v. json_ok nf (JNumber d))" if "(k, v) \<in> set m" for k v
    using JObject [OF that] by simp
  then have "(\<forall>(k, v) \<in> set m. json_ok nf v)
      \<longleftrightarrow> (\<forall>(k, v) \<in> set m. json_wf v \<and> (\<forall>d \<in> json_numbers v. json_ok nf (JNumber d)))" by blast
  then show ?case by (simp add: list_all_iff split_def del: json_ok.simps(1)) blast
qed auto

lemma wf_printed_parses:
  assumes "exact_integers nf" and "json_wf v"
    and "json_numbers v \<subseteq> nf_of_int nf ` {i. \<bar>i\<bar> \<le> 2 ^ 53}"
  shows "json_parse nf (stringify nf v) = Some (Inr v)"
proof (rule printed_parses)
  have "json_ok nf (JNumber (nf_of_int nf i))" if "\<bar>i\<bar> \<le> 2 ^ 53" for i
    using assms(1) that by (simp add: exact_integers_def)
  then show "json_ok nf v" using assms(2,3) by (subst json_ok_iff) blast
qed

lemma example_format_exact: "exact_integers example_format"
proof -
  have "nf_stod example_format (int_text i) = Inr i" for i
  proof -
    obtain c t where c: "dec (nat \<bar>i\<bar>) = c # t" "is_digit c" using dec_Cons by metis
    have "undec 0 (c # t) = nat \<bar>i\<bar>" using undec_dec [of "nat \<bar>i\<bar>"] c(1) by (simp del: undec.simps)
    moreover have "c \<noteq> CHR ''-''" using c(2) by (auto simp: is_digit_def)
    ultimately show ?thesis using c
      by (cases "i < 0") (simp_all add: example_format_def int_text_def del: undec.simps)
  qed
  then show ?thesis by (simp add: exact_integers_def example_format_def)
qed

end
