(* ===== verification/Capi.thy ===== *)
theory Capi
  imports Capi_Projectors Session_Correctness
begin

section \<open>The C interface\<close>

text \<open>
  source/abi/Capi.cpp: the exported functions over the two handle tables. A C buffer is a null pointer with a
  length or the bytes that pointer and length denote. The compiler behind the interface (number format, the
  services of a session, the recogniser of the formatter) is the record \<open>abi\<close>. A session is held by a shared
  pointer: an operation on it replaces the state stored under its handle. Calls are taken one after the other.

  The functions that answer a request have one shape, \<open>serve_request\<close>: an unknown handle and a null buffer are
  refused, otherwise the value that the handler computes is stored. The try blocks are the handlers; the errors
  they catch are those of JSON, of the request and of the formatter's preconditions. The session's own
  operations do not fail in the model, except updating a source, whose failure is \<open>None\<close>. \<open>ilic_alloc\<close> and
  \<open>ilic_free\<close> hand out memory and have no model.

  Shown: every session behind a handle satisfies the session's invariants and every stored text is printed from
  a well-formed value, in every state that a sequence of calls reaches; a result stays readable until it is
  destroyed; a call touches no other session; what the return codes of putting a source mean; error results
  read back.
\<close>

datatype c_buffer = NullBuffer nat | Bytes string

record 'd abi =
  ab_numbers :: "'d number_format"
  ab_services :: services
  ab_recognise :: "string \<Rightarrow> string + syntax_error list"

record capi =
  capi_sessions :: "CompilerSessionState registry"
  capi_results :: "string registry"

definition initial_capi :: capi where
  "initial_capi = \<lparr>capi_sessions = empty_registry, capi_results = empty_registry\<rparr>"

definition default_parsed_options :: ParsedSourceCacheOptions where
  "default_parsed_options = \<lparr>pco_maxEntries = 512, pco_maxRetainedBytes = 256 * 1024 * 1024,
     pco_retainOversizedEntry = False\<rparr>"

definition default_root_options :: RootAnalysisCacheOptions where
  "default_root_options = \<lparr>rco_maxEntries = 64, rco_maxRetainedBytes = 512 * 1024 * 1024\<rparr>"

definition CompilerSession :: CompilerSessionState where
  "CompilerSession = make_session default_parsed_options default_root_options"

subsection \<open>Helpers\<close>

definition abi_error :: "'d abi \<Rightarrow> string \<Rightarrow> string \<Rightarrow> 'd Value" where
  "abi_error ab kind message = errorResult (ab_numbers ab) (sv_version (ab_services ab)) kind message [] 0"

definition store_value :: "'d abi \<Rightarrow> 'd Value \<Rightarrow> capi \<Rightarrow> u32 \<times> capi" where
  "store_value ab v c = (let (h, results) = store (ab_numbers ab) v (capi_results c)
     in (h, c\<lparr>capi_results := results\<rparr>))"

definition set_session :: "u32 \<Rightarrow> CompilerSessionState \<Rightarrow> capi \<Rightarrow> capi" where
  "set_session h s c = c\<lparr>capi_sessions := (capi_sessions c)\<lparr>rg_values := assign h s (rg_values (capi_sessions c))\<rparr>\<rparr>"

definition parse_request :: "'d abi \<Rightarrow> string \<Rightarrow> string + 'd Value" where
  "parse_request ab bytes = (case json_parse (ab_numbers ab) bytes of None \<Rightarrow> Inl [] | Some r \<Rightarrow> r)"

definition requestUri :: "'d abi \<Rightarrow> 'd Value \<Rightarrow> string \<Rightarrow> string + string" where
  "requestUri ab json kind =
     (if \<not> isObject json then Inl (kind @ '' request must be an object'')
      else if \<not> schema_supported (ab_numbers ab) json then Inl ''unsupported schemaVersion''
      else if \<not> isString (value_get json ''uri'') \<or> value_string (value_get json ''uri'') = []
        then Inl ''uri must be a non-empty string''
      else Inr (value_string (value_get json ''uri'')))"

definition serve_request ::
  "'d abi \<Rightarrow> string \<Rightarrow> (string \<Rightarrow> CompilerSessionState \<Rightarrow> 'd Value \<times> CompilerSessionState) \<Rightarrow> u32 \<Rightarrow> c_buffer
     \<Rightarrow> capi \<Rightarrow> u32 \<times> capi" where
  "serve_request ab kind handler h request c =
     (case registry_get h (capi_sessions c) of
        None \<Rightarrow> store_value ab (abi_error ab kind ''invalid session handle'') c
      | Some session \<Rightarrow>
          (case request of
             NullBuffer _ \<Rightarrow> store_value ab (abi_error ab kind ''request JSON is null'') c
           | Bytes bytes \<Rightarrow>
               (let (v, session') = handler bytes session in store_value ab v (set_session h session' c))))"

subsection \<open>Sessions\<close>

definition ilic_abi_version :: u32 where
  "ilic_abi_version = 1"

definition ilic_version :: "'d abi \<Rightarrow> string" where
  "ilic_version ab = sv_version (ab_services ab)"

definition ilic_session_create :: "capi \<Rightarrow> u32 \<times> capi" where
  "ilic_session_create c = (let (h, sessions) = registry_create CompilerSession (capi_sessions c)
     in (h, c\<lparr>capi_sessions := sessions\<rparr>))"

definition ilic_session_destroy :: "u32 \<Rightarrow> capi \<Rightarrow> capi" where
  "ilic_session_destroy h c = c\<lparr>capi_sessions := registry_destroy h (capi_sessions c)\<rparr>"

fun source_bytes :: "c_buffer \<Rightarrow> string option" where
  "source_bytes (NullBuffer n) = (if n \<noteq> 0 then None else Some [])"
| "source_bytes (Bytes t) = Some t"

definition ilic_session_put_source ::
  "'d abi \<Rightarrow> u32 \<Rightarrow> c_buffer \<Rightarrow> c_buffer \<Rightarrow> u64 \<Rightarrow> capi \<Rightarrow> int \<times> capi" where
  "ilic_session_put_source ab h uri utf8 version c =
     (case (registry_get h (capi_sessions c), uri, source_bytes utf8) of
        (Some session, Bytes u, Some t) \<Rightarrow>
          (case updateSource (ab_services ab) u t version session of
             None \<Rightarrow> (- 2, c)
           | Some (r, session') \<Rightarrow> (if ur_accepted r then 0 else - 3, set_session h session' c))
      | _ \<Rightarrow> (- 1, c))"

definition ilic_session_remove_source :: "u32 \<Rightarrow> c_buffer \<Rightarrow> capi \<Rightarrow> int \<times> capi" where
  "ilic_session_remove_source h uri c =
     (case (registry_get h (capi_sessions c), uri) of
        (Some session, Bytes u) \<Rightarrow>
          (let (removed, session') = session_removeSource u session
           in (if removed then 0 else 1, set_session h session' c))
      | _ \<Rightarrow> (- 1, c))"

definition ilic_incremental_stats :: "'d abi \<Rightarrow> u32 \<Rightarrow> capi \<Rightarrow> u32 \<times> capi" where
  "ilic_incremental_stats ab h c =
     (case registry_get h (capi_sessions c) of
        None \<Rightarrow> store_value ab (abi_error ab ''incremental-stats'' ''invalid session handle'') c
      | Some session \<Rightarrow>
          (let (stats, session') = incrementalStats session
           in store_value ab (incrementalStatsResult (ab_numbers ab) (ilic_version ab) stats) (set_session h session' c)))"

definition ilic_incremental_trace :: "'d abi \<Rightarrow> u32 \<Rightarrow> capi \<Rightarrow> u32 \<times> capi" where
  "ilic_incremental_trace ab h c =
     (case registry_get h (capi_sessions c) of
        None \<Rightarrow> store_value ab (abi_error ab ''incremental-trace'' ''invalid session handle'') c
      | Some session \<Rightarrow>
          store_value ab (incrementalTraceResult (ab_numbers ab) (ilic_version ab) (lastIncrementalTrace session)) c)"

definition ilic_incremental_cache_snapshot :: "'d abi \<Rightarrow> u32 \<Rightarrow> capi \<Rightarrow> u32 \<times> capi" where
  "ilic_incremental_cache_snapshot ab h c =
     (case registry_get h (capi_sessions c) of
        None \<Rightarrow> store_value ab (abi_error ab ''incremental-cache-snapshot'' ''invalid session handle'') c
      | Some session \<Rightarrow>
          store_value ab (incrementalCacheSnapshotResult (ab_numbers ab) (ilic_version ab)
            (incrementalCacheSnapshot session)) c)"

definition ilic_reset_incremental_stats :: "u32 \<Rightarrow> capi \<Rightarrow> int \<times> capi" where
  "ilic_reset_incremental_stats h c =
     (case registry_get h (capi_sessions c) of
        None \<Rightarrow> (- 1, c)
      | Some session \<Rightarrow> (0, set_session h (resetIncrementalStats session) c))"

definition ilic_clear_incremental_caches :: "u32 \<Rightarrow> capi \<Rightarrow> int \<times> capi" where
  "ilic_clear_incremental_caches h c =
     (case registry_get h (capi_sessions c) of
        None \<Rightarrow> (- 1, c)
      | Some session \<Rightarrow> (0, set_session h (clearIncrementalCaches session) c))"

subsection \<open>Requests\<close>

text \<open>The three functions that take a compilation request.\<close>

definition compilation_handler ::
  "'d abi \<Rightarrow> string \<Rightarrow> (CompilationRequest \<Rightarrow> CompilerSessionState \<Rightarrow> 'd Value \<times> CompilerSessionState)
     \<Rightarrow> string \<Rightarrow> CompilerSessionState \<Rightarrow> 'd Value \<times> CompilerSessionState" where
  "compilation_handler ab kind run bytes session =
     (case parse_request ab bytes of
        Inl e \<Rightarrow> (abi_error ab kind e, session)
      | Inr json \<Rightarrow>
          (case decodeCompilationRequest (ab_numbers ab) json of
             Inl e \<Rightarrow> (abi_error ab kind e, session)
           | Inr request \<Rightarrow> run request session))"

definition ilic_compile :: "'d abi \<Rightarrow> u32 \<Rightarrow> c_buffer \<Rightarrow> capi \<Rightarrow> u32 \<times> capi" where
  "ilic_compile ab = serve_request ab ''compilation'' (compilation_handler ab ''compilation'' (\<lambda>request session.
     let (r, session') = session_compile (ab_services ab) request session
     in (compileResult (ab_numbers ab) (ilic_version ab) r, session')))"

definition ilic_analyze :: "'d abi \<Rightarrow> u32 \<Rightarrow> c_buffer \<Rightarrow> capi \<Rightarrow> u32 \<times> capi" where
  "ilic_analyze ab = serve_request ab ''semantic'' (compilation_handler ab ''semantic'' (\<lambda>request session.
     let (r, session') = session_analyze (ab_services ab) request session
     in (semanticResult (ab_numbers ab) (ilic_version ab) r, session')))"

definition ilic_compile_and_analyze :: "'d abi \<Rightarrow> u32 \<Rightarrow> c_buffer \<Rightarrow> capi \<Rightarrow> u32 \<times> capi" where
  "ilic_compile_and_analyze ab = serve_request ab ''compilation-analysis''
     (compilation_handler ab ''compilation-analysis'' (\<lambda>request session.
        let (r, session') = compileAndAnalyze (ab_services ab) request session
        in (compilationAnalysisResult (ab_numbers ab) (ilic_version ab) r, session')))"

text \<open>The two functions that take the URI of a source. The error names the URI read so far and the version of
  its source.\<close>

definition uri_error :: "'d abi \<Rightarrow> string \<Rightarrow> string \<Rightarrow> string \<Rightarrow> CompilerSessionState \<Rightarrow> 'd Value" where
  "uri_error ab kind message uri session =
     errorResult (ab_numbers ab) (ilic_version ab) kind message uri
       (case if uri = [] then None else SourceManager_get (ses_sources session) uri of
          None \<Rightarrow> 0 | Some source \<Rightarrow> sb_version source)"

definition uri_handler ::
  "'d abi \<Rightarrow> string \<Rightarrow> string \<Rightarrow> (string \<Rightarrow> CompilerSessionState \<Rightarrow> 'd Value \<times> CompilerSessionState)
     \<Rightarrow> string \<Rightarrow> CompilerSessionState \<Rightarrow> 'd Value \<times> CompilerSessionState" where
  "uri_handler ab kind name run bytes session =
     (case parse_request ab bytes of
        Inl e \<Rightarrow> (uri_error ab kind e [] session, session)
      | Inr json \<Rightarrow>
          (case requestUri ab json name of
             Inl e \<Rightarrow> (uri_error ab kind e [] session, session)
           | Inr uri \<Rightarrow> run uri session))"

definition ilic_parse :: "'d abi \<Rightarrow> u32 \<Rightarrow> c_buffer \<Rightarrow> capi \<Rightarrow> u32 \<times> capi" where
  "ilic_parse ab = serve_request ab ''syntax'' (uri_handler ab ''syntax'' ''parse'' (\<lambda>uri session.
     let (r, session') = session_parse (ab_services ab) uri session
     in (syntaxResult (ab_numbers ab) (ilic_version ab) r, session')))"

definition ilic_editor_snapshot :: "'d abi \<Rightarrow> u32 \<Rightarrow> c_buffer \<Rightarrow> capi \<Rightarrow> u32 \<times> capi" where
  "ilic_editor_snapshot ab = serve_request ab ''editor'' (uri_handler ab ''editor'' ''editor'' (\<lambda>uri session.
     let (r, session') = editorSnapshot (ab_services ab) uri session
     in (editorResult (ab_numbers ab) (ilic_version ab) r, session')))"

text \<open>Formatting. A number is an integer between 1 and 16 exactly when its conversion to long long succeeds with
  such a value.\<close>

definition format_options :: "'d number_format \<Rightarrow> 'd Value \<Rightarrow> string + FormatOptions" where
  "format_options nf options =
     (let size = value_get options ''indentSize''; valid = value_get options ''requireValidSyntax''
      in
      if \<not> isNull options \<and> \<not> isObject options then Inl ''options must be an object''
      else if \<not> isNull size \<and> \<not> isNumber size then Inl ''indentSize must be a number''
      else if \<not> isNull valid \<and> \<not> isBool valid then Inl ''requireValidSyntax must be a boolean''
      else case nf_integer nf (value_number size (nf_of_int nf 2)) of
        None \<Rightarrow> Inl ''indentSize must be an integer between 1 and 16''
      | Some i \<Rightarrow>
          if i < 1 \<or> i > 16 then Inl ''indentSize must be an integer between 1 and 16''
          else Inr \<lparr>fo_indentSize = nat i, fo_requireValidSyntax = value_boolean valid True\<rparr>)"

definition format_handler :: "'d abi \<Rightarrow> string \<Rightarrow> CompilerSessionState \<Rightarrow> 'd Value \<times> CompilerSessionState" where
  "format_handler ab bytes session =
     (case parse_request ab bytes of
        Inl e \<Rightarrow> (abi_error ab ''formatting'' e, session)
      | Inr json \<Rightarrow>
          (case requestUri ab json ''format'' of
             Inl e \<Rightarrow> (abi_error ab ''formatting'' e, session)
           | Inr uri \<Rightarrow>
               (case SourceManager_get (ses_sources session) uri of
                  None \<Rightarrow> (abi_error ab ''formatting'' ''format source is not registered'', session)
                | Some source \<Rightarrow>
                    (case format_options (ab_numbers ab) (value_get json ''options'') of
                       Inl e \<Rightarrow> (abi_error ab ''formatting'' e, session)
                     | Inr options \<Rightarrow>
                         (formattingResult (ab_numbers ab) (ilic_version ab)
                            (Formatter.format (ab_recognise ab) uri (sb_text source) options), session)))))"

definition ilic_format :: "'d abi \<Rightarrow> u32 \<Rightarrow> c_buffer \<Rightarrow> capi \<Rightarrow> u32 \<times> capi" where
  "ilic_format ab = serve_request ab ''formatting'' (format_handler ab)"

definition ilic_result_json :: "u32 \<Rightarrow> capi \<Rightarrow> string option \<times> nat" where
  "ilic_result_json h c = result_json h (capi_results c)"

definition ilic_result_destroy :: "u32 \<Rightarrow> capi \<Rightarrow> capi" where
  "ilic_result_destroy h c = c\<lparr>capi_results := result_destroy h (capi_results c)\<rparr>"

subsection \<open>Sequences of calls\<close>

datatype capi_call =
    SessionCreate
  | SessionDestroy u32
  | PutSource u32 c_buffer c_buffer u64
  | RemoveSource u32 c_buffer
  | Stats u32
  | Trace u32
  | CacheSnapshot u32
  | ResetStats u32
  | ClearCaches u32
  | Compile u32 c_buffer
  | Parse u32 c_buffer
  | EditorSnapshotCall u32 c_buffer
  | Analyze u32 c_buffer
  | CompileAndAnalyze u32 c_buffer
  | Format u32 c_buffer
  | ResultJson u32
  | ResultDestroy u32

fun capi_step :: "'d abi \<Rightarrow> capi_call \<Rightarrow> capi \<Rightarrow> capi" where
  "capi_step ab SessionCreate c = snd (ilic_session_create c)"
| "capi_step ab (SessionDestroy h) c = ilic_session_destroy h c"
| "capi_step ab (PutSource h u t v) c = snd (ilic_session_put_source ab h u t v c)"
| "capi_step ab (RemoveSource h u) c = snd (ilic_session_remove_source h u c)"
| "capi_step ab (Stats h) c = snd (ilic_incremental_stats ab h c)"
| "capi_step ab (Trace h) c = snd (ilic_incremental_trace ab h c)"
| "capi_step ab (CacheSnapshot h) c = snd (ilic_incremental_cache_snapshot ab h c)"
| "capi_step ab (ResetStats h) c = snd (ilic_reset_incremental_stats h c)"
| "capi_step ab (ClearCaches h) c = snd (ilic_clear_incremental_caches h c)"
| "capi_step ab (Compile h b) c = snd (ilic_compile ab h b c)"
| "capi_step ab (Parse h b) c = snd (ilic_parse ab h b c)"
| "capi_step ab (EditorSnapshotCall h b) c = snd (ilic_editor_snapshot ab h b c)"
| "capi_step ab (Analyze h b) c = snd (ilic_analyze ab h b c)"
| "capi_step ab (CompileAndAnalyze h b) c = snd (ilic_compile_and_analyze ab h b c)"
| "capi_step ab (Format h b) c = snd (ilic_format ab h b c)"
| "capi_step ab (ResultJson h) c = c"
| "capi_step ab (ResultDestroy h) c = ilic_result_destroy h c"

definition capi_run :: "'d abi \<Rightarrow> capi_call list \<Rightarrow> capi \<Rightarrow> capi" where
  "capi_run ab calls c = fold (capi_step ab) calls c"

subsection \<open>What a call may change\<close>

definition handler_ok :: "'d abi \<Rightarrow> (string \<Rightarrow> CompilerSessionState \<Rightarrow> 'd Value \<times> CompilerSessionState) \<Rightarrow> bool" where
  "handler_ok ab handler \<longleftrightarrow> (\<forall>bytes s. json_wf (fst (handler bytes s))
     \<and> (\<forall>po ro. session_reach (ab_services ab) po ro s \<longrightarrow> session_reach (ab_services ab) po ro (snd (handler bytes s))))"

lemma abi_error_wf [simp]: "json_wf (abi_error ab kind message)"
  by (simp add: abi_error_def results_wf)

lemma analyze_reach:
  "session_reach sv po ro s \<Longrightarrow> session_reach sv po ro (snd (session_analyze sv request s))"
  using session_reach.analyze by (simp add: session_analyze_def split_beta)

lemma compilation_handler_ok:
  assumes "\<And>request s. json_wf (fst (run request s))"
    and "\<And>request s po ro. session_reach (ab_services ab) po ro s
           \<Longrightarrow> session_reach (ab_services ab) po ro (snd (run request s))"
  shows "handler_ok ab (compilation_handler ab kind run)"
  unfolding handler_ok_def compilation_handler_def using assms by (auto split: sum.splits)

lemma uri_handler_ok:
  assumes "\<And>uri s. json_wf (fst (run uri s))"
    and "\<And>uri s po ro. session_reach (ab_services ab) po ro s
           \<Longrightarrow> session_reach (ab_services ab) po ro (snd (run uri s))"
  shows "handler_ok ab (uri_handler ab kind name run)"
  unfolding handler_ok_def uri_handler_def uri_error_def using assms by (auto simp: results_wf split: sum.splits)

lemma format_handler_ok: "handler_ok ab (format_handler ab)"
  unfolding handler_ok_def format_handler_def by (auto simp: results_wf split: sum.splits option.splits)

definition results_effect :: "'d abi \<Rightarrow> capi_call \<Rightarrow> capi \<Rightarrow> capi \<Rightarrow> bool" where
  "results_effect ab call c c' \<longleftrightarrow> capi_results c' = capi_results c
     \<or> (\<exists>v. json_wf v \<and> capi_results c' = snd (storeJson (stringify (ab_numbers ab) v) (capi_results c)))
     \<or> (\<exists>h. call = ResultDestroy h \<and> capi_results c' = result_destroy h (capi_results c))"

fun target :: "capi_call \<Rightarrow> u32 option" where
  "target SessionCreate = None"
| "target (ResultJson h) = None"
| "target (ResultDestroy h) = None"
| "target (SessionDestroy h) = Some h"
| "target (PutSource h u t v) = Some h"
| "target (RemoveSource h u) = Some h"
| "target (Stats h) = Some h"
| "target (Trace h) = Some h"
| "target (CacheSnapshot h) = Some h"
| "target (ResetStats h) = Some h"
| "target (ClearCaches h) = Some h"
| "target (Compile h b) = Some h"
| "target (Parse h b) = Some h"
| "target (EditorSnapshotCall h b) = Some h"
| "target (Analyze h b) = Some h"
| "target (CompileAndAnalyze h b) = Some h"
| "target (Format h b) = Some h"

definition sessions_effect :: "'d abi \<Rightarrow> capi_call \<Rightarrow> capi \<Rightarrow> capi \<Rightarrow> bool" where
  "sessions_effect ab call c c' \<longleftrightarrow> capi_sessions c' = capi_sessions c
     \<or> call = SessionCreate \<and> capi_sessions c' = snd (registry_create CompilerSession (capi_sessions c))
     \<or> (\<exists>h. call = SessionDestroy h \<and> capi_sessions c' = registry_destroy h (capi_sessions c))
     \<or> (\<exists>h s s'. target call = Some h \<and> registry_get h (capi_sessions c) = Some s
          \<and> (\<forall>po ro. session_reach (ab_services ab) po ro s \<longrightarrow> session_reach (ab_services ab) po ro s')
          \<and> capi_sessions c' = (capi_sessions c)\<lparr>rg_values := assign h s' (rg_values (capi_sessions c))\<rparr>)"

lemma store_value_parts [simp]:
  "capi_sessions (snd (store_value ab v c)) = capi_sessions c"
  "capi_results (snd (store_value ab v c)) = snd (storeJson (stringify (ab_numbers ab) v) (capi_results c))"
  by (simp_all add: store_value_def store_def split_beta)

lemma set_session_parts [simp]:
  "capi_results (set_session h s c) = capi_results c"
  "capi_sessions (set_session h s c) = (capi_sessions c)\<lparr>rg_values := assign h s (rg_values (capi_sessions c))\<rparr>"
  by (simp_all add: set_session_def)

lemma results_same: "capi_results c' = capi_results c \<Longrightarrow> results_effect ab call c c'"
  by (simp add: results_effect_def)

lemma results_stored:
  "json_wf v \<Longrightarrow> capi_results c' = capi_results c \<Longrightarrow> results_effect ab call c (snd (store_value ab v c'))"
  by (auto simp: results_effect_def)

lemma sessions_same: "capi_sessions c' = capi_sessions c \<Longrightarrow> sessions_effect ab call c c'"
  by (simp add: sessions_effect_def)

lemma sessions_set:
  assumes "target call = Some h" and "registry_get h (capi_sessions c) = Some s"
    and "\<And>po ro. session_reach (ab_services ab) po ro s \<Longrightarrow> session_reach (ab_services ab) po ro s'"
  shows "sessions_effect ab call c (set_session h s' c)"
  unfolding sessions_effect_def set_session_parts using assms by blast

lemma sessions_stored: "sessions_effect ab call c c' \<Longrightarrow> sessions_effect ab call c (snd (store_value ab v c'))"
  by (simp add: sessions_effect_def)

lemmas effect_intros = results_same results_stored sessions_stored sessions_same

lemma serve_request_effect:
  assumes "handler_ok ab handler" and "target call = Some h"
  shows "results_effect ab call c (snd (serve_request ab kind handler h b c))"
    and "sessions_effect ab call c (snd (serve_request ab kind handler h b c))"
proof -
  have wf: "json_wf (fst (handler bytes s))"
    and reach: "session_reach (ab_services ab) po ro s \<Longrightarrow> session_reach (ab_services ab) po ro (snd (handler bytes s))"
    for bytes s po ro using assms(1) by (auto simp: handler_ok_def)
  have "results_effect ab call c (snd (serve_request ab kind handler h b c))
    \<and> sessions_effect ab call c (snd (serve_request ab kind handler h b c))"
  proof (cases "registry_get h (capi_sessions c)")
    case None
    then show ?thesis by (simp add: serve_request_def effect_intros)
  next
    case (Some s)
    show ?thesis
    proof (cases b)
      case (NullBuffer n)
      then show ?thesis using Some by (simp add: serve_request_def effect_intros)
    next
      case (Bytes bytes)
      have "sessions_effect ab call c (set_session h (snd (handler bytes s)) c)"
        using sessions_set [OF assms(2) Some reach] .
      then show ?thesis using Some Bytes wf by (simp add: serve_request_def split_beta effect_intros)
    qed
  qed
  then show "results_effect ab call c (snd (serve_request ab kind handler h b c))"
    and "sessions_effect ab call c (snd (serve_request ab kind handler h b c))" by blast+
qed

lemma request_handlers_ok:
  "handler_ok ab (compilation_handler ab ''compilation'' (\<lambda>request session.
     let (r, session') = session_compile (ab_services ab) request session
     in (compileResult (ab_numbers ab) (ilic_version ab) r, session')))"
  "handler_ok ab (compilation_handler ab ''semantic'' (\<lambda>request session.
     let (r, session') = session_analyze (ab_services ab) request session
     in (semanticResult (ab_numbers ab) (ilic_version ab) r, session')))"
  "handler_ok ab (compilation_handler ab ''compilation-analysis'' (\<lambda>request session.
     let (r, session') = compileAndAnalyze (ab_services ab) request session
     in (compilationAnalysisResult (ab_numbers ab) (ilic_version ab) r, session')))"
  "handler_ok ab (uri_handler ab ''syntax'' ''parse'' (\<lambda>uri session.
     let (r, session') = session_parse (ab_services ab) uri session
     in (syntaxResult (ab_numbers ab) (ilic_version ab) r, session')))"
  "handler_ok ab (uri_handler ab ''editor'' ''editor'' (\<lambda>uri session.
     let (r, session') = editorSnapshot (ab_services ab) uri session
     in (editorResult (ab_numbers ab) (ilic_version ab) r, session')))"
  by (rule compilation_handler_ok uri_handler_ok;
      simp add: split_beta results_wf analyze_reach session_reach.parse session_reach.editor
        session_reach.analyze session_reach.compile)+

lemmas request_defs = ilic_compile_def ilic_analyze_def ilic_compile_and_analyze_def ilic_parse_def
  ilic_editor_snapshot_def ilic_format_def

lemma request_effects:
  "results_effect ab (Compile h b) c (snd (ilic_compile ab h b c))"
  "results_effect ab (Analyze h b) c (snd (ilic_analyze ab h b c))"
  "results_effect ab (CompileAndAnalyze h b) c (snd (ilic_compile_and_analyze ab h b c))"
  "results_effect ab (Parse h b) c (snd (ilic_parse ab h b c))"
  "results_effect ab (EditorSnapshotCall h b) c (snd (ilic_editor_snapshot ab h b c))"
  "results_effect ab (Format h b) c (snd (ilic_format ab h b c))"
  "sessions_effect ab (Compile h b) c (snd (ilic_compile ab h b c))"
  "sessions_effect ab (Analyze h b) c (snd (ilic_analyze ab h b c))"
  "sessions_effect ab (CompileAndAnalyze h b) c (snd (ilic_compile_and_analyze ab h b c))"
  "sessions_effect ab (Parse h b) c (snd (ilic_parse ab h b c))"
  "sessions_effect ab (EditorSnapshotCall h b) c (snd (ilic_editor_snapshot ab h b c))"
  "sessions_effect ab (Format h b) c (snd (ilic_format ab h b c))"
  unfolding request_defs
  by (rule serve_request_effect, rule request_handlers_ok format_handler_ok, simp)+

lemma put_source_effect:
  "results_effect ab (PutSource h u t v) c (snd (ilic_session_put_source ab h u t v c))"
  "sessions_effect ab (PutSource h u t v) c (snd (ilic_session_put_source ab h u t v c))"
  unfolding ilic_session_put_source_def
  by (auto split: option.splits c_buffer.splits prod.splits
      intro: effect_intros sessions_set [rotated] session_reach.update)

lemma remove_source_effect:
  "results_effect ab (RemoveSource h u) c (snd (ilic_session_remove_source h u c))"
  "sessions_effect ab (RemoveSource h u) c (snd (ilic_session_remove_source h u c))"
  unfolding ilic_session_remove_source_def
  by (auto simp: split_beta split: option.splits c_buffer.splits
      intro: effect_intros sessions_set [rotated] session_reach.remove [OF _ surjective_pairing])

lemma incremental_effects:
  "results_effect ab (Stats h) c (snd (ilic_incremental_stats ab h c))"
  "sessions_effect ab (Stats h) c (snd (ilic_incremental_stats ab h c))"
  "results_effect ab (Trace h) c (snd (ilic_incremental_trace ab h c))"
  "sessions_effect ab (Trace h) c (snd (ilic_incremental_trace ab h c))"
  "results_effect ab (CacheSnapshot h) c (snd (ilic_incremental_cache_snapshot ab h c))"
  "sessions_effect ab (CacheSnapshot h) c (snd (ilic_incremental_cache_snapshot ab h c))"
  "sessions_effect ab (ResetStats h) c (snd (ilic_reset_incremental_stats h c))"
  "sessions_effect ab (ClearCaches h) c (snd (ilic_clear_incremental_caches h c))"
  "results_effect ab (ResetStats h) c (snd (ilic_reset_incremental_stats h c))"
  "results_effect ab (ClearCaches h) c (snd (ilic_clear_incremental_caches h c))"
  unfolding ilic_incremental_stats_def ilic_incremental_trace_def
    ilic_incremental_cache_snapshot_def ilic_reset_incremental_stats_def ilic_clear_incremental_caches_def
  by (auto simp: split_beta split: option.splits
      intro!: sessions_stored results_stored intro: results_same sessions_same results_wf abi_error_wf
        sessions_set [rotated] session_reach.stats session_reach.reset session_reach.clear)

lemma capi_step_effect:
  "results_effect ab call c (capi_step ab call c)" "sessions_effect ab call c (capi_step ab call c)"
  by (cases call; simp add: request_effects put_source_effect remove_source_effect incremental_effects;
      simp add: results_effect_def sessions_effect_def ilic_session_create_def ilic_session_destroy_def
        ilic_result_destroy_def split_beta)+

subsection \<open>Every state that calls reach\<close>

definition printed_values :: "'d number_format \<Rightarrow> string registry \<Rightarrow> bool" where
  "printed_values nf r \<longleftrightarrow> (\<forall>(h, t) \<in> set (rg_values r). \<exists>v. json_wf v \<and> t = stringify nf v)"

definition sessions_reached :: "services \<Rightarrow> CompilerSessionState registry \<Rightarrow> bool" where
  "sessions_reached sv r \<longleftrightarrow>
     (\<forall>(h, s) \<in> set (rg_values r). session_reach sv default_parsed_options default_root_options s)"

definition capi_inv :: "'d abi \<Rightarrow> nat \<Rightarrow> capi \<Rightarrow> bool" where
  "capi_inv ab n c \<longleftrightarrow> (\<exists>m \<le> n. registry_inv m (capi_sessions c)) \<and> (\<exists>m \<le> n. registry_inv m (capi_results c))
     \<and> sessions_reached (ab_services ab) (capi_sessions c) \<and> printed_values (ab_numbers ab) (capi_results c)"

lemma registry_inv_wf: "registry_inv m r \<Longrightarrow> omap_wf (rg_values r)"
  by (simp add: registry_inv_def)

lemma registry_inv_replace:
  assumes "registry_inv m r" and "map_of (rg_values r) h = Some x"
  shows "registry_inv m (r\<lparr>rg_values := assign h y (rg_values r)\<rparr>)"
proof -
  have "h \<in> fst ` set (rg_values r)" using assms(2) by (force dest: map_of_SomeD)
  then show ?thesis using assms(1) by (auto simp: registry_inv_def)
qed

lemma capi_inv_initial: "capi_inv ab 0 initial_capi"
  by (simp add: capi_inv_def initial_capi_def sessions_reached_def printed_values_def)
    (simp add: empty_registry_def)

lemma results_step:
  assumes "results_effect ab call c c'" and "registry_inv m (capi_results c)" and "printed_values (ab_numbers ab) (capi_results c)"
  shows "\<exists>k \<le> Suc m. registry_inv k (capi_results c')" and "printed_values (ab_numbers ab) (capi_results c')"
proof -
  have store: "registry_inv (Suc m) (snd (storeJson t (capi_results c)))" for t
    using result_table.insert_inv [OF assms(2) surjective_pairing] .
  show "\<exists>k \<le> Suc m. registry_inv k (capi_results c')"
    using assms(1,2) store result_table.delete_inv [OF assms(2)] by (auto simp: results_effect_def intro: le_SucI)
  show "printed_values (ab_numbers ab) (capi_results c')"
    using assms(1,3) set_assign_subset
    by (fastforce simp: results_effect_def printed_values_def storeJson_def result_destroy_def Let_def set_erase)
qed

lemma sessions_step:
  assumes "sessions_effect ab call c c'" and "registry_inv m (capi_sessions c)"
    and "sessions_reached (ab_services ab) (capi_sessions c)"
  shows "\<exists>k \<le> Suc m. registry_inv k (capi_sessions c')" and "sessions_reached (ab_services ab) (capi_sessions c')"
proof -
  have create: "registry_inv (Suc m) (snd (registry_create s (capi_sessions c)))" for s
    using session_table.insert_inv [OF assms(2) surjective_pairing] .
  note delete = session_table.delete_inv [OF assms(2)]
  show "\<exists>k \<le> Suc m. registry_inv k (capi_sessions c')"
    using assms(1,2) create delete registry_inv_replace [OF assms(2)]
    by (auto simp: sessions_effect_def registry_get_def intro: le_SucI)
  have new: "session_reach (ab_services ab) default_parsed_options default_root_options CompilerSession"
    unfolding CompilerSession_def by (rule session_reach.create)
  have live: "session_reach (ab_services ab) default_parsed_options default_root_options s"
    if "registry_get h (capi_sessions c) = Some s" for h s
    using that assms(3) by (auto simp: registry_get_def sessions_reached_def dest: map_of_SomeD)
  have keep: "sessions_reached (ab_services ab) (r\<lparr>rg_values := assign h s (rg_values r)\<rparr>)"
    if "session_reach (ab_services ab) default_parsed_options default_root_options s"
      and "sessions_reached (ab_services ab) r" for r h s
    using that set_assign_subset [of h s "rg_values r"] by (auto simp: sessions_reached_def)
  show "sessions_reached (ab_services ab) (capi_sessions c')"
    using assms(1) unfolding sessions_effect_def
  proof (elim disjE conjE exE)
    assume "capi_sessions c' = snd (registry_create CompilerSession (capi_sessions c))"
    then show ?thesis using keep [OF new assms(3)] by (simp add: registry_create_def Let_def sessions_reached_def)
  next
    fix h s s'
    assume "registry_get h (capi_sessions c) = Some s"
      and "\<forall>po ro. session_reach (ab_services ab) po ro s \<longrightarrow> session_reach (ab_services ab) po ro s'"
      and "capi_sessions c' = (capi_sessions c)\<lparr>rg_values := assign h s' (rg_values (capi_sessions c))\<rparr>"
    then show ?thesis using keep [OF _ assms(3)] live by simp
  qed (use assms(3) in \<open>auto simp: sessions_reached_def registry_destroy_def set_erase\<close>)
qed

lemma capi_step_inv: "capi_inv ab n c \<Longrightarrow> capi_inv ab (Suc n) (capi_step ab call c)"
  using results_step [OF capi_step_effect(1)] sessions_step [OF capi_step_effect(2)]
  unfolding capi_inv_def by (meson Suc_le_mono order_trans)

lemma capi_run_Cons: "capi_run ab (call # calls) c = capi_run ab calls (capi_step ab call c)"
  by (simp add: capi_run_def)

lemma capi_run_append: "capi_run ab (xs @ ys) c = capi_run ab ys (capi_run ab xs c)"
  by (simp add: capi_run_def)

lemma capi_run_inv: "capi_inv ab n c \<Longrightarrow> capi_inv ab (n + length calls) (capi_run ab calls c)"
proof (induction calls arbitrary: n c)
  case (Cons call calls)
  then show ?case using Cons.IH [OF capi_step_inv [OF Cons.prems]] by (simp add: capi_run_Cons)
qed (simp add: capi_run_def)

lemma reached_inv: "capi_inv ab (length calls) (capi_run ab calls initial_capi)"
  using capi_run_inv [OF capi_inv_initial, of ab calls] by simp

lemma reached_session:
  assumes "registry_get h (capi_sessions (capi_run ab calls initial_capi)) = Some s"
  shows "session_reach (ab_services ab) default_parsed_options default_root_options s"
  using assms reached_inv [of ab calls] unfolding capi_inv_def sessions_reached_def registry_get_def
  by (auto dest: map_of_SomeD)

subsection \<open>Handles stay valid\<close>

lemma result_kept:
  assumes "capi_inv ab n c" and "n < 2 ^ 32 - 1" and "call \<noteq> ResultDestroy h"
    and "fst (ilic_result_json h c) = Some t"
  shows "fst (ilic_result_json h (capi_step ab call c)) = Some t"
proof -
  obtain m where m: "m < 2 ^ 32 - 1" "registry_inv m (capi_results c)"
    using assms(1,2) unfolding capi_inv_def by (meson le_less_trans)
  have t: "fst (result_json h (capi_results c)) = Some t" using assms(4) by (simp add: ilic_result_json_def)
  have store: "fst (result_json h (snd (storeJson x (capi_results c)))) = Some t" for x
  proof -
    let ?p = "storeJson x (capi_results c)"
    have "fst (result_json (fst ?p) (capi_results c)) = None"
      using result_table.inserted_fresh [OF m(2,1) surjective_pairing, of x] by blast
    then have "h \<noteq> fst ?p" using t by auto
    then show ?thesis using result_table.find_other [OF surjective_pairing, of h x "capi_results c"] t by simp
  qed
  have destroy: "fst (result_json h (result_destroy g (capi_results c))) = Some t" if "g \<noteq> h" for g
    using result_table.find_deleted [of h g "capi_results c"] t that by simp
  show ?thesis
    using capi_step_effect(1) [of ab call c] assms(3) t store destroy
    unfolding results_effect_def ilic_result_json_def by auto blast
qed

lemma session_kept:
  assumes "capi_inv ab n c" and "n < 2 ^ 32 - 1" and "target call \<noteq> Some h"
    and "registry_get h (capi_sessions c) = Some s"
  shows "registry_get h (capi_sessions (capi_step ab call c)) = Some s"
proof -
  obtain m where m: "m < 2 ^ 32 - 1" "registry_inv m (capi_sessions c)"
    using assms(1,2) unfolding capi_inv_def by (meson le_less_trans)
  let ?p = "registry_create CompilerSession (capi_sessions c)"
  have "registry_get (fst ?p) (capi_sessions c) = None"
    using session_table.inserted_fresh [OF m(2,1) surjective_pairing, of CompilerSession] by blast
  then have "h \<noteq> fst ?p" using assms(4) by auto
  then have "registry_get h (snd ?p) = Some s"
    using session_table.find_other [OF surjective_pairing, of h CompilerSession "capi_sessions c"] assms(4) by simp
  moreover have "registry_get h (registry_destroy g (capi_sessions c)) = Some s" if "g \<noteq> h" for g
    using session_table.find_deleted [of h g "capi_sessions c"] assms(4) that by simp
  moreover have "registry_get h ((capi_sessions c)\<lparr>rg_values := assign g s' (rg_values (capi_sessions c))\<rparr>) = Some s"
    if "g \<noteq> h" for g s' using that assms(4) by (simp add: registry_get_def)
  ultimately show ?thesis
    using capi_step_effect(2) [of ab call c] assms(3,4) unfolding sessions_effect_def by (cases call) auto
qed

lemma results_kept:
  "capi_inv ab n c \<Longrightarrow> n + length calls < 2 ^ 32 \<Longrightarrow> ResultDestroy h \<notin> set calls
    \<Longrightarrow> fst (ilic_result_json h c) = Some t \<Longrightarrow> fst (ilic_result_json h (capi_run ab calls c)) = Some t"
proof (induction calls arbitrary: n c)
  case (Cons call calls)
  have "fst (ilic_result_json h (capi_step ab call c)) = Some t"
    using result_kept [OF Cons.prems(1)] Cons.prems by auto
  then show ?case using Cons.IH [OF capi_step_inv [OF Cons.prems(1)]] Cons.prems by (simp add: capi_run_Cons)
qed (simp add: capi_run_def)

lemma sessions_kept:
  "capi_inv ab n c \<Longrightarrow> n + length calls < 2 ^ 32 \<Longrightarrow> Some h \<notin> target ` set calls
    \<Longrightarrow> registry_get h (capi_sessions c) = Some s \<Longrightarrow> registry_get h (capi_sessions (capi_run ab calls c)) = Some s"
proof (induction calls arbitrary: n c)
  case (Cons call calls)
  have "registry_get h (capi_sessions (capi_step ab call c)) = Some s"
    using session_kept [OF Cons.prems(1)] Cons.prems by auto
  then show ?case using Cons.IH [OF capi_step_inv [OF Cons.prems(1)]] Cons.prems by (simp add: capi_run_Cons)
qed (simp add: capi_run_def)

subsection \<open>The contract of the interface\<close>

text \<open>C5. Safety of the C interface: after any sequence of calls with any arguments, every session behind a handle
  is one that the session's own operations produce, so both of its caches pass their consistency checks, and
  every text that a result handle gives is the printed form of a value whose objects, at every depth, have
  distinct ordered keys; its length is reported with it.\<close>

theorem capi_always_consistent:
  "(\<forall>h s. registry_get h (capi_sessions (capi_run ab calls initial_capi)) = Some s \<longrightarrow>
      session_reach (ab_services ab) default_parsed_options default_root_options s
      \<and> snap_parserInvariants (incrementalCacheSnapshot s) \<and> snap_rootInvariants (incrementalCacheSnapshot s))
   \<and> (\<forall>h t n. ilic_result_json h (capi_run ab calls initial_capi) = (Some t, n) \<longrightarrow>
        n = length t \<and> (\<exists>v. json_wf v \<and> t = stringify (ab_numbers ab) v))"
proof -
  have "snap_parserInvariants (incrementalCacheSnapshot s) \<and> snap_rootInvariants (incrementalCacheSnapshot s)"
    if "session_reach (ab_services ab) default_parsed_options default_root_options s" for s
  proof -
    note d = session_invD [OF session_reach_inv [OF that]]
    show ?thesis using parsed_invD [OF d(2)] root_invD [OF d(3)]
      by (simp add: incrementalCacheSnapshot_def Let_def parsed_checkInvariants_def root_checkInvariants_def)
  qed
  moreover have "n = length t \<and> (\<exists>v. json_wf v \<and> t = stringify (ab_numbers ab) v)"
    if "ilic_result_json h (capi_run ab calls initial_capi) = (Some t, n)" for h t n
    using that reached_inv [of ab calls] unfolding capi_inv_def printed_values_def
    by (auto simp: ilic_result_json_def result_json_def split: option.splits dest: map_of_SomeD)
  ultimately show ?thesis using reached_session by blast
qed

definition example_abi :: "int abi" where
  "example_abi = \<lparr>ab_numbers = example_format, ab_services = example_services, ab_recognise = (\<lambda>_. Inr [])\<rparr>"

lemma created_session: "registry_get 1 (capi_sessions (capi_run ab [SessionCreate] initial_capi)) = Some CompilerSession"
  by (simp add: capi_run_def initial_capi_def empty_registry_def ilic_session_create_def registry_create_def
      registry_get_def Let_def)

lemma refused_compile:
  "capi_run ab [Compile 7 (NullBuffer 3)] initial_capi
     = initial_capi\<lparr>capi_results := \<lparr>rg_values = [(1, stringify (ab_numbers ab)
         (abi_error ab ''compilation'' ''invalid session handle''))], rg_next = 2\<rparr>\<rparr>"
  by (simp add: capi_run_def initial_capi_def empty_registry_def ilic_compile_def serve_request_def registry_get_def
      store_value_def store_def storeJson_def Let_def)

theorem capi_always_consistent_witness:
  "snap_rootInvariants (incrementalCacheSnapshot CompilerSession)
   \<and> (\<exists>v. json_wf v \<and> stringify example_format (abi_error example_abi ''compilation'' ''invalid session handle'')
        = stringify example_format v)"
proof -
  let ?t = "stringify example_format (abi_error example_abi ''compilation'' ''invalid session handle'')"
  have "ilic_result_json 1 (capi_run example_abi [Compile 7 (NullBuffer 3)] initial_capi) = (Some ?t, length ?t)"
    by (simp add: refused_compile ilic_result_json_def result_json_def) (simp add: example_abi_def)
  moreover have "ab_numbers example_abi = example_format" by (simp add: example_abi_def)
  ultimately show ?thesis
    using capi_always_consistent [of example_abi "[SessionCreate]"] created_session [of example_abi]
      capi_always_consistent [of example_abi "[Compile 7 (NullBuffer 3)]"] by metis
qed



text \<open>C24. Codes of putting a source, in every state that calls reach: the code is -1 exactly for an unknown
  handle, a null URI or null bytes of non-zero length, and then nothing changes; -2 never occurs; with 0 the
  session now holds exactly the given bytes under the URI; with -3 its sources are as before. No other session
  and no result changes.\<close>

theorem put_source_codes:
  fixes ab calls
  defines "c \<equiv> capi_run ab calls initial_capi"
  assumes "ilic_session_put_source ab h uri utf8 version c = (code, c')"
  shows "(code = - 1 \<longleftrightarrow> registry_get h (capi_sessions c) = None \<or> (\<exists>n. uri = NullBuffer n) \<or> source_bytes utf8 = None)
    \<and> (code = - 1 \<longrightarrow> c' = c) \<and> code \<in> {0, - 1, - 3}
    \<and> (code = 0 \<longrightarrow> (\<exists>u s' b. uri = Bytes u \<and> registry_get h (capi_sessions c') = Some s'
          \<and> SourceManager_get (ses_sources s') u = Some b \<and> source_bytes utf8 = Some (sb_text b)))
    \<and> (code = - 3 \<longrightarrow> map_option ses_sources (registry_get h (capi_sessions c'))
          = map_option ses_sources (registry_get h (capi_sessions c)))
    \<and> (\<forall>g. g \<noteq> h \<longrightarrow> registry_get g (capi_sessions c') = registry_get g (capi_sessions c))
    \<and> capi_results c' = capi_results c"
proof (cases "registry_get h (capi_sessions c) = None \<or> (\<exists>n. uri = NullBuffer n) \<or> source_bytes utf8 = None")
  case True
  then have "(code, c') = (- 1, c)"
    using assms(2) by (auto simp: ilic_session_put_source_def split: option.splits c_buffer.splits)
  then show ?thesis using True by simp
next
  case False
  then obtain s u t where put: "registry_get h (capi_sessions c) = Some s" "uri = Bytes u" "source_bytes utf8 = Some t"
    by (cases uri) auto
  have inv: "session_inv (ab_services ab) s" using reached_session put(1) session_reach_inv unfolding c_def by blast
  obtain r s' where up: "updateSource (ab_services ab) u t version s = Some (r, s')"
    using coordinator_update_total [OF inv] by (metis updateSource_def)
  note src = session_invD(1) [OF inv] updateSource_sources [OF up]
  have c': "c' = set_session h s' c" and code: "code = (if ur_accepted r then 0 else - 3)"
    using assms(2) put up by (auto simp: ilic_session_put_source_def)
  have "registry_get h (capi_sessions c') = Some s'" by (simp add: c' registry_get_def)
  then show ?thesis
    using False code put update_accepted_text [OF src] update_rejected_same [OF src]
    by (auto simp: c' registry_get_def)
qed

theorem put_source_codes_witness:
  "fst (ilic_session_put_source example_abi 9 (Bytes ''u'') (Bytes ''x'') 1 initial_capi) = - 1"
proof -
  have "capi_run example_abi [] initial_capi = initial_capi" by (simp add: capi_run_def)
  moreover have "registry_get 9 (capi_sessions initial_capi) = None"
    by (simp add: initial_capi_def empty_registry_def registry_get_def)
  ultimately show ?thesis
    using put_source_codes [of example_abi 9 "Bytes ''u''" "Bytes ''x''" 1 "[]", OF surjective_pairing] by simp
qed

text \<open>An object literal looks up its first entry for a key.\<close>

lemma fold_put_absent_lookup: "map_of (fold put_absent es m) = map_of es ++ map_of m"
proof (induction es arbitrary: m)
  case (Cons e es)
  have "map_of (put_absent e m) = [fst e \<mapsto> snd e] ++ map_of m"
    by (auto simp: put_absent_def fun_eq_iff map_add_def split: option.splits)
  then show ?case using Cons by (cases e) (auto simp: fun_eq_iff map_add_def split: option.splits)
qed simp

lemma json_members_lookup: "map_of (json_members es) = map_of es"
  by (simp add: json_members_def fold_put_absent_lookup)

lemma lookup_fold_assign: "map_of (fold (\<lambda>(k, v). assign k v) es m) = map_of m ++ map_of (rev es)"
  by (induction es arbitrary: m) (auto simp: fun_eq_iff map_add_def split: option.splits)

lemma numbers_assign: "json_numbers (JObject (assign k v m)) \<subseteq> json_numbers v \<union> json_numbers (JObject m)"
  using set_assign_subset [of k v m] by auto

lemma numbers_Cons: "json_numbers (JObject (e # es)) = json_numbers (snd e) \<union> json_numbers (JObject es)"
  by (cases e) simp

lemma numbers_fold:
  assumes "\<And>e m. json_numbers (JObject (f e m)) \<subseteq> json_numbers (snd e) \<union> json_numbers (JObject m)"
  shows "json_numbers (JObject (fold f es m)) \<subseteq> json_numbers (JObject es) \<union> json_numbers (JObject m)"
proof (induction es arbitrary: m)
  case (Cons e es)
  have "json_numbers (JObject (fold f (e # es) m)) = json_numbers (JObject (fold f es (f e m)))" by simp
  then show ?case using Cons.IH [of "f e m"] assms [of e m] unfolding numbers_Cons by blast
qed simp

lemma numbers_fold_assign:
  "json_numbers (JObject (fold (\<lambda>(k, v). assign k v) es m)) \<subseteq> json_numbers (JObject es) \<union> json_numbers (JObject m)"
proof (rule numbers_fold)
  show "json_numbers (JObject ((\<lambda>(k, v). assign k v) e m)) \<subseteq> json_numbers (snd e) \<union> json_numbers (JObject m)"
    for e and m :: "(string, 'a Value) omap" unfolding split_beta by (rule numbers_assign)
qed

lemma numbers_members: "json_numbers (JObject (json_members es)) \<subseteq> json_numbers (JObject es)"
proof -
  have "json_numbers (JObject (put_absent e m)) \<subseteq> json_numbers (snd e) \<union> json_numbers (JObject m)"
    for e and m :: "(string, 'a Value) omap" unfolding put_absent_def using numbers_assign by (metis Un_upper2)
  then have "json_numbers (JObject (fold put_absent es [])) \<subseteq> json_numbers (JObject es) \<union> json_numbers (JObject [])"
    by (rule numbers_fold)
  then show ?thesis by (simp add: json_members_def)
qed

lemma error_keys:
  "''success'' \<notin> fst ` set (error_members nf kind uri docVersion)"
  "''kind'' \<notin> fst ` set (error_members nf kind uri docVersion)"
  "''schemaVersion'' \<notin> fst ` set (error_members nf kind uri docVersion)"
  "''diagnostics'' \<notin> fst ` set (error_members nf kind uri docVersion)"
  unfolding error_members_def by (cases "kind = ''formatting''"; simp)+

lemma error_numbers:
  "json_numbers (errorResult nf version kind message uri docVersion) \<subseteq> nf_of_int nf ` {0, 1, uint docVersion}"
proof -
  have req: "json_numbers (request_error message :: 'a Value) = {}"
    using numbers_members [of "[(''severity'', JString ''error''), (''code'', JString ''ILIC-ABI-REQUEST''),
     (''message'', JString message), (''range'', JNull), (''relatedInformation'', JArray []), (''notes'', JArray []),
     (''treatedAsError'', JBool False)] :: (string \<times> 'a Value) list"]
    by (simp add: request_error_def json_object_def del: json_numbers.simps(3)) simp
  have empty: "json_numbers (json_object [(x, JArray []), (y, JArray [])] :: 'a Value) = {}"
    "json_numbers (json_object [(x, JString s), (y, JArray [])] :: 'a Value) = {}" for x y s
    using numbers_members [of "[(x, JArray []), (y, JArray [])] :: (string \<times> 'a Value) list"]
      numbers_members [of "[(x, JString s), (y, JArray [])] :: (string \<times> 'a Value) list"]
    by (simp_all add: json_object_def del: json_numbers.simps(3)) simp_all
  have "json_numbers (JObject (error_members nf kind uri docVersion)) \<subseteq> nf_of_int nf ` {0, 1, uint docVersion}"
    unfolding error_members_def by (cases "kind = ''formatting''") (simp_all add: json_u64_def json_int_def empty)
  moreover have "json_numbers (JObject (result_head nf version kind @
      [(''success'', JBool False), (''diagnostics'', JArray [request_error message])])) \<subseteq> nf_of_int nf ` {0, 1, uint docVersion}"
    by (simp add: result_head_def json_int_def req)
  ultimately show ?thesis
    unfolding errorResult_def using numbers_fold_assign numbers_members by (meson Un_least order_trans)
qed

text \<open>Error results read back: for every kind of result, message and URI, and versions up to \<open>2 ^ 53\<close>, the
  text of an error result parses, gives back the very value, and its members name the kind and the failure,
  under the schema and interface version 1; the conversion of numbers has to be exact on the integers that
  double represents exactly.\<close>

lemma error_result_reads_back:
  assumes "exact_integers nf" and "docVersion \<le> 2 ^ 53"
  shows "\<exists>m. json_parse nf (stringify nf (errorResult nf version kind message uri docVersion)) = Some (Inr (JObject m))
    \<and> errorResult nf version kind message uri docVersion = JObject m
    \<and> map_of m ''success'' = Some (JBool False) \<and> map_of m ''kind'' = Some (JString kind)
    \<and> map_of m ''schemaVersion'' = Some (JNumber (nf_of_int nf 1))
    \<and> map_of m ''diagnostics'' = Some (JArray [request_error message])"
proof -
  let ?v = "errorResult nf version kind message uri docVersion"
  let ?base = "result_head nf version kind @ [(''success'', JBool False), (''diagnostics'', JArray [request_error message])]"
  define m where "m = fold (\<lambda>(k, v). assign k v) (error_members nf kind uri docVersion) (json_members ?base)"
  have v: "?v = JObject m" by (simp add: errorResult_def m_def)
  have keep: "map_of m k = map_of ?base k" if "k \<notin> fst ` set (error_members nf kind uri docVersion)" for k
    using that by (simp add: m_def lookup_fold_assign json_members_lookup map_add_def map_of_eq_None_iff [THEN iffD2])
  have "json_numbers ?v \<subseteq> nf_of_int nf ` {i. \<bar>i\<bar> \<le> 2 ^ 53}"
    using assms(2) error_numbers [of nf version kind message uri docVersion] by (auto simp: word_le_def)
  then have "json_parse nf (stringify nf ?v) = Some (Inr ?v)"
    using wf_printed_parses [OF assms(1) errorResult_wf] by blast
  moreover have "map_of m ''success'' = Some (JBool False)" "map_of m ''kind'' = Some (JString kind)"
    "map_of m ''schemaVersion'' = Some (JNumber (nf_of_int nf 1))"
    "map_of m ''diagnostics'' = Some (JArray [request_error message])"
    by (simp_all add: keep error_keys) (simp_all add: result_head_def json_int_def)
  ultimately show ?thesis using v by auto
qed

lemma error_result_reads_back_witness:
  "\<exists>m. json_parse example_format (stringify example_format (errorResult example_format ''1'' ''syntax'' ''no'' ''u'' 3))
     = Some (Inr (JObject m)) \<and> map_of m ''kind'' = Some (JString ''syntax'')"
proof -
  have "(3 :: u64) \<le> 2 ^ 53" by simp
  from error_result_reads_back [OF example_format_exact this, of "''1''" "''syntax''" "''no''" "''u''"] show ?thesis by blast
qed

end
