(* ===== verification/Spec2Isabelle.thy ===== *)
theory Spec2Isabelle
  imports Session_Snapshots Diagnostic_Pipeline Repository_Manager Capi
begin

text \<open>
  Verification of the core of ilic, a compiler for the data modelling language INTERLIS written
  in C++. Paths below are relative to the directory src of the repository.

  \<^bold>\<open>The program.\<close> A compiler session (source/core/Compiler.cpp) keeps the sources an editor or a
  command line program hands it, parses them on demand, compiles root models and answers with
  snapshots and diagnostics. It avoids repeated work with two caches: parses by source identity and
  whole analyses by the identities of everything they read. Two indexes, of declared and required
  models and of dependencies between sources, say which analyses an edit invalidates. Diagnostics go
  through a catalog of codes, a builder and a pipeline that normalises, sorts and thins them out.
  Models that are not in the session come from model repositories: a crawler searches indexes and
  site links, a loader fetches files through a cache and checks their checksums, and a manager
  resolves a model with everything it depends on. Editors reach all of this through a C interface that
  exchanges JSON text and handles.

  \<^bold>\<open>Shared theories.\<close> Ilic_Prelude has the collections of simplification rules, ordered association
  lists for std::map, saturating counters and stable sorting; Ilic_Text has decimal and
  hexadecimal text, the FNV hash, the C character classes and searching and splitting of strings.
  A std::string is a list of bytes, compared as bytes; std::size_t is a natural number where the
  code only counts what is in memory, and 64-bit counters that outlive their data are words.

  \<^bold>\<open>Sources.\<close> Source_Manager models SourceManager.cpp: records for buffers, identities and the three
  maps, one function per member, with \<open>None\<close> for the exception of at(). Its lemmas classify updates
  and show that visible versions never go back and that a revision is never reused for other
  bytes. Source_Range_Mapper models UTF-8 decoding and the position table of SourceRangeMapper.cpp
  and shows that it is the decoding walk. Compilation_Source_Store models the sources of one
  compilation and shows that its second way to count positions agrees with the table.

  \<^bold>\<open>Caches and indexes.\<close> Snapshot_Types and Memory_Estimator hold the records of snapshots and results and
  the byte estimates the budgets use. Lru_Cache is the interface of a cache that accounts for the
  bytes of its entries and evicts the least recently used one, as a locale;
  Parsed_Source_Cache and Root_Analysis_Cache are the two caches under source/core/incremental and
  interpret it. Their lemmas show that a hit is what building now would give, that eviction ends
  within the budgets and takes the least recently used entry, that invalidation is exact and that
  the accounting always passes the checks the code makes. Source_Model_Index and Source_Dependency_Index
  show that the reverse maps list exactly what the forward maps say and that the traversal of
  dependencies is reachability. Source_Impact models the impact of an update, Compilation_Keys the
  keys of requests and roots, with the injectivity that the root cache needs.

  \<^bold>\<open>Session.\<close> Compiler_Session composes these parts the way SourceUpdateCoordinator.cpp,
  SnapshotService.cpp, CompilationOrchestrator.cpp and Compiler.cpp do; Session_Correctness
  shows by induction over all operations that the parts agree in every reachable session, that
  snapshots are those of the current bytes and that no cached result survives an edit of a source it
  depends on.

  \<^bold>\<open>Snapshots.\<close> Parser_Messages models how messages of the parser runtime become codes and texts,
  Parser_Tokens the diagnostics of lexer and parser errors, their order, and the token stream that completes bare
  model headers (SnapshotParserSupport.h), Language_Detector the choice of the grammar. Snapshot_Projection turns parse trees
  into the nodes of a syntax snapshot and the declarations, references and imports of an editor
  snapshot, as SyntaxSnapshotProjector.h and EditorSnapshotProjector.h do; the locale \<open>editor_traversal\<close> is what the
  traversals keep. Snapshot_Factory puts them together (ParsedSourceArtifactFactory.cpp, SnapshotPipeline.cpp),
  exceptions of the parser included. Shown: nodes are the tree in preorder, editor snapshots are
  well-formed for every tree, recovery equals one pass over the tokens, every build returns
  consistent snapshots. Session_Snapshots connects the session with this pipeline: its answers are those of
  a fresh parse.

  \<^bold>\<open>Formatter.\<close> Formatter models core/Formatter.cpp: decoding, the check of the syntax, and the layout line
  by line. Formatting keeps everything but white space and is idempotent on sources without ambiguous meta
  attributes.

  \<^bold>\<open>C interface.\<close> Json models the value type, parser and printer of source/abi/Json.cpp, with numbers and
  their conversions as an argument; the parser is total and reads back what the printer prints. Capi_Registries
  has the handle tables and their contract, the locale \<open>handle_table\<close>, Capi_Projectors the projections of all
  results and the decoder of requests, Capi the exported functions. For every sequence of calls the
  sessions behind the handles satisfy the invariants of a session, results are well-formed and stay
  readable until they are destroyed, and the decoder accepts exactly the documented requests.

  \<^bold>\<open>Diagnostics.\<close> Diagnostic_Types, Diagnostic_Code, Diagnostic_Catalog and Diagnostic_Pipeline model the files of
  source/diagnostics and util/DiagnosticCode.cpp: the table of codes is a bijection, the builder
  rejects exactly incomplete candidates, publication gives normalised, sorted, different
  diagnostics, is idempotent and loses only duplicates and cascades, and resolved ranges are
  ordered and inside the text.

  \<^bold>\<open>Repositories.\<close> Repository_Types, Repository_Uri, Repository_Version, Repository_Loader, Repository_Crawler and
  Repository_Manager model the files of source/repository with the same names. Validated paths
  stay inside ordinary repositories; the version chosen ends a chain of precursors; a loaded
  model has the expected checksum; searches and resolutions of finite site graphs end, cycles
  included; a successful resolution provides every requested model after its
  dependencies. Two locales carry the crawler: \<open>crawl_invariant\<close> for what every step of a search keeps and
  \<open>memo_backend\<close> for a backend that remembers its answers, which the manager is.

  \<^bold>\<open>Arguments of the model.\<close> Code outside the model is an argument: the generated lexers and parsers are
  the functions of a record \<open>recogniser\<close> that may throw, the run that
  compiles a request and the builder of semantic snapshots are functions of the session, the
  conversions of double are a record, sizes and
  capacities of C++ objects a layout, build macros a record, the working directory a string, and the
  injected ports of the repository manager (transport, cache, clock, checksum, decoder, files)
  functions on a world of their own.

  \<^bold>\<open>Bounds and loops.\<close> Loops over lists are structural; traversals of indexes and chains have a measure.
  The two queue loops of the crawler follow data of foreign servers and are partial functions with
  \<open>None\<close> for a search without end; the recursion over dependencies takes its depth as fuel. For finitely many linked
  repositories and models both are shown to give a result, and a depth of the number of models is
  enough because the names on the stack differ.

  \<^bold>\<open>Not modelled.\<close> Generated parsers and the visitors over their trees, the metamodel with its checkers and
  the output writers; threads and locks, since every public operation of a session and of the handle tables
  holds its lock; the curl transport, the XML decoder, the file cache and the MD5 routine behind the
  ports; the command line programs. The components of the metamodel enter through the arguments
  above.
\<close>

end
